(* ===== verification/Py_Values.thy ===== *)
theory Py_Values
  imports Prelude
begin

text \<open>
  The Python values the program computes with. A \<open>str\<close> is the list of its code
  points, so that \<open>len\<close>, slicing and \<open>isascii\<close> count what Python counts; a JSON
  document is a value of \<open>json\<close>, with an object as its items in insertion order;
  \<open>str\<close> and \<open>repr\<close> of such a value are written out. Two things are left as they
  are observed rather than computed: which non-ASCII code points print as themselves is the
  Unicode table's, an argument \<open>prn\<close> of the definitions that need it, and a
  floating-point number inside a document is carried as what the program reads of it, its
  \<open>repr\<close>, its truncation and whether it is zero.
  Instants and durations are integers, in microseconds.
\<close>

section \<open>Strings\<close>

type_synonym pystr = "nat list"

definition py :: "string \<Rightarrow> pystr" where
  "py s = map of_char s"

lemma py_inj [simp]: "py s = py t \<longleftrightarrow> s = t"
  by (simp add: py_def inj_def inj_map_eq_map)

lemma py_Nil [simp]: "py [] = []"
  by (simp add: py_def)

lemma py_eq_Nil [simp]: "py s = [] \<longleftrightarrow> s = []"
  by (simp add: py_def)

lemma length_py [simp]: "length (py s) = length s"
  by (simp add: py_def)

text \<open>The code points \<open>str.strip\<close> takes for white space.\<close>

definition is_space :: "nat \<Rightarrow> bool" where
  "is_space c \<longleftrightarrow> (9 \<le> c \<and> c \<le> 13) \<or> (28 \<le> c \<and> c \<le> 32) \<or> c = 133 \<or> c = 160 \<or> c = 5760 \<or>
     (8192 \<le> c \<and> c \<le> 8202) \<or> c = 8232 \<or> c = 8233 \<or> c = 8239 \<or> c = 8287 \<or> c = 12288"

lemma is_space_code [code]:
  "is_space c = (if c < 128 then (9 \<le> c \<and> c \<le> 13) \<or> (28 \<le> c \<and> c \<le> 32)
     else c \<in> {133, 160, 5760} \<or> (8192 \<le> c \<and> c \<le> 8202) \<or> c \<in> {8232, 8233, 8239, 8287, 12288})"
  by (auto simp: is_space_def)

definition py_strip :: "pystr \<Rightarrow> pystr" where
  "py_strip s = rev (dropWhile is_space (rev (dropWhile is_space s)))"

lemma py_strip_eq_Nil: "py_strip s = [] \<longleftrightarrow> (\<forall>c \<in> set s. is_space c)"
proof
  assume "py_strip s = []"
  then have "\<forall>c \<in> set (dropWhile is_space s). is_space c"
    by (auto simp: py_strip_def dropWhile_eq_Nil_conv)
  then have "dropWhile is_space s = []"
    by (metis hd_dropWhile hd_in_set)
  then show "\<forall>c \<in> set s. is_space c"
    by (simp add: dropWhile_eq_Nil_conv)
next
  assume all: "\<forall>c \<in> set s. is_space c"
  have "dropWhile is_space s = []"
    using all by (simp only: dropWhile_eq_Nil_conv)
  then show "py_strip s = []"
    unfolding py_strip_def by (simp only: dropWhile.simps rev.simps)
qed

fun py_join :: "pystr \<Rightarrow> pystr list \<Rightarrow> pystr" where
  "py_join sep [] = []"
| "py_join sep [x] = x"
| "py_join sep (x # y # ys) = x @ sep @ py_join sep (y # ys)"

fun py_digits :: "nat \<Rightarrow> pystr" where
  "py_digits n = (if n < 10 then [48 + n] else py_digits (n div 10) @ [48 + n mod 10])"

declare py_digits.simps [simp del]

definition py_int :: "int \<Rightarrow> pystr" where
  "py_int i = (if i < 0 then 45 # py_digits (nat (- i)) else py_digits (nat i))"

lemma py_digits_not_Nil [simp]: "py_digits n \<noteq> []"
  by (subst py_digits.simps) simp

section \<open>JSON documents\<close>

record pyfloat =
  fl_repr :: pystr
  fl_trunc :: "int option"
  fl_zero :: bool

datatype json =
    JNull
  | JBool bool
  | JInt int
  | JFloat pyfloat
  | JStr pystr
  | JList "json list"
  | JDict "(pystr \<times> json) list"

type_synonym jobject = "(pystr \<times> json) list"

abbreviation jget :: "jobject \<Rightarrow> pystr \<Rightarrow> json option" where
  "jget d k \<equiv> map_of d k"

text \<open>\<open>d.get(k, default)\<close>.\<close>

definition jget_or :: "jobject \<Rightarrow> pystr \<Rightarrow> json \<Rightarrow> json" where
  "jget_or d k v = (case map_of d k of None \<Rightarrow> v | Some w \<Rightarrow> w)"

text \<open>Truth value testing.\<close>

fun py_bool :: "json \<Rightarrow> bool" where
  "py_bool JNull = False"
| "py_bool (JBool b) = b"
| "py_bool (JInt i) = (i \<noteq> 0)"
| "py_bool (JFloat f) = (\<not> fl_zero f)"
| "py_bool (JStr s) = (s \<noteq> [])"
| "py_bool (JList xs) = (xs \<noteq> [])"
| "py_bool (JDict d) = (d \<noteq> [])"

subsection \<open>repr and str\<close>

definition hex_digit :: "nat \<Rightarrow> nat" where
  "hex_digit n = (if n < 10 then 48 + n else 87 + n)"

definition hex_value :: "nat \<Rightarrow> nat option" where
  "hex_value c =
     (if 48 \<le> c \<and> c \<le> 57 then Some (c - 48)
      else if 97 \<le> c \<and> c \<le> 102 then Some (c - 87)
      else if 65 \<le> c \<and> c \<le> 70 then Some (c - 55)
      else None)"

lemma hex_value_digit: "n < 16 \<Longrightarrow> hex_value (hex_digit n) = Some n"
  by (auto simp: hex_value_def hex_digit_def)

fun hex_pad :: "nat \<Rightarrow> nat \<Rightarrow> pystr" where
  "hex_pad 0 n = []"
| "hex_pad (Suc k) n = hex_pad k (n div 16) @ [hex_digit (n mod 16)]"

definition repr_char :: "(nat \<Rightarrow> bool) \<Rightarrow> nat \<Rightarrow> nat \<Rightarrow> pystr" where
  "repr_char prn quote c =
     (if c = quote \<or> c = 92 then [92, c]
      else if c = 9 then 92 # py ''t''
      else if c = 10 then 92 # py ''n''
      else if c = 13 then 92 # py ''r''
      else if c < 32 \<or> c = 127 then 92 # py ''x'' @ hex_pad 2 c
      else if c < 127 \<or> prn c then [c]
      else if c \<le> 255 then 92 # py ''x'' @ hex_pad 2 c
      else if c \<le> 65535 then 92 # py ''u'' @ hex_pad 4 c
      else 92 # py ''U'' @ hex_pad 8 c)"

definition repr_str :: "(nat \<Rightarrow> bool) \<Rightarrow> pystr \<Rightarrow> pystr" where
  "repr_str prn s =
     (let quote = (if 39 \<in> set s \<and> 34 \<notin> set s then 34 else 39)
      in quote # concat (map (repr_char prn quote) s) @ [quote])"

fun py_repr :: "(nat \<Rightarrow> bool) \<Rightarrow> json \<Rightarrow> pystr" where
  "py_repr prn JNull = py ''None''"
| "py_repr prn (JBool b) = (if b then py ''True'' else py ''False'')"
| "py_repr prn (JInt i) = py_int i"
| "py_repr prn (JFloat f) = fl_repr f"
| "py_repr prn (JStr s) = repr_str prn s"
| "py_repr prn (JList xs) = py ''['' @ py_join (py '', '') (map (py_repr prn) xs) @ py '']''"
| "py_repr prn (JDict d) =
     py ''{'' @ py_join (py '', '') (map (\<lambda>(k, v). repr_str prn k @ py '': '' @ py_repr prn v) d)
       @ py ''}''"

definition py_str :: "(nat \<Rightarrow> bool) \<Rightarrow> json \<Rightarrow> pystr" where
  "py_str prn v = (case v of JStr s \<Rightarrow> s | _ \<Rightarrow> py_repr prn v)"

lemma py_str_JStr [simp]: "py_str prn (JStr s) = s"
  by (simp add: py_str_def)

subsection \<open>int\<close>

datatype py_error = ValueError | TypeError | OverflowError | KeyError | AttributeError

text \<open>
  \<open>int(s)\<close> of a string: white space stripped, a sign, digits with single
  underscores between them. Only the ASCII digits are known here.
\<close>

fun int_digits :: "nat \<Rightarrow> bool \<Rightarrow> pystr \<Rightarrow> nat option" where
  "int_digits acc after_digit [] = (if after_digit then Some acc else None)"
| "int_digits acc after_digit (c # cs) =
     (if 48 \<le> c \<and> c \<le> 57 then int_digits (10 * acc + (c - 48)) True cs
      else if c = 95 \<and> after_digit then int_digits acc False cs
      else None)"

definition int_of_str :: "pystr \<Rightarrow> (py_error, int) result" where
  "int_of_str s =
     (case py_strip s of
        [] \<Rightarrow> Inl ValueError
      | c # cs \<Rightarrow>
          (case int_digits 0 False (if c = 43 \<or> c = 45 then cs else c # cs) of
             None \<Rightarrow> Inl ValueError
           | Some n \<Rightarrow> Inr (if c = 45 then - int n else int n)))"

fun py_int_of :: "json \<Rightarrow> (py_error, int) result" where
  "py_int_of (JBool b) = Inr (if b then 1 else 0)"
| "py_int_of (JInt i) = Inr i"
| "py_int_of (JFloat f) = (case fl_trunc f of None \<Rightarrow> Inl OverflowError | Some i \<Rightarrow> Inr i)"
| "py_int_of (JStr s) = int_of_str s"
| "py_int_of _ = Inl TypeError"

section \<open>Floating point\<close>

text \<open>
  A double the planner multiplies by is \<open>Dbl n k\<close>, the number \<open>n / 2 ^ k\<close>. The
  product with an integer below \<open>2 ^ 53\<close> is the exact product rounded to 53 significant
  bits, to nearest with ties to even.
\<close>

datatype dbl = Dbl int nat

function bit_len :: "int \<Rightarrow> nat" where
  "bit_len n = (if n \<le> 0 then 0 else Suc (bit_len (n div 2)))"
  by pat_completeness auto
termination
  by (relation "measure nat") auto

declare bit_len.simps [simp del]

definition round_even :: "int \<Rightarrow> int \<Rightarrow> int" where
  "round_even n d =
     (let q = n div d; r = n mod d
      in if 2 * r < d then q else if d < 2 * r then q + 1 else if even q then q else q + 1)"

definition round53 :: "int \<Rightarrow> int" where
  "round53 n = (let s = bit_len n - 53 in round_even n (2 ^ s) * 2 ^ s)"

definition dbl_mult :: "int \<Rightarrow> dbl \<Rightarrow> dbl" where
  "dbl_mult x d =
     (case d of Dbl n k \<Rightarrow> Dbl (sgn (x * n) * round53 \<bar>x * n\<bar>) k)"

text \<open>\<open>math.ceil\<close>, and the comparison of an integer with a double, which is exact.\<close>

definition dbl_ceil :: "dbl \<Rightarrow> int" where
  "dbl_ceil d = (case d of Dbl n k \<Rightarrow> - ((- n) div 2 ^ k))"

definition int_less_dbl :: "int \<Rightarrow> dbl \<Rightarrow> bool" where
  "int_less_dbl x d = (case d of Dbl n k \<Rightarrow> x * 2 ^ k < n)"

definition dbl_of_int :: "int \<Rightarrow> dbl" where
  "dbl_of_int x = Dbl x 0"

text \<open>\<open>min(a, b)\<close> with a double first: the second only when it is smaller.\<close>

definition dbl_min_int :: "dbl \<Rightarrow> int \<Rightarrow> dbl" where
  "dbl_min_int d x = (if int_less_dbl x d then dbl_of_int x else d)"

section \<open>Time\<close>

type_synonym datetime = int
type_synonym timedelta = int

definition timedelta_seconds :: "int \<Rightarrow> timedelta" where
  "timedelta_seconds s = s * 1000000"

text \<open>\<open>int(d.total_seconds())\<close>: towards zero.\<close>

definition total_seconds_int :: "timedelta \<Rightarrow> int" where
  "total_seconds_int d = sgn d * (\<bar>d\<bar> div 1000000)"

lemma total_seconds_int_pos: "0 < total_seconds_int d \<longleftrightarrow> 1000000 \<le> d"
proof (cases "0 \<le> d")
  case True
  then show ?thesis
    by (cases "d = 0") (auto simp: total_seconds_int_def pos_imp_zdiv_pos_iff)
next
  case False
  then have "sgn d = -1" and "0 \<le> \<bar>d\<bar> div 1000000"
    by (auto simp: pos_imp_zdiv_nonneg_iff)
  with False show ?thesis
    by (simp add: total_seconds_int_def)
qed

end
