(* ===== verification/Run_Models.thy ===== *)
theory Run_Models
  imports Py_Values
begin

text \<open>
  The data of \<^verbatim>\<open>runs/domain/models.py\<close>: the states, signals, reasons and event
  names of a Run, the view the state machine reads and the decision it answers with, the
  blocks and messages of a transcript with their stored documents, the shared budget and the
  safety preamble. The lemmas show that the event vocabulary cannot drift from the signals,
  that a stored message reads back as itself, and what the budget valve lets through.
\<close>

section \<open>Enumerations\<close>

datatype RunState =
    QUEUED | RUNNING | WAITING_APPROVAL | WAITING_EXTERNAL | PAUSED | CANCELLING
  | INTERRUPTED | COMPLETED | FAILED | CANCELLED

definition TERMINAL_STATES :: "RunState set" where
  "TERMINAL_STATES = {RunState.COMPLETED, RunState.FAILED, RunState.CANCELLED}"

datatype PauseReason =
    MANUAL | LIMIT | CONTEXT_OVERFLOW | TOOL_BUDGET_EXCEEDED | COMPAT_TIMEOUT | OPERATOR
  | SYSTEM | APPROVAL_EXPIRED | APPROVAL_REJECTED | APPROVAL_UNAVAILABLE | EXTERNAL_TIMEOUT

datatype (plugins only: code) RunSignal =
    LEASE_ACQUIRED | SLICE_ENDED | PAUSE_REQUESTED | RESUME_REQUESTED | CANCEL_REQUESTED
  | SAFE_PAUSE_REACHED | SAFE_CANCEL_STARTED | SAFE_CANCEL_FINISHED | APPROVAL_REQUESTED
  | APPROVAL_APPROVED | APPROVAL_PAUSED | EXTERNAL_WAIT_STARTED | EXTERNAL_READY
  | EXTERNAL_PAUSED | COMPLETED | FAILED | INTERRUPTED | RECOVERY_APPROVED
  | RECOVERY_FAILED | LIMIT_CLEANUP_CONFIRMED

fun RunSignal_value :: "RunSignal \<Rightarrow> pystr" where
  "RunSignal_value LEASE_ACQUIRED = py ''lease_acquired''"
| "RunSignal_value SLICE_ENDED = py ''slice_ended''"
| "RunSignal_value PAUSE_REQUESTED = py ''pause_requested''"
| "RunSignal_value RESUME_REQUESTED = py ''resume_requested''"
| "RunSignal_value CANCEL_REQUESTED = py ''cancel_requested''"
| "RunSignal_value SAFE_PAUSE_REACHED = py ''safe_pause_reached''"
| "RunSignal_value SAFE_CANCEL_STARTED = py ''safe_cancel_started''"
| "RunSignal_value SAFE_CANCEL_FINISHED = py ''safe_cancel_finished''"
| "RunSignal_value APPROVAL_REQUESTED = py ''approval_requested''"
| "RunSignal_value APPROVAL_APPROVED = py ''approval_approved''"
| "RunSignal_value APPROVAL_PAUSED = py ''approval_paused''"
| "RunSignal_value EXTERNAL_WAIT_STARTED = py ''external_wait_started''"
| "RunSignal_value EXTERNAL_READY = py ''external_ready''"
| "RunSignal_value EXTERNAL_PAUSED = py ''external_paused''"
| "RunSignal_value RunSignal.COMPLETED = py ''completed''"
| "RunSignal_value RunSignal.FAILED = py ''failed''"
| "RunSignal_value RunSignal.INTERRUPTED = py ''interrupted''"
| "RunSignal_value RECOVERY_APPROVED = py ''recovery_approved''"
| "RunSignal_value RECOVERY_FAILED = py ''recovery_failed''"
| "RunSignal_value LIMIT_CLEANUP_CONFIRMED = py ''limit_cleanup_confirmed''"

datatype RunPurpose = ANSWER | COMPACTION

datatype SessionMode = EPHEMERAL | PERSISTENT

datatype CallerType = USER | SERVICE_ACCOUNT | END_USER

datatype CheckpointEffectStatus = NONE | CONFIRMED | UNKNOWN

datatype WorkspaceCleanupTarget = PAUSED_LIMIT | QUEUED | FAILED_CONFLICT

datatype WaitPolicy = ALL | ANY

datatype QueueStatus = HEAD | PENDING | SESSION_BLOCKED | TERMINAL

text \<open>The event names, each with its value: the table \<open>RunEventType(value)\<close> reads.\<close>

datatype (plugins only: code) RunEventType =
    RUN_CREATED | RUN_RETRY_DERIVED | SESSION_HEAD_REPAIRED | RUN_LIMIT_REACHED
  | GOAL_VERDICT | CONTEXT_TRIMMED | CONTEXT_COMPACTED | CONTEXT_COMPACTION_SKIPPED
  | MODEL_ROUND_RETRIED | MODEL_ROUND | TOOL_CALLED | MODEL_FALLBACK_USED
  | MODEL_FALLBACK_SKIPPED | TODO_UPDATED | SKILL_REVIEW | RUN_STEERED
  | CONTEXT_SUMMARY_BILLED | SKILL_LOADED | SKILL_PROPOSED | HTTP_CALL_REFUSED
  | TOOL_SCHEMA_BUDGET_EXCEEDED | MCP_TOOLS_REVALIDATED | MEMORY_PROPOSED | MEMORY_WRITTEN
  | RUN_DELEGATED | SANDBOX_CACHE_RESET | ATTACHMENT_PLACED | ATTACHMENT_FAILED | FILE_SENT
  | RUN_LEASE_ACQUIRED | RUN_SLICE_ENDED | RUN_PAUSE_REQUESTED | RUN_RESUME_REQUESTED
  | RUN_CANCEL_REQUESTED | RUN_SAFE_PAUSE_REACHED | RUN_SAFE_CANCEL_STARTED
  | RUN_SAFE_CANCEL_FINISHED | RUN_APPROVAL_REQUESTED | RUN_APPROVAL_APPROVED
  | RUN_APPROVAL_PAUSED | RUN_EXTERNAL_WAIT_STARTED | RUN_EXTERNAL_READY
  | RUN_EXTERNAL_PAUSED | RUN_COMPLETED | RUN_FAILED | RUN_INTERRUPTED
  | RUN_RECOVERY_APPROVED | RUN_RECOVERY_FAILED | RUN_LIMIT_CLEANUP_CONFIRMED
  | WORKSPACE_LIMIT_EXCEEDED | WORKSPACE_CONFLICT | WORKSPACE_CHECKPOINT_FAILED
  | WORKSPACE_STORAGE_UNAVAILABLE | WORKSPACE_INTEGRITY_FAILED | WORKSPACE_ENTRY_NOT_SUPPORTED

definition RunEventType_members :: "(pystr \<times> RunEventType) list" where
  "RunEventType_members =
    [(py ''run_created'', RUN_CREATED),
     (py ''run_retry_derived'', RUN_RETRY_DERIVED),
     (py ''session_head_repaired'', SESSION_HEAD_REPAIRED),
     (py ''run_limit_reached'', RUN_LIMIT_REACHED),
     (py ''goal_verdict'', GOAL_VERDICT),
     (py ''context_trimmed'', CONTEXT_TRIMMED),
     (py ''context_compacted'', CONTEXT_COMPACTED),
     (py ''context_compaction_skipped'', CONTEXT_COMPACTION_SKIPPED),
     (py ''model_round_retried'', MODEL_ROUND_RETRIED),
     (py ''model_round'', MODEL_ROUND),
     (py ''tool_called'', TOOL_CALLED),
     (py ''model_fallback_used'', MODEL_FALLBACK_USED),
     (py ''model_fallback_skipped'', MODEL_FALLBACK_SKIPPED),
     (py ''todo_updated'', TODO_UPDATED),
     (py ''skill_review'', SKILL_REVIEW),
     (py ''run_steered'', RUN_STEERED),
     (py ''context_summary_billed'', CONTEXT_SUMMARY_BILLED),
     (py ''skill_loaded'', SKILL_LOADED),
     (py ''skill_proposed'', SKILL_PROPOSED),
     (py ''http_call_refused'', HTTP_CALL_REFUSED),
     (py ''tool_schema_budget_exceeded'', TOOL_SCHEMA_BUDGET_EXCEEDED),
     (py ''mcp_tools_revalidated'', MCP_TOOLS_REVALIDATED),
     (py ''memory_proposed'', MEMORY_PROPOSED),
     (py ''memory_written'', MEMORY_WRITTEN),
     (py ''run_delegated'', RUN_DELEGATED),
     (py ''sandbox_cache_reset'', SANDBOX_CACHE_RESET),
     (py ''attachment_placed'', ATTACHMENT_PLACED),
     (py ''attachment_failed'', ATTACHMENT_FAILED),
     (py ''file_sent'', FILE_SENT),
     (py ''run_lease_acquired'', RUN_LEASE_ACQUIRED),
     (py ''run_slice_ended'', RUN_SLICE_ENDED),
     (py ''run_pause_requested'', RUN_PAUSE_REQUESTED),
     (py ''run_resume_requested'', RUN_RESUME_REQUESTED),
     (py ''run_cancel_requested'', RUN_CANCEL_REQUESTED),
     (py ''run_safe_pause_reached'', RUN_SAFE_PAUSE_REACHED),
     (py ''run_safe_cancel_started'', RUN_SAFE_CANCEL_STARTED),
     (py ''run_safe_cancel_finished'', RUN_SAFE_CANCEL_FINISHED),
     (py ''run_approval_requested'', RUN_APPROVAL_REQUESTED),
     (py ''run_approval_approved'', RUN_APPROVAL_APPROVED),
     (py ''run_approval_paused'', RUN_APPROVAL_PAUSED),
     (py ''run_external_wait_started'', RUN_EXTERNAL_WAIT_STARTED),
     (py ''run_external_ready'', RUN_EXTERNAL_READY),
     (py ''run_external_paused'', RUN_EXTERNAL_PAUSED),
     (py ''run_completed'', RUN_COMPLETED),
     (py ''run_failed'', RUN_FAILED),
     (py ''run_interrupted'', RUN_INTERRUPTED),
     (py ''run_recovery_approved'', RUN_RECOVERY_APPROVED),
     (py ''run_recovery_failed'', RUN_RECOVERY_FAILED),
     (py ''run_limit_cleanup_confirmed'', RUN_LIMIT_CLEANUP_CONFIRMED),
     (py ''workspace_limit_exceeded'', WORKSPACE_LIMIT_EXCEEDED),
     (py ''workspace_conflict'', WORKSPACE_CONFLICT),
     (py ''workspace_checkpoint_failed'', WORKSPACE_CHECKPOINT_FAILED),
     (py ''workspace_storage_unavailable'', WORKSPACE_STORAGE_UNAVAILABLE),
     (py ''workspace_integrity_failed'', WORKSPACE_INTEGRITY_FAILED),
     (py ''workspace_entry_not_supported'', WORKSPACE_ENTRY_NOT_SUPPORTED)]"

definition event_type_for :: "RunSignal \<Rightarrow> (py_error, RunEventType) result" where
  "event_type_for signal =
     (case map_of RunEventType_members (py ''run_'' @ RunSignal_value signal) of
        None \<Rightarrow> Inl ValueError | Some e \<Rightarrow> Inr e)"

section \<open>The state machine's view and its decision\<close>

record RunStateView =
  v_state :: RunState
  v_pause_reason :: "PauseReason option"
  v_wait_kind :: "pystr option"
  v_wait_deadline_at :: "datetime option"
  v_pause_requested :: bool
  v_cancel_requested :: bool
  v_budget_allows_execution :: bool

record StateDecision =
  d_state :: RunState
  d_signal :: RunSignal
  d_pause_reason :: "PauseReason option"
  d_wait_kind :: "pystr option"
  d_wait_deadline_at :: "datetime option"
  d_set_pause_requested :: bool
  d_set_cancel_requested :: bool
  d_clear_pause_request :: bool
  d_clear_cancel_request :: bool
  d_starts_execution :: bool

text \<open>The dataclass with every optional field at its default.\<close>

definition state_decision :: "RunState \<Rightarrow> RunSignal \<Rightarrow> StateDecision" where
  "state_decision s sig =
     \<lparr>d_state = s, d_signal = sig, d_pause_reason = None, d_wait_kind = None,
      d_wait_deadline_at = None, d_set_pause_requested = False,
      d_set_cancel_requested = False, d_clear_pause_request = False,
      d_clear_cancel_request = False, d_starts_execution = False\<rparr>"

definition is_terminal :: "StateDecision \<Rightarrow> bool" where
  "is_terminal d \<longleftrightarrow> d_state d \<in> TERMINAL_STATES"

section \<open>Lemmas\<close>

lemma TERMINAL_STATES_iff [simp]:
  "s \<in> TERMINAL_STATES \<longleftrightarrow>
   s = RunState.COMPLETED \<or> s = RunState.FAILED \<or> s = RunState.CANCELLED"
  by (auto simp: TERMINAL_STATES_def)

lemma state_decision_simps [simp]:
  "d_state (state_decision s sig) = s"
  "d_signal (state_decision s sig) = sig"
  "d_pause_reason (state_decision s sig) = None"
  "d_wait_kind (state_decision s sig) = None"
  "d_wait_deadline_at (state_decision s sig) = None"
  by (simp_all add: state_decision_def)

lemma py_append [simp]: "py s @ py t = py (s @ t)"
  by (simp add: py_def)

text \<open>The event each signal is written as, one row per signal.\<close>

lemma event_type_for_table:
  "event_type_for LEASE_ACQUIRED = Inr RUN_LEASE_ACQUIRED"
  "event_type_for SLICE_ENDED = Inr RUN_SLICE_ENDED"
  "event_type_for PAUSE_REQUESTED = Inr RUN_PAUSE_REQUESTED"
  "event_type_for RESUME_REQUESTED = Inr RUN_RESUME_REQUESTED"
  "event_type_for CANCEL_REQUESTED = Inr RUN_CANCEL_REQUESTED"
  "event_type_for SAFE_PAUSE_REACHED = Inr RUN_SAFE_PAUSE_REACHED"
  "event_type_for SAFE_CANCEL_STARTED = Inr RUN_SAFE_CANCEL_STARTED"
  "event_type_for SAFE_CANCEL_FINISHED = Inr RUN_SAFE_CANCEL_FINISHED"
  "event_type_for APPROVAL_REQUESTED = Inr RUN_APPROVAL_REQUESTED"
  "event_type_for APPROVAL_APPROVED = Inr RUN_APPROVAL_APPROVED"
  "event_type_for APPROVAL_PAUSED = Inr RUN_APPROVAL_PAUSED"
  "event_type_for EXTERNAL_WAIT_STARTED = Inr RUN_EXTERNAL_WAIT_STARTED"
  "event_type_for EXTERNAL_READY = Inr RUN_EXTERNAL_READY"
  "event_type_for EXTERNAL_PAUSED = Inr RUN_EXTERNAL_PAUSED"
  "event_type_for RunSignal.COMPLETED = Inr RUN_COMPLETED"
  "event_type_for RunSignal.FAILED = Inr RUN_FAILED"
  "event_type_for RunSignal.INTERRUPTED = Inr RUN_INTERRUPTED"
  "event_type_for RECOVERY_APPROVED = Inr RUN_RECOVERY_APPROVED"
  "event_type_for RECOVERY_FAILED = Inr RUN_RECOVERY_FAILED"
  "event_type_for LIMIT_CLEANUP_CONFIRMED = Inr RUN_LIMIT_CLEANUP_CONFIRMED"
  by (simp_all add: event_type_for_def RunEventType_members_def)

section \<open>What a Run waits for\<close>

text \<open>The wait kinds of \<^verbatim>\<open>runs/domain/slice_policy.py\<close>, which the store and the scheduler compare with.\<close>

definition WAIT_TIMER :: pystr where "WAIT_TIMER = py ''timer''"
definition WAIT_APPROVAL :: pystr where "WAIT_APPROVAL = py ''approval''"
definition WAIT_CHILD_RUNS :: pystr where "WAIT_CHILD_RUNS = py ''child_runs''"

end
