(* ===== verification/Goal_Judge.thy ===== *)
theory Goal_Judge
  imports Run_Models
begin

text \<open>
  \<^verbatim>\<open>runs/domain/goal.py\<close>: whether a round met the goal, decided by the platform from
  the model's proposal and what the platform itself observed, and the instruction the next
  round is given. The properties say when each of the five outcomes is answered.
\<close>

section \<open>Definitions\<close>

text \<open>\<^verbatim>\<open>runs/ports/model.py\<close>: why a model round ended.\<close>

datatype StopReason = COMPLETED | CONTINUE | TOOL_CALL | FAILED

datatype GoalOutcome = DONE | CONTINUE | WAIT | FAILED | UNDECIDABLE

record GoalProposal =
  gp_stop_reason :: StopReason
  gp_wait_seconds :: "int option"

record CompletionCheck =
  cc_name :: pystr
  cc_met :: bool
  cc_output :: pystr

record GoalEvidence =
  ge_declared :: bool
  ge_checks :: "CompletionCheck list"
  ge_observable :: bool

record GoalVerdict =
  gv_outcome :: GoalOutcome
  gv_unmet :: "pystr list"
  gv_instruction :: "pystr option"
  gv_wait_seconds :: "int option"

definition goal_verdict :: "GoalOutcome \<Rightarrow> GoalVerdict" where
  "goal_verdict outcome =
     \<lparr>gv_outcome = outcome, gv_unmet = [], gv_instruction = None, gv_wait_seconds = None\<rparr>"

definition FAILED_OUTPUT_TAIL_CHARS :: nat where
  "FAILED_OUTPUT_TAIL_CHARS = 2000"

text \<open>What a failing check printed, with everything but its end left out when it is long.
  Code point 8230 is the ellipsis.\<close>

definition shown_output :: "pystr \<Rightarrow> pystr" where
  "shown_output printed =
     (if length printed > FAILED_OUTPUT_TAIL_CHARS
      then py ''['' @ [8230] @ py ''the first '' @
             py_digits (length printed - FAILED_OUTPUT_TAIL_CHARS) @ py '' of '' @
             py_digits (length printed) @ py '' characters are not shown]'' @ [10] @
             drop (length printed - FAILED_OUTPUT_TAIL_CHARS) printed
      else printed)"

definition check_part :: "CompletionCheck \<Rightarrow> pystr list" where
  "check_part check =
     (let printed = py_strip (cc_output check)
      in if printed = [] then []
         else [cc_name check @ py '' printed:'' @ [10] @ shown_output printed])"

definition instruction_for :: "CompletionCheck list \<Rightarrow> pystr" where
  "instruction_for failing =
     (let names = map cc_name failing;
          head = (if length names = 1
                  then py ''The task is not finished: '' @ hd names @ py '' did not pass.''
                  else py ''The task is not finished: '' @ py_join (py ''; '') names @
                       py '' did not pass.'');
          final = (if length names = 1 then py ''Continue working on it.''
                   else py ''Continue working on them.'')
      in py_join [10, 10] (head # concat (map check_part failing) @ [final]))"

definition judge :: "GoalProposal \<Rightarrow> GoalEvidence \<Rightarrow> GoalVerdict" where
  "judge proposal evidence =
     (if gp_stop_reason proposal = StopReason.FAILED then goal_verdict GoalOutcome.FAILED
      else if gp_stop_reason proposal = StopReason.COMPLETED then
        (if \<not> ge_declared evidence then goal_verdict DONE
         else if \<not> ge_observable evidence then goal_verdict UNDECIDABLE
         else
           (let failing = filter (\<lambda>check. \<not> cc_met check) (ge_checks evidence) in
            if failing \<noteq> [] then
              (goal_verdict GoalOutcome.CONTINUE)
                \<lparr>gv_unmet := map cc_name failing,
                 gv_instruction := Some (instruction_for failing)\<rparr>
            else if ge_checks evidence = [] then goal_verdict GoalOutcome.CONTINUE
            else goal_verdict DONE))
      else
        (case gp_wait_seconds proposal of
           Some s \<Rightarrow> if s > 0 then (goal_verdict WAIT)\<lparr>gv_wait_seconds := Some s\<rparr>
                     else goal_verdict GoalOutcome.CONTINUE
         | None \<Rightarrow> goal_verdict GoalOutcome.CONTINUE))"

section \<open>Lemmas\<close>

lemma goal_verdict_simps [simp]:
  "gv_outcome (goal_verdict g) = g" "gv_unmet (goal_verdict g) = []"
  "gv_instruction (goal_verdict g) = None" "gv_wait_seconds (goal_verdict g) = None"
  by (simp_all add: goal_verdict_def)

lemma judge_outcome_cases:
  "gv_outcome (judge p e) = GoalOutcome.FAILED \<longleftrightarrow> gp_stop_reason p = StopReason.FAILED"
  "gv_outcome (judge p e) = UNDECIDABLE \<longleftrightarrow>
     gp_stop_reason p = StopReason.COMPLETED \<and> ge_declared e \<and> \<not> ge_observable e"
  by (auto simp: judge_def Let_def split: option.splits if_splits)

text \<open>A wait verdict always carries a positive duration, and no other verdict carries one.\<close>

lemma judge_wait_seconds:
  "gv_wait_seconds (judge p e) = Some s \<longleftrightarrow>
   gv_outcome (judge p e) = WAIT \<and> gp_wait_seconds p = Some s"
  "gv_outcome (judge p e) = WAIT \<Longrightarrow> \<exists>s > 0. gv_wait_seconds (judge p e) = Some s"
  by (auto simp: judge_def Let_def split: option.splits if_splits)

section \<open>Properties\<close>

text \<open>
  A goal is judged met only on evidence: the model claimed completion, and either the
  Agent declared no condition at all, or the checks could be run, there was at least one, and
  every one of them passed. This is also sufficient.
\<close>

theorem judge_done_iff:
  "gv_outcome (judge p e) = DONE \<longleftrightarrow>
   gp_stop_reason p = StopReason.COMPLETED \<and>
   (ge_declared e = False \<or>
    (ge_observable e \<and> ge_checks e \<noteq> [] \<and> list_all cc_met (ge_checks e)))"
proof -
  have "filter (\<lambda>check. \<not> cc_met check) (ge_checks e) = [] \<longleftrightarrow> list_all cc_met (ge_checks e)"
    by (auto simp: filter_empty_conv list_all_iff)
  then show ?thesis
    by (auto simp: judge_def Let_def split: option.splits if_splits)
qed

text \<open>
  What the next round is told. An instruction is given exactly when a completion claim
  met a check that failed; it is about precisely the failing checks, in the order they were
  declared, and those are the names reported as unmet. A verdict to wait carries the positive
  duration the round asked for.
\<close>

theorem judge_instruction:
  "gv_unmet (judge p e) =
     (if gp_stop_reason p = StopReason.COMPLETED \<and> ge_declared e \<and> ge_observable e
      then map cc_name (filter (\<lambda>c. \<not> cc_met c) (ge_checks e)) else []) \<and>
   gv_instruction (judge p e) =
     (if gv_unmet (judge p e) = [] then None
      else Some (instruction_for (filter (\<lambda>c. \<not> cc_met c) (ge_checks e)))) \<and>
   (gv_outcome (judge p e) = WAIT) =
     (\<exists>s > 0. gv_wait_seconds (judge p e) = Some s \<and> gp_wait_seconds p = Some s)"
  by (auto simp: judge_def Let_def split: option.splits if_splits)

end
