(* ===== verification/Run_State_Machine.thy ===== *)
theory Run_State_Machine
  imports Run_Models
begin

text \<open>
  \<^verbatim>\<open>runs/domain/state_machine.py\<close>: the transition table, the pause reasons each
  signal may carry, \<open>RunStateMachine.decide\<close> with its three refusals, and
  \<open>available_actions\<close>. The lemmas give the exact condition under which a signal is
  accepted and the metadata every accepted decision carries; the properties over them are at
  the end of the theory.
\<close>

section \<open>Definitions\<close>

definition TRANSITIONS :: "((RunState \<times> RunSignal) \<times> RunState) list" where
  "TRANSITIONS =
    [((RunState.QUEUED, LEASE_ACQUIRED), RUNNING),
     ((RunState.QUEUED, PAUSE_REQUESTED), PAUSED),
     ((RunState.QUEUED, CANCEL_REQUESTED), CANCELLED),
     ((RUNNING, APPROVAL_REQUESTED), WAITING_APPROVAL),
     ((RUNNING, EXTERNAL_WAIT_STARTED), WAITING_EXTERNAL),
     ((RUNNING, SLICE_ENDED), RunState.QUEUED),
     ((RUNNING, SAFE_PAUSE_REACHED), PAUSED),
     ((RUNNING, SAFE_CANCEL_STARTED), CANCELLING),
     ((RUNNING, RunSignal.COMPLETED), RunState.COMPLETED),
     ((RUNNING, RunSignal.FAILED), RunState.FAILED),
     ((RUNNING, RunSignal.INTERRUPTED), RunState.INTERRUPTED),
     ((WAITING_APPROVAL, APPROVAL_APPROVED), RunState.QUEUED),
     ((WAITING_APPROVAL, APPROVAL_PAUSED), PAUSED),
     ((WAITING_APPROVAL, CANCEL_REQUESTED), CANCELLED),
     ((WAITING_EXTERNAL, EXTERNAL_READY), RunState.QUEUED),
     ((WAITING_EXTERNAL, EXTERNAL_PAUSED), PAUSED),
     ((WAITING_EXTERNAL, CANCEL_REQUESTED), CANCELLED),
     ((PAUSED, RESUME_REQUESTED), RunState.QUEUED),
     ((PAUSED, CANCEL_REQUESTED), CANCELLED),
     ((CANCELLING, SAFE_CANCEL_FINISHED), CANCELLED),
     ((CANCELLING, RunSignal.INTERRUPTED), RunState.INTERRUPTED),
     ((RunState.INTERRUPTED, RECOVERY_APPROVED), RunState.QUEUED),
     ((RunState.INTERRUPTED, RECOVERY_FAILED), RunState.FAILED),
     ((RunState.INTERRUPTED, CANCEL_REQUESTED), CANCELLED),
     ((RunState.INTERRUPTED, LIMIT_CLEANUP_CONFIRMED), PAUSED)]"

definition PAUSE_REASONS :: "(RunSignal \<times> PauseReason set) list" where
  "PAUSE_REASONS =
    [(PAUSE_REQUESTED, {MANUAL}),
     (APPROVAL_PAUSED, {APPROVAL_EXPIRED, APPROVAL_REJECTED, APPROVAL_UNAVAILABLE, MANUAL}),
     (EXTERNAL_PAUSED, {EXTERNAL_TIMEOUT, MANUAL}),
     (SAFE_PAUSE_REACHED,
        {MANUAL, LIMIT, CONTEXT_OVERFLOW, TOOL_BUDGET_EXCEEDED, COMPAT_TIMEOUT, OPERATOR,
         SYSTEM}),
     (LIMIT_CLEANUP_CONFIRMED, {LIMIT})]"

definition RESUMING_SIGNALS :: "RunSignal set" where
  "RESUMING_SIGNALS =
     {LEASE_ACQUIRED, RESUME_REQUESTED, APPROVAL_APPROVED, EXTERNAL_READY, RECOVERY_APPROVED}"

text \<open>\<open>MissingPauseReasons\<close> is the KeyError of \<open>PAUSE_REASONS[signal]\<close>.\<close>

datatype RunStateError =
  InvalidStateTransition | InvalidStateMetadata | RunLimitReached | MissingPauseReasons

definition request_only :: "RunStateView \<Rightarrow> RunSignal \<Rightarrow> StateDecision option" where
  "request_only view signal =
     (if v_state view \<noteq> RUNNING then None
      else if signal = PAUSE_REQUESTED
        then Some ((state_decision RUNNING signal)\<lparr>d_set_pause_requested := True\<rparr>)
      else if signal = CANCEL_REQUESTED
        then Some ((state_decision RUNNING signal)\<lparr>d_set_cancel_requested := True\<rparr>)
      else None)"

definition pause_reason_for ::
  "RunSignal \<Rightarrow> PauseReason option \<Rightarrow> (RunStateError, PauseReason) result" where
  "pause_reason_for signal pause_reason =
     (case map_of PAUSE_REASONS signal of
        None \<Rightarrow> Inl MissingPauseReasons
      | Some allowed \<Rightarrow>
          if signal = PAUSE_REQUESTED \<and> pause_reason = None then Inr MANUAL
          else (case pause_reason of
                  None \<Rightarrow> Inl InvalidStateMetadata
                | Some r \<Rightarrow> if r \<in> allowed then Inr r else Inl InvalidStateMetadata))"

definition waiting_approval ::
  "RunSignal \<Rightarrow> pystr option \<Rightarrow> datetime option \<Rightarrow> (RunStateError, StateDecision) result" where
  "waiting_approval signal wait_kind wait_deadline_at =
     (case wait_kind of
        None \<Rightarrow> Inl InvalidStateMetadata
      | Some k \<Rightarrow>
          if py_strip k = [] then Inl InvalidStateMetadata
          else Inr ((state_decision WAITING_APPROVAL signal)
                 \<lparr>d_wait_kind := wait_kind, d_wait_deadline_at := wait_deadline_at\<rparr>))"

definition waiting_external ::
  "RunSignal \<Rightarrow> pystr option \<Rightarrow> datetime option \<Rightarrow> (RunStateError, StateDecision) result" where
  "waiting_external signal wait_kind wait_deadline_at =
     (case wait_deadline_at of
        None \<Rightarrow> Inl InvalidStateMetadata
      | Some _ \<Rightarrow>
          Inr ((state_decision WAITING_EXTERNAL signal)
            \<lparr>d_wait_kind :=
               (if wait_kind = None \<or> wait_kind = Some []
                then Some (py ''external_condition'') else wait_kind),
             d_wait_deadline_at := wait_deadline_at\<rparr>))"

definition decide ::
  "RunStateView \<Rightarrow> RunSignal \<Rightarrow> PauseReason option \<Rightarrow> pystr option \<Rightarrow> datetime option \<Rightarrow>
   (RunStateError, StateDecision) result" where
  "decide view signal pause_reason wait_kind wait_deadline_at =
     (case request_only view signal of
        Some d \<Rightarrow> Inr d
      | None \<Rightarrow>
     (case map_of TRANSITIONS (v_state view, signal) of
        None \<Rightarrow> Inl InvalidStateTransition
      | Some target \<Rightarrow>
     (case (if target = PAUSED then map_sum id Some (pause_reason_for signal pause_reason)
            else if pause_reason \<noteq> None then Inl InvalidStateMetadata
            else Inr pause_reason) of
        Inl e \<Rightarrow> Inl e
      | Inr reason \<Rightarrow>
          if target \<in> {RunState.QUEUED, RUNNING} \<and> \<not> v_budget_allows_execution view
            then Inl RunLimitReached
          else if target = WAITING_APPROVAL
            then waiting_approval signal wait_kind wait_deadline_at
          else if target = WAITING_EXTERNAL
            then waiting_external signal wait_kind wait_deadline_at
          else if wait_kind \<noteq> None \<or> wait_deadline_at \<noteq> None
            then Inl InvalidStateMetadata
          else
            Inr ((state_decision target signal)
              \<lparr>d_pause_reason := reason,
               d_clear_pause_request := signal \<in> RESUMING_SIGNALS \<or> target = PAUSED,
               d_clear_cancel_request := target = CANCELLED,
               d_starts_execution := target = RUNNING\<rparr>))))"

datatype RunAction = Retry | Pause | Resume | WidenBudget | Cancel

definition available_actions ::
  "RunStateView \<Rightarrow> bool \<Rightarrow> bool \<Rightarrow> bool \<Rightarrow> RunAction list" where
  "available_actions view can_control can_retry can_hold_budget =
     (if v_state view \<in> TERMINAL_STATES
      then (if v_state view = RunState.FAILED \<and> can_control \<and> can_retry then [Retry] else [])
      else if \<not> can_control then []
      else
        (if v_state view \<in> {RunState.QUEUED, RUNNING} \<and> \<not> v_pause_requested view
         then [Pause] else []) @
        (if v_state view = PAUSED \<and> v_budget_allows_execution view then [Resume] else []) @
        (if v_state view = PAUSED \<and> \<not> v_budget_allows_execution view \<and> can_hold_budget
         then [WidenBudget] else []) @
        (if v_state view \<noteq> CANCELLING \<and> \<not> v_cancel_requested view then [Cancel] else []))"

text \<open>The signal a caller's action is submitted as (\<^verbatim>\<open>RunControl\<close> in the service).\<close>

fun action_signal :: "RunAction \<Rightarrow> RunSignal option" where
  "action_signal Pause = Some PAUSE_REQUESTED"
| "action_signal Resume = Some RESUME_REQUESTED"
| "action_signal Cancel = Some CANCEL_REQUESTED"
| "action_signal _ = None"

section \<open>Lemmas\<close>

lemmas decide_defs = decide_def request_only_def pause_reason_for_def waiting_approval_def
  waiting_external_def

text \<open>The rows of the table, as a rule for the proofs below.\<close>

lemma TRANSITIONS_cases:
  assumes "map_of TRANSITIONS (s, sig) = Some t"
  shows "((s, sig), t) \<in> set TRANSITIONS"
  using assms by (rule map_of_SomeD)

lemma TRANSITIONS_from_terminal:
  assumes "s \<in> TERMINAL_STATES"
  shows "map_of TRANSITIONS (s, sig) = None"
proof (rule ccontr)
  assume "map_of TRANSITIONS (s, sig) \<noteq> None"
  then obtain t where "((s, sig), t) \<in> set TRANSITIONS"
    by (auto dest: map_of_SomeD)
  with assms show False
    by (auto simp: TRANSITIONS_def)
qed

lemma TRANSITIONS_to_paused:
  "map_of TRANSITIONS (s, sig) = Some PAUSED \<Longrightarrow>
   sig \<in> {PAUSE_REQUESTED, SAFE_PAUSE_REACHED, APPROVAL_PAUSED, EXTERNAL_PAUSED,
     LIMIT_CLEANUP_CONFIRMED}"
  by (drule TRANSITIONS_cases) (auto simp: TRANSITIONS_def)

lemma TRANSITIONS_to_running:
  "map_of TRANSITIONS (s, sig) = Some RUNNING \<longleftrightarrow> s = RunState.QUEUED \<and> sig = LEASE_ACQUIRED"
  by (auto dest!: TRANSITIONS_cases simp: TRANSITIONS_def)

text \<open>Every signal that leads to a pause has its row of reasons.\<close>

lemma pause_reasons_defined:
  assumes "map_of TRANSITIONS (s, sig) = Some PAUSED"
  shows "pause_reason_for sig r \<noteq> Inl MissingPauseReasons"
  using TRANSITIONS_to_paused[OF assms]
  by (auto simp: pause_reason_for_def PAUSE_REASONS_def split: option.splits)

definition pause_reason_ok :: "RunSignal \<Rightarrow> PauseReason option \<Rightarrow> bool" where
  "pause_reason_ok signal r \<longleftrightarrow>
     (case map_of PAUSE_REASONS signal of
        None \<Rightarrow> False
      | Some allowed \<Rightarrow>
          (case r of None \<Rightarrow> signal = PAUSE_REQUESTED | Some p \<Rightarrow> p \<in> allowed))"

lemma pause_reason_for_Inr:
  "pause_reason_for signal r = Inr p \<longleftrightarrow>
   pause_reason_ok signal r \<and> p = (case r of None \<Rightarrow> MANUAL | Some q \<Rightarrow> q)"
  by (auto simp: pause_reason_for_def pause_reason_ok_def split: option.splits)

text \<open>What the metadata arguments must be for a given target state.\<close>

definition metadata_ok ::
  "RunState \<Rightarrow> RunSignal \<Rightarrow> PauseReason option \<Rightarrow> pystr option \<Rightarrow> datetime option \<Rightarrow> bool" where
  "metadata_ok target signal r wk dl \<longleftrightarrow>
     (if target = PAUSED then pause_reason_ok signal r else r = None) \<and>
     (if target = WAITING_APPROVAL then (\<exists>k. wk = Some k \<and> py_strip k \<noteq> [])
      else if target = WAITING_EXTERNAL then dl \<noteq> None
      else wk = None \<and> dl = None)"

lemma decide_Inr_cases:
  assumes "decide view signal r wk dl = Inr d"
  obtains (request) "request_only view signal = Some d"
  | (move) "request_only view signal = None"
      "map_of TRANSITIONS (v_state view, signal) = Some (d_state d)"
      "metadata_ok (d_state d) signal r wk dl"
      "d_state d \<in> {RunState.QUEUED, RUNNING} \<Longrightarrow> v_budget_allows_execution view"
proof (cases "request_only view signal")
  case (Some d')
  with assms request show ?thesis by (simp add: decide_def)
next
  case None
  with assms obtain target where t: "map_of TRANSITIONS (v_state view, signal) = Some target"
    by (auto simp: decide_def split: option.splits)
  have ds: "d_state d = target \<and> metadata_ok target signal r wk dl \<and>
    (target \<in> {RunState.QUEUED, RUNNING} \<longrightarrow> v_budget_allows_execution view)"
  proof (cases "target = PAUSED")
    case True
    with assms None t obtain p where "pause_reason_for signal r = Inr p"
      by (cases "pause_reason_for signal r") (auto simp: decide_def)
    with True assms None t show ?thesis
      by (auto simp: decide_def metadata_ok_def pause_reason_for_Inr split: if_splits)
  next
    case False
    with assms None t have r: "r = None"
      by (auto simp: decide_def split: if_splits)
    show ?thesis
    proof (cases "target = WAITING_APPROVAL \<or> target = WAITING_EXTERNAL")
      case True
      with r assms None t show ?thesis
        by (auto simp: decide_def metadata_ok_def waiting_approval_def waiting_external_def
            split: option.splits if_splits)
    next
      case other: False
      with False r assms None t show ?thesis
        by (auto simp: decide_def metadata_ok_def split: if_splits)
    qed
  qed
  with t None show ?thesis
    by (intro move) auto
qed

text \<open>The converse: the row, the metadata and the budget are all \<open>decide\<close> asks for.\<close>

lemma decide_moves:
  assumes "request_only view signal = None"
    and "map_of TRANSITIONS (v_state view, signal) = Some t"
    and "metadata_ok t signal r wk dl"
    and "t \<in> {RunState.QUEUED, RUNNING} \<Longrightarrow> v_budget_allows_execution view"
  shows "\<exists>d. decide view signal r wk dl = Inr d \<and> d_state d = t"
proof (cases "t = PAUSED")
  case True
  with assms(3) obtain p where "pause_reason_for signal r = Inr p"
    by (auto simp: metadata_ok_def pause_reason_for_Inr)
  with True assms show ?thesis
    by (auto simp: decide_def metadata_ok_def)
next
  case False
  with assms show ?thesis
    by (auto simp: decide_def metadata_ok_def waiting_approval_def waiting_external_def)
qed

lemma request_only_iff:
  "(\<exists>d. request_only view signal = Some d) \<longleftrightarrow>
   v_state view = RUNNING \<and> signal \<in> {PAUSE_REQUESTED, CANCEL_REQUESTED}"
  by (auto simp: request_only_def)

lemma request_only_SomeD:
  assumes "request_only view signal = Some d"
  shows "v_state view = RUNNING" and "d_state d = RUNNING" and "d_signal d = signal"
    and "signal = PAUSE_REQUESTED \<and> d_set_pause_requested d \<and> \<not> d_set_cancel_requested d \<or>
         signal = CANCEL_REQUESTED \<and> d_set_cancel_requested d \<and> \<not> d_set_pause_requested d"
    and "d_pause_reason d = None" and "d_wait_kind d = None" and "d_wait_deadline_at d = None"
    and "\<not> d_clear_pause_request d" and "\<not> d_clear_cancel_request d"
    and "\<not> d_starts_execution d"
  using assms by (auto simp: request_only_def state_decision_def split: if_splits)

lemma request_only_not_in_table:
  "request_only view signal = Some d \<Longrightarrow> map_of TRANSITIONS (v_state view, signal) = None"
  by (auto simp: request_only_def TRANSITIONS_def split: if_splits)

text \<open>
  What a decision that left the request path looks like, field by field: the metadata the
  columns of a Run may hold together.
\<close>

definition wf_decision :: "StateDecision \<Rightarrow> bool" where
  "wf_decision d \<longleftrightarrow>
     (d_pause_reason d \<noteq> None) = (d_state d = PAUSED) \<and>
     (d_wait_kind d \<noteq> None) = (d_state d \<in> {WAITING_APPROVAL, WAITING_EXTERNAL}) \<and>
     (d_state d = WAITING_EXTERNAL \<longrightarrow> d_wait_deadline_at d \<noteq> None) \<and>
     (d_wait_deadline_at d \<noteq> None \<longrightarrow> d_state d \<in> {WAITING_APPROVAL, WAITING_EXTERNAL}) \<and>
     d_starts_execution d = (d_state d = RUNNING \<and> d_signal d = LEASE_ACQUIRED) \<and>
     (d_set_pause_requested d \<longrightarrow> d_state d = RUNNING \<and> d_signal d = PAUSE_REQUESTED) \<and>
     (d_set_cancel_requested d \<longrightarrow> d_state d = RUNNING \<and> d_signal d = CANCEL_REQUESTED) \<and>
     d_clear_cancel_request d = (d_state d = CANCELLED)"

lemma decide_signal: "decide view signal r wk dl = Inr d \<Longrightarrow> d_signal d = signal"
  by (auto simp: decide_def request_only_def waiting_approval_def waiting_external_def
      split: option.splits sum.splits if_splits)

lemma decide_wf:
  assumes "decide view signal r wk dl = Inr d"
  shows "wf_decision d"
proof (cases "request_only view signal")
  case (Some d')
  with assms have "d' = d" by (simp add: decide_def)
  with Some request_only_SomeD[of view signal d] show ?thesis
    by (auto simp: wf_decision_def)
next
  case None
  with assms obtain target where t: "map_of TRANSITIONS (v_state view, signal) = Some target"
    by (auto simp: decide_def split: option.splits)
  consider (paused) "target = PAUSED" | (approval) "target = WAITING_APPROVAL"
    | (external) "target = WAITING_EXTERNAL"
    | (other) "target \<notin> {PAUSED, WAITING_APPROVAL, WAITING_EXTERNAL}"
    by blast
  then show ?thesis
  proof cases
    case paused
    with assms None t obtain p where "pause_reason_for signal r = Inr p"
      by (cases "pause_reason_for signal r") (auto simp: decide_def)
    with paused assms None t show ?thesis
      by (auto simp: decide_def wf_decision_def state_decision_def split: if_splits)
  next
    case approval
    with assms None t show ?thesis
      by (auto simp: decide_def wf_decision_def waiting_approval_def state_decision_def
          split: option.splits if_splits)
  next
    case external
    with assms None t show ?thesis
      by (auto simp: decide_def wf_decision_def waiting_external_def state_decision_def
          split: option.splits if_splits)
  next
    case other
    with TRANSITIONS_to_running[of "v_state view" signal] assms None t show ?thesis
      by (auto simp: decide_def wf_decision_def state_decision_def split: if_splits)
  qed
qed

lemma decide_invalid_iff:
  "decide view signal r wk dl = Inl InvalidStateTransition \<longleftrightarrow>
   request_only view signal = None \<and> map_of TRANSITIONS (v_state view, signal) = None"
proof (cases "request_only view signal")
  case None
  then show ?thesis
  proof (cases "map_of TRANSITIONS (v_state view, signal)")
    case (Some t)
    then show ?thesis using \<open>request_only view signal = None\<close>
      by (cases "pause_reason_for signal r")
        (auto simp: decide_def waiting_approval_def waiting_external_def pause_reason_for_def
          split: option.splits if_splits)
  qed (simp add: decide_def)
qed (simp add: decide_def)

lemma decide_limit_iff:
  "decide view signal r wk dl = Inl RunLimitReached \<longleftrightarrow>
   r = None \<and> \<not> v_budget_allows_execution view \<and>
   (\<exists>t \<in> {RunState.QUEUED, RUNNING}. map_of TRANSITIONS (v_state view, signal) = Some t)"
proof (cases "request_only view signal")
  case (Some d)
  with request_only_not_in_table[OF Some] show ?thesis by (simp add: decide_def)
next
  case None
  then show ?thesis
  proof (cases "map_of TRANSITIONS (v_state view, signal)")
    case (Some t)
    then show ?thesis using None
      by (cases "pause_reason_for signal r"; cases "t = PAUSED")
        (auto simp: decide_def waiting_approval_def waiting_external_def pause_reason_for_def
          split: option.splits if_splits)
  qed (simp add: decide_def)
qed

lemma decide_no_key_error: "decide view signal r wk dl \<noteq> Inl MissingPauseReasons"
proof (cases "request_only view signal")
  case None
  then show ?thesis
  proof (cases "map_of TRANSITIONS (v_state view, signal)")
    case (Some t)
    with None pause_reasons_defined[of "v_state view" signal r] show ?thesis
      by (cases "pause_reason_for signal r"; cases "t = PAUSED")
        (auto simp: decide_def waiting_approval_def waiting_external_def
          split: option.splits if_splits)
  qed (simp add: decide_def)
qed (simp add: decide_def)

text \<open>
  One move of a Run's state: some signal, with some metadata, accepted while the budget
  forbids execution.
\<close>

inductive can_move :: "RunState \<Rightarrow> RunState \<Rightarrow> bool" where
  "decide view signal r wk dl = Inr d \<Longrightarrow> \<not> v_budget_allows_execution view \<Longrightarrow>
   can_move (v_state view) (d_state d)"

lemma can_moveI:
  assumes "map_of TRANSITIONS (s, signal) = Some t" and "metadata_ok t signal r wk dl"
    and "t \<notin> {RunState.QUEUED, RUNNING}"
  shows "can_move s t"
proof -
  let ?view = "\<lparr>v_state = s, v_pause_reason = None, v_wait_kind = None,
    v_wait_deadline_at = None, v_pause_requested = False, v_cancel_requested = False,
    v_budget_allows_execution = False\<rparr>"
  have "request_only ?view signal = None"
    using assms(1) request_only_not_in_table[of ?view signal]
    by (cases "request_only ?view signal") auto
  with assms obtain d where "decide ?view signal r wk dl = Inr d" "d_state d = t"
    using decide_moves[of ?view signal t r wk dl] by auto
  then show ?thesis using can_move.intros[of ?view signal r wk dl d] by simp
qed

lemma can_move_source:
  assumes "can_move s t"
  shows "s \<notin> TERMINAL_STATES"
  using assms
proof (cases rule: can_move.cases)
  case (1 view signal r wk dl d)
  from this(3) have "s \<in> TERMINAL_STATES \<Longrightarrow> map_of TRANSITIONS (s, signal) = None"
    by (simp add: TRANSITIONS_from_terminal del: TERMINAL_STATES_iff)
  with 1 show ?thesis
    by (cases rule: decide_Inr_cases[OF 1(3)]) (auto dest: request_only_SomeD)
qed

lemma can_move_cancel:
  "s \<in> {RunState.QUEUED, WAITING_APPROVAL, WAITING_EXTERNAL, PAUSED, CANCELLING,
     RunState.INTERRUPTED} \<Longrightarrow> can_move\<^sup>*\<^sup>* s CANCELLED"
  by (rule r_into_rtranclp,
      rule can_moveI[of _ "if s = CANCELLING then SAFE_CANCEL_FINISHED else CANCEL_REQUESTED"
        _ None None None])
    (auto simp: TRANSITIONS_def metadata_ok_def)

lemma can_move_from_running: "can_move\<^sup>*\<^sup>* RUNNING CANCELLED"
proof -
  have "can_move RUNNING CANCELLING"
    by (rule can_moveI[of _ SAFE_CANCEL_STARTED _ None None None])
      (simp_all add: TRANSITIONS_def metadata_ok_def)
  then show ?thesis
    using can_move_cancel[of CANCELLING] by (auto intro: converse_rtranclp_into_rtranclp)
qed

section \<open>Properties\<close>

text \<open>
  C6. A signal is accepted exactly when the Run is running and the signal is a pause or
  cancel request (which only records the request), or the table has a row for it, the
  metadata fits the target state and, for a target that executes, the budget allows it.
\<close>

theorem decide_accepts_iff:
  "(\<exists>d. decide view signal r wk dl = Inr d) \<longleftrightarrow>
   (v_state view = RUNNING \<and> signal \<in> {PAUSE_REQUESTED, CANCEL_REQUESTED}) \<or>
   (\<exists>t. map_of TRANSITIONS (v_state view, signal) = Some t \<and>
        metadata_ok t signal r wk dl \<and>
        (t \<notin> {RunState.QUEUED, RUNNING} \<or> v_budget_allows_execution view))"
  (is "?accepts \<longleftrightarrow> ?request \<or> ?row")
proof
  assume ?accepts
  then obtain d where "decide view signal r wk dl = Inr d" by blast
  then show "?request \<or> ?row"
  proof (cases rule: decide_Inr_cases)
    case request
    then show ?thesis using request_only_iff by blast
  qed blast
next
  assume "?request \<or> ?row"
  then show ?accepts
  proof
    assume ?request
    then obtain d where "request_only view signal = Some d" using request_only_iff by blast
    then show ?accepts by (auto simp: decide_def)
  next
    assume ?row
    moreover have "request_only view signal = None"
      using \<open>?row\<close> request_only_not_in_table by (cases "request_only view signal") auto
    ultimately show ?accepts using decide_moves by blast
  qed
qed

theorem decide_accepts_iff_witness:
  "\<exists>d. decide \<lparr>v_state = RUNNING, v_pause_reason = None, v_wait_kind = None,
      v_wait_deadline_at = None, v_pause_requested = False, v_cancel_requested = False,
      v_budget_allows_execution = False\<rparr> SAFE_PAUSE_REACHED (Some LIMIT) None None = Inr d"
  unfolding decide_accepts_iff
  by (simp add: TRANSITIONS_def metadata_ok_def pause_reason_ok_def PAUSE_REASONS_def)

text \<open>
  Why a signal is refused. There is no row for it (and it is not a request to a running
  Run); or the target would execute and the budget forbids it, which is only reported when no
  pause reason was passed; and reading the table of pause reasons never fails.
\<close>

theorem decide_refusals:
  "(decide view signal r wk dl = Inl InvalidStateTransition) =
     (request_only view signal = None \<and> map_of TRANSITIONS (v_state view, signal) = None) \<and>
   (decide view signal r wk dl = Inl RunLimitReached) =
     (r = None \<and> \<not> v_budget_allows_execution view \<and>
      (\<exists>t \<in> {RunState.QUEUED, RUNNING}. map_of TRANSITIONS (v_state view, signal) = Some t)) \<and>
   decide view signal r wk dl \<noteq> Inl MissingPauseReasons"
  by (simp only: decide_invalid_iff decide_limit_iff decide_no_key_error simp_thms)

text \<open>
  C21. Every accepted decision is well formed: a pause reason exactly when the Run pauses, a
  wait kind exactly when it waits, a deadline whenever it waits on something external and
  never outside a wait, execution started by the lease and by nothing else, the request flags
  only on a running Run, and the cancel request cleared exactly on cancellation.
\<close>

theorem decide_well_formed:
  "decide view signal r wk dl = Inr d \<Longrightarrow> wf_decision d \<and> d_signal d = signal"
  by (simp add: decide_wf decide_signal)

theorem decide_well_formed_witness:
  "wf_decision ((state_decision PAUSED PAUSE_REQUESTED)
     \<lparr>d_pause_reason := Some MANUAL, d_clear_pause_request := True\<rparr>)"
  using decide_well_formed[of "\<lparr>v_state = RunState.QUEUED, v_pause_reason = None,
      v_wait_kind = None, v_wait_deadline_at = None, v_pause_requested = False,
      v_cancel_requested = False, v_budget_allows_execution = True\<rparr>" PAUSE_REQUESTED None None None
      "(state_decision PAUSED PAUSE_REQUESTED)
        \<lparr>d_pause_reason := Some MANUAL, d_clear_pause_request := True\<rparr>"]
  by (simp add: decide_defs TRANSITIONS_def PAUSE_REASONS_def RESUMING_SIGNALS_def
      state_decision_def)

text \<open>
  C31. Every action the platform offers for a Run is one the state machine accepts when it is
  submitted: nothing is offered that would be refused.
\<close>

theorem available_actions_accepted:
  assumes "a \<in> set (available_actions view can_control can_retry can_hold_budget)"
    and "action_signal a = Some signal"
  shows "\<exists>d. decide view signal None None None = Inr d"
proof (cases "request_only view signal")
  case (Some d)
  then show ?thesis by (simp add: decide_def)
next
  case None
  have row: "map_of TRANSITIONS (v_state view, signal) =
      Some (if a = Pause then PAUSED else if a = Resume then RunState.QUEUED else CANCELLED)"
    using assms None
    by (cases a; cases "v_state view")
      (auto simp: available_actions_def request_only_def TRANSITIONS_def split: if_splits)
  have "a = Resume \<Longrightarrow> v_budget_allows_execution view"
    using assms(1) by (auto simp: available_actions_def split: if_splits)
  moreover have "metadata_ok PAUSED PAUSE_REQUESTED None None None"
    by (simp add: metadata_ok_def pause_reason_ok_def PAUSE_REASONS_def)
  ultimately show ?thesis
    using decide_moves[OF None row, of None None None] assms(2)
    by (cases a) (auto simp: metadata_ok_def)
qed

theorem available_actions_accepted_witness:
  "\<exists>d. decide \<lparr>v_state = PAUSED, v_pause_reason = Some MANUAL, v_wait_kind = None,
      v_wait_deadline_at = None, v_pause_requested = False, v_cancel_requested = False,
      v_budget_allows_execution = True\<rparr> RESUME_REQUESTED None None None = Inr d"
  by (rule available_actions_accepted[of Resume _ True False False])
    (simp_all add: available_actions_def)

text \<open>
  C32. No dead ends: whatever state a Run is in and even with its budget spent, the machine has
  a way to \<open>cancelled\<close>, unless the Run is already terminal; from a terminal state
  there is no step at all.
\<close>

theorem run_can_always_end:
  "(s \<notin> TERMINAL_STATES \<and> can_move\<^sup>*\<^sup>* s CANCELLED) \<or>
   (s \<in> TERMINAL_STATES \<and> (\<forall>t. \<not> can_move s t))"
proof (cases "s \<in> TERMINAL_STATES")
  case True
  then show ?thesis by (auto dest: can_move_source)
next
  case False
  then show ?thesis
    by (cases s) (auto intro: can_move_cancel can_move_from_running)
qed

theorem run_can_always_end_witness: "can_move\<^sup>*\<^sup>* RUNNING CANCELLED"
  using run_can_always_end[of RUNNING] by simp

end
