(* ===== verification/Slice_Policy.thy ===== *)
theory Slice_Policy
  imports Goal_Judge Run_State_Machine
begin

text \<open>
  \<^verbatim>\<open>runs/domain/slice_policy.py\<close>: what ends a round. \<open>decide_after_round\<close>
  turns everything the Worker observed into one signal for the state machine; the order of
  its tests is the product rule. The ports' \<open>ApprovalCheck\<close> and
  \<open>DelegationWait\<close>, which it reads, are here too. The clock the source reads with
  \<open>datetime.now\<close> is an argument.
\<close>

section \<open>Definitions\<close>

text \<open>\<^verbatim>\<open>runs/ports/approvals.py\<close> and \<^verbatim>\<open>runs/ports/children.py\<close>.\<close>

datatype ApprovalVerdict = APPROVED | REQUESTED | PENDING | UNAVAILABLE

record ApprovalCheck =
  ac_verdict :: ApprovalVerdict
  ac_approval_id :: "nat option"
  ac_expires_at :: "datetime option"
  ac_detail :: pystr

definition proceeds :: "ApprovalCheck \<Rightarrow> bool" where
  "proceeds check \<longleftrightarrow> ac_verdict check = APPROVED"

record DelegationWait =
  dw_child_run_ids :: "nat list"
  dw_policy :: WaitPolicy
  dw_seconds :: int

record RoundOutcome =
  ro_verdict :: GoalVerdict
  ro_cancel_requested :: bool
  ro_pause_requested :: bool
  ro_budget_allows :: bool
  ro_slice_expired :: bool
  ro_hold_slice :: bool
  ro_compat_window_expired :: bool
  ro_approval :: "ApprovalCheck option"
  ro_delegated :: "DelegationWait option"
  ro_user_waiting :: bool
  ro_rounds_exhausted :: bool

record SliceDecision =
  sl_signal :: "RunSignal option"
  sl_pause_reason :: "PauseReason option"
  sl_limit_reached :: bool
  sl_limit_valve :: pystr
  sl_wait_kind :: "pystr option"
  sl_wait_seconds :: "int option"
  sl_wait_policy :: "WaitPolicy option"
  sl_retry_after_seconds :: "int option"

definition slice_decision :: "RunSignal option \<Rightarrow> PauseReason option \<Rightarrow> SliceDecision" where
  "slice_decision signal reason =
     \<lparr>sl_signal = signal, sl_pause_reason = reason, sl_limit_reached = False,
      sl_limit_valve = py ''budget'', sl_wait_kind = None, sl_wait_seconds = None,
      sl_wait_policy = None, sl_retry_after_seconds = None\<rparr>"

definition keeps_lease :: "SliceDecision \<Rightarrow> bool" where
  "keeps_lease d \<longleftrightarrow> sl_signal d = None"

definition awaiting :: "datetime \<Rightarrow> ApprovalCheck \<Rightarrow> SliceDecision" where
  "awaiting now check =
     (if ac_verdict check = UNAVAILABLE
      then slice_decision (Some SAFE_PAUSE_REACHED) (Some APPROVAL_UNAVAILABLE)
      else (case ac_expires_at check of
              None \<Rightarrow> slice_decision (Some SAFE_PAUSE_REACHED) (Some APPROVAL_UNAVAILABLE)
            | Some expires_at \<Rightarrow>
                (let remaining = total_seconds_int (expires_at - now) in
                 if remaining \<le> 0
                 then slice_decision (Some SAFE_PAUSE_REACHED) (Some APPROVAL_EXPIRED)
                 else (slice_decision (Some APPROVAL_REQUESTED) None)
                        \<lparr>sl_wait_kind := Some WAIT_APPROVAL,
                         sl_wait_seconds := Some remaining\<rparr>)))"

definition ends_the_run :: "RoundOutcome \<Rightarrow> bool" where
  "ends_the_run outcome \<longleftrightarrow>
     ro_approval outcome = None \<and> ro_delegated outcome = None \<and>
     gv_outcome (ro_verdict outcome) \<in> {DONE, GoalOutcome.FAILED}"

definition decide_after_round :: "datetime \<Rightarrow> RoundOutcome \<Rightarrow> SliceDecision" where
  "decide_after_round now outcome =
     (if ro_cancel_requested outcome then slice_decision (Some SAFE_CANCEL_STARTED) None
      else if ro_pause_requested outcome
        then slice_decision (Some SAFE_PAUSE_REACHED) (Some MANUAL)
      else if \<not> ro_budget_allows outcome \<and> \<not> ends_the_run outcome
        then (slice_decision (Some SAFE_PAUSE_REACHED) (Some LIMIT))\<lparr>sl_limit_reached := True\<rparr>
      else
     (case ro_approval outcome of Some check \<Rightarrow> awaiting now check | None \<Rightarrow>
     (case ro_delegated outcome of
        Some d \<Rightarrow>
          (slice_decision (Some EXTERNAL_WAIT_STARTED) None)
            \<lparr>sl_wait_kind := Some WAIT_CHILD_RUNS, sl_wait_seconds := Some (dw_seconds d),
             sl_wait_policy := Some (dw_policy d)\<rparr>
      | None \<Rightarrow>
          if gv_outcome (ro_verdict outcome) = DONE
            then slice_decision (Some RunSignal.COMPLETED) None
          else if gv_outcome (ro_verdict outcome) = GoalOutcome.FAILED
            then slice_decision (Some RunSignal.FAILED) None
          else if gv_outcome (ro_verdict outcome) = UNDECIDABLE
            then slice_decision (Some SAFE_PAUSE_REACHED) (Some OPERATOR)
          else if ro_rounds_exhausted outcome
            then (slice_decision (Some SAFE_PAUSE_REACHED) (Some LIMIT))
                   \<lparr>sl_limit_reached := True, sl_limit_valve := py ''max_rounds''\<rparr>
          else if gv_outcome (ro_verdict outcome) = WAIT
            then (slice_decision (Some EXTERNAL_WAIT_STARTED) None)
                   \<lparr>sl_wait_kind := Some WAIT_TIMER,
                    sl_wait_seconds := gv_wait_seconds (ro_verdict outcome)\<rparr>
          else if ro_compat_window_expired outcome
            then slice_decision (Some SAFE_PAUSE_REACHED) (Some COMPAT_TIMEOUT)
          else if ro_user_waiting outcome
            then slice_decision (Some RunSignal.COMPLETED) None
          else if ro_slice_expired outcome
            then (if ro_hold_slice outcome then slice_decision None None
                  else slice_decision (Some SLICE_ENDED) None)
          else slice_decision None None)))"

section \<open>Lemmas\<close>

lemma slice_decision_simps [simp]:
  "sl_signal (slice_decision s r) = s" "sl_pause_reason (slice_decision s r) = r"
  "sl_wait_kind (slice_decision s r) = None" "sl_wait_seconds (slice_decision s r) = None"
  "sl_wait_policy (slice_decision s r) = None" "sl_limit_reached (slice_decision s r) = False"
  by (simp_all add: slice_decision_def)

text \<open>
  How \<open>record_slice\<close> submits a decision: the wait becomes a deadline on the
  transaction's own clock.
\<close>

definition submit :: "datetime \<Rightarrow> RunStateView \<Rightarrow> RunSignal \<Rightarrow> SliceDecision \<Rightarrow>
    (RunStateError, StateDecision) result" where
  "submit now view signal d =
     decide view signal (sl_pause_reason d) (sl_wait_kind d)
       (map_option (\<lambda>s. now + timedelta_seconds s) (sl_wait_seconds d))"

definition approval_pause :: "SliceDecision \<Rightarrow> bool" where
  "approval_pause d \<longleftrightarrow> sl_pause_reason d \<in> {Some APPROVAL_UNAVAILABLE, Some APPROVAL_EXPIRED}"

text \<open>The part of an outcome that the approval branch decides on.\<close>

lemma awaiting_cases:
  obtains (unavailable) "ac_verdict check = UNAVAILABLE \<or> ac_expires_at check = None"
      "awaiting now check = slice_decision (Some SAFE_PAUSE_REACHED) (Some APPROVAL_UNAVAILABLE)"
  | (expired) e where "ac_verdict check \<noteq> UNAVAILABLE" "ac_expires_at check = Some e"
      "e < now + 1000000"
      "awaiting now check = slice_decision (Some SAFE_PAUSE_REACHED) (Some APPROVAL_EXPIRED)"
  | (waits) e s where "ac_verdict check \<noteq> UNAVAILABLE" "ac_expires_at check = Some e"
      "now + 1000000 \<le> e" "s > 0"
      "awaiting now check = (slice_decision (Some APPROVAL_REQUESTED) None)
         \<lparr>sl_wait_kind := Some WAIT_APPROVAL, sl_wait_seconds := Some s\<rparr>"
proof (cases "ac_verdict check = UNAVAILABLE \<or> ac_expires_at check = None")
  case True
  then show ?thesis by (intro unavailable) (auto simp: awaiting_def)
next
  case False
  then obtain e where e: "ac_verdict check \<noteq> UNAVAILABLE" "ac_expires_at check = Some e"
    by auto
  show ?thesis
  proof (cases "0 < total_seconds_int (e - now)")
    case True
    then have "now + 1000000 \<le> e" by (simp add: total_seconds_int_pos)
    then show ?thesis using e True waits[of e "total_seconds_int (e - now)"]
      by (simp add: awaiting_def Let_def)
  next
    case False
    then have "e < now + 1000000" by (simp add: total_seconds_int_pos)
    then show ?thesis using e False expired[of e]
      by (simp add: awaiting_def Let_def)
  qed
qed

lemma submit_row:
  assumes "v_state view = RUNNING"
    and "map_of TRANSITIONS (RUNNING, signal) = Some t"
    and "t \<in> {RunState.QUEUED, RUNNING} \<Longrightarrow> v_budget_allows_execution view"
  shows "(\<exists>s. submit now view signal d = Inr s) \<longleftrightarrow>
    metadata_ok t signal (sl_pause_reason d) (sl_wait_kind d)
      (map_option (\<lambda>s. now + timedelta_seconds s) (sl_wait_seconds d))"
proof -
  have none: "request_only view signal = None"
    using assms(1,2) request_only_not_in_table[of view signal]
    by (cases "request_only view signal") auto
  show ?thesis
  proof
    assume "\<exists>s. submit now view signal d = Inr s"
    then obtain s where "submit now view signal d = Inr s" by blast
    then show "metadata_ok t signal (sl_pause_reason d) (sl_wait_kind d)
        (map_option (\<lambda>s. now + timedelta_seconds s) (sl_wait_seconds d))"
      unfolding submit_def
      by (cases rule: decide_Inr_cases) (use none assms in auto)
  next
    assume "metadata_ok t signal (sl_pause_reason d) (sl_wait_kind d)
        (map_option (\<lambda>s. now + timedelta_seconds s) (sl_wait_seconds d))"
    then have "\<exists>s. decide view signal (sl_pause_reason d) (sl_wait_kind d)
        (map_option (\<lambda>s. now + timedelta_seconds s) (sl_wait_seconds d)) = Inr s \<and> d_state s = t"
      using none assms by (intro decide_moves) auto
    then show "\<exists>s. submit now view signal d = Inr s"
      unfolding submit_def by blast
  qed
qed

text \<open>
  A slice decision names a row of the table from \<open>running\<close>, and its metadata fits
  that row's target unless it is a pause for an approval.
\<close>

definition slice_row :: "bool \<Rightarrow> SliceDecision \<Rightarrow> bool" where
  "slice_row budget d \<longleftrightarrow>
     (case sl_signal d of
        None \<Rightarrow> True
      | Some signal \<Rightarrow>
          (case map_of TRANSITIONS (RUNNING, signal) of
             None \<Rightarrow> False
           | Some t \<Rightarrow>
               (t \<in> {RunState.QUEUED, RUNNING} \<longrightarrow> budget) \<and>
               (\<forall>now. metadata_ok t signal (sl_pause_reason d) (sl_wait_kind d)
                  (map_option (\<lambda>s. now + timedelta_seconds s) (sl_wait_seconds d)) \<longleftrightarrow>
                  \<not> approval_pause d)))"

lemma slice_row_basic:
  "slice_row b (slice_decision None None)"
  "slice_row b (slice_decision (Some SAFE_CANCEL_STARTED) None)"
  "slice_row b (slice_decision (Some RunSignal.COMPLETED) None)"
  "slice_row b (slice_decision (Some RunSignal.FAILED) None)"
  "slice_row True (slice_decision (Some SLICE_ENDED) None)"
  by (simp_all add: slice_row_def TRANSITIONS_def metadata_ok_def approval_pause_def)

lemma slice_row_pause:
  "sl_signal d = Some SAFE_PAUSE_REACHED \<Longrightarrow> sl_wait_kind d = None \<Longrightarrow>
   sl_wait_seconds d = None \<Longrightarrow>
   sl_pause_reason d \<in> {Some MANUAL, Some LIMIT, Some OPERATOR, Some COMPAT_TIMEOUT,
     Some APPROVAL_UNAVAILABLE, Some APPROVAL_EXPIRED} \<Longrightarrow> slice_row b d"
  by (auto simp: slice_row_def TRANSITIONS_def metadata_ok_def approval_pause_def
      pause_reason_ok_def PAUSE_REASONS_def)

lemma slice_row_wait:
  "sl_signal d = Some EXTERNAL_WAIT_STARTED \<Longrightarrow> sl_pause_reason d = None \<Longrightarrow>
   sl_wait_seconds d = Some s \<Longrightarrow> slice_row b d"
  by (simp add: slice_row_def TRANSITIONS_def metadata_ok_def approval_pause_def)

lemma slice_row_approval:
  "sl_signal d = Some APPROVAL_REQUESTED \<Longrightarrow> sl_pause_reason d = None \<Longrightarrow>
   sl_wait_kind d = Some WAIT_APPROVAL \<Longrightarrow> slice_row b d"
  by (simp add: slice_row_def TRANSITIONS_def metadata_ok_def approval_pause_def
      WAIT_APPROVAL_def py_strip_def py_def is_space_def)

lemma awaiting_row: "slice_row b (awaiting now check)"
  by (cases rule: awaiting_cases[of check now])
    (simp_all add: slice_row_pause slice_row_approval)

lemma decide_after_round_judged_row:
  assumes "ro_verdict outcome = judge p e"
    and "\<not> ro_cancel_requested outcome" "\<not> ro_pause_requested outcome"
    and "ro_budget_allows outcome \<or> ends_the_run outcome"
    and "ro_approval outcome = None" "ro_delegated outcome = None"
  shows "slice_row (ro_budget_allows outcome) (decide_after_round now outcome)"
proof (cases "gv_outcome (judge p e)")
  case WAIT
  then obtain s where "gv_wait_seconds (judge p e) = Some s"
    using judge_wait_seconds(2) by blast
  with WAIT assms show ?thesis
    by (simp add: decide_after_round_def ends_the_run_def slice_row_pause slice_row_wait)
qed (use assms in \<open>simp_all add: decide_after_round_def ends_the_run_def
       slice_row_basic slice_row_pause\<close>)

lemma decide_after_round_row:
  assumes "ro_verdict outcome = judge p e"
  shows "slice_row (ro_budget_allows outcome) (decide_after_round now outcome)"
proof -
  consider (stop) "ro_cancel_requested outcome \<or> ro_pause_requested outcome \<or>
      (\<not> ro_budget_allows outcome \<and> \<not> ends_the_run outcome)"
    | (asks) check where "\<not> ro_cancel_requested outcome" "\<not> ro_pause_requested outcome"
      "ro_budget_allows outcome \<or> ends_the_run outcome" "ro_approval outcome = Some check"
    | (delegates) dw where "\<not> ro_cancel_requested outcome" "\<not> ro_pause_requested outcome"
      "ro_budget_allows outcome \<or> ends_the_run outcome" "ro_approval outcome = None"
      "ro_delegated outcome = Some dw"
    | (judged) "\<not> ro_cancel_requested outcome" "\<not> ro_pause_requested outcome"
      "ro_budget_allows outcome \<or> ends_the_run outcome" "ro_approval outcome = None"
      "ro_delegated outcome = None"
    by blast
  then show ?thesis
  proof cases
    case stop
    then show ?thesis
      by (cases "ro_cancel_requested outcome"; cases "ro_pause_requested outcome")
        (simp_all add: decide_after_round_def slice_row_basic slice_row_pause)
  next
    case asks
    then show ?thesis by (auto simp: decide_after_round_def awaiting_row)
  next
    case delegates
    then show ?thesis by (auto simp: decide_after_round_def slice_row_wait)
  next
    case judged
    with assms show ?thesis by (intro decide_after_round_judged_row)
  qed
qed

section \<open>Properties\<close>

text \<open>
  C7. The policy and the state machine agree, with one exception. For a running Run whose
  round was judged, whatever signal \<open>decide_after_round\<close> chooses is accepted by the
  state machine when \<open>record_slice\<close> submits it, except that a pause for an approval
  that is unavailable or has expired is always refused as invalid metadata: the policy sends it
  under \<open>safe_pause_reached\<close>, which admits neither reason.
\<close>

theorem slice_decision_accepted_iff:
  assumes "ro_verdict outcome = judge p e"
    and "v_state view = RUNNING"
    and "v_budget_allows_execution view = ro_budget_allows outcome"
    and "sl_signal (decide_after_round now outcome) = Some signal"
  shows "(\<exists>d. submit now' view signal (decide_after_round now outcome) = Inr d) \<longleftrightarrow>
    \<not> approval_pause (decide_after_round now outcome)"
proof -
  have "slice_row (ro_budget_allows outcome) (decide_after_round now outcome)"
    using assms(1) by (rule decide_after_round_row)
  then obtain t where t: "map_of TRANSITIONS (RUNNING, signal) = Some t"
    "t \<in> {RunState.QUEUED, RUNNING} \<Longrightarrow> v_budget_allows_execution view"
    "\<forall>now'. metadata_ok t signal (sl_pause_reason (decide_after_round now outcome))
       (sl_wait_kind (decide_after_round now outcome))
       (map_option (\<lambda>s. now' + timedelta_seconds s)
         (sl_wait_seconds (decide_after_round now outcome))) \<longleftrightarrow>
       \<not> approval_pause (decide_after_round now outcome)"
    using assms(3,4) by (auto simp: slice_row_def split: option.splits)
  with submit_row[OF assms(2) t(1,2), of now'] show ?thesis by blast
qed

definition unavailable_outcome :: RoundOutcome where
  "unavailable_outcome =
     \<lparr>ro_verdict = judge \<lparr>gp_stop_reason = TOOL_CALL, gp_wait_seconds = None\<rparr>
        \<lparr>ge_declared = False, ge_checks = [], ge_observable = True\<rparr>,
      ro_cancel_requested = False, ro_pause_requested = False, ro_budget_allows = True,
      ro_slice_expired = False, ro_hold_slice = False, ro_compat_window_expired = False,
      ro_approval = Some \<lparr>ac_verdict = UNAVAILABLE, ac_approval_id = None,
        ac_expires_at = None, ac_detail = []\<rparr>,
      ro_delegated = None, ro_user_waiting = False, ro_rounds_exhausted = False\<rparr>"

theorem slice_decision_accepted_iff_witness:
  "\<not> (\<exists>d. submit 0 \<lparr>v_state = RUNNING, v_pause_reason = None, v_wait_kind = None,
      v_wait_deadline_at = None, v_pause_requested = False, v_cancel_requested = False,
      v_budget_allows_execution = True\<rparr> SAFE_PAUSE_REACHED
      (decide_after_round 0 unavailable_outcome) = Inr d)"
  by (subst slice_decision_accepted_iff
      [of _ "\<lparr>gp_stop_reason = TOOL_CALL, gp_wait_seconds = None\<rparr>"
          "\<lparr>ge_declared = False, ge_checks = [], ge_observable = True\<rparr>"])
    (simp_all add: unavailable_outcome_def decide_after_round_def awaiting_def approval_pause_def)


text \<open>
  A user's own signals outrank everything: a requested cancellation always starts the
  cancellation, and a requested pause pauses manually, whatever the verdict, the budget and
  the pending approval say; and when neither is there and the budget is spent, a Run that
  needs another round is paused for the limit and says so.
\<close>

theorem decide_after_round_priority:
  "(ro_cancel_requested outcome \<longrightarrow>
      decide_after_round now outcome = slice_decision (Some SAFE_CANCEL_STARTED) None) \<and>
   (\<not> ro_cancel_requested outcome \<and> ro_pause_requested outcome \<longrightarrow>
      decide_after_round now outcome = slice_decision (Some SAFE_PAUSE_REACHED) (Some MANUAL)) \<and>
   (\<not> ro_cancel_requested outcome \<and> \<not> ro_pause_requested outcome \<and>
    \<not> ro_budget_allows outcome \<longrightarrow>
      (if ends_the_run outcome
       then sl_signal (decide_after_round now outcome) \<in>
              {Some RunSignal.COMPLETED, Some RunSignal.FAILED}
       else sl_pause_reason (decide_after_round now outcome) = Some LIMIT \<and>
            sl_limit_reached (decide_after_round now outcome)))"
  by (auto simp: decide_after_round_def ends_the_run_def)

theorem decide_after_round_priority_witness:
  "decide_after_round 0 (unavailable_outcome\<lparr>ro_cancel_requested := True\<rparr>) =
   slice_decision (Some SAFE_CANCEL_STARTED) None"
  using decide_after_round_priority[of "unavailable_outcome\<lparr>ro_cancel_requested := True\<rparr>" 0]
  by simp

end
