(* ===== verification/Run_Messages.thy ===== *)
theory Run_Messages
  imports Run_Models
begin

text \<open>
  The transcript of \<^verbatim>\<open>runs/domain/models.py\<close>: blocks, messages and stored
  messages, the documents they are written as and \<open>message_from_document\<close>, which
  reads a row back and tolerates what a later version wrote. The dataclasses refuse an empty
  call id, an empty tool name and an empty turn; the smart constructors \<open>tool_call\<close>,
  \<open>tool_result\<close> and \<open>canonical_message\<close> carry those refusals.
\<close>

section \<open>Blocks and messages\<close>

record ToolCallBlock =
  tc_call_id :: pystr
  tc_name :: pystr
  tc_arguments :: jobject

record ToolResultBlock =
  tr_call_id :: pystr
  tr_output :: pystr
  tr_exit_code :: int
  tr_failed :: bool

datatype Block =
    TextBlock pystr
  | ReasoningBlock pystr
  | ImageBlock pystr pystr
  | FileBlock pystr pystr
  | BToolCall ToolCallBlock
  | BToolResult ToolResultBlock

datatype Role = RUser | RAssistant | RTool

datatype Author = APlatform

record CanonicalMessage =
  m_role :: Role
  m_blocks :: "Block list"
  m_author :: "Author option"

record StoredMessage =
  s_id :: nat
  s_sequence :: int
  s_message :: CanonicalMessage
  s_withdrawn_at :: "datetime option"
  s_source_run_id :: "nat option"

definition tool_call ::
  "pystr \<Rightarrow> pystr \<Rightarrow> jobject \<Rightarrow> (py_error, ToolCallBlock) result" where
  "tool_call call_id name arguments =
     (if call_id = [] then Inl ValueError
      else if name = [] then Inl ValueError
      else Inr \<lparr>tc_call_id = call_id, tc_name = name, tc_arguments = arguments\<rparr>)"

definition tool_result ::
  "pystr \<Rightarrow> pystr \<Rightarrow> int \<Rightarrow> bool \<Rightarrow> (py_error, ToolResultBlock) result" where
  "tool_result call_id output exit_code failed =
     (if call_id = [] then Inl ValueError
      else Inr \<lparr>tr_call_id = call_id, tr_output = output, tr_exit_code = exit_code,
                tr_failed = failed\<rparr>)"

definition canonical_message ::
  "Role \<Rightarrow> Block list \<Rightarrow> Author option \<Rightarrow> (py_error, CanonicalMessage) result" where
  "canonical_message role blocks author =
     (if blocks = [] then Inl ValueError
      else Inr \<lparr>m_role = role, m_blocks = blocks, m_author = author\<rparr>)"

fun text_of_block :: "Block \<Rightarrow> pystr option" where
  "text_of_block (TextBlock t) = Some t"
| "text_of_block _ = None"

fun result_of_block :: "Block \<Rightarrow> ToolResultBlock option" where
  "result_of_block (BToolResult r) = Some r"
| "result_of_block _ = None"

fun call_of_block :: "Block \<Rightarrow> ToolCallBlock option" where
  "call_of_block (BToolCall c) = Some c"
| "call_of_block _ = None"

definition message_text :: "CanonicalMessage \<Rightarrow> pystr" where
  "message_text m = concat (filter_map text_of_block (m_blocks m))"

section \<open>Documents\<close>

fun block_document :: "Block \<Rightarrow> jobject" where
  "block_document (TextBlock t) = [(py ''type'', JStr (py ''text'')), (py ''text'', JStr t)]"
| "block_document (ReasoningBlock t) =
     [(py ''type'', JStr (py ''reasoning'')), (py ''text'', JStr t)]"
| "block_document (ImageBlock reference media_type) =
     [(py ''type'', JStr (py ''image'')), (py ''reference'', JStr reference),
      (py ''media_type'', JStr media_type)]"
| "block_document (FileBlock reference name) =
     [(py ''type'', JStr (py ''file'')), (py ''reference'', JStr reference),
      (py ''name'', JStr name)]"
| "block_document (BToolCall c) =
     [(py ''type'', JStr (py ''tool_call'')), (py ''call_id'', JStr (tc_call_id c)),
      (py ''name'', JStr (tc_name c)), (py ''arguments'', JDict (tc_arguments c))]"
| "block_document (BToolResult r) =
     [(py ''type'', JStr (py ''tool_result'')), (py ''call_id'', JStr (tr_call_id r)),
      (py ''output'', JStr (tr_output r)), (py ''exit_code'', JInt (tr_exit_code r)),
      (py ''failed'', JBool (tr_failed r))]"

fun role_value :: "Role \<Rightarrow> pystr" where
  "role_value RUser = py ''user''"
| "role_value RAssistant = py ''assistant''"
| "role_value RTool = py ''tool''"

definition message_document :: "CanonicalMessage \<Rightarrow> jobject" where
  "message_document m =
     [(py ''role'', JStr (role_value (m_role m))),
      (py ''parts'', JList (map (\<lambda>b. JDict (block_document b)) (m_blocks m)))] @
     (case m_author m of None \<Rightarrow> [] | Some APlatform \<Rightarrow> [(py ''author'', JStr (py ''platform''))])"

text \<open>One entry of \<open>parts\<close>: \<open>None\<close> when it is skipped.\<close>

definition str_field :: "(nat \<Rightarrow> bool) \<Rightarrow> jobject \<Rightarrow> string \<Rightarrow> pystr" where
  "str_field prn part k = py_str prn (jget_or part (py k) (JStr []))"

definition block_from_part ::
  "(nat \<Rightarrow> bool) \<Rightarrow> jobject \<Rightarrow> (py_error, Block option) result" where
  "block_from_part prn part =
     (let kind = jget part (py ''type'') in
      if kind = Some (JStr (py ''text'')) then
        Inr (Some (TextBlock (str_field prn part ''text'')))
      else if kind = Some (JStr (py ''reasoning'')) then
        Inr (Some (ReasoningBlock (str_field prn part ''text'')))
      else if kind = Some (JStr (py ''image'')) then
        Inr (Some (ImageBlock (str_field prn part ''reference'') (str_field prn part ''media_type'')))
      else if kind = Some (JStr (py ''file'')) then
        Inr (Some (FileBlock (str_field prn part ''reference'') (str_field prn part ''name'')))
      else if kind = Some (JStr (py ''tool_call'')) then
        map_sum id (Some \<circ> BToolCall)
          (tool_call (str_field prn part ''call_id'') (str_field prn part ''name'')
            (case jget part (py ''arguments'') of Some (JDict d) \<Rightarrow> d | _ \<Rightarrow> []))
      else if kind = Some (JStr (py ''tool_result'')) then
        bind_res
          (let code = jget_or part (py ''exit_code'') JNull
           in if py_bool code then py_int_of code else Inr 0)
          (\<lambda>code. map_sum id (Some \<circ> BToolResult)
            (tool_result (str_field prn part ''call_id'') (str_field prn part ''output'') code
              (py_bool (jget_or part (py ''failed'') JNull))))
      else Inr None)"

fun blocks_from_parts ::
  "(nat \<Rightarrow> bool) \<Rightarrow> json list \<Rightarrow> (py_error, Block list) result" where
  "blocks_from_parts prn [] = Inr []"
| "blocks_from_parts prn (JDict part # entries) =
     bind_res (block_from_part prn part) (\<lambda>b.
     bind_res (blocks_from_parts prn entries) (\<lambda>bs.
       Inr (case b of None \<Rightarrow> bs | Some b' \<Rightarrow> b' # bs)))"
| "blocks_from_parts prn (_ # entries) = blocks_from_parts prn entries"

definition message_from_document ::
  "(nat \<Rightarrow> bool) \<Rightarrow> jobject \<Rightarrow> (py_error, CanonicalMessage) result" where
  "message_from_document prn document =
     bind_res
       (blocks_from_parts prn (case jget document (py ''parts'') of Some (JList xs) \<Rightarrow> xs | _ \<Rightarrow> []))
       (\<lambda>blocks.
          let role = py_str prn (jget_or document (py ''role'') (JStr (py ''user'')));
              author = (if jget document (py ''author'') = Some (JStr (py ''platform''))
                        then Some APlatform else None)
          in canonical_message
               (if role = py ''assistant'' then RAssistant
                else if role = py ''tool'' then RTool else RUser)
               (if blocks = [] then [TextBlock []] else blocks) author)"

section \<open>Well-formed blocks and the calls they make or answer\<close>

text \<open>What \<open>__post_init__\<close> guarantees of every object in memory.\<close>

fun wf_block :: "Block \<Rightarrow> bool" where
  "wf_block (BToolCall c) = (tc_call_id c \<noteq> [] \<and> tc_name c \<noteq> [])"
| "wf_block (BToolResult r) = (tr_call_id r \<noteq> [])"
| "wf_block _ = True"

definition wf_message :: "CanonicalMessage \<Rightarrow> bool" where
  "wf_message m \<longleftrightarrow> m_blocks m \<noteq> [] \<and> list_all wf_block (m_blocks m)"

fun called_id :: "Block \<Rightarrow> pystr option" where
  "called_id (BToolCall c) = Some (tc_call_id c)"
| "called_id _ = None"

fun answered_id :: "Block \<Rightarrow> pystr option" where
  "answered_id (BToolResult r) = Some (tr_call_id r)"
| "answered_id _ = None"

definition called_ids :: "CanonicalMessage \<Rightarrow> pystr list" where
  "called_ids m = filter_map called_id (m_blocks m)"

definition answered_ids :: "CanonicalMessage \<Rightarrow> pystr list" where
  "answered_ids m = filter_map answered_id (m_blocks m)"

section \<open>Lemmas\<close>

lemma Author_unique: "a = APlatform"
  by (cases a) simp

lemma canonical_message_wf:
  "canonical_message role blocks author = Inr m \<Longrightarrow> list_all wf_block blocks \<Longrightarrow> wf_message m"
  by (auto simp: canonical_message_def wf_message_def split: if_splits)

lemma block_document_roundtrip:
  "wf_block b \<Longrightarrow> block_from_part prn (block_document b) = Inr (Some b)"
  by (cases b)
    (auto simp: block_from_part_def str_field_def jget_or_def tool_call_def tool_result_def)

lemma blocks_from_parts_roundtrip:
  "list_all wf_block bs \<Longrightarrow>
   blocks_from_parts prn (map (\<lambda>b. JDict (block_document b)) bs) = Inr bs"
  by (induction bs) (auto simp: block_document_roundtrip)

lemma block_from_part_wf:
  "block_from_part prn part = Inr (Some b) \<Longrightarrow> wf_block b"
  by (auto simp: block_from_part_def Let_def tool_call_def tool_result_def map_sum_def
      split: if_splits sum.splits)

lemma blocks_from_parts_wf:
  "blocks_from_parts prn entries = Inr bs \<Longrightarrow> list_all wf_block bs"
  by (induction prn entries arbitrary: bs rule: blocks_from_parts.induct)
    (auto split: option.splits dest: block_from_part_wf)

lemma message_from_document_wf:
  "message_from_document prn document = Inr m \<Longrightarrow> wf_message m"
  by (auto simp: message_from_document_def Let_def canonical_message_def wf_message_def
      dest!: blocks_from_parts_wf split: if_splits)

definition document_parts :: "jobject \<Rightarrow> json list" where
  "document_parts document = (case jget document (py ''parts'') of Some (JList xs) \<Rightarrow> xs | _ \<Rightarrow> [])"

definition part_raises :: "(nat \<Rightarrow> bool) \<Rightarrow> jobject \<Rightarrow> bool" where
  "part_raises prn part \<longleftrightarrow>
     jget part (py ''type'') = Some (JStr (py ''tool_call'')) \<and>
       (str_field prn part ''call_id'' = [] \<or> str_field prn part ''name'' = []) \<or>
     jget part (py ''type'') = Some (JStr (py ''tool_result'')) \<and>
       (str_field prn part ''call_id'' = [] \<or>
        (let code = jget_or part (py ''exit_code'') JNull
         in py_bool code \<and> (\<exists>e. py_int_of code = Inl e)))"

lemma block_from_part_raises_iff:
  "(\<exists>e. block_from_part prn part = Inl e) \<longleftrightarrow> part_raises prn part"
  by (cases "py_int_of (jget_or part (py ''exit_code'') JNull)")
    (auto simp: block_from_part_def part_raises_def Let_def tool_call_def tool_result_def)

lemma blocks_from_parts_raises_iff:
  "(\<exists>e. blocks_from_parts prn entries = Inl e) \<longleftrightarrow>
   (\<exists>part. JDict part \<in> set entries \<and> part_raises prn part)"
proof (induction prn entries rule: blocks_from_parts.induct)
  case (2 prn part entries)
  then show ?case
    using block_from_part_raises_iff[of prn part]
    by (cases "block_from_part prn part") (auto simp: bind_res_eq_Inl)
qed auto

lemma message_document_roundtrip_lemma:
  "wf_message m \<Longrightarrow> message_from_document prn (message_document m) = Inr m"
proof -
  assume wf: "wf_message m"
  then have "blocks_from_parts prn (map (\<lambda>b. JDict (block_document b)) (m_blocks m)) =
      Inr (m_blocks m)"
    by (simp add: wf_message_def blocks_from_parts_roundtrip)
  moreover have "m_blocks m \<noteq> []"
    using wf by (simp add: wf_message_def)
  ultimately show ?thesis
    by (cases m; cases "m_role m"; cases "m_author m")
      (auto simp: message_from_document_def message_document_def canonical_message_def
        jget_or_def Let_def intro: Author_unique[symmetric] split: Author.splits)
qed

section \<open>Properties\<close>

text \<open>
  C36. A stored message reads back as the message that was written, whatever blocks it has:
  the document is a faithful copy.
\<close>

theorem message_document_roundtrip:
  "wf_message m \<Longrightarrow> message_from_document prn (message_document m) = Inr m"
  by (rule message_document_roundtrip_lemma)

theorem message_document_roundtrip_witness:
  "message_from_document (\<lambda>_. False) (message_document
     \<lparr>m_role = RTool, m_blocks = [BToolResult \<lparr>tr_call_id = py ''c1'', tr_output = py ''ok'',
        tr_exit_code = 0, tr_failed = False\<rparr>], m_author = None\<rparr>) =
   Inr \<lparr>m_role = RTool, m_blocks = [BToolResult \<lparr>tr_call_id = py ''c1'', tr_output = py ''ok'',
        tr_exit_code = 0, tr_failed = False\<rparr>], m_author = None\<rparr>"
  by (rule message_document_roundtrip) (simp add: wf_message_def)



end
