(* ===== verification/Context_Budget.thy ===== *)
theory Context_Budget
  imports Run_Messages
begin

text \<open>
  The budget half of \<^verbatim>\<open>runs/domain/context_budget.py\<close>: the segment table, the
  window an endpoint declares, and \<open>fit_budget\<close>, which measures a table against a
  window at publish time; with the adjustments an Agent author may make to the table
  (\<^verbatim>\<open>agents/domain/models.py\<close>, \<open>SegmentOverride\<close> and
  \<open>ContextBudget\<close>) and the checks \<^verbatim>\<open>agents/application/service.py\<close> runs
  on them at publish. Every table of the program starts as a copy of
  \<open>DEFAULT_SEGMENTS\<close>, so a table is a function of the segment, walked in the order
  of the enumeration.
\<close>

section \<open>The segment table\<close>

datatype SegmentName =
  SAFETY_RULES | PERSONALITY | SKILL_SUMMARIES | MEMORY | TOOL_SCHEMAS | OLD_TOOL_RESULTS |
  RECENT_HISTORY

definition SegmentName_members :: "SegmentName list" where
  "SegmentName_members =
     [SAFETY_RULES, PERSONALITY, SKILL_SUMMARIES, MEMORY, TOOL_SCHEMAS, OLD_TOOL_RESULTS,
      RECENT_HISTORY]"

fun SegmentName_value :: "SegmentName \<Rightarrow> pystr" where
  "SegmentName_value SAFETY_RULES = py ''safety_rules''"
| "SegmentName_value PERSONALITY = py ''personality''"
| "SegmentName_value SKILL_SUMMARIES = py ''skill_summaries''"
| "SegmentName_value MEMORY = py ''memory''"
| "SegmentName_value TOOL_SCHEMAS = py ''tool_schemas''"
| "SegmentName_value OLD_TOOL_RESULTS = py ''old_tool_results''"
| "SegmentName_value RECENT_HISTORY = py ''recent_history''"

record SegmentBudget =
  min_tokens :: int
  target_tokens :: "int option"
  max_tokens :: "int option"
  trimmable :: bool
  priority :: "int option"

type_synonym segment_table = "SegmentName \<Rightarrow> SegmentBudget"

definition segment_budget ::
  "int \<Rightarrow> int option \<Rightarrow> int option \<Rightarrow> bool \<Rightarrow> int option \<Rightarrow> SegmentBudget" where
  "segment_budget lo target hi trim prio =
     \<lparr>min_tokens = lo, target_tokens = target, max_tokens = hi, trimmable = trim, priority = prio\<rparr>"

fun DEFAULT_SEGMENTS :: segment_table where
  "DEFAULT_SEGMENTS SAFETY_RULES = segment_budget 512 (Some 1024) (Some 2048) False None"
| "DEFAULT_SEGMENTS PERSONALITY = segment_budget 256 (Some 1024) (Some 2048) False None"
| "DEFAULT_SEGMENTS SKILL_SUMMARIES = segment_budget 0 (Some 768) (Some 1536) True (Some 3)"
| "DEFAULT_SEGMENTS MEMORY = segment_budget 0 (Some 1536) (Some 3072) True (Some 4)"
| "DEFAULT_SEGMENTS TOOL_SCHEMAS = segment_budget 0 (Some 4096) (Some 12288) False None"
| "DEFAULT_SEGMENTS OLD_TOOL_RESULTS = segment_budget 0 (Some 1024) (Some 2048) True (Some 1)"
| "DEFAULT_SEGMENTS RECENT_HISTORY = segment_budget 0 None None True (Some 2)"

definition TRIMMING_ORDER :: "SegmentName list" where
  "TRIMMING_ORDER =
     map snd (sort_key (\<lambda>(prio, name). (prio, SegmentName_value name))
       (filter_map (\<lambda>name. map_option (\<lambda>prio. (prio, name)) (priority (DEFAULT_SEGMENTS name)))
         SegmentName_members))"

section \<open>The window and the fit\<close>

datatype Accounting = SHARED | SEPARATE

record ContextWindow =
  context_window :: int
  reserved_output_tokens :: int
  accounting :: Accounting
  w_tokenizer :: "pystr option"

definition input_allowance :: "ContextWindow \<Rightarrow> int" where
  "input_allowance w =
     (if accounting w = SEPARATE then context_window w
      else max (context_window w - reserved_output_tokens w) 0)"

record SegmentAdvice =
  sa_segment :: SegmentName
  sa_asked :: int
  sa_suggested :: int

record BudgetFit =
  bf_allowance :: int
  bf_floor :: int
  bf_asked :: int
  bf_advice :: "SegmentAdvice list"

definition floor_fits :: "BudgetFit \<Rightarrow> bool" where
  "floor_fits fit \<longleftrightarrow> bf_floor fit \<le> bf_allowance fit"

definition targets_fit :: "BudgetFit \<Rightarrow> bool" where
  "targets_fit fit \<longleftrightarrow> bf_asked fit \<le> bf_allowance fit"

definition table_floor :: "segment_table \<Rightarrow> int" where
  "table_floor segments = sum_list (map (\<lambda>name. min_tokens (segments name)) SegmentName_members)"

definition table_asked :: "segment_table \<Rightarrow> int" where
  "table_asked segments =
     sum_list (filter_map (\<lambda>name. target_tokens (segments name)) SegmentName_members)"

definition targeted_floor :: "segment_table \<Rightarrow> int" where
  "targeted_floor segments =
     sum_list (map (\<lambda>name. min_tokens (segments name))
       (filter (\<lambda>name. target_tokens (segments name) \<noteq> None) SegmentName_members))"

definition suggestion :: "SegmentBudget \<Rightarrow> int \<Rightarrow> int \<Rightarrow> int \<Rightarrow> int" where
  "suggestion budget target room span =
     min_tokens budget + (target - min_tokens budget) * room div span"

definition segment_advice ::
  "segment_table \<Rightarrow> int \<Rightarrow> int \<Rightarrow> SegmentName \<Rightarrow> SegmentAdvice option" where
  "segment_advice segments room span name =
     (case target_tokens (segments name) of
        None \<Rightarrow> None
      | Some target \<Rightarrow>
          let suggested = suggestion (segments name) target room span
          in if suggested < target
             then Some \<lparr>sa_segment = name, sa_asked = target, sa_suggested = suggested\<rparr>
             else None)"

definition fit_budget :: "ContextWindow \<Rightarrow> segment_table \<Rightarrow> BudgetFit" where
  "fit_budget window segments =
     (let allowance = input_allowance window;
          flr = table_floor segments;
          asked = table_asked segments
      in if flr > allowance \<or> asked \<le> allowance
         then \<lparr>bf_allowance = allowance, bf_floor = flr, bf_asked = asked, bf_advice = []\<rparr>
         else
           let room = allowance - flr;
               span = asked - targeted_floor segments
           in \<lparr>bf_allowance = allowance, bf_floor = flr, bf_asked = asked,
               bf_advice = filter_map (segment_advice segments room span) SegmentName_members\<rparr>)"

section \<open>What an author may adjust\<close>

record SegmentOverride =
  so_segment :: SegmentName
  so_target :: "int option"
  so_max :: "int option"

text \<open>
  \<open>stay_inside_the_platform_caps\<close>, after the field bounds \<open>ge=0\<close>.
\<close>

definition stay_inside_the_platform_caps ::
  "SegmentOverride \<Rightarrow> (py_error, SegmentOverride) result" where
  "stay_inside_the_platform_caps ov =
     (let default = DEFAULT_SEGMENTS (so_segment ov) in
      if (\<exists>t. so_target ov = Some t \<and> t < 0) \<or> (\<exists>m. so_max ov = Some m \<and> m < 0)
      then Inl ValueError
      else case max_tokens default of
        None \<Rightarrow> Inl ValueError
      | Some default_max \<Rightarrow>
          let cap = (case so_max ov of Some m \<Rightarrow> m | None \<Rightarrow> default_max) in
          if (case so_max ov of Some m \<Rightarrow> m > default_max | None \<Rightarrow> False) then Inl ValueError
          else case so_target ov of
            None \<Rightarrow> Inr ov
          | Some t \<Rightarrow>
              if t < min_tokens default then Inl ValueError
              else if t > cap then Inl ValueError
              else Inr ov)"

record ContextBudget =
  cb_segments :: "SegmentOverride list"
  cb_compaction_threshold :: "dbl option"
  cb_compaction_trigger_cap_tokens :: "int option"

definition one_entry_per_segment ::
  "SegmentOverride list \<Rightarrow> (py_error, SegmentOverride list) result" where
  "one_entry_per_segment value =
     (if distinct (map so_segment value) then Inr value else Inl ValueError)"

definition dbl_le :: "dbl \<Rightarrow> dbl \<Rightarrow> bool" where
  "dbl_le a b = (case a of Dbl n k \<Rightarrow> case b of Dbl m j \<Rightarrow> n * 2 ^ j \<le> m * 2 ^ k)"

text \<open>The construction of a \<open>ContextBudget\<close>: every override, the one-entry rule and the
  bounds of the two numbers.\<close>

definition context_budget ::
  "SegmentOverride list \<Rightarrow> dbl option \<Rightarrow> int option \<Rightarrow> (py_error, ContextBudget) result" where
  "context_budget overrides threshold cap =
     bind_res (map_res stay_inside_the_platform_caps overrides) (\<lambda>checked.
     bind_res (one_entry_per_segment checked) (\<lambda>value.
       if (\<exists>t. threshold = Some t \<and> (dbl_le t (Dbl 0 0) \<or> \<not> dbl_le t (Dbl 1 0))) \<or>
          (\<exists>c. cap = Some c \<and> c \<le> 0)
       then Inl ValueError
       else Inr \<lparr>cb_segments = value, cb_compaction_threshold = threshold,
                 cb_compaction_trigger_cap_tokens = cap\<rparr>))"

definition apply_override :: "SegmentOverride \<Rightarrow> segment_table \<Rightarrow> segment_table" where
  "apply_override ov resolved =
     (let budget = resolved (so_segment ov) in
      resolved(so_segment ov :=
        budget\<lparr>target_tokens :=
                 (case so_target ov of Some t \<Rightarrow> Some t | None \<Rightarrow> target_tokens budget),
               max_tokens := (case so_max ov of Some m \<Rightarrow> Some m | None \<Rightarrow> max_tokens budget)\<rparr>))"

definition resolve :: "ContextBudget \<Rightarrow> segment_table" where
  "resolve budget = fold apply_override (cb_segments budget) DEFAULT_SEGMENTS"

section \<open>The checks at publish\<close>

definition MIN_COMPACTION_THRESHOLD :: dbl where
  "MIN_COMPACTION_THRESHOLD = Dbl 1 1"

definition MAX_COMPACTION_THRESHOLD :: dbl where
  "MAX_COMPACTION_THRESHOLD = Dbl 4278419646001971 52"

definition DEFAULT_COMPACTION_THRESHOLD :: dbl where
  "DEFAULT_COMPACTION_THRESHOLD = Dbl 7656119366529843 53"

datatype BudgetRefusal =
    ContextWindowTooSmall int int
  | ContextBudgetUnsatisfied BudgetFit
  | CompactionThresholdOutsideBounds dbl

definition check_context_budget ::
  "ContextWindow \<Rightarrow> ContextBudget \<Rightarrow> (BudgetRefusal, unit) result" where
  "check_context_budget window budget =
     (let fit = fit_budget window (resolve budget) in
      if \<not> floor_fits fit then Inl (ContextWindowTooSmall (bf_floor fit) (bf_allowance fit))
      else if \<not> targets_fit fit then Inl (ContextBudgetUnsatisfied fit)
      else Inr ())"

definition check_compaction_threshold ::
  "ContextBudget \<Rightarrow> (BudgetRefusal, unit) result" where
  "check_compaction_threshold budget =
     (case cb_compaction_threshold budget of
        None \<Rightarrow> Inr ()
      | Some t \<Rightarrow>
          if \<not> (dbl_le MIN_COMPACTION_THRESHOLD t \<and> dbl_le t MAX_COMPACTION_THRESHOLD)
          then Inl (CompactionThresholdOutsideBounds t) else Inr ())"

section \<open>Facts\<close>

text \<open>
  What the table keeps: a floor that is not negative, and where there is a target it lies
  between the floor and the cap, which is at most the platform's.
\<close>

definition wf_segment :: "SegmentName \<Rightarrow> SegmentBudget \<Rightarrow> bool" where
  "wf_segment name b \<longleftrightarrow>
     0 \<le> min_tokens b \<and> min_tokens b = min_tokens (DEFAULT_SEGMENTS name) \<and>
     (case (max_tokens b, max_tokens (DEFAULT_SEGMENTS name)) of
        (Some m, Some d) \<Rightarrow> 0 \<le> m \<and> m \<le> d | (None, None) \<Rightarrow> target_tokens b = None
      | _ \<Rightarrow> False) \<and>
     (case target_tokens b of None \<Rightarrow> max_tokens b = None | Some t \<Rightarrow> min_tokens b \<le> t)"

definition wf_table :: "segment_table \<Rightarrow> bool" where
  "wf_table segments \<longleftrightarrow> (\<forall>name \<in> set SegmentName_members. wf_segment name (segments name))"

lemma SegmentName_members_all [simp]: "name \<in> set SegmentName_members"
  by (cases name) (simp_all add: SegmentName_members_def)

lemma wf_table_iff: "wf_table segments \<longleftrightarrow> (\<forall>name. wf_segment name (segments name))"
  by (auto simp: wf_table_def)

lemma wf_default: "wf_table DEFAULT_SEGMENTS"
  unfolding wf_table_iff
proof
  show "wf_segment name (DEFAULT_SEGMENTS name)" for name
    by (cases name) (simp_all add: wf_segment_def segment_budget_def)
qed

lemma apply_override_wf [inv_intros]:
  assumes "stay_inside_the_platform_caps ov = Inr ov'" and "wf_table segments"
  shows "wf_table (apply_override ov segments)"
proof -
  let ?n = "so_segment ov"
  have "wf_segment ?n (segments ?n)"
    using assms(2) by (simp add: wf_table_iff)
  then have "wf_segment ?n (apply_override ov segments ?n)"
    using assms(1)
    by (auto simp: wf_segment_def apply_override_def stay_inside_the_platform_caps_def Let_def
        split: option.splits if_splits)
  then show ?thesis
    using assms(2) by (auto simp: wf_table_iff apply_override_def Let_def)
qed

lemma stay_inside_same: "stay_inside_the_platform_caps ov = Inr ov' \<Longrightarrow> ov' = ov"
  by (auto simp: stay_inside_the_platform_caps_def Let_def split: option.splits if_splits)

lemma fold_override_wf:
  "\<forall>ov \<in> set ovs. stay_inside_the_platform_caps ov = Inr ov \<Longrightarrow> wf_table segments \<Longrightarrow>
   wf_table (fold apply_override ovs segments)"
  by (induction ovs arbitrary: segments) (auto intro: inv_intros)

lemma context_budget_checked:
  assumes "context_budget overrides threshold cap = Inr b"
  shows "\<forall>ov \<in> set (cb_segments b). stay_inside_the_platform_caps ov = Inr ov"
proof -
  obtain checked where c: "map_res stay_inside_the_platform_caps overrides = Inr checked"
    and b: "cb_segments b = checked"
    using assms by (auto simp: context_budget_def one_entry_per_segment_def split: if_splits)
  have l: "list_all2 (\<lambda>x y. stay_inside_the_platform_caps x = Inr y) overrides checked"
    using c by (simp add: map_res_Inr_iff)
  then have "list_all2 (\<lambda>x y. stay_inside_the_platform_caps y = Inr y) overrides checked"
    by (rule list_all2_mono) (use stay_inside_same in blast)
  then show ?thesis
    unfolding b by (simp add: list_all2_conv_all_nth all_set_conv_all_nth)
qed

lemma resolve_wf: "context_budget overrides threshold cap = Inr b \<Longrightarrow> wf_table (resolve b)"
  unfolding resolve_def by (rule fold_override_wf[OF context_budget_checked wf_default])

text \<open>Sums over the table.\<close>

lemma sum_list_filter_map:
  "sum_list (filter_map f xs) =
   sum_list (map (\<lambda>x. case f x of None \<Rightarrow> 0 | Some (y :: int) \<Rightarrow> y) xs)"
  by (induction xs) (auto split: option.splits)

lemma sum_list_map_filter_if:
  "sum_list (map f (filter P xs)) = sum_list (map (\<lambda>x. if P x then (f x :: int) else 0) xs)"
  by (induction xs) auto

lemma wf_table_min: "wf_table segments \<Longrightarrow> 0 \<le> min_tokens (segments name)"
  unfolding wf_table_iff wf_segment_def by blast

lemma wf_table_target:
  "wf_table segments \<Longrightarrow> target_tokens (segments name) = Some t \<Longrightarrow> min_tokens (segments name) \<le> t"
  by (auto simp: wf_table_iff wf_segment_def dest!: spec[of _ name])

lemma targeted_floor_le: "wf_table segments \<Longrightarrow> targeted_floor segments \<le> table_floor segments"
  unfolding targeted_floor_def table_floor_def sum_list_map_filter_if
  by (rule sum_list_map_le) (simp add: wf_table_min)

text \<open>What the table asks for once every piece of advice is taken.\<close>

definition advised_target :: "segment_table \<Rightarrow> BudgetFit \<Rightarrow> SegmentName \<Rightarrow> int" where
  "advised_target segments fit name =
     (case find (\<lambda>a. sa_segment a = name) (bf_advice fit) of
        Some a \<Rightarrow> sa_suggested a
      | None \<Rightarrow> (case target_tokens (segments name) of None \<Rightarrow> 0 | Some t \<Rightarrow> t))"

lemma find_filter_map:
  assumes "\<And>x y. f x = Some y \<Longrightarrow> key y = x" and "distinct xs"
  shows "find (\<lambda>y. key y = x) (filter_map f xs) = (if x \<in> set xs then f x else None)"
  using assms(2)
proof (induction xs)
  case (Cons z zs)
  show ?case
    using Cons assms(1) by (cases "f z"; cases "z = x") auto
qed simp

lemma segment_advice_segment: "segment_advice segments room span x = Some y \<Longrightarrow> sa_segment y = x"
  by (auto simp: segment_advice_def Let_def split: option.splits if_splits)

lemma segment_advice_SomeD:
  "segment_advice segments room span n = Some a \<Longrightarrow>
   \<exists>t. target_tokens (segments n) = Some t \<and> suggestion (segments n) t room span < t \<and>
     a = \<lparr>sa_segment = n, sa_asked = t, sa_suggested = suggestion (segments n) t room span\<rparr>"
  by (auto simp: segment_advice_def Let_def split: option.splits if_splits)

lemma find_advice:
  "find (\<lambda>a. sa_segment a = name) (filter_map (segment_advice segments room span) SegmentName_members)
   = segment_advice segments room span name"
  by (subst find_filter_map) (auto dest: segment_advice_segment simp: SegmentName_members_def
      intro: SegmentName.exhaust[of name])

lemma suggestion_bounds:
  assumes "min_tokens b \<le> target" "0 \<le> room" "room < span"
  shows "min_tokens b \<le> suggestion b target room span" "suggestion b target room span \<le> target"
proof -
  let ?d = "target - min_tokens b"
  have "0 \<le> ?d * room div span"
    using assms by (simp add: pos_imp_zdiv_nonneg_iff)
  moreover have "?d * room div span \<le> ?d * span div span"
    using assms by (intro zdiv_mono1 mult_left_mono) auto
  ultimately show "min_tokens b \<le> suggestion b target room span"
    and "suggestion b target room span \<le> target"
    using assms by (auto simp: suggestion_def)
qed

lemma sum_floor_div_le:
  assumes "0 < (span :: int)"
  shows "sum_list (map (\<lambda>x. f x * room div span) xs) \<le> sum_list (map f xs) * room div span"
proof (induction xs)
  case (Cons x xs)
  have "f x * room div span + sum_list (map f xs) * room div span
      \<le> (f x * room + sum_list (map f xs) * room) div span"
    using assms by (metis add.commute div_add1_eq le_add_same_cancel1 pos_imp_zdiv_nonneg_iff
        pos_mod_sign add_nonneg_nonneg)
  with Cons show ?case by (simp add: distrib_right)
qed simp

lemma advised_sum:
  assumes wf: "wf_table segments" and room: "0 \<le> room" "room < span"
    and span: "span = table_asked segments - targeted_floor segments"
  shows "sum_list (map (\<lambda>n. case target_tokens (segments n) of None \<Rightarrow> 0
            | Some t \<Rightarrow> suggestion (segments n) t room span) SegmentName_members)
         \<le> targeted_floor segments + room"
proof -
  let ?g = "\<lambda>n. case target_tokens (segments n) of None \<Rightarrow> 0 | Some t \<Rightarrow> t - min_tokens (segments n)"
  let ?m = "\<lambda>n. if target_tokens (segments n) \<noteq> None then min_tokens (segments n) else 0"
  let ?xs = SegmentName_members
  have "sum_list (map (\<lambda>n. case target_tokens (segments n) of None \<Rightarrow> 0
            | Some t \<Rightarrow> suggestion (segments n) t room span) ?xs)
      = sum_list (map (\<lambda>n. ?m n + ?g n * room div span) ?xs)"
    by (intro arg_cong[of _ _ sum_list] map_cong) (auto simp: suggestion_def split: option.splits)
  also have "\<dots> = sum_list (map ?m ?xs) + sum_list (map (\<lambda>n. ?g n * room div span) ?xs)"
    by (simp add: sum_list_addf)
  also have "sum_list (map ?m ?xs) = targeted_floor segments"
    by (simp add: targeted_floor_def sum_list_map_filter_if)
  also have "sum_list (map (\<lambda>n. ?g n * room div span) ?xs) \<le> sum_list (map ?g ?xs) * room div span"
    using room by (intro sum_floor_div_le) auto
  also have "sum_list (map ?g ?xs) = span"
  proof -
    have "sum_list (map ?g ?xs) + sum_list (map ?m ?xs) = table_asked segments"
      unfolding table_asked_def sum_list_filter_map sum_list_addf[symmetric]
      by (intro arg_cong[of _ _ sum_list] map_cong) (auto split: option.splits)
    then show ?thesis
      by (simp add: span targeted_floor_def sum_list_map_filter_if)
  qed
  finally show ?thesis
    using room by simp
qed

lemma fit_budget_advice:
  fixes window segments
  assumes "wf_table segments"
  defines "fit \<equiv> fit_budget window segments"
  shows "if floor_fits fit \<and> \<not> targets_fit fit
         then (\<forall>a \<in> set (bf_advice fit).
                 min_tokens (segments (sa_segment a)) \<le> sa_suggested a \<and>
                 sa_suggested a < sa_asked a \<and>
                 target_tokens (segments (sa_segment a)) = Some (sa_asked a)) \<and>
              sum_list (map (advised_target segments fit) SegmentName_members)
                \<le> input_allowance window
         else bf_advice fit = []"
proof (cases "floor_fits fit \<and> \<not> targets_fit fit")
  case False
  then show ?thesis
    by (auto simp: fit_def fit_budget_def Let_def floor_fits_def targets_fit_def split: if_splits)
next
  case True
  define allowance where "allowance = input_allowance window"
  define room where "room = allowance - table_floor segments"
  define span where "span = table_asked segments - targeted_floor segments"
  have fit: "fit = \<lparr>bf_allowance = allowance, bf_floor = table_floor segments,
      bf_asked = table_asked segments,
      bf_advice = filter_map (segment_advice segments room span) SegmentName_members\<rparr>"
    and fl: "table_floor segments \<le> allowance" and as: "allowance < table_asked segments"
    using True by (auto simp: fit_def fit_budget_def Let_def floor_fits_def targets_fit_def
        allowance_def room_def span_def split: if_splits)
  have room: "0 \<le> room" "room < span"
    using fl as targeted_floor_le[OF assms(1)] by (auto simp: room_def span_def)
  have between: "min_tokens (segments (sa_segment a)) \<le> sa_suggested a \<and>
      sa_suggested a < sa_asked a \<and> target_tokens (segments (sa_segment a)) = Some (sa_asked a)"
    if a: "a \<in> set (bf_advice fit)" for a
  proof -
    obtain n t where t: "target_tokens (segments n) = Some t"
      "a = \<lparr>sa_segment = n, sa_asked = t, sa_suggested = suggestion (segments n) t room span\<rparr>"
      "suggestion (segments n) t room span < t"
      using a unfolding fit by (auto simp: set_filter_map dest: segment_advice_SomeD)
    moreover have "min_tokens (segments n) \<le> t"
      using assms(1) t(1) by (rule wf_table_target)
    ultimately show ?thesis
      using suggestion_bounds[OF _ room] by auto
  qed
  have "sum_list (map (advised_target segments fit) SegmentName_members)
      \<le> sum_list (map (\<lambda>n. case target_tokens (segments n) of None \<Rightarrow> 0
            | Some t \<Rightarrow> suggestion (segments n) t room span) SegmentName_members)"
    by (rule sum_list_map_le)
      (auto simp: advised_target_def fit find_advice segment_advice_def Let_def
        split: option.splits)
  also have "\<dots> \<le> targeted_floor segments + room"
    by (rule advised_sum[OF assms(1) room span_def])
  also have "\<dots> \<le> allowance"
    using targeted_floor_le[OF assms(1)] by (simp add: room_def)
  finally show ?thesis
    using True between by (simp add: allowance_def)
qed

section \<open>Properties\<close>

text \<open>
  What an author may do to the table. Every budget the validators accept resolves to a
  table in which each segment keeps the platform's floor, has its target at or above that
  floor and its cap at or below the platform's, and recent history keeps no number at all.
\<close>

theorem resolve_inside_caps:
  "context_budget overrides threshold cap = Inr b \<Longrightarrow> wf_table (resolve b)"
  by (rule resolve_wf)

theorem resolve_inside_caps_witness:
  "wf_table (resolve \<lparr>cb_segments = [\<lparr>so_segment = MEMORY, so_target = Some 100, so_max = Some 3000\<rparr>],
     cb_compaction_threshold = None, cb_compaction_trigger_cap_tokens = None\<rparr>)"
  by (rule resolve_inside_caps[of "[\<lparr>so_segment = MEMORY, so_target = Some 100, so_max = Some 3000\<rparr>]"
        None None])
    (simp add: context_budget_def stay_inside_the_platform_caps_def one_entry_per_segment_def
      segment_budget_def)

text \<open>
  The advice works. When a table's floors fit the window and its targets do not, each
  piece of advice lies between the floor of its segment and below what was asked, and the
  targets with all the advice taken add up to no more than the input allowance. When the
  floors do not fit, or the targets do, there is no advice.
\<close>

theorem fit_budget_advice_fits:
  "wf_table segments \<Longrightarrow>
   (let fit = fit_budget window segments in
    if floor_fits fit \<and> \<not> targets_fit fit
    then (\<forall>a \<in> set (bf_advice fit).
            min_tokens (segments (sa_segment a)) \<le> sa_suggested a \<and>
            sa_suggested a < sa_asked a \<and>
            target_tokens (segments (sa_segment a)) = Some (sa_asked a)) \<and>
         sum_list (map (advised_target segments fit) SegmentName_members)
           \<le> input_allowance window
    else bf_advice fit = [])"
  unfolding Let_def by (rule fit_budget_advice)

theorem fit_budget_advice_fits_witness:
  "sum_list (map (advised_target DEFAULT_SEGMENTS
       (fit_budget \<lparr>context_window = 8000, reserved_output_tokens = 1000, accounting = SHARED,
          w_tokenizer = None\<rparr> DEFAULT_SEGMENTS)) SegmentName_members) \<le> 7000"
  using fit_budget_advice_fits[OF wf_default, of "\<lparr>context_window = 8000,
      reserved_output_tokens = 1000, accounting = SHARED, w_tokenizer = None\<rparr>"]
  by (simp add: fit_budget_def floor_fits_def targets_fit_def table_floor_def table_asked_def
      input_allowance_def SegmentName_members_def segment_budget_def Let_def)

end
