(* ===== verification/Py_Float.thy ===== *)
theory Py_Float
  imports Py_Values
begin

text \<open>
  What the planner relies on of double arithmetic. A product is rounded, and rounding never
  crosses a number that a double can hold: a multiple of an integer below \<open>2 ^ 53\<close> by a
  ratio of at least one is at least that integer, and by a ratio of at most one at most it.
\<close>

lemma bit_len_bounds: "0 < n \<Longrightarrow> 2 ^ (bit_len n - 1) \<le> n \<and> n < 2 ^ bit_len n"
proof (induction n rule: bit_len.induct)
  case (1 n)
  show ?case
  proof (cases "n = 1")
    case True
    then show ?thesis by (simp add: bit_len.simps)
  next
    case False
    with 1 have h: "0 < n div 2" "2 ^ (bit_len (n div 2) - 1) \<le> n div 2"
      "n div 2 < 2 ^ bit_len (n div 2)"
      by auto
    have pos: "0 < bit_len (n div 2)"
      using h(1) by (subst bit_len.simps) simp
    have b: "bit_len n = Suc (bit_len (n div 2))"
      using 1(2) by (subst bit_len.simps) simp
    have "2 ^ (bit_len n - 1) = 2 * (2 :: int) ^ (bit_len (n div 2) - 1)"
      using pos by (simp add: b power_eq_if)
    then show ?thesis
      using h by (simp add: b) linarith
  qed
qed

lemma round_even_le: 
  assumes d: "0 < d" and n: "n \<le> q * d"
  shows "round_even n d \<le> q"
proof (cases "n div d < q")
  case True
  then show ?thesis by (auto simp: round_even_def Let_def)
next
  case False
  have "n div d \<le> q * d div d" using n d by (intro zdiv_mono1)
  with False d have q: "n div d = q" by simp
  have "q * d + n mod d = n" using div_mult_mod_eq[of n d] q by simp
  then have "n mod d = 0" using n d pos_mod_sign[of d n] by linarith
  then show ?thesis using d q by (simp add: round_even_def)
qed

lemma round_even_ge: "n div d \<le> round_even n d"
  by (simp add: round_even_def Let_def)

lemma round53_upper:
  assumes "0 \<le> m" "N < 2 ^ 53" and "m \<le> N * 2 ^ k"
  shows "round53 m \<le> N * 2 ^ k"
proof (cases "m = 0")
  case True
  then show ?thesis using assms by (simp add: round53_def round_even_def bit_len.simps Let_def)
next
  case False
  then have m: "0 < m" using assms(1) by simp
  let ?s = "bit_len m - 53"
  have "?s \<le> k"
  proof (rule ccontr)
    assume "\<not> ?s \<le> k"
    then have "53 + k \<le> bit_len m - 1" by simp
    then have "(2 :: int) ^ (53 + k) \<le> 2 ^ (bit_len m - 1)" by (rule power_increasing) simp
    also have "\<dots> \<le> m" using bit_len_bounds[OF m] by simp
    also have "\<dots> \<le> N * 2 ^ k" by (rule assms)
    finally show False
      using assms(2) by (simp add: power_add)
  qed
  then obtain j where k: "k = ?s + j" by (metis le_Suc_ex)
  have e: "N * 2 ^ k = (N * 2 ^ j) * 2 ^ ?s" by (subst k) (simp add: power_add)
  have "round_even m (2 ^ ?s) \<le> N * 2 ^ j"
    by (rule round_even_le) (use assms(3) in \<open>simp_all only: e\<close>, simp)
  then show ?thesis
    unfolding e round53_def Let_def by (rule mult_right_mono) simp
qed

lemma le_div_power: "a * 2 ^ s \<le> m \<Longrightarrow> a \<le> m div 2 ^ s" for a m :: int
  using zdiv_mono1[of "a * 2 ^ s" m "2 ^ s"] by simp

lemma round53_lower:
  assumes "0 < m" "N < 2 ^ 53" and "N * 2 ^ k \<le> m"
  shows "N * 2 ^ k \<le> round53 m"
proof (cases "bit_len m \<le> 53")
  case True
  then show ?thesis
    using assms(3) by (simp add: round53_def round_even_def)
next
  case long: False
  let ?s = "bit_len m - 53"
  have fl: "m div 2 ^ ?s * 2 ^ ?s \<le> round53 m"
    unfolding round53_def Let_def by (rule mult_right_mono[OF round_even_ge]) simp
  show ?thesis
  proof (cases "?s \<le> k")
    case True
    then obtain j where k: "k = ?s + j" by (metis le_Suc_ex)
    have e: "N * 2 ^ k = (N * 2 ^ j) * 2 ^ ?s" by (subst k) (simp add: power_add)
    have "N * 2 ^ j \<le> m div 2 ^ ?s"
      by (rule le_div_power) (use assms(3) in \<open>simp only: e\<close>)
    then have "N * 2 ^ k \<le> m div 2 ^ ?s * 2 ^ ?s"
      unfolding e by (rule mult_right_mono) simp
    with fl show ?thesis by simp
  next
    case False
    have b: "bit_len m - 1 = 52 + ?s" using long by simp
    have "N * 2 ^ k \<le> 2 ^ 53 * 2 ^ k" using assms(2) by simp
    also have "\<dots> \<le> 2 ^ (bit_len m - 1)"
    proof -
      have "53 + k \<le> bit_len m - 1" using False long by simp
      then have "(2 :: int) ^ (53 + k) \<le> 2 ^ (bit_len m - 1)" by (rule power_increasing) simp
      then show ?thesis by (simp only: power_add)
    qed
    also have "\<dots> = 2 ^ 52 * 2 ^ ?s" by (simp only: b power_add)
    also have "\<dots> \<le> m div 2 ^ ?s * 2 ^ ?s"
    proof (intro mult_right_mono le_div_power)
      show "2 ^ 52 * 2 ^ ?s \<le> m"
        using bit_len_bounds[OF assms(1)] by (simp only: b power_add)
    qed simp
    finally show ?thesis using fl by simp
  qed
qed

lemma dbl_mult_ge_self:
  assumes "0 \<le> x" "x < 2 ^ 53" "2 ^ k \<le> n"
  shows "x \<le> dbl_ceil (dbl_mult x (Dbl n k))"
proof (cases "x = 0")
  case True
  then show ?thesis by (simp add: dbl_ceil_def dbl_mult_def)
next
  case False
  have "(0 :: int) < 2 ^ k" by simp
  then have n: "0 < n" using assms(3) by linarith
  have xn: "0 < x * n" using assms(1) False n by simp
  have "x * 2 ^ k \<le> round53 (x * n)"
    using assms xn by (intro round53_lower) (auto intro: mult_left_mono)
  then have "- round53 (x * n) div 2 ^ k \<le> (- x * 2 ^ k) div 2 ^ k"
    by (intro zdiv_mono1) auto
  also have "(- x * 2 ^ k) div 2 ^ k = - x"
    by (rule nonzero_mult_div_cancel_right) simp
  finally show ?thesis
    using xn by (simp add: dbl_ceil_def dbl_mult_def)
qed

lemma less_dbl_mult_le_one:
  assumes "0 \<le> x" "x < 2 ^ 53" "0 \<le> n" "n \<le> 2 ^ k" "int_less_dbl y (dbl_mult x (Dbl n k))"
  shows "y < x"
proof -
  have xn: "0 \<le> x * n" using assms by simp
  have r: "round53 (x * n) \<le> x * 2 ^ k"
    using assms xn by (intro round53_upper) (auto intro: mult_left_mono)
  have "y * 2 ^ k < sgn (x * n) * round53 (x * n)"
    using assms(5) xn by (simp add: int_less_dbl_def dbl_mult_def)
  also have "\<dots> \<le> x * 2 ^ k"
  proof (cases "x * n = 0")
    case True
    then show ?thesis using assms(1) by (simp only: sgn_0 mult_zero_left zero_le_mult_iff) simp
  next
    case False
    then have "sgn (x * n) = 1" using xn by (simp add: sgn_if)
    then show ?thesis using r by simp
  qed
  finally show ?thesis by simp
qed

end
