(* ===== verification/Context_Trim.thy ===== *)
theory Context_Trim
  imports Context_Budget Py_Float "HOL-Library.Sublist"
begin

text \<open>
  The estimates and the trimming steps of \<^verbatim>\<open>runs/domain/context_budget.py\<close>: what a
  text, a block, a message and the two droppable segments are counted as; the cap on one tool
  result (\<open>cap_message\<close>), the three deterministic passes over what lies before the
  retained tail (\<open>clean\<close>), the stubs of last resort (\<open>rescue\<close>), and the two
  steps that drop whole skill summaries and whole memories. The loops that rewrite the blocks
  of a message are instances of one, \<open>edit_messages\<close>, and the locale
  \<open>block_editor\<close> holds what such a loop keeps. \<open>prn\<close> is the Unicode table that
  \<open>repr\<close> of a call's arguments depends on. Lengths are below \<open>2 ^ 50\<close>, where
  \<open>ceil(n / 3)\<close> computed in floating point is the integer ceiling.
\<close>

section \<open>Estimates\<close>

definition TOKENIZERS :: "pystr \<Rightarrow> (pystr \<Rightarrow> int) option" where
  "TOKENIZERS = (\<lambda>_. None)"

definition HEADROOM :: dbl where
  "HEADROOM = Dbl 2476979795053773 51"

definition ASCII_CHARS_PER_TOKEN :: int where
  "ASCII_CHARS_PER_TOKEN = 3"

definition MESSAGE_OVERHEAD_TOKENS :: int where
  "MESSAGE_OVERHEAD_TOKENS = 4"

definition IMAGE_TOKENS :: int where
  "IMAGE_TOKENS = 384"

definition int_ceil_div :: "int \<Rightarrow> int \<Rightarrow> int" where
  "int_ceil_div n d = - ((- n) div d)"

definition estimate_tokens :: "pystr \<Rightarrow> pystr option \<Rightarrow> int" where
  "estimate_tokens text tokenizer =
     (case (case tokenizer of None \<Rightarrow> None | Some name \<Rightarrow> TOKENIZERS name) of
        Some verified \<Rightarrow> verified text
      | None \<Rightarrow>
          let narrow = int (length (filter (\<lambda>c. c < 128) text));
              wide = int (length text) - narrow
          in dbl_ceil (dbl_mult (int_ceil_div narrow ASCII_CHARS_PER_TOKEN + wide) HEADROOM))"

fun block_estimate :: "(nat \<Rightarrow> bool) \<Rightarrow> pystr option \<Rightarrow> Block \<Rightarrow> int" where
  "block_estimate prn tok (TextBlock t) = estimate_tokens t tok"
| "block_estimate prn tok (ReasoningBlock t) = estimate_tokens t tok"
| "block_estimate prn tok (BToolCall c) =
     estimate_tokens (tc_name c @ py_repr prn (JDict (tc_arguments c))) tok"
| "block_estimate prn tok (BToolResult r) = estimate_tokens (tr_output r) tok"
| "block_estimate prn tok (FileBlock reference name) = estimate_tokens name tok"
| "block_estimate prn tok (ImageBlock reference media_type) = IMAGE_TOKENS"

definition message_estimate :: "(nat \<Rightarrow> bool) \<Rightarrow> CanonicalMessage \<Rightarrow> pystr option \<Rightarrow> int" where
  "message_estimate prn message tok =
     MESSAGE_OVERHEAD_TOKENS + sum_list (map (block_estimate prn tok) (m_blocks message))"

definition messages_estimate ::
  "(nat \<Rightarrow> bool) \<Rightarrow> CanonicalMessage list \<Rightarrow> pystr option \<Rightarrow> int" where
  "messages_estimate prn messages tok = sum_list (map (\<lambda>m. message_estimate prn m tok) messages)"

definition schema_estimate :: "(nat \<Rightarrow> bool) \<Rightarrow> jobject list \<Rightarrow> pystr option \<Rightarrow> int" where
  "schema_estimate prn schemas tok =
     sum_list (map (\<lambda>s. estimate_tokens (py_str prn (JDict s)) tok) schemas)"

record SkillSummary =
  sk_name :: pystr
  sk_text :: pystr
  sk_loaded :: bool

record TrimRecord =
  trim_segment :: SegmentName
  trim_dropped :: int
  trim_freed_estimate :: int
  trim_references :: "pystr list"

definition summary_estimate :: "SkillSummary list \<Rightarrow> pystr option \<Rightarrow> int" where
  "summary_estimate summaries tok =
     (if summaries = [] then 0
      else MESSAGE_OVERHEAD_TOKENS + sum_list (map (\<lambda>s. estimate_tokens (sk_text s) tok) summaries))"

definition memory_estimate :: "pystr list \<Rightarrow> pystr option \<Rightarrow> int" where
  "memory_estimate memories tok =
     (if memories = [] then 0
      else MESSAGE_OVERHEAD_TOKENS + sum_list (map (\<lambda>t. estimate_tokens t tok) memories))"

definition arguments_estimate :: "ToolCallBlock \<Rightarrow> pystr option \<Rightarrow> int" where
  "arguments_estimate block tok =
     sum_list (map (\<lambda>(k, v). case v of JStr s \<Rightarrow> estimate_tokens s tok | _ \<Rightarrow> 0)
       (tc_arguments block))"

section \<open>Rewriting one block\<close>

definition TOOL_RESULT_MAX_CHARS :: nat where "TOOL_RESULT_MAX_CHARS = 30000"
definition TOOL_RESULT_HEAD_CHARS :: nat where "TOOL_RESULT_HEAD_CHARS = 20000"
definition TOOL_RESULT_TAIL_CHARS :: nat where "TOOL_RESULT_TAIL_CHARS = 5000"
definition PRUNE_MIN_RESULT_CHARS :: nat where "PRUNE_MIN_RESULT_CHARS = 8000"
definition PRUNE_HEAD_CHARS :: nat where "PRUNE_HEAD_CHARS = 1500"
definition PRUNE_MIN_RECLAIM_TOKENS :: int where "PRUNE_MIN_RECLAIM_TOKENS = 4096"

definition ellipsis :: pystr where
  "ellipsis = [8230]"

definition stub :: "ToolResultBlock \<Rightarrow> nat option \<Rightarrow> nat \<Rightarrow> ToolResultBlock" where
  "stub block full_length head_chars =
     (let len = (case full_length of Some n \<Rightarrow> n | None \<Rightarrow> length (tr_output block)) in
      block\<lparr>tr_output :=
        take head_chars (tr_output block) @ 10 # py ''['' @ ellipsis @
        py ''trimmed by the platform: '' @ py_digits len @
        py '' characters in full, kept in the session transcript under call_id '' @
        tr_call_id block @ py ''.]''\<rparr>)"

definition capped :: "ToolResultBlock \<Rightarrow> ToolResultBlock" where
  "capped block =
     (let output = tr_output block in
      block\<lparr>tr_output :=
        take TOOL_RESULT_HEAD_CHARS output @ 10 # py ''['' @ ellipsis @
        py_int (int (length output) - int TOOL_RESULT_HEAD_CHARS - int TOOL_RESULT_TAIL_CHARS) @
        py '' characters omitted by the platform: '' @ py_digits (length output) @
        py '' characters in full, kept in the session transcript under call_id '' @
        tr_call_id block @ py ''.]'' @ [10] @
        drop (length output - TOOL_RESULT_TAIL_CHARS) output\<rparr>)"

definition back_reference :: "ToolResultBlock \<Rightarrow> pystr \<Rightarrow> ToolResultBlock" where
  "back_reference block call_id =
     block\<lparr>tr_output := py ''[identical to the output of call_id '' @ call_id @
       py '', which appears later in this request.]''\<rparr>"

definition truncated_value :: "pystr \<Rightarrow> json \<Rightarrow> json" where
  "truncated_value call_id v =
     (case v of
        JStr s \<Rightarrow>
          if PRUNE_MIN_RESULT_CHARS < length s
          then JStr (take PRUNE_MIN_RESULT_CHARS s @ py ''['' @ ellipsis @
                 py ''truncated by the platform: '' @ py_digits (length s) @
                 py '' characters in full, kept in the session transcript under call_id '' @
                 call_id @ py ''.]'')
          else v
      | _ \<Rightarrow> v)"

definition long_value :: "json \<Rightarrow> bool" where
  "long_value v = (case v of JStr s \<Rightarrow> PRUNE_MIN_RESULT_CHARS < length s | _ \<Rightarrow> False)"

definition truncated_arguments :: "ToolCallBlock \<Rightarrow> ToolCallBlock option" where
  "truncated_arguments block =
     (if list_ex (\<lambda>(k, v). long_value v) (tc_arguments block)
      then Some (block\<lparr>tc_arguments :=
             map (\<lambda>(k, v). (k, truncated_value (tc_call_id block) v)) (tc_arguments block)\<rparr>)
      else None)"

text \<open>\<open>names.get(block.call_id) in untrimmed\<close>.\<close>

definition exempt :: "(pystr \<Rightarrow> pystr option) \<Rightarrow> pystr set \<Rightarrow> pystr \<Rightarrow> bool" where
  "exempt names untrimmed call_id =
     (case names call_id of None \<Rightarrow> False | Some name \<Rightarrow> name \<in> untrimmed)"

definition tool_names :: "StoredMessage list \<Rightarrow> pystr \<Rightarrow> pystr option" where
  "tool_names history =
     map_of (rev (map (\<lambda>c. (tc_call_id c, tc_name c))
       (concat (map (\<lambda>item. filter_map call_of_block (m_blocks (s_message item))) history))))"

definition full_lengths_of :: "StoredMessage list \<Rightarrow> pystr \<Rightarrow> nat option" where
  "full_lengths_of history =
     map_of (rev (map (\<lambda>r. (tr_call_id r, length (tr_output r)))
       (concat (map (\<lambda>item. filter_map result_of_block (m_blocks (s_message item))) history))))"

fun cap_block :: "(pystr \<Rightarrow> pystr option) \<Rightarrow> pystr set \<Rightarrow> Block \<Rightarrow> Block" where
  "cap_block names untrimmed (BToolResult r) =
     (if TOOL_RESULT_MAX_CHARS < length (tr_output r) \<and> \<not> exempt names untrimmed (tr_call_id r)
      then BToolResult (capped r) else BToolResult r)"
| "cap_block names untrimmed b = b"

definition cap_message ::
  "CanonicalMessage \<Rightarrow> (pystr \<Rightarrow> pystr option) \<Rightarrow> pystr set \<Rightarrow> CanonicalMessage" where
  "cap_message message names untrimmed =
     (if m_role message \<noteq> RTool then message
      else message\<lparr>m_blocks := map (cap_block names untrimmed) (m_blocks message)\<rparr>)"

section \<open>The rewriting loop\<close>

text \<open>
  The body the passes of \<open>_clean\<close> and \<open>_rescue\<close> share. An edit answers
  \<open>None\<close> for a block that stays, or the replacement, the call id that goes into the
  references and what is counted as freed.
\<close>

type_synonym block_edit = "Block \<Rightarrow> (Block \<times> pystr \<times> int) option"

fun edit_blocks :: "block_edit \<Rightarrow> Block list \<Rightarrow> Block list \<times> pystr list \<times> int" where
  "edit_blocks edit [] = ([], [], 0)"
| "edit_blocks edit (b # bs) =
     (let (bs', refs, freed) = edit_blocks edit bs in
      case edit b of
        None \<Rightarrow> (b # bs', refs, freed)
      | Some (b', ref, n) \<Rightarrow> (b' # bs', ref # refs, n + freed))"

definition edit_message ::
  "block_edit \<Rightarrow> Role \<Rightarrow> CanonicalMessage \<Rightarrow> CanonicalMessage \<times> pystr list \<times> int" where
  "edit_message edit role message =
     (if m_role message \<noteq> role then (message, [], 0)
      else let (bs, refs, freed) = edit_blocks edit (m_blocks message)
           in (message\<lparr>m_blocks := bs\<rparr>, refs, freed))"

fun edit_messages ::
  "block_edit \<Rightarrow> Role \<Rightarrow> CanonicalMessage list \<Rightarrow> CanonicalMessage list \<times> pystr list \<times> int" where
  "edit_messages edit role [] = ([], [], 0)"
| "edit_messages edit role (m # ms) =
     (let (m', refs, freed) = edit_message edit role m;
          (ms', refs', freed') = edit_messages edit role ms
      in (m' # ms', refs @ refs', freed + freed'))"

text \<open>\<open>for index in range(stop)\<close>: the messages from \<open>stop\<close> on stay.\<close>

definition edit_prefix ::
  "block_edit \<Rightarrow> Role \<Rightarrow> nat \<Rightarrow> CanonicalMessage list \<Rightarrow> CanonicalMessage list \<times> pystr list \<times> int"
where
  "edit_prefix edit role stop messages =
     (let (ms, refs, freed) = edit_messages edit role (take stop messages)
      in (ms @ drop stop messages, refs, freed))"

section \<open>Cleaning\<close>

definition kept_outputs :: "CanonicalMessage list \<Rightarrow> pystr \<Rightarrow> pystr option" where
  "kept_outputs messages =
     map_of (filter (\<lambda>(output, call_id). output \<noteq> [])
       (map (\<lambda>r. (tr_output r, tr_call_id r))
         (concat (map (\<lambda>m. filter_map result_of_block (m_blocks m)) messages))))"

fun dedupe_edit :: "(pystr \<Rightarrow> pystr option) \<Rightarrow> pystr option \<Rightarrow> block_edit" where
  "dedupe_edit kept tok (BToolResult r) =
     (case kept (tr_output r) of
        None \<Rightarrow> None
      | Some call_id \<Rightarrow>
          let replacement = back_reference r call_id in
          if length (tr_output replacement) < length (tr_output r)
          then Some (BToolResult replacement, tr_call_id r,
                 estimate_tokens (tr_output r) tok - estimate_tokens (tr_output replacement) tok)
          else None)"
| "dedupe_edit kept tok b = None"

fun stub_edit ::
  "(pystr \<Rightarrow> pystr option) \<Rightarrow> pystr set \<Rightarrow> (pystr \<Rightarrow> nat option) \<Rightarrow> pystr option \<Rightarrow> block_edit" where
  "stub_edit names untrimmed full_lengths tok (BToolResult r) =
     (if PRUNE_MIN_RESULT_CHARS < length (tr_output r) \<and> \<not> exempt names untrimmed (tr_call_id r)
      then
        let stubbed = stub r (full_lengths (tr_call_id r)) PRUNE_HEAD_CHARS in
        if length (tr_output stubbed) < length (tr_output r)
        then Some (BToolResult stubbed, tr_call_id r,
               estimate_tokens (tr_output r) tok - estimate_tokens (tr_output stubbed) tok)
        else None
      else None)"
| "stub_edit names untrimmed full_lengths tok b = None"

fun arguments_edit :: "pystr option \<Rightarrow> block_edit" where
  "arguments_edit tok (BToolCall c) =
     (case truncated_arguments c of
        None \<Rightarrow> None
      | Some shortened \<Rightarrow>
          Some (BToolCall shortened, tc_call_id c,
            arguments_estimate c tok - arguments_estimate shortened tok))"
| "arguments_edit tok b = None"

definition clean ::
  "CanonicalMessage list \<Rightarrow> nat \<Rightarrow> (pystr \<Rightarrow> pystr option) \<Rightarrow> pystr set \<Rightarrow>
   (pystr \<Rightarrow> nat option) \<Rightarrow> pystr option \<Rightarrow> CanonicalMessage list \<times> TrimRecord option" where
  "clean messages stop names untrimmed full_lengths tok =
     (let (ms1, refs1, freed1) =
            edit_prefix (dedupe_edit (kept_outputs (drop stop messages)) tok) RTool stop messages;
          (ms2, refs2, freed2) =
            edit_prefix (stub_edit names untrimmed full_lengths tok) RTool stop ms1;
          (ms3, refs3, freed3) = edit_prefix (arguments_edit tok) RAssistant stop ms2;
          refs = refs1 @ refs2 @ refs3
      in (ms3,
          if refs = [] then None
          else Some \<lparr>trim_segment = OLD_TOOL_RESULTS, trim_dropped = int (length refs),
                     trim_freed_estimate = max (freed1 + freed2 + freed3) 0,
                     trim_references = refs\<rparr>))"

section \<open>The stubs of last resort\<close>

fun rescue_edit ::
  "bool \<Rightarrow> (pystr \<Rightarrow> pystr option) \<Rightarrow> pystr set \<Rightarrow> (pystr \<Rightarrow> nat option) \<Rightarrow> pystr option \<Rightarrow> block_edit"
where
  "rescue_edit exempt_pass names untrimmed full_lengths tok (BToolResult r) =
     (if exempt names untrimmed (tr_call_id r) = exempt_pass
      then
        let stubbed = stub r (full_lengths (tr_call_id r)) 0 in
        if length (tr_output stubbed) < length (tr_output r)
        then Some (BToolResult stubbed, tr_call_id r,
               estimate_tokens (tr_output r) tok - estimate_tokens (tr_output stubbed) tok)
        else None
      else None)"
| "rescue_edit exempt_pass names untrimmed full_lengths tok b = None"

text \<open>
  One pass over the view: \<open>need\<close> is \<open>spent - allowance\<close>, and the loop breaks
  once that much is freed.
\<close>

fun rescue_pass ::
  "block_edit \<Rightarrow> int \<Rightarrow> int \<Rightarrow> CanonicalMessage list \<Rightarrow> CanonicalMessage list \<times> pystr list \<times> int" where
  "rescue_pass edit need freed [] = ([], [], freed)"
| "rescue_pass edit need freed (m # ms) =
     (if need \<le> freed then (m # ms, [], freed)
      else let (m', refs, n) = edit_message edit RTool m;
               (ms', refs', freed') = rescue_pass edit need (freed + n) ms
           in (m' # ms', refs @ refs', freed'))"

definition rescue ::
  "CanonicalMessage list \<Rightarrow> int \<Rightarrow> int \<Rightarrow> (pystr \<Rightarrow> pystr option) \<Rightarrow> pystr set \<Rightarrow>
   (pystr \<Rightarrow> nat option) \<Rightarrow> pystr option \<Rightarrow> (CanonicalMessage list \<times> int \<times> TrimRecord) option" where
  "rescue view spent allowance names untrimmed full_lengths tok =
     (let need = spent - allowance;
          (ms1, refs1, freed1) =
            rescue_pass (rescue_edit False names untrimmed full_lengths tok) need 0 view;
          (ms2, refs2, freed2) =
            rescue_pass (rescue_edit True names untrimmed full_lengths tok) need freed1 ms1;
          refs = refs1 @ refs2
      in if refs = [] \<or> spent - freed2 > allowance then None
         else Some (ms2, spent - freed2,
                \<lparr>trim_segment = OLD_TOOL_RESULTS, trim_dropped = int (length refs),
                 trim_freed_estimate = max freed2 0, trim_references = refs\<rparr>))"

section \<open>Dropping summaries and memories\<close>

text \<open>
  \<open>for index in range(len(kept) - 1, -1, -1)\<close>, with \<open>n\<close> the index plus one: the
  list as it stands, what was dropped and what that freed.
\<close>

fun drop_summaries_loop ::
  "pystr option \<Rightarrow> int \<Rightarrow> nat \<Rightarrow> SkillSummary list \<Rightarrow> pystr list \<Rightarrow> int \<Rightarrow>
   SkillSummary list \<times> pystr list \<times> int" where
  "drop_summaries_loop tok ceiling 0 kept dropped freed = (kept, dropped, freed)"
| "drop_summaries_loop tok ceiling (Suc index) kept dropped freed =
     (if summary_estimate kept tok \<le> ceiling then (kept, dropped, freed)
      else if sk_loaded (kept ! index) then drop_summaries_loop tok ceiling index kept dropped freed
      else drop_summaries_loop tok ceiling index (take index kept @ drop (Suc index) kept)
             (dropped @ [sk_name (kept ! index)])
             (freed + estimate_tokens (sk_text (kept ! index)) tok))"

definition drop_unhit_summaries ::
  "SkillSummary list \<Rightarrow> pystr option \<Rightarrow> int \<Rightarrow> SkillSummary list \<times> TrimRecord option" where
  "drop_unhit_summaries kept tok ceiling =
     (let (kept', dropped, freed) = drop_summaries_loop tok ceiling (length kept) kept [] 0
      in (kept',
          if dropped = [] then None
          else Some \<lparr>trim_segment = SKILL_SUMMARIES, trim_dropped = int (length dropped),
                     trim_freed_estimate = freed, trim_references = dropped\<rparr>))"

function trim_memories_loop ::
  "pystr option \<Rightarrow> int \<Rightarrow> pystr list \<Rightarrow> int \<Rightarrow> int \<Rightarrow> pystr list \<times> int \<times> int" where
  "trim_memories_loop tok ceiling kept dropped freed =
     (if kept \<noteq> [] \<and> memory_estimate kept tok > ceiling
      then trim_memories_loop tok ceiling (butlast kept) (dropped + 1)
             (freed + estimate_tokens (last kept) tok)
      else (kept, dropped, freed))"
  by pat_completeness auto
termination
  by (relation "measure (\<lambda>(tok, ceiling, kept, dropped, freed). length kept)") auto

declare trim_memories_loop.simps [simp del]

definition trim_memories ::
  "pystr list \<Rightarrow> pystr option \<Rightarrow> int \<Rightarrow> pystr list \<times> TrimRecord option" where
  "trim_memories kept tok ceiling =
     (let (kept', dropped, freed) = trim_memories_loop tok ceiling kept 0 0
      in (kept',
          if dropped = 0 then None
          else Some \<lparr>trim_segment = MEMORY, trim_dropped = dropped,
                     trim_freed_estimate = freed, trim_references = []\<rparr>))"

section \<open>What an edit keeps\<close>

text \<open>
  The skeleton of a block is everything the planner never takes away: the kind of the block,
  the call id, the name and keys of a call, and every block that is neither a call nor a result.
\<close>

fun value_skeleton :: "json \<Rightarrow> json" where
  "value_skeleton (JStr s) = JStr []"
| "value_skeleton v = v"

fun block_skeleton :: "Block \<Rightarrow> Block" where
  "block_skeleton (BToolResult r) = BToolResult (r\<lparr>tr_output := []\<rparr>)"
| "block_skeleton (BToolCall c) =
     BToolCall (c\<lparr>tc_arguments := map (\<lambda>(k, v). (k, value_skeleton v)) (tc_arguments c)\<rparr>)"
| "block_skeleton b = b"

definition message_skeleton :: "CanonicalMessage \<Rightarrow> CanonicalMessage" where
  "message_skeleton m = m\<lparr>m_blocks := map block_skeleton (m_blocks m)\<rparr>"

lemma block_ids_skeleton [simp]:
  "called_id (block_skeleton b) = called_id b"
  "answered_id (block_skeleton b) = answered_id b"
  by (cases b; simp)+

lemma message_ids_skeleton:
  "called_ids (message_skeleton m) = called_ids m"
  "answered_ids (message_skeleton m) = answered_ids m"
  by (simp_all add: called_ids_def answered_ids_def message_skeleton_def filter_map_map comp_def)

lemma skeleton_eq_ids:
  assumes "message_skeleton m = message_skeleton m'"
  shows "m_role m = m_role m'" "m_author m = m_author m'" "called_ids m = called_ids m'"
    "answered_ids m = answered_ids m'"
  using assms message_ids_skeleton[of m] message_ids_skeleton[of m']
  by (auto simp: message_skeleton_def CanonicalMessage.defs)
    (metis CanonicalMessage.ext_inject CanonicalMessage.surjective CanonicalMessage.update_convs(2))+

lemma skeleton_length:
  "map message_skeleton ms = map message_skeleton ms' \<Longrightarrow> length ms = length ms'"
  by (metis length_map)

text \<open>
  The contract of an edit: the replacement of a block has the block's skeleton. From it, for
  every loop that applies an edit: no message and no block is lost, none moves, and every call
  and every answer keeps its id.
\<close>

locale block_editor =
  fixes edit :: "Block \<Rightarrow> (Block \<times> pystr \<times> int) option"
  assumes keeps_skeleton: "edit b = Some (b', ref, n) \<Longrightarrow> block_skeleton b' = block_skeleton b"
begin

lemma edit_blocks_skeleton:
  "edit_blocks edit bs = (bs', refs, n) \<Longrightarrow> map block_skeleton bs' = map block_skeleton bs"
  by (induction bs arbitrary: bs' refs n)
    (auto simp: Let_def keeps_skeleton split: prod.splits option.splits)

lemma edit_message_skeleton:
  "edit_message edit role m = (m', refs, n) \<Longrightarrow> message_skeleton m' = message_skeleton m"
  by (auto simp: edit_message_def message_skeleton_def edit_blocks_skeleton
      split: if_splits prod.splits)

lemma edit_messages_skeleton:
  "edit_messages edit role ms = (ms', refs, n) \<Longrightarrow>
   map message_skeleton ms' = map message_skeleton ms"
  by (induction ms arbitrary: ms' refs n)
    (auto simp: Let_def edit_message_skeleton split: prod.splits)

lemma edit_prefix_skeleton:
  assumes "edit_prefix edit role stop ms = (ms', refs, n)"
  shows "map message_skeleton ms' = map message_skeleton ms" and "drop stop ms' = drop stop ms"
proof -
  obtain pre where e: "edit_messages edit role (take stop ms) = (pre, refs, n)"
    and ms': "ms' = pre @ drop stop ms"
    using assms by (auto simp: edit_prefix_def Let_def split: prod.splits)
  have sk: "map message_skeleton pre = map message_skeleton (take stop ms)"
    by (rule edit_messages_skeleton[OF e])
  then show "map message_skeleton ms' = map message_skeleton ms"
    by (metis append_take_drop_id map_append ms')
  have "length pre = min (length ms) stop"
    using skeleton_length[OF sk] by simp
  then show "drop stop ms' = drop stop ms"
    by (cases "stop \<le> length ms") (auto simp: ms')
qed

lemma rescue_pass_skeleton:
  "rescue_pass edit need freed ms = (ms', refs, freed') \<Longrightarrow>
   map message_skeleton ms' = map message_skeleton ms"
  by (induction ms arbitrary: freed ms' refs freed')
    (auto simp: Let_def edit_message_skeleton split: if_splits prod.splits)

end

text \<open>A message of another role comes back as the message it was.\<close>

lemma edit_message_other: "m_role m \<noteq> role \<Longrightarrow> edit_message edit role m = (m, [], 0)"
  by (simp add: edit_message_def)

lemma edit_messages_other:
  "edit_messages edit role ms = (ms', refs, n) \<Longrightarrow> i < length ms \<Longrightarrow> m_role (ms ! i) \<noteq> role \<Longrightarrow>
   ms' ! i = ms ! i"
  by (induction ms arbitrary: i ms' refs n)
    (auto simp: Let_def edit_message_other nth_Cons split: prod.splits nat.splits)

lemma edit_messages_length: "edit_messages edit role ms = (ms', refs, n) \<Longrightarrow> length ms' = length ms"
  by (induction ms arbitrary: ms' refs n) (auto simp: Let_def split: prod.splits)

lemma edit_prefix_other:
  assumes "edit_prefix edit role stop ms = (ms', refs, n)" "i < length ms" "m_role (ms ! i) \<noteq> role"
  shows "ms' ! i = ms ! i"
proof -
  obtain pre where e: "edit_messages edit role (take stop ms) = (pre, refs, n)"
    and ms': "ms' = pre @ drop stop ms"
    using assms(1) by (auto simp: edit_prefix_def Let_def split: prod.splits)
  have l: "length pre = min (length ms) stop" using edit_messages_length[OF e] by simp
  show ?thesis
  proof (cases "i < stop")
    case True
    then have "pre ! i = take stop ms ! i"
      using assms(2,3) by (intro edit_messages_other[OF e]) auto
    then show ?thesis using True l assms(2) by (simp add: ms' nth_append)
  next
    case False
    then show ?thesis using l assms(2) by (simp add: ms' nth_append)
  qed
qed

lemma rescue_pass_other:
  "rescue_pass edit need freed ms = (ms', refs, freed') \<Longrightarrow> i < length ms \<Longrightarrow>
   m_role (ms ! i) \<noteq> RTool \<Longrightarrow> ms' ! i = ms ! i"
  by (induction ms arbitrary: i freed ms' refs freed')
    (auto simp: Let_def edit_message_other nth_Cons split: if_splits prod.splits nat.splits)

text \<open>
  An exact edit also counts what it frees: the difference of a cost of blocks. The loops then
  free exactly the difference of the estimates of what they were given and what they return.
\<close>

locale exact_editor = block_editor edit
  for edit :: "Block \<Rightarrow> (Block \<times> pystr \<times> int) option" +
  fixes cost :: "Block \<Rightarrow> int"
  assumes counts: "edit b = Some (b', ref, n) \<Longrightarrow> n = cost b - cost b'"
begin

definition message_cost :: "CanonicalMessage \<Rightarrow> int" where
  "message_cost m = sum_list (map cost (m_blocks m))"

lemma edit_blocks_freed:
  "edit_blocks edit bs = (bs', refs, n) \<Longrightarrow> n = sum_list (map cost bs) - sum_list (map cost bs')"
  by (induction bs arbitrary: bs' refs n)
    (auto simp: Let_def dest!: counts split: prod.splits option.splits)

lemma edit_message_freed:
  "edit_message edit role m = (m', refs, n) \<Longrightarrow> n = message_cost m - message_cost m'"
  by (auto simp: edit_message_def message_cost_def edit_blocks_freed split: if_splits prod.splits)

lemma rescue_pass_freed:
  "rescue_pass edit need freed ms = (ms', refs, freed') \<Longrightarrow>
   freed' = freed + sum_list (map message_cost ms) - sum_list (map message_cost ms')"
proof (induction ms arbitrary: freed ms' refs freed')
  case (Cons m ms)
  then show ?case
    by (fastforce simp: Let_def edit_message_freed split: if_splits prod.splits)
qed simp

end

text \<open>The passes of the program are such edits.\<close>

lemma stub_skeleton [simp]: "(stub r n h)\<lparr>tr_output := []\<rparr> = r\<lparr>tr_output := []\<rparr>"
  by (simp add: stub_def Let_def)

lemma truncated_value_skeleton [simp]: "value_skeleton (truncated_value i v) = value_skeleton v"
  by (simp add: truncated_value_def split: json.splits)

interpretation dedupe: exact_editor "dedupe_edit kept tok" "block_estimate prn tok"
  for kept tok prn
proof
  fix b b' ref n
  assume "dedupe_edit kept tok b = Some (b', ref, n)"
  then show "block_skeleton b' = block_skeleton b" "n = block_estimate prn tok b - block_estimate prn tok b'"
    by (cases b; auto simp: Let_def back_reference_def split: option.splits if_splits)+
qed

interpretation stubbing: exact_editor "stub_edit names untrimmed full_lengths tok" "block_estimate prn tok"
  for names untrimmed full_lengths tok prn
proof
  fix b b' ref n
  assume "stub_edit names untrimmed full_lengths tok b = Some (b', ref, n)"
  then show "block_skeleton b' = block_skeleton b" "n = block_estimate prn tok b - block_estimate prn tok b'"
    by (cases b; auto simp: Let_def split: if_splits)+
qed

interpretation arguments: block_editor "arguments_edit tok" for tok
proof
  fix b b' ref n
  assume "arguments_edit tok b = Some (b', ref, n)"
  then show "block_skeleton b' = block_skeleton b"
    by (cases b) (auto simp: truncated_arguments_def comp_def case_prod_beta split: if_splits option.splits)
qed

interpretation rescuing: exact_editor "rescue_edit exempt_pass names untrimmed full_lengths tok"
    "block_estimate prn tok"
  for exempt_pass names untrimmed full_lengths tok prn
proof
  fix b b' ref n
  assume "rescue_edit exempt_pass names untrimmed full_lengths tok b = Some (b', ref, n)"
  then show "block_skeleton b' = block_skeleton b" "n = block_estimate prn tok b - block_estimate prn tok b'"
    by (cases b; auto simp: Let_def split: if_splits)+
qed

section \<open>Facts\<close>

lemma message_estimate_cost:
  "message_estimate prn m tok =
   MESSAGE_OVERHEAD_TOKENS + exact_editor.message_cost (block_estimate prn tok) m"
  by (simp add: message_estimate_def exact_editor.message_cost_def[OF rescuing.exact_editor_axioms])

lemma messages_estimate_cost:
  "messages_estimate prn ms tok = MESSAGE_OVERHEAD_TOKENS * int (length ms) +
     sum_list (map (exact_editor.message_cost (block_estimate prn tok)) ms)"
  by (induction ms) (auto simp: messages_estimate_def message_estimate_cost algebra_simps)

lemma messages_estimate_append [simp]:
  "messages_estimate prn (xs @ ys) tok = messages_estimate prn xs tok + messages_estimate prn ys tok"
  by (simp add: messages_estimate_def)

lemma clean_keeps:
  assumes "clean messages stop names untrimmed full_lengths tok = (ms, trim)"
  shows "map message_skeleton ms = map message_skeleton messages"
    and "drop stop ms = drop stop messages"
    and "i < length messages \<Longrightarrow> m_role (messages ! i) = RUser \<Longrightarrow> ms ! i = messages ! i"
proof -
  obtain ms1 r1 f1 ms2 r2 f2 r3 f3 where
    e1: "edit_prefix (dedupe_edit (kept_outputs (drop stop messages)) tok) RTool stop messages
           = (ms1, r1, f1)"
    and e2: "edit_prefix (stub_edit names untrimmed full_lengths tok) RTool stop ms1 = (ms2, r2, f2)"
    and e3: "edit_prefix (arguments_edit tok) RAssistant stop ms2 = (ms, r3, f3)"
    using assms by (auto simp: clean_def Let_def split: prod.splits)
  note s1 = dedupe.edit_prefix_skeleton[OF e1]
  note s2 = stubbing.edit_prefix_skeleton[OF e2]
  note s3 = arguments.edit_prefix_skeleton[OF e3]
  show "map message_skeleton ms = map message_skeleton messages"
    using s1(1) s2(1) s3(1) by simp
  show "drop stop ms = drop stop messages"
    using s1(2) s2(2) s3(2) by simp
  have l: "length ms1 = length messages" "length ms2 = length messages"
    using s1(1) s2(1) skeleton_length by metis+
  assume i: "i < length messages" "m_role (messages ! i) = RUser"
  then have "ms1 ! i = messages ! i" by (intro edit_prefix_other[OF e1]) auto
  moreover then have "ms2 ! i = ms1 ! i" using i l by (intro edit_prefix_other[OF e2]) auto
  moreover have "ms ! i = ms2 ! i"
    using calculation i l by (intro edit_prefix_other[OF e3]) auto
  ultimately show "ms ! i = messages ! i" by simp
qed

lemma rescue_keeps:
  assumes "rescue view spent allowance names untrimmed full_lengths tok = Some (ms, spent', trim)"
  shows "spent' \<le> allowance"
    and "spent - spent' = messages_estimate prn view tok - messages_estimate prn ms tok"
    and "map message_skeleton ms = map message_skeleton view"
    and "i < length view \<Longrightarrow> m_role (view ! i) \<noteq> RTool \<Longrightarrow> ms ! i = view ! i"
proof -
  obtain ms1 r1 f1 r2 f2 where
    e1: "rescue_pass (rescue_edit False names untrimmed full_lengths tok) (spent - allowance) 0 view
           = (ms1, r1, f1)"
    and e2: "rescue_pass (rescue_edit True names untrimmed full_lengths tok) (spent - allowance) f1 ms1
           = (ms, r2, f2)"
    and f: "spent' = spent - f2" "spent' \<le> allowance"
    using assms by (auto simp: rescue_def Let_def split: prod.splits if_splits)
  show "spent' \<le> allowance" by (rule f)
  have s1: "map message_skeleton ms1 = map message_skeleton view"
    by (rule rescuing.rescue_pass_skeleton[OF e1])
  have s2: "map message_skeleton ms = map message_skeleton ms1"
    by (rule rescuing.rescue_pass_skeleton[OF e2])
  from s1 s2 show "map message_skeleton ms = map message_skeleton view" by simp
  have l: "length ms1 = length view" "length ms = length view"
    using s1 s2 skeleton_length by metis+
  show "spent - spent' = messages_estimate prn view tok - messages_estimate prn ms tok"
    using rescuing.rescue_pass_freed[OF e1, of prn] rescuing.rescue_pass_freed[OF e2, of prn] f l
    by (simp add: messages_estimate_cost)
  assume i: "i < length view" "m_role (view ! i) \<noteq> RTool"
  then have "ms1 ! i = view ! i" by (rule rescue_pass_other[OF e1])
  moreover have "ms ! i = ms1 ! i"
    using i l calculation by (intro rescue_pass_other[OF e2]) auto
  ultimately show "ms ! i = view ! i" by simp
qed

lemma cap_block_skeleton [simp]: "block_skeleton (cap_block names untrimmed b) = block_skeleton b"
  by (cases b) (auto simp: capped_def Let_def)

lemma cap_message_skeleton [simp]:
  "message_skeleton (cap_message m names untrimmed) = message_skeleton m"
  by (auto simp: cap_message_def message_skeleton_def)

lemma cap_message_other: "m_role m \<noteq> RTool \<Longrightarrow> cap_message m names untrimmed = m"
  by (simp add: cap_message_def)

subsection \<open>Summaries and memories\<close>

definition texts_estimate :: "SkillSummary list \<Rightarrow> pystr option \<Rightarrow> int" where
  "texts_estimate kept tok = sum_list (map (\<lambda>s. estimate_tokens (sk_text s) tok) kept)"

lemma drop_nth_split: "i < length xs \<Longrightarrow> xs = take i xs @ xs ! i # drop (Suc i) xs"
  by (rule id_take_nth_drop)

lemma drop_summaries_loop_spec:
  assumes "drop_summaries_loop tok ceiling n kept dropped freed = (kept', dropped', freed')"
    and "n \<le> length kept" and "\<forall>s \<in> set (drop n kept). sk_loaded s"
  shows "subseq kept' kept \<and> filter sk_loaded kept' = filter sk_loaded kept \<and>
    (summary_estimate kept' tok \<le> ceiling \<or> (\<forall>s \<in> set kept'. sk_loaded s)) \<and>
    freed' + texts_estimate kept' tok = freed + texts_estimate kept tok \<and>
    length dropped' + length kept' = length dropped + length kept"
  using assms
proof (induction n arbitrary: kept dropped freed)
  case 0
  then show ?case by auto
next
  case (Suc n)
  have split: "kept = take n kept @ kept ! n # drop (Suc n) kept"
    using Suc.prems by (intro drop_nth_split) auto
  consider (stop) "summary_estimate kept tok \<le> ceiling"
    | (loaded) "ceiling < summary_estimate kept tok" "sk_loaded (kept ! n)"
    | (drop) "ceiling < summary_estimate kept tok" "\<not> sk_loaded (kept ! n)"
    by linarith
  then show ?case
  proof cases
    case stop
    with Suc.prems show ?thesis by auto
  next
    case loaded
    have "\<forall>s \<in> set (drop n kept). sk_loaded s"
      using Suc.prems loaded(2) by (metis Cons_nth_drop_Suc Suc_le_eq set_ConsD)
    with loaded Suc.prems show ?thesis by (intro Suc.IH) auto
  next
    case drop
    let ?k = "take n kept @ drop (Suc n) kept"
    have n: "n < length kept" using Suc.prems by simp
    have "\<forall>s \<in> set (List.drop n ?k). sk_loaded s"
      using Suc.prems n by simp
    then have ih: "subseq kept' ?k \<and> filter sk_loaded kept' = filter sk_loaded ?k \<and>
        (summary_estimate kept' tok \<le> ceiling \<or> (\<forall>s \<in> set kept'. sk_loaded s)) \<and>
        freed' + texts_estimate kept' tok =
          freed + estimate_tokens (sk_text (kept ! n)) tok + texts_estimate ?k tok \<and>
        length dropped' + length kept' = length (dropped @ [sk_name (kept ! n)]) + length ?k"
      using drop Suc.prems n by (intro Suc.IH) auto
    have sub: "subseq ?k kept"
    proof -
      have "subseq ?k (take n kept @ kept ! n # drop (Suc n) kept)"
        by (intro list_emb_append_mono) auto
      then show ?thesis by (simp only: split[symmetric])
    qed
    have flt: "filter sk_loaded ?k = filter sk_loaded kept"
      using drop(2) by (subst (3) split) simp
    have est: "texts_estimate kept tok = estimate_tokens (sk_text (kept ! n)) tok + texts_estimate ?k tok"
      by (subst split) (simp add: texts_estimate_def)
    have len: "length kept = Suc (length ?k)"
      using n by simp
    show ?thesis
    proof (intro conjI)
      show "subseq kept' kept" using ih sub by (blast intro: subseq_order.trans)
      show "filter sk_loaded kept' = filter sk_loaded kept" using ih flt by argo
      show "summary_estimate kept' tok \<le> ceiling \<or> (\<forall>s \<in> set kept'. sk_loaded s)" using ih by argo
      show "freed' + texts_estimate kept' tok = freed + texts_estimate kept tok" using ih est by linarith
      show "length dropped' + length kept' = length dropped + length kept"
        using ih by (simp only: len length_append list.size)
    qed
  qed
qed

lemma drop_unhit_summaries_spec:
  assumes "drop_unhit_summaries kept tok ceiling = (kept', trim)"
  shows "subseq kept' kept \<and> filter sk_loaded kept' = filter sk_loaded kept \<and>
    (summary_estimate kept' tok \<le> ceiling \<or> (\<forall>s \<in> set kept'. sk_loaded s)) \<and>
    (case trim of
       None \<Rightarrow> kept' = kept
     | Some r \<Rightarrow> trim_segment r = SKILL_SUMMARIES \<and>
         trim_freed_estimate r = texts_estimate kept tok - texts_estimate kept' tok \<and>
         trim_dropped r = int (length kept) - int (length kept'))"
proof -
  obtain dropped freed where
    l: "drop_summaries_loop tok ceiling (length kept) kept [] 0 = (kept', dropped, freed)"
    and t: "trim = (if dropped = [] then None
          else Some \<lparr>trim_segment = SKILL_SUMMARIES, trim_dropped = int (length dropped),
                     trim_freed_estimate = freed, trim_references = dropped\<rparr>)"
    using assms by (auto simp: drop_unhit_summaries_def Let_def split: prod.splits)
  have spec: "subseq kept' kept" "filter sk_loaded kept' = filter sk_loaded kept"
    "summary_estimate kept' tok \<le> ceiling \<or> (\<forall>s \<in> set kept'. sk_loaded s)"
    "freed + texts_estimate kept' tok = texts_estimate kept tok"
    "length dropped + length kept' = length kept"
    using drop_summaries_loop_spec[OF l] by simp_all
  show ?thesis
  proof (cases "dropped = []")
    case True
    then have "kept' = kept" using spec(1,5) by (simp add: subseq_same_length)
    with True spec(3) show ?thesis by (simp add: t)
  next
    case False
    have "int (length dropped) = int (length kept) - int (length kept')"
      using spec(5) by simp
    with False spec show ?thesis by (simp add: t)
  qed
qed

lemma drop_unhit_summaries_idle:
  "summary_estimate kept tok \<le> ceiling \<Longrightarrow> drop_unhit_summaries kept tok ceiling = (kept, None)"
  by (cases "length kept") (simp_all add: drop_unhit_summaries_def)

lemma trim_memories_loop_spec:
  "trim_memories_loop tok ceiling kept dropped freed = (kept', dropped', freed') \<Longrightarrow>
   prefix kept' kept \<and> (kept' = [] \<or> memory_estimate kept' tok \<le> ceiling) \<and>
   (\<forall>n \<le> length kept. length kept' < n \<longrightarrow> ceiling < memory_estimate (take n kept) tok) \<and>
   dropped' + int (length kept') = dropped + int (length kept) \<and>
   freed' + sum_list (map (\<lambda>t. estimate_tokens t tok) kept') =
     freed + sum_list (map (\<lambda>t. estimate_tokens t tok) kept)"
proof (induction tok ceiling kept dropped freed rule: trim_memories_loop.induct)
  case (1 tok ceiling kept dropped freed)
  show ?case
  proof (cases "kept \<noteq> [] \<and> memory_estimate kept tok > ceiling")
    case False
    then show ?thesis
      using "1.prems" by (auto simp: trim_memories_loop.simps[of _ _ kept])
  next
    case True
    then have k: "kept = butlast kept @ [last kept]" by simp
    have e: "trim_memories_loop tok ceiling (butlast kept) (dropped + 1)
        (freed + estimate_tokens (last kept) tok) = (kept', dropped', freed')"
      using "1.prems" True by (simp add: trim_memories_loop.simps[of _ _ kept])
    note ih = "1.IH"[OF True e]
    have "prefix kept' kept"
      using ih k by (metis prefix_order.trans prefixI)
    moreover have "ceiling < memory_estimate (take n kept) tok"
      if "n \<le> length kept" "length kept' < n" for n
    proof (cases "n = length kept")
      case True
      with \<open>kept \<noteq> [] \<and> memory_estimate kept tok > ceiling\<close> show ?thesis by simp
    next
      case False
      with that ih show ?thesis by (auto simp: take_butlast)
    qed
    moreover have "sum_list (map (\<lambda>t. estimate_tokens t tok) kept) =
        sum_list (map (\<lambda>t. estimate_tokens t tok) (butlast kept)) + estimate_tokens (last kept) tok"
      by (subst k) simp
    ultimately show ?thesis
      using ih True by (auto simp: of_nat_diff Suc_leI)
  qed
qed

lemma trim_memories_spec:
  assumes "trim_memories kept tok ceiling = (kept', trim)"
  shows "prefix kept' kept \<and> (kept' = [] \<or> memory_estimate kept' tok \<le> ceiling) \<and>
    (\<forall>n \<le> length kept. length kept' < n \<longrightarrow> ceiling < memory_estimate (take n kept) tok) \<and>
    (case trim of
       None \<Rightarrow> kept' = kept
     | Some r \<Rightarrow> trim_segment r = MEMORY \<and> trim_dropped r = int (length kept) - int (length kept'))"
proof -
  obtain dropped freed where
    l: "trim_memories_loop tok ceiling kept 0 0 = (kept', dropped, freed)"
    and t: "trim = (if dropped = 0 then None
          else Some \<lparr>trim_segment = MEMORY, trim_dropped = dropped,
                     trim_freed_estimate = freed, trim_references = []\<rparr>)"
    using assms by (auto simp: trim_memories_def Let_def split: prod.splits)
  show ?thesis
    using trim_memories_loop_spec[OF l] by (auto simp: t prefix_def)
qed

subsection \<open>The bound of one text\<close>

lemma estimate_tokens_eq:
  "estimate_tokens text tok =
   (let narrow = int (length (filter (\<lambda>c. c < 128) text));
        wide = int (length text) - narrow
    in dbl_ceil (dbl_mult (int_ceil_div narrow ASCII_CHARS_PER_TOKEN + wide) HEADROOM))"
  by (simp add: estimate_tokens_def TOKENIZERS_def split: option.splits)

lemma int_ceil_div_bounds:
  "0 \<le> n \<Longrightarrow> n \<le> 3 * int_ceil_div n 3" "0 \<le> n \<Longrightarrow> int_ceil_div n 3 \<le> n"
  "0 \<le> n \<Longrightarrow> 0 \<le> int_ceil_div n 3"
  by (simp_all add: int_ceil_div_def)

lemma estimate_tokens_lower:
  assumes "length text < 2 ^ 53"
  shows "int (length (filter (\<lambda>c. c \<ge> 128) text)) \<le> estimate_tokens text tok"
    and "int (length text) \<le> 3 * estimate_tokens text tok"
proof -
  define narrow where "narrow = int (length (filter (\<lambda>c. c < 128) text))"
  define wide where "wide = int (length (filter (\<lambda>c. c \<ge> 128) text))"
  have len: "int (length text) = narrow + wide"
    unfolding narrow_def wide_def
    using sum_length_filter_compl[of "\<lambda>c. c < 128" "text"] by (simp add: not_less)
  define base where "base = int_ceil_div narrow 3 + wide"
  have n: "0 \<le> narrow" "0 \<le> wide" by (simp_all add: narrow_def wide_def)
  note c = int_ceil_div_bounds[OF n(1)]
  have "int (length text) < 2 ^ 53"
    using assms by (metis of_nat_less_iff of_nat_numeral of_nat_power)
  then have "base \<le> dbl_ceil (dbl_mult base HEADROOM)"
    unfolding HEADROOM_def using n c len by (intro dbl_mult_ge_self) (auto simp: base_def)
  also have "dbl_ceil (dbl_mult base HEADROOM) = estimate_tokens text tok"
    by (simp add: estimate_tokens_eq Let_def base_def ASCII_CHARS_PER_TOKEN_def len flip: narrow_def)
  finally have b: "base \<le> estimate_tokens text tok" .
  show "int (length (filter (\<lambda>c. c \<ge> 128) text)) \<le> estimate_tokens text tok"
    unfolding wide_def[symmetric] using b c n by (simp add: base_def)
  show "int (length text) \<le> 3 * estimate_tokens text tok"
    using b c n len by (simp add: base_def)
qed

section \<open>Properties\<close>

text \<open>What the planner may do to one turn: the skeleton stays, and a turn of the user is
  sent as it is.\<close>

definition same_turn :: "CanonicalMessage \<Rightarrow> CanonicalMessage \<Rightarrow> bool" where
  "same_turn m m' \<longleftrightarrow>
     message_skeleton m' = message_skeleton m \<and> (m_role m = RUser \<longrightarrow> m' = m)"

lemma same_turnsI:
  assumes "map message_skeleton ms = map message_skeleton messages"
    and "\<And>i. i < length messages \<Longrightarrow> m_role (messages ! i) = RUser \<Longrightarrow> ms ! i = messages ! i"
  shows "list_all2 same_turn messages ms"
  unfolding list_all2_conv_all_nth same_turn_def
  using assms by (metis nth_map skeleton_length)

text \<open>
  C30. Cleaning takes no turn away. Each of the three passes replaces the text of an old tool
  result or the long string arguments of an old call, and nothing else: every turn keeps its
  place, its role and its blocks, every call and every result keeps its id, no user turn
  changes, and the retained tail is sent as it was.
\<close>

theorem clean_keeps_every_turn:
  "case clean messages stop names untrimmed full_lengths tok of (ms, trim) \<Rightarrow>
     list_all2 same_turn messages ms \<and> drop stop ms = drop stop messages \<and>
     map called_ids ms = map called_ids messages \<and> map answered_ids ms = map answered_ids messages"
proof (cases "clean messages stop names untrimmed full_lengths tok")
  case (Pair ms trim)
  note k = clean_keeps[OF Pair]
  have "map called_ids ms = map called_ids messages" "map answered_ids ms = map answered_ids messages"
    using arg_cong[OF k(1), of "map called_ids"] arg_cong[OF k(1), of "map answered_ids"]
    by (simp_all add: message_ids_skeleton comp_def)
  then show ?thesis
    using k(2) same_turnsI[OF k(1) k(3)] by (simp add: Pair)
qed

text \<open>
  C29. The stubs of last resort. When the rescue returns, the view it returns fits, the number
  it returns is the old number less exactly the difference of the two views' estimates, no
  turn and no id is gone, and no turn of the user or the assistant is touched.
\<close>

theorem rescue_sound:
  "rescue view spent allowance names untrimmed full_lengths tok = Some (ms, spent', trim) \<Longrightarrow>
   spent' \<le> allowance \<and>
   spent' = spent - (messages_estimate prn view tok - messages_estimate prn ms tok) \<and>
   list_all2 same_turn view ms \<and>
   (\<forall>i < length view. m_role (view ! i) \<noteq> RTool \<longrightarrow> ms ! i = view ! i)"
  using rescue_keeps(1) rescue_keeps(2)[of view spent allowance names untrimmed full_lengths tok ms spent' trim prn]
    rescue_keeps(3) rescue_keeps(4)
  by (auto intro!: same_turnsI)

theorem rescue_sound_witness:
  "\<exists>ms spent' trim.
     rescue [\<lparr>m_role = RTool, m_blocks = [BToolResult \<lparr>tr_call_id = py ''c1'',
         tr_output = replicate 300 65, tr_exit_code = 0, tr_failed = False\<rparr>], m_author = None\<rparr>]
       120 100 (\<lambda>_. None) {} (\<lambda>_. None) None = Some (ms, spent', trim) \<and> spent' \<le> 100"
proof -
  let ?view = "[\<lparr>m_role = RTool, m_blocks = [BToolResult \<lparr>tr_call_id = py ''c1'',
         tr_output = replicate 300 65, tr_exit_code = 0, tr_failed = False\<rparr>], m_author = None\<rparr>]"
  have "\<not> Option.is_none (rescue ?view 120 100 (\<lambda>_. None) {} (\<lambda>_. None) None)"
    by code_simp
  then obtain ms spent' trim where
    r: "rescue ?view 120 100 (\<lambda>_. None) {} (\<lambda>_. None) None = Some (ms, spent', trim)"
    by (cases "rescue ?view 120 100 (\<lambda>_. None) {} (\<lambda>_. None) None") auto
  show ?thesis
    using r rescue_sound[OF r] by blast
qed

text \<open>
  Skill summaries are dropped whole, last bound first, and a skill the Run has loaded
  keeps its summary. What is left is in the bound order; it is within the ceiling unless only
  loaded skills are left; the record says how many went and what their texts were counted as;
  and a segment within the ceiling is not touched.
\<close>

theorem drop_unhit_summaries_whole:
  "case drop_unhit_summaries kept tok ceiling of (kept', trim) \<Rightarrow>
     subseq kept' kept \<and> filter sk_loaded kept' = filter sk_loaded kept \<and>
     (summary_estimate kept' tok \<le> ceiling \<or> list_all sk_loaded kept') \<and>
     (case trim of
        None \<Rightarrow> kept' = kept
      | Some r \<Rightarrow> trim_segment r = SKILL_SUMMARIES \<and> ceiling < summary_estimate kept tok \<and>
          trim_freed_estimate r = texts_estimate kept tok - texts_estimate kept' tok \<and>
          trim_dropped r = int (length kept) - int (length kept'))"
proof (cases "drop_unhit_summaries kept tok ceiling")
  case (Pair kept' trim)
  have "ceiling < summary_estimate kept tok" if "trim \<noteq> None"
    using that drop_unhit_summaries_idle[of kept tok ceiling] Pair by fastforce
  then show ?thesis
    using drop_unhit_summaries_spec[OF Pair] by (auto simp: Pair list_all_iff split: option.splits)
qed

text \<open>
  Memories are dropped whole from the least relevant end, and no more of them than needed:
  what is left is the longest beginning of the list that is within the ceiling.
\<close>

theorem trim_memories_longest_prefix:
  "trim_memories kept tok ceiling = (kept', trim) \<Longrightarrow>
   prefix kept' kept \<and> (kept' = [] \<or> memory_estimate kept' tok \<le> ceiling) \<and>
   (\<forall>n \<le> length kept. length kept' < n \<longrightarrow> ceiling < memory_estimate (take n kept) tok) \<and>
   (trim = None \<longleftrightarrow> kept' = kept)"
proof -
  assume t: "trim_memories kept tok ceiling = (kept', trim)"
  have "trim = None \<longleftrightarrow> kept' = kept"
    using t trim_memories_loop_spec[of tok ceiling kept 0 0]
    by (fastforce simp: trim_memories_def Let_def prefix_def split: prod.splits if_splits)
  then show ?thesis
    using trim_memories_spec[OF t] by blast
qed

theorem trim_memories_longest_prefix_witness:
  "10 < memory_estimate (take 2 [py ''likes tea'', py ''has a dog'']) None \<and>
   fst (trim_memories [py ''likes tea'', py ''has a dog''] None 10) = [py ''likes tea'']"
proof -
  let ?l = "[py ''likes tea'', py ''has a dog'']"
  have t: "trim_memories ?l None 10 = ([py ''likes tea''], snd (trim_memories ?l None 10))"
    by code_simp
  show ?thesis
    using trim_memories_longest_prefix[OF t] arg_cong[OF t, of fst]
    by (auto dest!: spec[of _ "2 :: nat"])
qed

text \<open>
  The estimate does not under-count. Whatever the text, it is at least one token for every
  character outside ASCII, and at least one for every three characters in all.
\<close>

theorem estimate_tokens_bound:
  "length text < 2 ^ 53 \<Longrightarrow>
   int (length (filter (\<lambda>c. c \<ge> 128) text)) \<le> estimate_tokens text tok \<and>
   int (length text) \<le> 3 * estimate_tokens text tok"
  using estimate_tokens_lower by blast

theorem estimate_tokens_bound_witness:
  "2 \<le> estimate_tokens [20320, 22909, 65] None"
  using estimate_tokens_bound[of "[20320, 22909, 65]" None] by simp

text \<open>
  The third pass of the cleaning can lengthen what it truncates. An argument only just
  over the limit is replaced by one that is longer, for every call id: unlike the first two
  passes, the third has no guard on the length of the replacement.
\<close>

theorem truncated_value_may_grow:
  "\<exists>s t. truncated_value call_id (JStr s) = JStr t \<and> length s < length t"
proof (intro exI conjI)
  let ?s = "replicate 8001 (97 :: nat)"
  show "truncated_value call_id (JStr ?s) =
      JStr (take 8000 ?s @ py ''['' @ ellipsis @ py ''truncated by the platform: '' @
        py_digits 8001 @
        py '' characters in full, kept in the session transcript under call_id '' @
        call_id @ py ''.]'')"
    by (simp add: truncated_value_def PRUNE_MIN_RESULT_CHARS_def)
  show "length ?s < length (take 8000 ?s @ py ''['' @ ellipsis @ py ''truncated by the platform: '' @
        py_digits 8001 @
        py '' characters in full, kept in the session transcript under call_id '' @
        call_id @ py ''.]'')"
    by simp
qed

end
