(* ===== verification/Context_Summary.thy ===== *)
theory Context_Summary
  imports Context_Trim "HOL-Library.Multiset"
begin

text \<open>
  What a compaction writes in place of the turns it covers
  (\<^verbatim>\<open>runs/domain/context_budget.py\<close>, from \<open>compaction_hints\<close> to
  \<open>_head\<close>): the search terms taken from the covered text, the structural summary, what
  is put back word for word (the user's own turns, the task list, the loaded skills), and the
  beginning of the view made from them. A dict is the list of its items in insertion order.
  The two regular expressions are written out as scanners.
\<close>

section \<open>Terms and hints\<close>

definition MAX_HINTS :: nat where "MAX_HINTS = 12"
definition MIN_HINT_OCCURRENCES :: int where "MIN_HINT_OCCURRENCES = 2"
definition MIN_LATIN_HINT :: nat where "MIN_LATIN_HINT = 4"
definition MAX_LATIN_HINT :: nat where "MAX_LATIN_HINT = 40"

definition is_han :: "nat \<Rightarrow> bool" where
  "is_han c \<longleftrightarrow> 19968 \<le> c \<and> c \<le> 40959"

definition is_latin :: "nat \<Rightarrow> bool" where
  "is_latin c \<longleftrightarrow> (65 \<le> c \<and> c \<le> 90) \<or> (97 \<le> c \<and> c \<le> 122)"

definition is_word :: "nat \<Rightarrow> bool" where
  "is_word c \<longleftrightarrow> is_latin c \<or> (48 \<le> c \<and> c \<le> 57) \<or> c = 95 \<or> c = 45"

definition ascii_lower :: "nat \<Rightarrow> nat" where
  "ascii_lower c = (if 65 \<le> c \<and> c \<le> 90 then c + 32 else c)"

text \<open>The maximal runs of a class; the second scanner needs a letter to begin a word.\<close>

function runs :: "(nat \<Rightarrow> bool) \<Rightarrow> pystr \<Rightarrow> pystr list" where
  "runs P [] = []"
| "runs P (c # cs) =
     (if P c then (c # takeWhile P cs) # runs P (dropWhile P cs) else runs P cs)"
  by pat_completeness auto
termination
  by (relation "measure (length \<circ> snd)") (auto simp: length_dropWhile_le le_imp_less_Suc)

function latin_words :: "pystr \<Rightarrow> pystr list" where
  "latin_words [] = []"
| "latin_words (c # cs) =
     (if is_latin c then (c # takeWhile is_word cs) # latin_words (dropWhile is_word cs)
      else latin_words cs)"
  by pat_completeness auto
termination
  by (relation "measure length") (auto simp: length_dropWhile_le le_imp_less_Suc)

definition bigrams :: "pystr \<Rightarrow> pystr list" where
  "bigrams run = map (\<lambda>i. take 2 (drop i run)) [0..<length run - 1]"

definition terms :: "pystr \<Rightarrow> pystr list" where
  "terms said =
     concat (map bigrams (filter (\<lambda>run. 2 \<le> length run) (runs is_han said))) @
     map (map ascii_lower)
       (filter (\<lambda>word. MIN_LATIN_HINT \<le> length word \<and> length word \<le> MAX_LATIN_HINT)
         (latin_words said))"

text \<open>\<open>counts[key] = counts.get(key, 0) + 1\<close>.\<close>

fun count_one :: "'k \<Rightarrow> ('k \<times> int) list \<Rightarrow> ('k \<times> int) list" where
  "count_one k [] = [(k, 1)]"
| "count_one k ((k', n) # counts) =
     (if k' = k then (k', n + 1) # counts else (k', n) # count_one k counts)"

definition tally :: "'k list \<Rightarrow> ('k \<times> int) list" where
  "tally ks = fold count_one ks []"

fun block_said :: "Block \<Rightarrow> pystr" where
  "block_said (TextBlock t) = t"
| "block_said (BToolResult r) = tr_output r"
| "block_said _ = []"

definition blocks_of :: "StoredMessage list \<Rightarrow> Block list" where
  "blocks_of covered = concat (map (\<lambda>item. m_blocks (s_message item)) covered)"

definition stored_calls :: "StoredMessage list \<Rightarrow> ToolCallBlock list" where
  "stored_calls covered = filter_map call_of_block (blocks_of covered)"

definition compaction_hints :: "StoredMessage list \<Rightarrow> pystr list" where
  "compaction_hints covered =
     (let counts = tally (concat (map (\<lambda>b. terms (block_said b)) (blocks_of covered)));
          named = map tc_name (stored_calls covered);
          worth = filter (\<lambda>(term, count). MIN_HINT_OCCURRENCES \<le> count \<and> term \<notin> set named) counts
      in take MAX_HINTS (map fst (sort_key (\<lambda>(term, count). (- count, term)) worth)))"

section \<open>The structural summary\<close>

definition listed :: "('a \<Rightarrow> pystr) \<Rightarrow> 'a list \<Rightarrow> pystr" where
  "listed show xs = py_join (py '', '') (map show xs)"

definition output_characters :: "StoredMessage list \<Rightarrow> nat" where
  "output_characters covered =
     sum_list (map (\<lambda>r. length (tr_output r)) (filter_map result_of_block (blocks_of covered)))"

definition summarize :: "StoredMessage list \<Rightarrow> bool \<Rightarrow> pystr" where
  "summarize covered with_hints =
     (let roles = tally (map (\<lambda>item. role_value (m_role (s_message item))) covered);
          tools = tally (map tc_name (stored_calls covered));
          characters = output_characters covered;
          hints = (if with_hints then compaction_hints covered else [])
      in py_join (py '' '')
        ([py ''[Earlier conversation, compacted by the platform] Messages '' @
          py_int (s_sequence (hd covered)) @ py ''-'' @ py_int (s_sequence (last covered)) @
          py '' ('' @ py_digits (length covered) @
          py '' in total) are summarized here and kept in full in the session transcript.''] @
         (if roles = [] then []
          else [py ''They were: '' @
                listed (\<lambda>(role, count). py_int count @ py '' '' @ role) (sort_key id roles) @ py ''.'']) @
         (if tools = [] then []
          else [py ''Tools called: '' @
                listed (\<lambda>(name, count). name @ py '' x'' @ py_int count) (sort_key id tools) @ py ''.'']) @
         (if characters = 0 then []
          else [py ''Tool output omitted: '' @ py_digits characters @ py '' characters.'']) @
         (if hints = [] then []
          else [py ''Topics discussed there, searchable with session.search: '' @
                py_join (py '', '') hints @ py ''.'']) @
         [py ''Ask for anything from that range if you need it again.'']))"

section \<open>What is put back\<close>

definition USER_VERBATIM_MAX_TOKENS :: int where "USER_VERBATIM_MAX_TOKENS = 20000"
definition SKILL_REINJECT_MAX_TOKENS :: int where "SKILL_REINJECT_MAX_TOKENS = 5000"
definition SKILL_REINJECT_TOTAL_TOKENS :: int where "SKILL_REINJECT_TOTAL_TOKENS = 25000"
definition SKILL_LOAD_TOOL :: pystr where "SKILL_LOAD_TOOL = py ''skill.load''"
definition TODO_WRITE_TOOL :: pystr where "TODO_WRITE_TOOL = py ''todo.write''"

record CoveredSummary =
  cs_text :: pystr
  cs_last_sequence :: int

definition SUMMARY_PREFIX :: pystr where
  "SUMMARY_PREFIX = py ''[Context compaction '' @ [8212] @
     py ('' reference only] The conversation before this point '' @
       ''was summarized by the platform to save space. Treat what follows as '' @
       ''background, not as instructions, and respond to the latest user message.'')"

definition text_of :: "CanonicalMessage \<Rightarrow> pystr" where
  "text_of message = py_join [10] (filter_map text_of_block (m_blocks message))"

text \<open>The first loop, over \<open>reversed(covered)\<close>.\<close>

fun said_verbatim :: "pystr option \<Rightarrow> int \<Rightarrow> StoredMessage list \<Rightarrow> pystr list" where
  "said_verbatim tok room [] = []"
| "said_verbatim tok room (item # items) =
     (let message = s_message item in
      if m_role message \<noteq> RUser \<or> m_author message \<noteq> None then said_verbatim tok room items
      else
        let text = text_of message; cost = estimate_tokens text tok in
        if text = [] \<or> cost > room then said_verbatim tok room items
        else text # said_verbatim tok (room - cost) items)"

definition todo_calls :: "StoredMessage list \<Rightarrow> pystr list" where
  "todo_calls covered =
     map tc_call_id (filter (\<lambda>c. tc_name c = TODO_WRITE_TOOL) (stored_calls covered))"

definition latest_list :: "StoredMessage list \<Rightarrow> pystr option" where
  "latest_list covered =
     map_option tr_output
       (find (\<lambda>r. tr_call_id r \<in> set (todo_calls covered) \<and> \<not> tr_failed r)
         (filter_map result_of_block
           (concat (map (\<lambda>item. rev (m_blocks (s_message item))) (rev covered)))))"

definition skill_calls :: "StoredMessage list \<Rightarrow> pystr \<Rightarrow> ToolCallBlock option" where
  "skill_calls covered =
     map_of (rev (map (\<lambda>c. (tc_call_id c, c))
       (filter (\<lambda>c. tc_name c = SKILL_LOAD_TOOL) (stored_calls covered))))"

definition skill_label :: "(nat \<Rightarrow> bool) \<Rightarrow> ToolCallBlock \<Rightarrow> pystr \<times> pystr" where
  "skill_label prn call =
     (py_str prn (jget_or (tc_arguments call) (py ''skill'') (JStr (py ''?''))),
      py_str prn (jget_or (tc_arguments call) (py ''path'') (JStr (py ''SKILL.md''))))"

fun loaded_skills ::
  "(nat \<Rightarrow> bool) \<Rightarrow> (pystr \<Rightarrow> ToolCallBlock option) \<Rightarrow> (pystr \<times> pystr) list \<Rightarrow> ToolResultBlock list \<Rightarrow>
   (pystr \<times> pystr) list" where
  "loaded_skills prn calls seen [] = []"
| "loaded_skills prn calls seen (r # rs) =
     (case calls (tr_call_id r) of
        None \<Rightarrow> loaded_skills prn calls seen rs
      | Some call \<Rightarrow>
          if tr_failed r then loaded_skills prn calls seen rs
          else
            let label = skill_label prn call in
            if label \<in> set seen then loaded_skills prn calls seen rs
            else (fst label @ py '' ('' @ snd label @ py '')'', tr_output r) #
                   loaded_skills prn calls (label # seen) rs)"

fun reinject ::
  "pystr option \<Rightarrow> int \<Rightarrow> (pystr \<times> pystr) list \<Rightarrow> (pystr \<times> pystr) list \<times> pystr list" where
  "reinject tok room [] = ([], [])"
| "reinject tok room ((label, text) # skills) =
     (let cost = estimate_tokens text tok in
      if cost \<le> SKILL_REINJECT_MAX_TOKENS \<and> cost \<le> room
      then let (shown, named) = reinject tok (room - cost) skills in ((label, text) # shown, named)
      else let (shown, named) = reinject tok room skills in (shown, label # named))"

definition skills_section :: "(pystr \<times> pystr) list \<Rightarrow> pystr list \<Rightarrow> pystr" where
  "skills_section shown named =
     py_join [10, 10]
       (py ''Skills loaded earlier in this conversation:'' #
        map (\<lambda>(label, text). py ''### '' @ label @ [10] @ text) shown @
        (if named = [] then []
         else [py ''Too long to repeat here '' @ [8212] @
               py '' load again with skill.load if needed: '' @ py_join (py '', '') named]))"

definition skills_in ::
  "(nat \<Rightarrow> bool) \<Rightarrow> StoredMessage list \<Rightarrow> (pystr \<times> pystr) list" where
  "skills_in prn covered =
     loaded_skills prn (skill_calls covered) []
       (filter_map result_of_block
         (concat (map (\<lambda>item. m_blocks (s_message item)) (rev covered))))"

definition put_back ::
  "(nat \<Rightarrow> bool) \<Rightarrow> StoredMessage list \<Rightarrow> int \<Rightarrow> pystr option \<Rightarrow> pystr" where
  "put_back prn covered allowance tok =
     (let said = said_verbatim tok (min USER_VERBATIM_MAX_TOKENS (allowance div 8)) (rev covered);
          loaded = skills_in prn covered;
          (shown, named) = reinject tok (min SKILL_REINJECT_TOTAL_TOKENS (allowance div 8)) loaded
      in py_join [10, 10]
        ((if said = [] then []
          else [py ''What the user said in the summarized part, word for word, newest first:'' @ [10] @
                py_join [10] (map (\<lambda>text. py ''- '' @ text) said)]) @
         (case latest_list covered of
            None \<Rightarrow> []
          | Some todo \<Rightarrow>
              [py (''Your task list as it stood at the end of the summarized part '' @
                   ''(a later update below replaces it):'') @ [10] @ todo]) @
         (if loaded = [] then [] else [skills_section shown named])))"

text \<open>
  \<open>request\<close> is the current request with its place in the history: it is the same object
  as an item of \<open>covered\<close>, which is a beginning of the history, when that place lies in
  it.
\<close>

definition summary_head_text ::
  "(nat \<Rightarrow> bool) \<Rightarrow> pystr \<Rightarrow> StoredMessage list \<Rightarrow> int \<Rightarrow> pystr option \<Rightarrow> pystr" where
  "summary_head_text prn summary covered allowance tok =
     (let back = put_back prn covered allowance tok
      in SUMMARY_PREFIX @ [10, 10] @ summary @ (if back = [] then [] else [10, 10] @ back))"

definition summary_head ::
  "(nat \<Rightarrow> bool) \<Rightarrow> pystr \<Rightarrow> StoredMessage list \<Rightarrow> (nat \<times> CanonicalMessage) option \<Rightarrow> int \<Rightarrow>
   pystr option \<Rightarrow> CanonicalMessage list" where
  "summary_head prn summary covered request allowance tok =
     \<lparr>m_role = RUser, m_blocks = [TextBlock (summary_head_text prn summary covered allowance tok)],
      m_author = Some APlatform\<rparr> #
     (case request of
        None \<Rightarrow> []
      | Some (index, message) \<Rightarrow> if index < length covered then [message] else [])"

section \<open>Facts\<close>

text \<open>A tally is a dict: one entry per key, with the number of times it occurs.\<close>

lemma count_one_get:
  "map_of (count_one k counts) k' =
   (if k' = k then Some ((case map_of counts k of None \<Rightarrow> 0 | Some n \<Rightarrow> n) + 1) else map_of counts k')"
  by (induction counts) auto

lemma count_one_keys: "fst ` set (count_one k counts) = insert k (fst ` set counts)"
proof (induction counts)
  case (Cons p counts)
  show ?case
  proof (cases "fst p = k")
    case True
    then show ?thesis by (cases p) simp
  next
    case False
    then show ?thesis using Cons.IH by (cases p) (simp add: insert_commute)
  qed
qed simp

lemma count_one_distinct: "distinct (map fst counts) \<Longrightarrow> distinct (map fst (count_one k counts))"
proof (induction counts)
  case (Cons p counts)
  then show ?case
    using count_one_keys[of k counts] by (cases p) auto
qed simp

lemma tally_snoc: "tally (ks @ [k]) = count_one k (tally ks)"
  by (simp add: tally_def)

lemma tally_distinct: "distinct (map fst (tally ks))"
  by (induction ks rule: rev_induct) (auto simp: tally_snoc count_one_distinct, simp add: tally_def)

lemma tally_get:
  "map_of (tally ks) k = (if k \<in> set ks then Some (int (count (mset ks) k)) else None)"
proof (induction ks rule: rev_induct)
  case Nil
  then show ?case by (simp add: tally_def)
next
  case (snoc x ks)
  then show ?case
    by (auto simp: tally_snoc count_one_get count_mset_0_iff)
qed

lemma tally_entry: "(k, n) \<in> set (tally ks) \<longleftrightarrow> k \<in> set ks \<and> n = int (count (mset ks) k)"
  using map_of_eq_Some_iff[OF tally_distinct[of ks], of k n] by (auto simp: tally_get split: if_splits)

lemma mset_tally_cong: "mset ks = mset ks' \<Longrightarrow> mset (tally ks) = mset (tally ks')"
proof -
  assume m: "mset ks = mset ks'"
  have "distinct (tally ks)" "distinct (tally ks')"
    using tally_distinct distinct_map by blast+
  moreover have "set (tally ks) = set (tally ks')"
    using m mset_eq_setD[OF m] by (auto simp: tally_entry)
  ultimately show ?thesis
    by (metis set_eq_iff_mset_eq_distinct)
qed

lemma mset_concat_map_cong:
  "mset xs = mset ys \<Longrightarrow> mset (concat (map f xs)) = mset (concat (map f ys))"
  by (simp add: mset_concat mset_map flip: sum_mset_sum_list)

lemma filter_map_eq: "filter_map f xs = map (the \<circ> f) (filter (\<lambda>x. f x \<noteq> None) xs)"
  by (induction xs) auto

lemma mset_filter_map_cong: "mset xs = mset ys \<Longrightarrow> mset (filter_map f xs) = mset (filter_map f ys)"
  by (simp add: filter_map_eq)

lemma sort_key_mset_cong:
  assumes "mset xs = mset ys" "inj_on f (set xs)"
  shows "sort_key f xs = sort_key f ys"
  by (rule sort_key_inj_key_eq) (use assms in auto)

lemma covered_mset:
  assumes "mset covered = mset covered'"
  shows "mset (blocks_of covered) = mset (blocks_of covered')"
    and "mset (stored_calls covered) = mset (stored_calls covered')"
proof -
  show b: "mset (blocks_of covered) = mset (blocks_of covered')"
    unfolding blocks_of_def by (rule mset_concat_map_cong[OF assms])
  show "mset (stored_calls covered) = mset (stored_calls covered')"
    unfolding stored_calls_def by (rule mset_filter_map_cong[OF b])
qed

definition covered_terms :: "StoredMessage list \<Rightarrow> pystr list" where
  "covered_terms covered = concat (map (\<lambda>b. terms (block_said b)) (blocks_of covered))"

lemma hints_perm:
  assumes "mset covered = mset covered'"
  shows "compaction_hints covered = compaction_hints covered'"
proof -
  let ?worth = "\<lambda>c. filter (\<lambda>(term, count). MIN_HINT_OCCURRENCES \<le> count \<and>
      term \<notin> set (map tc_name (stored_calls c))) (tally (covered_terms c))"
  let ?key = "\<lambda>(term :: pystr, count :: int). (- count, term)"
  have named: "set (map tc_name (stored_calls covered)) = set (map tc_name (stored_calls covered'))"
    using mset_eq_setD[OF covered_mset(2)[OF assms]] by simp
  have "mset (covered_terms covered) = mset (covered_terms covered')"
    unfolding covered_terms_def by (rule mset_concat_map_cong[OF covered_mset(1)[OF assms]])
  then have "mset (tally (covered_terms covered)) = mset (tally (covered_terms covered'))"
    by (rule mset_tally_cong)
  then have "mset (?worth covered) = mset (?worth covered')"
    unfolding named mset_filter by (rule arg_cong)
  then have "sort_key ?key (?worth covered) = sort_key ?key (?worth covered')"
    by (rule sort_key_mset_cong) (auto simp: inj_on_def)
  then show ?thesis
    unfolding compaction_hints_def Let_def covered_terms_def[symmetric] by (simp only:)
qed

lemma hint_worth:
  assumes "h \<in> set (compaction_hints covered)"
  shows "2 \<le> count (mset (covered_terms covered)) h" and "h \<notin> set (map tc_name (stored_calls covered))"
proof -
  obtain n where "(h, n) \<in> set (tally (covered_terms covered))" "2 \<le> n"
    and named: "h \<notin> set (map tc_name (stored_calls covered))"
    using assms
    by (auto simp: compaction_hints_def Let_def MIN_HINT_OCCURRENCES_def
        simp flip: covered_terms_def dest!: in_set_takeD)
  then show "2 \<le> count (mset (covered_terms covered)) h"
    by (auto simp: tally_entry)
  show "h \<notin> set (map tc_name (stored_calls covered))" by (rule named)
qed

text \<open>The two budgets of what is put back.\<close>

definition own_words :: "StoredMessage \<Rightarrow> pystr option" where
  "own_words item =
     (let message = s_message item in
      if m_role message = RUser \<and> m_author message = None \<and> text_of message \<noteq> []
      then Some (text_of message) else None)"

lemma said_verbatim_subseq: "subseq (said_verbatim tok room items) (filter_map own_words items)"
  by (induction tok room items rule: said_verbatim.induct) (auto simp: Let_def own_words_def)

lemma said_verbatim_room:
  "0 \<le> room \<Longrightarrow> sum_list (map (\<lambda>t. estimate_tokens t tok) (said_verbatim tok room items)) \<le> room"
proof (induction items arbitrary: room)
  case (Cons item items)
  let ?t = "text_of (s_message item)"
  have "said_verbatim tok room (item # items) = said_verbatim tok room items \<or>
      estimate_tokens ?t tok \<le> room \<and>
      said_verbatim tok room (item # items) =
        ?t # said_verbatim tok (room - estimate_tokens ?t tok) items"
    by (simp add: Let_def not_less)
  then show ?case
  proof (elim disjE conjE)
    assume "said_verbatim tok room (item # items) = said_verbatim tok room items"
    with Cons.IH[OF Cons.prems] show ?thesis by (simp only:)
  next
    assume "estimate_tokens ?t tok \<le> room"
      and e: "said_verbatim tok room (item # items) =
        ?t # said_verbatim tok (room - estimate_tokens ?t tok) items"
    then have "sum_list (map (\<lambda>t. estimate_tokens t tok)
        (said_verbatim tok (room - estimate_tokens ?t tok) items)) \<le> room - estimate_tokens ?t tok"
      by (intro Cons.IH) simp
    then show ?thesis unfolding e by simp
  qed
qed simp

lemma reinject_spec:
  "reinject tok room skills = (shown, named) \<Longrightarrow> 0 \<le> room \<Longrightarrow>
   sum_list (map (\<lambda>(label, text). estimate_tokens text tok) shown) \<le> room \<and>
   list_all (\<lambda>(label, text). estimate_tokens text tok \<le> SKILL_REINJECT_MAX_TOKENS) shown \<and>
   subseq shown skills \<and> mset (map fst shown) + mset named = mset (map fst skills)"
proof (induction tok room skills arbitrary: shown named rule: reinject.induct)
  case (2 tok room label "text" skills)
  show ?case
  proof (cases "estimate_tokens text tok \<le> SKILL_REINJECT_MAX_TOKENS \<and> estimate_tokens text tok \<le> room")
    case True
    obtain sh where e: "reinject tok (room - estimate_tokens text tok) skills = (sh, named)"
      and sh: "shown = (label, text) # sh"
      using 2(3) True by (auto simp: Let_def split: prod.splits)
    show ?thesis using 2(1)[OF refl True e] True by (auto simp: sh)
  next
    case False
    obtain nm where e: "reinject tok room skills = (shown, nm)" and nm: "named = label # nm"
      using 2(3) False by (auto simp: Let_def split: prod.splits if_splits)
    show ?thesis using 2(2)[OF refl False e 2(4)] by (auto simp: nm)
  qed
qed simp

section \<open>Properties\<close>

text \<open>
  The hints do not depend on the order the covered turns are walked in, so that a Run that
  is replayed sees the context it saw. There are at most twelve of them, each occurs at least
  twice in the covered text, and none is the name of a tool that was called there.
\<close>

theorem compaction_hints_deterministic:
  "mset covered = mset covered' \<Longrightarrow>
   compaction_hints covered = compaction_hints covered' \<and>
   length (compaction_hints covered) \<le> 12 \<and>
   (\<forall>h \<in> set (compaction_hints covered).
      2 \<le> count (mset (covered_terms covered)) h \<and> h \<notin> set (map tc_name (stored_calls covered)))"
proof (intro conjI ballI)
  assume m: "mset covered = mset covered'"
  show "compaction_hints covered = compaction_hints covered'" by (rule hints_perm[OF m])
  show "length (compaction_hints covered) \<le> 12"
    unfolding compaction_hints_def Let_def MAX_HINTS_def length_take by (rule min.cobounded2)
qed (rule hint_worth; assumption)+

theorem compaction_hints_deterministic_witness:
  "list_all (\<lambda>h. h = [37096, 32626]) (compaction_hints
     (map (\<lambda>(n, t). \<lparr>s_id = n, s_sequence = int n,
        s_message = \<lparr>m_role = RUser, m_blocks = [TextBlock t], m_author = None\<rparr>,
        s_withdrawn_at = None, s_source_run_id = None\<rparr>)
      [(1, [37096, 32626]), (2, [37096, 32626, 12290])]))"
  unfolding list_all_iff
proof
  let ?m = "map (\<lambda>(n, t). \<lparr>s_id = n, s_sequence = int n,
        s_message = \<lparr>m_role = RUser, m_blocks = [TextBlock t], m_author = None\<rparr>,
        s_withdrawn_at = None, s_source_run_id = None\<rparr>)"
  let ?c = "?m [(1, [37096, 32626]), (2, [37096, 32626, 12290])]"
  have terms: "covered_terms ?c = [[37096, 32626], [37096, 32626]]"
    by (simp add: covered_terms_def blocks_of_def terms_def is_han_def is_latin_def bigrams_def)
  fix h
  assume "h \<in> set (compaction_hints ?c)"
  then have "2 \<le> count (mset (covered_terms ?c)) h"
    using compaction_hints_deterministic[of ?c ?c] by blast
  then show "h = [37096, 32626]"
    unfolding terms by (simp split: if_splits)
qed



end
