(* ===== verification/Context_Plan.thy ===== *)
theory Context_Plan
  imports Context_Summary
begin

text \<open>
  \<open>plan_context\<close> of \<^verbatim>\<open>runs/domain/context_budget.py\<close>: what one round may send.
  The function is cut into the stages its own comments number, each a definition, and
  \<open>plan_context\<close> composes them as the source does. The keyword arguments are a record.
  A message object is identified by its place in the history, which is how \<open>request\<close>
  travels. The allowance is below \<open>2 ^ 53\<close>, where the product with the threshold is the
  rounded product of the two numbers.
\<close>

section \<open>The plan\<close>

record CompactionRecord =
  cr_first_sequence :: int
  cr_last_sequence :: int
  cr_message_ids :: "nat list"
  cr_summary :: pystr
  cr_freed_estimate :: int
  cr_source :: pystr

datatype CompactionSkipped = NothingOutsideTail | NoGain | InsufficientGain

record ContextPlan =
  p_messages :: "CanonicalMessage list"
  p_fits :: bool
  p_input_estimate :: int
  p_allowance :: int
  p_trimmed :: "TrimRecord list"
  p_compacted :: "CompactionRecord option"
  p_skill_summaries :: "pystr list"
  p_memories :: "pystr list"
  p_checkpoint :: "int option"
  p_before_compaction_estimate :: "int option"
  p_compaction_skipped :: "CompactionSkipped option"

definition plan_changed :: "ContextPlan \<Rightarrow> bool" where
  "plan_changed plan \<longleftrightarrow> p_trimmed plan \<noteq> [] \<or> p_compacted plan \<noteq> None"

record PlanInput =
  pi_window :: ContextWindow
  pi_safety_rules :: pystr
  pi_personality :: pystr
  pi_tool_schemas :: "jobject list"
  pi_history :: "StoredMessage list"
  pi_skill_summaries :: "SkillSummary list"
  pi_memories :: "pystr list"
  pi_segments :: segment_table
  pi_stored_summary :: "CoveredSummary option"
  pi_threshold :: dbl
  pi_trigger_cap :: "int option"
  pi_forced :: bool
  pi_untrimmed_tools :: "pystr set"

abbreviation pi_tok :: "PlanInput \<Rightarrow> pystr option" where
  "pi_tok inp \<equiv> w_tokenizer (pi_window inp)"

abbreviation pi_allowance :: "PlanInput \<Rightarrow> int" where
  "pi_allowance inp \<equiv> input_allowance (pi_window inp)"

text \<open>The three lists the function mutates as it goes: \<open>kept\<close>, \<open>kept_memories\<close> and
  \<open>trimmed\<close>.\<close>

record Segments =
  g_kept :: "SkillSummary list"
  g_memories :: "pystr list"
  g_trimmed :: "TrimRecord list"

definition note_trim :: "TrimRecord option \<Rightarrow> Segments \<Rightarrow> Segments" where
  "note_trim trim g =
     (case trim of None \<Rightarrow> g | Some r \<Rightarrow> g\<lparr>g_trimmed := g_trimmed g @ [r]\<rparr>)"

section \<open>The retained tail\<close>

definition RETAINED_TAIL_TOKENS :: int where "RETAINED_TAIL_TOKENS = 20000"
definition MIN_COMPACTION_GAIN_TOKENS :: int where "MIN_COMPACTION_GAIN_TOKENS = 4096"

text \<open>\<open>for index in range(len(messages) - 1, -1, -1)\<close>.\<close>

fun tail_scan ::
  "(nat \<Rightarrow> bool) \<Rightarrow> CanonicalMessage list \<Rightarrow> int \<Rightarrow> int \<Rightarrow> pystr option \<Rightarrow> nat \<Rightarrow> int \<Rightarrow> nat \<Rightarrow> nat" where
  "tail_scan prn messages target ceiling tok 0 acc start = start"
| "tail_scan prn messages target ceiling tok (Suc index) acc start =
     (let acc' = acc + message_estimate prn (messages ! index) tok in
      if acc' > ceiling \<and> index < length messages - 1 then start
      else if acc' \<ge> target then index
      else tail_scan prn messages target ceiling tok index acc' index)"

definition answered_from :: "CanonicalMessage list \<Rightarrow> nat \<Rightarrow> pystr list" where
  "answered_from messages start = concat (map answered_ids (drop start messages))"

definition split_calls :: "CanonicalMessage list \<Rightarrow> nat \<Rightarrow> nat list" where
  "split_calls messages start =
     filter (\<lambda>index. list_ex (\<lambda>i. i \<in> set (answered_from messages start))
         (called_ids (messages ! index)))
       [0..<start]"

function unsplit :: "CanonicalMessage list \<Rightarrow> nat \<Rightarrow> nat" where
  "unsplit messages start =
     (if start = 0 then start
      else case split_calls messages start of
        [] \<Rightarrow> start
      | index # _ \<Rightarrow> unsplit messages index)"
  by pat_completeness auto
termination
proof (relation "measure snd")
  fix messages start x xs
  assume "split_calls messages start = x # xs"
  then have "x \<in> set (split_calls messages start)" by simp
  then show "((messages, x), messages, start) \<in> measure snd"
    by (simp add: split_calls_def)
qed simp

declare unsplit.simps [simp del]

definition retained_tail_start ::
  "(nat \<Rightarrow> bool) \<Rightarrow> CanonicalMessage list \<Rightarrow> int \<Rightarrow> int \<Rightarrow> pystr option \<Rightarrow> nat" where
  "retained_tail_start prn messages target ceiling tok =
     (if messages = [] then 0
      else unsplit messages
        (tail_scan prn messages target ceiling tok (length messages) 0 (length messages - 1)))"

definition splits_a_tool_pair :: "StoredMessage list \<Rightarrow> nat \<Rightarrow> bool" where
  "splits_a_tool_pair history through =
     (let called = concat (map (\<lambda>item. called_ids (s_message item)) (take through history)) in
      if called = [] then False
      else list_ex (\<lambda>item. list_ex (\<lambda>i. i \<in> set called) (answered_ids (s_message item)))
             (drop through history))"

section \<open>Before the view\<close>

text \<open>The ceilings of the two segments, whatever the window.\<close>

definition cap_segments :: "PlanInput \<Rightarrow> Segments" where
  "cap_segments inp =
     (let g = \<lparr>g_kept = pi_skill_summaries inp, g_memories = pi_memories inp, g_trimmed = []\<rparr>;
          g1 = (case max_tokens (pi_segments inp SKILL_SUMMARIES) of
                  None \<Rightarrow> g
                | Some ceiling \<Rightarrow>
                    let (kept, trim) = drop_unhit_summaries (g_kept g) (pi_tok inp) ceiling
                    in note_trim trim (g\<lparr>g_kept := kept\<rparr>))
      in case max_tokens (pi_segments inp MEMORY) of
           None \<Rightarrow> g1
         | Some ceiling \<Rightarrow>
             let (memories, trim) = trim_memories (g_memories g1) (pi_tok inp) ceiling
             in note_trim trim (g1\<lparr>g_memories := memories\<rparr>))"

definition base_estimate :: "(nat \<Rightarrow> bool) \<Rightarrow> PlanInput \<Rightarrow> int" where
  "base_estimate prn inp =
     estimate_tokens (pi_safety_rules inp) (pi_tok inp) +
     estimate_tokens (pi_personality inp) (pi_tok inp) +
     schema_estimate prn (pi_tool_schemas inp) (pi_tok inp)"

definition fixed_estimate :: "(nat \<Rightarrow> bool) \<Rightarrow> PlanInput \<Rightarrow> Segments \<Rightarrow> int" where
  "fixed_estimate prn inp g =
     base_estimate prn inp + summary_estimate (g_kept g) (pi_tok inp) +
     memory_estimate (g_memories g) (pi_tok inp) + MESSAGE_OVERHEAD_TOKENS * 2"

definition request_of :: "StoredMessage list \<Rightarrow> (nat \<times> CanonicalMessage) option" where
  "request_of history =
     map_option (\<lambda>i. (i, s_message (history ! i)))
       (find (\<lambda>i. m_role (s_message (history ! i)) = RUser) (rev [0..<length history]))"

definition plan_floor :: "(nat \<Rightarrow> bool) \<Rightarrow> PlanInput \<Rightarrow> Segments \<Rightarrow> int" where
  "plan_floor prn inp g =
     (let tok = pi_tok inp;
          droppable =
            summary_estimate (g_kept g) tok - summary_estimate (filter sk_loaded (g_kept g)) tok +
            memory_estimate (g_memories g) tok
      in fixed_estimate prn inp g - droppable +
         (case request_of (pi_history inp) of
            None \<Rightarrow> 0
          | Some (index, message) \<Rightarrow> message_estimate prn message tok))"

definition finish ::
  "PlanInput \<Rightarrow> Segments \<Rightarrow> CanonicalMessage list \<Rightarrow> int \<Rightarrow> bool \<Rightarrow> int option \<Rightarrow> CompactionRecord option \<Rightarrow>
   int option \<Rightarrow> CompactionSkipped option \<Rightarrow> ContextPlan" where
  "finish inp g messages spent fits checkpoint compacted before skipped =
     \<lparr>p_messages = messages, p_fits = fits, p_input_estimate = spent,
      p_allowance = pi_allowance inp, p_trimmed = g_trimmed g, p_compacted = compacted,
      p_skill_summaries = map sk_text (g_kept g), p_memories = g_memories g,
      p_checkpoint = checkpoint, p_before_compaction_estimate = before,
      p_compaction_skipped = skipped\<rparr>"

section \<open>The view and its stages\<close>

definition capped_history :: "PlanInput \<Rightarrow> CanonicalMessage list" where
  "capped_history inp =
     map (\<lambda>item. cap_message (s_message item) (tool_names (pi_history inp)) (pi_untrimmed_tools inp))
       (pi_history inp)"

text \<open>Where the stored summary ends, and the beginning of the view it makes: \<open>start\<close>,
  \<open>head\<close> and \<open>checkpoint\<close>.\<close>

definition checkpoint_view ::
  "(nat \<Rightarrow> bool) \<Rightarrow> PlanInput \<Rightarrow> nat \<times> CanonicalMessage list \<times> int option" where
  "checkpoint_view prn inp =
     (case pi_stored_summary inp of
        None \<Rightarrow> (0, [], None)
      | Some stored \<Rightarrow>
          (case find_index (\<lambda>item. s_sequence item = cs_last_sequence stored) (pi_history inp) of
             None \<Rightarrow> (0, [], None)
           | Some found \<Rightarrow>
               if splits_a_tool_pair (pi_history inp) (found + 1) then (0, [], None)
               else (found + 1,
                     summary_head prn (cs_text stored) (take (found + 1) (pi_history inp))
                       (request_of (pi_history inp)) (pi_allowance inp) (pi_tok inp),
                     Some (cs_last_sequence stored))))"

definition trigger :: "PlanInput \<Rightarrow> dbl" where
  "trigger inp =
     (let t = dbl_mult (pi_allowance inp) (pi_threshold inp) in
      case pi_trigger_cap inp of None \<Rightarrow> t | Some cap \<Rightarrow> dbl_min_int t cap)"

definition view_estimate ::
  "(nat \<Rightarrow> bool) \<Rightarrow> PlanInput \<Rightarrow> int \<Rightarrow> CanonicalMessage list \<Rightarrow> int" where
  "view_estimate prn inp fixed view = fixed + messages_estimate prn view (pi_tok inp)"

text \<open>Cleaning, with the gate on what it must reclaim.\<close>

definition clean_step ::
  "(nat \<Rightarrow> bool) \<Rightarrow> PlanInput \<Rightarrow> int \<Rightarrow> CanonicalMessage list \<Rightarrow> nat \<Rightarrow>
   CanonicalMessage list \<times> int \<times> Segments \<Rightarrow> CanonicalMessage list \<times> int \<times> Segments" where
  "clean_step prn inp fixed head tail_start st =
     (case st of (post, spent, g) \<Rightarrow>
        let (candidate, cleaned) =
              clean post tail_start (tool_names (pi_history inp)) (pi_untrimmed_tools inp)
                (full_lengths_of (pi_history inp)) (pi_tok inp)
        in case cleaned of
             None \<Rightarrow> (post, spent, g)
           | Some r \<Rightarrow>
               if trim_freed_estimate r \<ge> PRUNE_MIN_RECLAIM_TOKENS
               then (candidate, view_estimate prn inp fixed (head @ candidate), note_trim (Some r) g)
               else (post, spent, g))"

text \<open>\<open>summarized(with_hints)\<close>.\<close>

definition summarized ::
  "(nat \<Rightarrow> bool) \<Rightarrow> PlanInput \<Rightarrow> int \<Rightarrow> nat \<Rightarrow> int option \<Rightarrow> CanonicalMessage list \<Rightarrow> nat \<Rightarrow> bool \<Rightarrow>
   CanonicalMessage list \<times> int \<times> pystr" where
  "summarized prn inp fixed start checkpoint post tail_start with_hints =
     (let delta = take tail_start (drop start (pi_history inp));
          structural = summarize delta with_hints;
          text = (case pi_stored_summary inp of
                    None \<Rightarrow> structural
                  | Some stored \<Rightarrow>
                      if checkpoint = None then structural
                      else cs_text stored @ [10, 10] @ structural);
          candidate =
            summary_head prn text (take (start + tail_start) (pi_history inp))
              (request_of (pi_history inp)) (pi_allowance inp) (pi_tok inp) @ drop tail_start post
      in (candidate, view_estimate prn inp fixed candidate, text))"

text \<open>With the hints first, and without them when the view with them does not fit.\<close>

definition hints_or_not ::
  "(nat \<Rightarrow> bool) \<Rightarrow> PlanInput \<Rightarrow> int \<Rightarrow> nat \<Rightarrow> int option \<Rightarrow> CanonicalMessage list \<Rightarrow> nat \<Rightarrow>
   CanonicalMessage list \<times> int \<times> pystr" where
  "hints_or_not prn inp fixed start checkpoint post tail_start =
     (let first = summarized prn inp fixed start checkpoint post tail_start True
      in if fst (snd first) > pi_allowance inp
         then summarized prn inp fixed start checkpoint post tail_start False else first)"

record Compaction =
  c_view :: "CanonicalMessage list"
  c_spent :: int
  c_compacted :: "CompactionRecord option"
  c_before :: "int option"
  c_skipped :: "CompactionSkipped option"

definition compact_step ::
  "(nat \<Rightarrow> bool) \<Rightarrow> PlanInput \<Rightarrow> int \<Rightarrow> nat \<Rightarrow> CanonicalMessage list \<Rightarrow> int option \<Rightarrow> CanonicalMessage list \<Rightarrow>
   nat \<Rightarrow> int \<Rightarrow> Compaction" where
  "compact_step prn inp fixed start head checkpoint post tail_start spent =
     (let history = pi_history inp;
          allowance = pi_allowance inp;
          delta = take tail_start (drop start history);
          kept_as_is = (\<lambda>why. \<lparr>c_view = head @ post, c_spent = spent, c_compacted = None,
                            c_before = None, c_skipped = Some why\<rparr>)
      in if delta = [] then kept_as_is NothingOutsideTail
         else
           let (candidate_view, candidate_spent, text) =
                 hints_or_not prn inp fixed start checkpoint post tail_start;
               freed = spent - candidate_spent
           in if freed \<le> 0 then kept_as_is NoGain
              else if \<not> pi_forced inp \<and> spent \<le> allowance \<and>
                      freed < min MIN_COMPACTION_GAIN_TOKENS (allowance div 16)
              then kept_as_is InsufficientGain
              else \<lparr>c_view = candidate_view, c_spent = candidate_spent,
                    c_compacted = Some \<lparr>cr_first_sequence = s_sequence (hd history),
                        cr_last_sequence = s_sequence (last delta),
                        cr_message_ids = map s_id delta, cr_summary = text,
                        cr_freed_estimate = freed, cr_source = py ''structural''\<rparr>,
                    c_before = Some spent, c_skipped = None\<rparr>)"

text \<open>Giving back unhit skill summaries, then low-relevance memories: the segments and
  \<open>segments_freed\<close>.\<close>

definition squeeze_summaries :: "PlanInput \<Rightarrow> int \<Rightarrow> Segments \<Rightarrow> Segments \<times> int" where
  "squeeze_summaries inp spent g =
     (if spent > pi_allowance inp
      then
        let over = spent - pi_allowance inp;
            kept_estimate = summary_estimate (g_kept g) (pi_tok inp);
            (kept, squeezed) =
              drop_unhit_summaries (g_kept g) (pi_tok inp) (max (kept_estimate - over) 0)
        in (note_trim squeezed (g\<lparr>g_kept := kept\<rparr>),
            if squeezed = None then 0 else kept_estimate - summary_estimate kept (pi_tok inp))
      else (g, 0))"

definition squeeze_memories :: "PlanInput \<Rightarrow> int \<Rightarrow> Segments \<Rightarrow> Segments \<times> int" where
  "squeeze_memories inp spent g =
     (if spent > pi_allowance inp \<and> g_memories g \<noteq> []
      then
        let over = spent - pi_allowance inp;
            mem_estimate = memory_estimate (g_memories g) (pi_tok inp);
            (memories, squeezed) =
              trim_memories (g_memories g) (pi_tok inp) (max (mem_estimate - over) 0)
        in (note_trim squeezed (g\<lparr>g_memories := memories\<rparr>),
            if squeezed = None then 0 else mem_estimate - memory_estimate memories (pi_tok inp))
      else (g, 0))"

definition squeeze_segments :: "PlanInput \<Rightarrow> int \<Rightarrow> Segments \<Rightarrow> Segments \<times> int" where
  "squeeze_segments inp spent g =
     (let (g1, freed1) = squeeze_summaries inp spent g;
          (g2, freed2) = squeeze_memories inp (spent - freed1) g1
      in (g2, freed1 + freed2))"

text \<open>The stubs, on the compacted view and then on the uncompacted one.\<close>

definition rescue_view ::
  "PlanInput \<Rightarrow> CanonicalMessage list \<Rightarrow> int \<Rightarrow> (CanonicalMessage list \<times> int \<times> TrimRecord) option" where
  "rescue_view inp view spent =
     rescue view spent (pi_allowance inp) (tool_names (pi_history inp)) (pi_untrimmed_tools inp)
       (full_lengths_of (pi_history inp)) (pi_tok inp)"

definition rescue_step ::
  "PlanInput \<Rightarrow> CanonicalMessage list \<Rightarrow> int \<Rightarrow> Compaction \<Rightarrow> Segments \<Rightarrow> Compaction \<times> Segments" where
  "rescue_step inp uncompacted uncompacted_spent c g =
     (if c_spent c \<le> pi_allowance inp then (c, g)
      else case rescue_view inp (c_view c) (c_spent c) of
        Some (view, spent, r) \<Rightarrow> (c\<lparr>c_view := view, c_spent := spent\<rparr>, note_trim (Some r) g)
      | None \<Rightarrow>
          if c_compacted c = None then (c, g)
          else case rescue_view inp uncompacted uncompacted_spent of
            Some (view, spent, r) \<Rightarrow>
              (c\<lparr>c_compacted := None, c_before := None, c_view := view, c_spent := spent\<rparr>,
               note_trim (Some r) g)
          | None \<Rightarrow> (c, g))"

text \<open>From the summary on: compaction, the segments, the stubs, and the originals when
  nothing helped.\<close>

definition compact_and_finish ::
  "(nat \<Rightarrow> bool) \<Rightarrow> PlanInput \<Rightarrow> int \<Rightarrow> nat \<Rightarrow> CanonicalMessage list \<Rightarrow> int option \<Rightarrow> nat \<Rightarrow>
   CanonicalMessage list \<Rightarrow> int \<Rightarrow> Segments \<Rightarrow> ContextPlan" where
  "compact_and_finish prn inp fixed start head checkpoint tail_start post spent g =
     (let originals = map s_message (pi_history inp);
          c = compact_step prn inp fixed start head checkpoint post tail_start spent;
          (g2, freed) = squeeze_segments inp (c_spent c) g;
          (c', g3) = rescue_step inp (head @ post) (spent - freed)
            (c\<lparr>c_spent := c_spent c - freed\<rparr>) g2
      in if c_spent c' > pi_allowance inp
         then finish inp g3 originals (view_estimate prn inp fixed originals) False None None None
                (c_skipped c')
         else finish inp g3 (c_view c') (c_spent c') True checkpoint (c_compacted c') (c_before c')
                (c_skipped c'))"

definition plan_context :: "(nat \<Rightarrow> bool) \<Rightarrow> PlanInput \<Rightarrow> ContextPlan" where
  "plan_context prn inp =
     (let allowance = pi_allowance inp;
          g = cap_segments inp;
          fixed = fixed_estimate prn inp g;
          flr = plan_floor prn inp g
      in if flr > allowance
         then finish inp g (map s_message (pi_history inp)) flr False None None None None
         else
           let (start, head, checkpoint) = checkpoint_view prn inp;
               post = drop start (capped_history inp);
               spent = view_estimate prn inp fixed (head @ post)
           in if \<not> pi_forced inp \<and> int_less_dbl spent (trigger inp)
              then finish inp g (head @ post) spent (spent \<le> allowance) checkpoint None None None
              else
                let tail_ceiling = max (allowance - fixed) 0 div 2;
                    tail_start = retained_tail_start prn post (min RETAINED_TAIL_TOKENS tail_ceiling)
                      tail_ceiling (pi_tok inp);
                    (post', spent', g') =
                      (if pi_forced inp then (post, spent, g)
                       else clean_step prn inp fixed head tail_start (post, spent, g))
                in if \<not> pi_forced inp \<and> int_less_dbl spent' (trigger inp)
                   then finish inp g' (head @ post') spent' (spent' \<le> allowance) checkpoint None None None
                   else compact_and_finish prn inp fixed start head checkpoint tail_start post' spent' g')"

definition has_compactable_history :: "(nat \<Rightarrow> bool) \<Rightarrow> CanonicalMessage list \<Rightarrow> bool" where
  "has_compactable_history prn messages \<longleftrightarrow> messages_estimate prn messages None > RETAINED_TAIL_TOKENS"

section \<open>Facts\<close>

subsection \<open>Turns\<close>

lemma same_turn_refl [simp]: "same_turn m m"
  by (simp add: same_turn_def)

lemma same_turn_trans: "same_turn a b \<Longrightarrow> same_turn b c \<Longrightarrow> same_turn a c"
  by (auto simp: same_turn_def dest: skeleton_eq_ids(1))

lemma same_turns_refl [simp]: "list_all2 same_turn ms ms"
  by (simp add: list.rel_refl)

lemma same_turns_trans:
  "list_all2 same_turn a b \<Longrightarrow> list_all2 same_turn b c \<Longrightarrow> list_all2 same_turn a c"
  by (rule list_all2_trans[of same_turn same_turn same_turn]) (auto intro: same_turn_trans)

lemma same_turns_ids:
  assumes "list_all2 same_turn a b"
  shows "map called_ids b = map called_ids a" "map answered_ids b = map answered_ids a"
  using assms by (induction rule: list_all2_induct) (auto simp: same_turn_def dest: skeleton_eq_ids)

lemma same_turns_user:
  "list_all2 same_turn a b \<Longrightarrow> m \<in> set a \<Longrightarrow> m_role m = RUser \<Longrightarrow> m \<in> set b"
  by (induction rule: list_all2_induct) (auto simp: same_turn_def)

lemma capped_history_turns: "list_all2 same_turn (map s_message (pi_history inp)) (capped_history inp)"
  by (auto simp: capped_history_def list_all2_map1 list_all2_map2 same_turn_def cap_message_other
      intro!: list.rel_refl)

lemma clean_turns:
  "clean messages stop names untrimmed full_lengths tok = (ms, trim) \<Longrightarrow> list_all2 same_turn messages ms"
  by (rule same_turnsI) (auto intro: clean_keeps(1) clean_keeps(3))

lemma rescue_turns:
  "rescue view spent allowance names untrimmed full_lengths tok = Some (ms, spent', trim) \<Longrightarrow>
   list_all2 same_turn view ms"
  by (rule same_turnsI) (auto intro: rescue_keeps(3) rescue_keeps(4))

subsection \<open>The cut\<close>

lemma splits_iff:
  "splits_a_tool_pair history k \<longleftrightarrow>
   (\<exists>i. i \<in> set (concat (map (\<lambda>item. called_ids (s_message item)) (take k history))) \<and>
        i \<in> set (concat (map (\<lambda>item. answered_ids (s_message item)) (drop k history))))"
  by (auto simp: splits_a_tool_pair_def Let_def list_ex_iff split: if_splits)

lemma splits_0 [simp]: "\<not> splits_a_tool_pair history 0"
  by (simp add: splits_a_tool_pair_def)

lemma tail_scan_le:
  "n \<le> length messages \<Longrightarrow> start < length messages \<Longrightarrow>
   tail_scan prn messages target ceiling tok n acc start < length messages"
  by (induction n arbitrary: acc start) (auto simp: Let_def)

lemma unsplit_le: "unsplit messages start \<le> start"
proof (induction messages start rule: unsplit.induct)
  case (1 messages start)
  show ?case
  proof (cases "start = 0 \<or> split_calls messages start = []")
    case True
    then show ?thesis by (subst unsplit.simps) (auto split: list.splits)
  next
    case False
    then obtain x xs where x: "split_calls messages start = x # xs" by (cases "split_calls messages start") auto
    then have "x \<in> set (split_calls messages start)" by simp
    then have "x < start" by (simp add: split_calls_def)
    moreover have "unsplit messages start = unsplit messages x"
      using False x by (subst unsplit.simps) simp
    ultimately show ?thesis using 1 False x by simp
  qed
qed

lemma unsplit_whole: "split_calls messages (unsplit messages start) = []"
proof (induction messages start rule: unsplit.induct)
  case (1 messages start)
  show ?case
  proof (cases "start = 0")
    case True
    then show ?thesis by (subst unsplit.simps) (simp add: split_calls_def)
  next
    case False
    then show ?thesis
      using 1 by (subst unsplit.simps) (auto split: list.split)
  qed
qed

lemma retained_tail_start_le: "retained_tail_start prn messages target ceiling tok \<le> length messages"
proof (cases "messages = []")
  case False
  then have "tail_scan prn messages target ceiling tok (length messages) 0 (length messages - 1) < length messages"
    by (intro tail_scan_le) auto
  with unsplit_le[of messages] False show ?thesis
    by (auto simp: retained_tail_start_def intro: order_trans less_imp_le)
qed (simp add: retained_tail_start_def)

lemma retained_tail_whole:
  assumes "k = retained_tail_start prn messages target ceiling tok"
    and "i \<in> set (concat (map called_ids (take k messages)))"
  shows "i \<notin> set (concat (map answered_ids (drop k messages)))"
proof
  assume ans: "i \<in> set (concat (map answered_ids (drop k messages)))"
  have ne: "messages \<noteq> []" using assms(2) by auto
  then have sc: "split_calls messages k = []"
    using assms(1) by (simp add: retained_tail_start_def unsplit_whole)
  obtain m where "m \<in> set (take k messages)" "i \<in> set (called_ids m)"
    using assms(2) by auto
  then obtain j where "j < k" "j < length messages" "i \<in> set (called_ids (messages ! j))"
    by (metis (no_types, lifting) in_set_conv_nth length_take min_less_iff_conj nth_take)
  with ans have "j \<in> set (split_calls messages k)"
    by (auto simp: split_calls_def answered_from_def list_ex_iff)
  with sc show False by simp
qed

text \<open>A second cut behind one that splits no pair, made on turns with the same ids.\<close>

lemma cut_twice:
  assumes "\<not> splits_a_tool_pair history start"
    and "list_all2 same_turn (map s_message (drop start history)) post"
    and "k = retained_tail_start prn post target ceiling tok"
  shows "\<not> splits_a_tool_pair history (start + k)"
proof
  assume "splits_a_tool_pair history (start + k)"
  then obtain i where
    c: "i \<in> set (concat (map (\<lambda>item. called_ids (s_message item)) (take (start + k) history)))"
    and a: "i \<in> set (concat (map (\<lambda>item. answered_ids (s_message item)) (drop (start + k) history)))"
    by (auto simp: splits_iff)
  have ids: "map called_ids post = map (\<lambda>item. called_ids (s_message item)) (drop start history)"
    "map answered_ids post = map (\<lambda>item. answered_ids (s_message item)) (drop start history)"
    using same_turns_ids[OF assms(2)] by (simp_all add: comp_def)
  have a': "i \<in> set (concat (map answered_ids (drop k post)))"
    using a arg_cong[OF ids(2), of "drop k"] by (simp add: drop_map add.commute)
  have "take (start + k) history = take start history @ take k (drop start history)"
    by (simp add: take_add)
  with c consider "i \<in> set (concat (map (\<lambda>item. called_ids (s_message item)) (take start history)))"
    | "i \<in> set (concat (map (\<lambda>item. called_ids (s_message item)) (take k (drop start history))))"
    by auto
  then show False
  proof cases
    case 1
    moreover have "i \<in> set (concat (map (\<lambda>item. answered_ids (s_message item)) (drop start history)))"
      using a set_drop_subset[of k "drop start history"] by (auto simp: add.commute)
    ultimately show False using assms(1) by (auto simp: splits_iff)
  next
    case 2
    then have "i \<in> set (concat (map called_ids (take k post)))"
      using arg_cong[OF ids(1), of "take k"] by (simp add: take_map)
    then show False using retained_tail_whole[OF assms(3)] a' by blast
  qed
qed

subsection \<open>The stages\<close>

text \<open>
  A view of the history: the turns from a cut on that splits no call from its result, each as
  it was up to what an edit may change, behind the summary of what lies before the cut.
\<close>

definition view_head :: "(nat \<Rightarrow> bool) \<Rightarrow> PlanInput \<Rightarrow> nat \<Rightarrow> CanonicalMessage list \<Rightarrow> bool" where
  "view_head prn inp k head \<longleftrightarrow>
     (if k = 0 then head = []
      else \<exists>text. head = summary_head prn text (take k (pi_history inp))
             (request_of (pi_history inp)) (pi_allowance inp) (pi_tok inp))"

definition history_view :: "(nat \<Rightarrow> bool) \<Rightarrow> PlanInput \<Rightarrow> CanonicalMessage list \<Rightarrow> bool" where
  "history_view prn inp view \<longleftrightarrow>
     (\<exists>k head. k \<le> length (pi_history inp) \<and> \<not> splits_a_tool_pair (pi_history inp) k \<and>
        view_head prn inp k head \<and>
        list_all2 same_turn (head @ map s_message (drop k (pi_history inp))) view)"

lemma history_view_turns:
  "history_view prn inp view \<Longrightarrow> list_all2 same_turn view view' \<Longrightarrow> history_view prn inp view'"
  unfolding history_view_def by (blast intro: same_turns_trans)

lemma history_viewI:
  assumes "k \<le> length (pi_history inp)" "\<not> splits_a_tool_pair (pi_history inp) k"
    "view_head prn inp k head" "list_all2 same_turn (map s_message (drop k (pi_history inp))) post"
  shows "history_view prn inp (head @ post)"
proof -
  have "list_all2 same_turn (head @ map s_message (drop k (pi_history inp))) (head @ post)"
    by (rule list_all2_appendI) (auto intro: assms)
  with assms show ?thesis unfolding history_view_def by blast
qed

lemma same_turns_drop:
  "list_all2 same_turn (map s_message (drop a h)) post \<Longrightarrow>
   list_all2 same_turn (map s_message (drop (a + b) h)) (drop b post)"
  using list_all2_dropI[of same_turn "map s_message (drop a h)" post b]
  by (simp add: drop_map add.commute)

lemma checkpoint_view_spec:
  assumes "checkpoint_view prn inp = (start, head, checkpoint)"
  shows "start \<le> length (pi_history inp)" "\<not> splits_a_tool_pair (pi_history inp) start"
    "view_head prn inp start head" "checkpoint = None \<longleftrightarrow> start = 0"
  using assms
  by (auto simp: checkpoint_view_def view_head_def Suc_le_eq dest: find_index_SomeD
      split: option.splits if_splits)

lemma note_trim_simps [simp]:
  "g_kept (note_trim t g) = g_kept g" "g_memories (note_trim t g) = g_memories g"
  by (simp_all add: note_trim_def split: option.splits)

lemma fixed_estimate_note [simp]: "fixed_estimate prn inp (note_trim t g) = fixed_estimate prn inp g"
  by (simp add: fixed_estimate_def)

lemma clean_step_spec:
  assumes "clean_step prn inp fixed head tail_start (post, spent, g) = (post', spent', g')"
    and "spent = view_estimate prn inp fixed (head @ post)"
  shows "list_all2 same_turn post post'" "spent' = view_estimate prn inp fixed (head @ post')"
    "g_kept g' = g_kept g" "g_memories g' = g_memories g"
  using assms by (auto simp: clean_step_def dest: clean_turns split: prod.splits option.splits if_splits)

lemma summarized_eq:
  assumes "summarized prn inp fixed start checkpoint post tail_start h = (view, spent, text)"
  shows "view = summary_head prn text (take (start + tail_start) (pi_history inp))
              (request_of (pi_history inp)) (pi_allowance inp) (pi_tok inp) @ drop tail_start post"
    "spent = view_estimate prn inp fixed view"
  using assms by (auto simp: summarized_def Let_def split: option.splits)

lemma compact_step_cases:
  fixes prn inp fixed start head checkpoint post tail_start spent
  defines "c \<equiv> compact_step prn inp fixed start head checkpoint post tail_start spent"
  obtains (idle) "c_view c = head @ post" "c_spent c = spent" "c_compacted c = None" "c_before c = None"
      "c_skipped c \<noteq> None"
  | (made) h "text" where "take tail_start (drop start (pi_history inp)) \<noteq> []"
      "summarized prn inp fixed start checkpoint post tail_start h = (c_view c, c_spent c, text)"
      "c_compacted c = Some \<lparr>cr_first_sequence = s_sequence (hd (pi_history inp)),
         cr_last_sequence = s_sequence (last (take tail_start (drop start (pi_history inp)))),
         cr_message_ids = map s_id (take tail_start (drop start (pi_history inp))),
         cr_summary = text, cr_freed_estimate = spent - c_spent c, cr_source = py ''structural''\<rparr>"
      "c_before c = Some spent" "0 < spent - c_spent c"
      "pi_forced inp \<or> pi_allowance inp < spent \<or>
       min MIN_COMPACTION_GAIN_TOKENS (pi_allowance inp div 16) \<le> spent - c_spent c"
proof -
  let ?sum = "summarized prn inp fixed start checkpoint post tail_start"
  show ?thesis
  proof (cases "take tail_start (drop start (pi_history inp)) = []")
    case True
    then show ?thesis by (intro idle) (auto simp: c_def compact_step_def Let_def)
  next
    case False
    obtain v s t where e: "hints_or_not prn inp fixed start checkpoint post tail_start = (v, s, t)"
      by (metis prod_cases3)
    then have h: "\<exists>h. ?sum h = (v, s, t)"
      by (auto simp: hints_or_not_def Let_def split: if_splits)
    have c: "c = (if spent - s \<le> 0 then \<lparr>c_view = head @ post, c_spent = spent, c_compacted = None,
              c_before = None, c_skipped = Some NoGain\<rparr>
         else if \<not> pi_forced inp \<and> spent \<le> pi_allowance inp \<and>
              spent - s < min MIN_COMPACTION_GAIN_TOKENS (pi_allowance inp div 16)
         then \<lparr>c_view = head @ post, c_spent = spent, c_compacted = None,
              c_before = None, c_skipped = Some InsufficientGain\<rparr>
         else \<lparr>c_view = v, c_spent = s,
              c_compacted = Some \<lparr>cr_first_sequence = s_sequence (hd (pi_history inp)),
                 cr_last_sequence = s_sequence (last (take tail_start (drop start (pi_history inp)))),
                 cr_message_ids = map s_id (take tail_start (drop start (pi_history inp))),
                 cr_summary = t, cr_freed_estimate = spent - s, cr_source = py ''structural''\<rparr>,
              c_before = Some spent, c_skipped = None\<rparr>)"
      using False unfolding c_def compact_step_def Let_def e prod.case by (simp only: if_False)
    show ?thesis
    proof (cases "spent - s \<le> 0 \<or> \<not> pi_forced inp \<and> spent \<le> pi_allowance inp \<and>
              spent - s < min MIN_COMPACTION_GAIN_TOKENS (pi_allowance inp div 16)")
      case True
      then show ?thesis by (intro idle) (auto simp: c)
    next
      case ok: False
      obtain h where h: "?sum h = (v, s, t)" using h by blast
      have cc: "c_view c = v" "c_spent c = s" using ok by (auto simp: c)
      show ?thesis
        by (rule made[of h t]) (use False ok h in \<open>auto simp: c\<close>)
    qed
  qed
qed

lemma squeeze_summaries_spec:
  assumes "squeeze_summaries inp spent g = (g', freed)"
  shows "subseq (g_kept g') (g_kept g)" "filter sk_loaded (g_kept g') = filter sk_loaded (g_kept g)"
    "g_memories g' = g_memories g"
    "freed = summary_estimate (g_kept g) (pi_tok inp) - summary_estimate (g_kept g') (pi_tok inp)"
proof -
  let ?c = "max (summary_estimate (g_kept g) (pi_tok inp) - (spent - pi_allowance inp)) 0"
  obtain kept trim where d: "drop_unhit_summaries (g_kept g) (pi_tok inp) ?c = (kept, trim)"
    by force
  note spec = drop_unhit_summaries_spec[OF d]
  have "subseq (g_kept g') (g_kept g) \<and> filter sk_loaded (g_kept g') = filter sk_loaded (g_kept g) \<and>
    g_memories g' = g_memories g \<and>
    freed = summary_estimate (g_kept g) (pi_tok inp) - summary_estimate (g_kept g') (pi_tok inp)"
  proof (cases "spent > pi_allowance inp")
    case True
    then have "g' = note_trim trim (g\<lparr>g_kept := kept\<rparr>)"
      "freed = (if trim = None then 0
          else summary_estimate (g_kept g) (pi_tok inp) - summary_estimate kept (pi_tok inp))"
      using assms d by (simp_all add: squeeze_summaries_def Let_def)
    then show ?thesis using spec by (cases trim) auto
  next
    case False
    then show ?thesis using assms by (simp add: squeeze_summaries_def)
  qed
  then show "subseq (g_kept g') (g_kept g)" "filter sk_loaded (g_kept g') = filter sk_loaded (g_kept g)"
    "g_memories g' = g_memories g"
    "freed = summary_estimate (g_kept g) (pi_tok inp) - summary_estimate (g_kept g') (pi_tok inp)"
    by blast+
qed

lemma squeeze_memories_spec:
  assumes "squeeze_memories inp spent g = (g', freed)"
  shows "prefix (g_memories g') (g_memories g)" "g_kept g' = g_kept g"
    "freed = memory_estimate (g_memories g) (pi_tok inp) - memory_estimate (g_memories g') (pi_tok inp)"
proof -
  let ?c = "max (memory_estimate (g_memories g) (pi_tok inp) - (spent - pi_allowance inp)) 0"
  obtain memories trim where d: "trim_memories (g_memories g) (pi_tok inp) ?c = (memories, trim)"
    by force
  note spec = trim_memories_spec[OF d]
  have "prefix (g_memories g') (g_memories g) \<and> g_kept g' = g_kept g \<and>
    freed = memory_estimate (g_memories g) (pi_tok inp) - memory_estimate (g_memories g') (pi_tok inp)"
  proof (cases "spent > pi_allowance inp \<and> g_memories g \<noteq> []")
    case True
    then have "g' = note_trim trim (g\<lparr>g_memories := memories\<rparr>)"
      "freed = (if trim = None then 0
          else memory_estimate (g_memories g) (pi_tok inp) - memory_estimate memories (pi_tok inp))"
      using assms d by (simp_all add: squeeze_memories_def Let_def)
    then show ?thesis using spec by (cases trim) auto
  next
    case False
    then show ?thesis using assms by (auto simp: squeeze_memories_def)
  qed
  then show "prefix (g_memories g') (g_memories g)" "g_kept g' = g_kept g"
    "freed = memory_estimate (g_memories g) (pi_tok inp) - memory_estimate (g_memories g') (pi_tok inp)"
    by blast+
qed

lemma squeeze_segments_spec:
  assumes "squeeze_segments inp spent g = (g', freed)"
  shows "fixed_estimate prn inp g' = fixed_estimate prn inp g - freed"
    "subseq (g_kept g') (g_kept g)" "filter sk_loaded (g_kept g') = filter sk_loaded (g_kept g)"
    "prefix (g_memories g') (g_memories g)"
proof -
  obtain g1 f1 f2 where s1: "squeeze_summaries inp spent g = (g1, f1)"
    and s2: "squeeze_memories inp (spent - f1) g1 = (g', f2)" and f: "freed = f1 + f2"
    using assms by (auto simp: squeeze_segments_def Let_def split: prod.splits)
  note k1 = squeeze_summaries_spec[OF s1] and k2 = squeeze_memories_spec[OF s2]
  show "fixed_estimate prn inp g' = fixed_estimate prn inp g - freed"
    using k1 k2 f by (simp add: fixed_estimate_def)
  show "subseq (g_kept g') (g_kept g)" "filter sk_loaded (g_kept g') = filter sk_loaded (g_kept g)"
    "prefix (g_memories g') (g_memories g)"
    using k1 k2 by auto
qed

lemma rescue_view_spec:
  assumes "rescue_view inp view spent = Some (view', spent', r)"
    and "spent = view_estimate prn inp fixed view"
  shows "spent' = view_estimate prn inp fixed view'" "spent' \<le> pi_allowance inp"
    "list_all2 same_turn view view'"
proof -
  note r = assms(1)[unfolded rescue_view_def]
  show "spent' = view_estimate prn inp fixed view'"
    using rescue_keeps(2)[OF r, of prn] assms(2) by (simp add: view_estimate_def)
  show "spent' \<le> pi_allowance inp" by (rule rescue_keeps(1)[OF r])
  show "list_all2 same_turn view view'" by (rule rescue_turns[OF r])
qed

lemma rescue_step_cases:
  assumes "rescue_step inp uncompacted uncompacted_spent c g = (c', g')"
  obtains (same) "c' = c" "g' = g"
    | (direct) view spent r where "rescue_view inp (c_view c) (c_spent c) = Some (view, spent, r)"
        "c' = c\<lparr>c_view := view, c_spent := spent\<rparr>" "g' = note_trim (Some r) g"
    | (again) view spent r where "rescue_view inp uncompacted uncompacted_spent = Some (view, spent, r)"
        "c' = c\<lparr>c_compacted := None, c_before := None, c_view := view, c_spent := spent\<rparr>"
        "g' = note_trim (Some r) g"
proof (cases "rescue_view inp (c_view c) (c_spent c)")
  case (Some x)
  obtain view spent r where x: "x = (view, spent, r)" by (cases x)
  show ?thesis
  proof (cases "c_spent c \<le> pi_allowance inp")
    case True
    then have "rescue_step inp uncompacted uncompacted_spent c g = (c, g)"
      by (simp add: rescue_step_def)
    with assms same show ?thesis by simp
  next
    case False
    then have "rescue_step inp uncompacted uncompacted_spent c g =
        (c\<lparr>c_view := view, c_spent := spent\<rparr>, note_trim (Some r) g)"
      by (simp add: rescue_step_def Some x)
    with assms Some x direct show ?thesis by simp
  qed
next
  case None
  show ?thesis
  proof (cases "c_spent c \<le> pi_allowance inp \<or> c_compacted c = None \<or>
      rescue_view inp uncompacted uncompacted_spent = None")
    case True
    then have "rescue_step inp uncompacted uncompacted_spent c g = (c, g)"
      using None by (auto simp: rescue_step_def)
    with assms same show ?thesis by simp
  next
    case False
    then obtain x where s: "rescue_view inp uncompacted uncompacted_spent = Some x" by blast
    obtain view spent r where x: "x = (view, spent, r)" by (cases x)
    have "rescue_step inp uncompacted uncompacted_spent c g =
        (c\<lparr>c_compacted := None, c_before := None, c_view := view, c_spent := spent\<rparr>, note_trim (Some r) g)"
      using False None by (auto simp: rescue_step_def s x)
    with assms have "c' = c\<lparr>c_compacted := None, c_before := None, c_view := view, c_spent := spent\<rparr>"
      "g' = note_trim (Some r) g" by simp_all
    with s x again show ?thesis by blast
  qed
qed

lemma rescue_step_spec:
  assumes "rescue_step inp uncompacted uncompacted_spent c g = (c', g')"
    and "c_spent c = view_estimate prn inp fixed (c_view c)" "history_view prn inp (c_view c)"
    and "uncompacted_spent = view_estimate prn inp fixed uncompacted" "history_view prn inp uncompacted"
  shows "c_spent c' = view_estimate prn inp fixed (c_view c') \<and> history_view prn inp (c_view c') \<and>
    g_kept g' = g_kept g \<and> g_memories g' = g_memories g \<and>
    (c_compacted c' = c_compacted c \<and> c_before c' = c_before c \<or> c_compacted c' = None \<and> c_before c' = None) \<and>
    c_skipped c' = c_skipped c"
  using assms(1)
proof (cases rule: rescue_step_cases)
  case same
  then show ?thesis using assms by simp
next
  case direct
  then show ?thesis
    using rescue_view_spec[OF direct(1) assms(2)] history_view_turns[OF assms(3)] by simp
next
  case again
  then show ?thesis
    using rescue_view_spec[OF again(1) assms(4)] history_view_turns[OF assms(5)] by simp
qed

text \<open>The compaction of a view is a view, counted as what it is.\<close>

lemma compact_step_spec:
  fixes prn inp fixed start head checkpoint post tail_start spent
  assumes start: "start \<le> length (pi_history inp)" "\<not> splits_a_tool_pair (pi_history inp) start"
      "view_head prn inp start head"
    and post: "list_all2 same_turn (map s_message (drop start (pi_history inp))) post"
    and tail: "tail_start \<le> length post" "\<not> splits_a_tool_pair (pi_history inp) (start + tail_start)"
    and spent: "spent = view_estimate prn inp fixed (head @ post)"
  defines "c \<equiv> compact_step prn inp fixed start head checkpoint post tail_start spent"
  shows "history_view prn inp (c_view c)" "c_spent c = view_estimate prn inp fixed (c_view c)"
proof -
  have len: "start + tail_start \<le> length (pi_history inp)"
    using tail(1) start(1) list_all2_lengthD[OF post] by simp
  have "history_view prn inp (c_view c) \<and> c_spent c = view_estimate prn inp fixed (c_view c)"
  proof (cases rule: compact_step_cases[of prn inp fixed start head checkpoint post tail_start spent,
        folded c_def, case_names idle made])
    case idle
    then show ?thesis using history_viewI[OF start post] spent by simp
  next
    case (made h "text")
    note eq = summarized_eq[OF made(2)]
    have "0 < start + tail_start" using made(1) by (cases tail_start) auto
    then have "view_head prn inp (start + tail_start)
        (summary_head prn text (take (start + tail_start) (pi_history inp))
           (request_of (pi_history inp)) (pi_allowance inp) (pi_tok inp))"
      by (auto simp: view_head_def)
    then have "history_view prn inp (c_view c)"
      unfolding eq(1) by (intro history_viewI[OF len tail(2)] same_turns_drop post)
    with eq(2) show ?thesis by simp
  qed
  then show "history_view prn inp (c_view c)" "c_spent c = view_estimate prn inp fixed (c_view c)"
    by blast+
qed

subsection \<open>The plan\<close>

lemma finish_simps [simp]:
  "p_messages (finish inp g ms n f cp c b s) = ms" "p_fits (finish inp g ms n f cp c b s) = f"
  "p_input_estimate (finish inp g ms n f cp c b s) = n"
  "p_allowance (finish inp g ms n f cp c b s) = pi_allowance inp"
  "p_trimmed (finish inp g ms n f cp c b s) = g_trimmed g"
  "p_compacted (finish inp g ms n f cp c b s) = c"
  "p_skill_summaries (finish inp g ms n f cp c b s) = map sk_text (g_kept g)"
  "p_memories (finish inp g ms n f cp c b s) = g_memories g"
  "p_checkpoint (finish inp g ms n f cp c b s) = cp"
  "p_before_compaction_estimate (finish inp g ms n f cp c b s) = b"
  "p_compaction_skipped (finish inp g ms n f cp c b s) = s"
  by (simp_all add: finish_def)

text \<open>What a compaction that was made covers, and what it gained.\<close>

definition compaction_made ::
  "(nat \<Rightarrow> bool) \<Rightarrow> PlanInput \<Rightarrow> CompactionRecord \<Rightarrow> int option \<Rightarrow> bool" where
  "compaction_made prn inp r before \<longleftrightarrow>
     (case checkpoint_view prn inp of (start, _) \<Rightarrow>
        \<exists>n b. 0 < n \<and> start + n \<le> length (pi_history inp) \<and>
          \<not> splits_a_tool_pair (pi_history inp) (start + n) \<and>
          cr_message_ids r = map s_id (take n (drop start (pi_history inp))) \<and>
          cr_first_sequence r = s_sequence (hd (pi_history inp)) \<and>
          cr_last_sequence r = s_sequence (pi_history inp ! (start + n - 1)) \<and>
          before = Some b \<and> 0 < cr_freed_estimate r \<and>
          (pi_forced inp \<or> pi_allowance inp < b \<or>
           min MIN_COMPACTION_GAIN_TOKENS (pi_allowance inp div 16) \<le> cr_freed_estimate r))"

lemma compact_step_made:
  assumes cv: "checkpoint_view prn inp = (start, head, checkpoint)"
    and len: "start + tail_start \<le> length (pi_history inp)"
    and whole: "\<not> splits_a_tool_pair (pi_history inp) (start + tail_start)"
    and r: "c_compacted (compact_step prn inp fixed start head checkpoint post tail_start spent) = Some r"
  shows "compaction_made prn inp r
     (c_before (compact_step prn inp fixed start head checkpoint post tail_start spent))"
proof (cases rule: compact_step_cases[of prn inp fixed start head checkpoint post tail_start spent])
  case idle
  then show ?thesis using r by simp
next
  case (made h "text")
  let ?d = "take tail_start (drop start (pi_history inp))"
  have n: "0 < tail_start" "length ?d = tail_start" using made(1) len by auto
  have "last ?d = ?d ! (tail_start - 1)"
    using made(1) n by (simp add: last_conv_nth)
  also have "\<dots> = pi_history inp ! (start + tail_start - 1)"
    using n len by simp
  finally have l: "last ?d = pi_history inp ! (start + tail_start - 1)" .
  show ?thesis
    unfolding compaction_made_def cv prod.case
    by (rule exI[of _ tail_start], rule exI[of _ spent])
      (use made r n len whole l in auto)
qed

text \<open>A plan that sends a view, at a number that is the view's with the segments it sends.\<close>

definition sends ::
  "(nat \<Rightarrow> bool) \<Rightarrow> PlanInput \<Rightarrow> Segments \<Rightarrow> ContextPlan \<Rightarrow> bool" where
  "sends prn inp g plan \<longleftrightarrow>
     (\<exists>view g' checkpoint compacted before skipped.
        history_view prn inp view \<and>
        view_estimate prn inp (fixed_estimate prn inp g') view \<le> pi_allowance inp \<and>
        subseq (g_kept g') (g_kept g) \<and> prefix (g_memories g') (g_memories g) \<and>
        filter sk_loaded (g_kept g') = filter sk_loaded (g_kept g) \<and>
        (\<forall>r. compacted = Some r \<longrightarrow> compaction_made prn inp r before) \<and>
        plan = finish inp g' view (view_estimate prn inp (fixed_estimate prn inp g') view) True
                 checkpoint compacted before skipped)"

text \<open>A plan that gives up: the originals, and no record of a compaction.\<close>

definition gives_up :: "PlanInput \<Rightarrow> Segments \<Rightarrow> ContextPlan \<Rightarrow> bool" where
  "gives_up inp g plan \<longleftrightarrow>
     (\<exists>g' n skipped. subseq (g_kept g') (g_kept g) \<and> prefix (g_memories g') (g_memories g) \<and>
        filter sk_loaded (g_kept g') = filter sk_loaded (g_kept g) \<and>
        plan = finish inp g' (map s_message (pi_history inp)) n False None None None skipped)"

lemma compact_and_finish_cases:
  assumes cv: "checkpoint_view prn inp = (start, head, checkpoint)"
    and turns: "list_all2 same_turn (map s_message (drop start (pi_history inp))) post"
    and tail: "tail_start \<le> length post" "\<not> splits_a_tool_pair (pi_history inp) (start + tail_start)"
    and spent: "spent = view_estimate prn inp (fixed_estimate prn inp g) (head @ post)"
  defines "plan \<equiv> compact_and_finish prn inp (fixed_estimate prn inp g) start head checkpoint tail_start
    post spent g"
  shows "sends prn inp g plan \<or> gives_up inp g plan"
proof -
  define fixed where "fixed = fixed_estimate prn inp g"
  note cp = checkpoint_view_spec[OF cv]
  define c where "c = compact_step prn inp fixed start head checkpoint post tail_start spent"
  obtain g2 freed where sq: "squeeze_segments inp (c_spent c) g = (g2, freed)" by force
  obtain c' g3 where re: "rescue_step inp (head @ post) (spent - freed)
      (c\<lparr>c_spent := c_spent c - freed\<rparr>) g2 = (c', g3)" by force
  have hlen: "start + tail_start \<le> length (pi_history inp)"
    using tail cp(1) list_all2_lengthD[OF turns] by simp
  note cs = compact_step_spec[OF cp(1-3) turns tail spent, of checkpoint, folded fixed_def, folded c_def]
  note qs = squeeze_segments_spec[OF sq]
  have rs: "c_spent c' = view_estimate prn inp (fixed - freed) (c_view c') \<and>
      history_view prn inp (c_view c') \<and> g_kept g3 = g_kept g2 \<and> g_memories g3 = g_memories g2 \<and>
      (c_compacted c' = c_compacted c \<and> c_before c' = c_before c \<or>
       c_compacted c' = None \<and> c_before c' = None)"
    using rescue_step_spec[OF re, of prn "fixed - freed"] cs history_viewI[OF cp(1-3) turns] spent
    by (simp add: view_estimate_def fixed_def)
  have fx: "fixed_estimate prn inp g3 = fixed - freed"
    using qs(1)[of prn] rs by (simp add: fixed_def fixed_estimate_def)
  have g3: "subseq (g_kept g3) (g_kept g)" "prefix (g_memories g3) (g_memories g)"
    "filter sk_loaded (g_kept g3) = filter sk_loaded (g_kept g)"
    using rs qs by auto
  have made: "compaction_made prn inp r (c_before c')" if "c_compacted c' = Some r" for r
    using compact_step_made[OF cv hlen tail(2), of fixed post spent r, folded c_def] rs that by auto
  have plan: "plan = (if c_spent c' > pi_allowance inp
      then finish inp g3 (map s_message (pi_history inp))
             (view_estimate prn inp fixed (map s_message (pi_history inp))) False None None None (c_skipped c')
      else finish inp g3 (c_view c') (c_spent c') True checkpoint (c_compacted c') (c_before c') (c_skipped c'))"
    unfolding plan_def compact_and_finish_def Let_def fixed_def[symmetric] c_def[symmetric] sq prod.case re ..
  show ?thesis
  proof (cases "c_spent c' > pi_allowance inp")
    case True
    then show ?thesis using g3 plan unfolding gives_up_def by auto
  next
    case False
    then have "sends prn inp g plan"
      unfolding sends_def using g3 plan rs fx made by (intro exI[of _ "c_view c'"] exI[of _ g3]) auto
    then show ?thesis ..
  qed
qed

text \<open>Below the trigger: the view is sent, and it fits unless the trigger lies above the
  allowance.\<close>

definition below_trigger ::
  "(nat \<Rightarrow> bool) \<Rightarrow> PlanInput \<Rightarrow> Segments \<Rightarrow> ContextPlan \<Rightarrow> bool" where
  "below_trigger prn inp g plan \<longleftrightarrow>
     (\<exists>view g' checkpoint. history_view prn inp view \<and>
        int_less_dbl (view_estimate prn inp (fixed_estimate prn inp g) view) (trigger inp) \<and>
        g_kept g' = g_kept g \<and> g_memories g' = g_memories g \<and>
        plan = finish inp g' view (view_estimate prn inp (fixed_estimate prn inp g) view)
          (view_estimate prn inp (fixed_estimate prn inp g) view \<le> pi_allowance inp) checkpoint None None None)"

lemma plan_context_cases:
  fixes prn inp
  defines "plan \<equiv> plan_context prn inp" and "g \<equiv> cap_segments inp"
  shows "gives_up inp g plan \<or> below_trigger prn inp g plan \<or> sends prn inp g plan"
proof (cases "pi_allowance inp < plan_floor prn inp g")
  case True
  then have "plan = finish inp g (map s_message (pi_history inp)) (plan_floor prn inp g) False
      None None None None"
    by (simp add: plan_def plan_context_def Let_def g_def)
  then show ?thesis unfolding gives_up_def by auto
next
  case fl: False
  define fixed where "fixed = fixed_estimate prn inp g"
  obtain start head checkpoint where cv: "checkpoint_view prn inp = (start, head, checkpoint)"
    by (metis prod_cases3)
  note cp = checkpoint_view_spec[OF cv]
  define post where "post = drop start (capped_history inp)"
  have turns: "list_all2 same_turn (map s_message (drop start (pi_history inp))) post"
    using list_all2_dropI[OF capped_history_turns[of inp], of start] by (simp add: post_def drop_map)
  define spent where "spent = view_estimate prn inp fixed (head @ post)"
  define ceiling where "ceiling = max (pi_allowance inp - fixed) 0 div 2"
  define tail_start where "tail_start =
    retained_tail_start prn post (min RETAINED_TAIL_TOKENS ceiling) ceiling (pi_tok inp)"
  define st where "st = (if pi_forced inp then (post, spent, g)
      else clean_step prn inp fixed head tail_start (post, spent, g))"
  obtain post' spent' g' where st: "st = (post', spent', g')" by (metis prod_cases3)
  have st': "list_all2 same_turn post post'" "spent' = view_estimate prn inp fixed (head @ post')"
      "g_kept g' = g_kept g" "g_memories g' = g_memories g"
    using st clean_step_spec[of prn inp fixed head tail_start post spent g post' spent' g']
    by (auto simp: st_def spent_def split: if_splits)
  have turns': "list_all2 same_turn (map s_message (drop start (pi_history inp))) post'"
    using turns st'(1) by (rule same_turns_trans)
  have plan: "plan =
      (if \<not> pi_forced inp \<and> int_less_dbl spent (trigger inp)
       then finish inp g (head @ post) spent (spent \<le> pi_allowance inp) checkpoint None None None
       else if \<not> pi_forced inp \<and> int_less_dbl spent' (trigger inp)
       then finish inp g' (head @ post') spent' (spent' \<le> pi_allowance inp) checkpoint None None None
       else compact_and_finish prn inp fixed start head checkpoint tail_start post' spent' g')"
    unfolding plan_def plan_context_def Let_def cv prod.case
      g_def[symmetric] fixed_def[symmetric] post_def[symmetric] spent_def[symmetric]
      ceiling_def[symmetric] tail_start_def[symmetric] st_def[symmetric] st
    by (simp only: fl if_False)
  have fx: "fixed = fixed_estimate prn inp g'" using st'(3,4) by (simp add: fixed_def fixed_estimate_def)
  have len: "tail_start \<le> length post'"
    using retained_tail_start_le list_all2_lengthD[OF st'(1)] unfolding tail_start_def by metis
  have whole: "\<not> splits_a_tool_pair (pi_history inp) (start + tail_start)"
    by (rule cut_twice[OF cp(2) turns tail_start_def])
  have rest: "sends prn inp g' plan' \<or> gives_up inp g' plan'"
    if "plan' = compact_and_finish prn inp fixed start head checkpoint tail_start post' spent' g'" for plan'
    unfolding that fx by (rule compact_and_finish_cases[OF cv turns' len whole st'(2)[unfolded fx]])
  have same: "sends prn inp g' plan' = sends prn inp g plan'" "gives_up inp g' plan' = gives_up inp g plan'"
    for plan' using st'(3,4) by (simp_all add: sends_def gives_up_def)
  show ?thesis
  proof (cases "\<not> pi_forced inp \<and> (int_less_dbl spent (trigger inp) \<or> int_less_dbl spent' (trigger inp))")
    case True
    then have "below_trigger prn inp g plan"
      using plan st' history_viewI[OF cp(1-3) turns] history_viewI[OF cp(1-3) turns']
      unfolding below_trigger_def spent_def fixed_def by (auto split: if_splits)
    then show ?thesis by blast
  next
    case False
    then have "plan = compact_and_finish prn inp fixed start head checkpoint tail_start post' spent' g'"
      using plan by (auto split: if_splits)
    with rest same show ?thesis by blast
  qed
qed

lemma cap_segments_spec:
  "subseq (g_kept (cap_segments inp)) (pi_skill_summaries inp) \<and>
   filter sk_loaded (g_kept (cap_segments inp)) = filter sk_loaded (pi_skill_summaries inp) \<and>
   prefix (g_memories (cap_segments inp)) (pi_memories inp)"
proof -
  have k: "subseq kept (pi_skill_summaries inp) \<and> filter sk_loaded kept = filter sk_loaded (pi_skill_summaries inp)"
    if "drop_unhit_summaries (pi_skill_summaries inp) (pi_tok inp) ceiling = (kept, trim)"
    for ceiling kept trim
    using drop_unhit_summaries_spec[OF that] by blast
  have m: "prefix memories (pi_memories inp)"
    if "trim_memories (pi_memories inp) (pi_tok inp) ceiling = (memories, trim)" for ceiling memories trim
    using trim_memories_spec[OF that] by blast
  show ?thesis
    using k m by (auto simp: cap_segments_def Let_def split: option.splits prod.splits)
qed

lemma summary_estimate_texts: "summary_estimate kept tok = memory_estimate (map sk_text kept) tok"
  by (simp add: summary_estimate_def memory_estimate_def comp_def)

lemma request_of_Some:
  assumes "request_of history = Some (i, m)"
  shows "i < length history" "m = s_message (history ! i)" "m_role m = RUser"
  using assms by (auto simp: request_of_def find_Some_iff rev_nth)

lemma trigger_le_allowance:
  assumes "0 \<le> pi_allowance inp" "pi_allowance inp < 2 ^ 53" "pi_threshold inp = Dbl n k"
    "0 \<le> n" "n \<le> 2 ^ k" "int_less_dbl spent (trigger inp)"
  shows "spent < pi_allowance inp"
proof -
  have "int_less_dbl spent (dbl_mult (pi_allowance inp) (Dbl n k))"
  proof (cases "pi_trigger_cap inp")
    case None
    then show ?thesis using assms by (simp add: trigger_def)
  next
    case (Some cap)
    obtain a b where d: "dbl_mult (pi_allowance inp) (Dbl n k) = Dbl a b" by (cases "dbl_mult (pi_allowance inp) (Dbl n k)")
    show ?thesis
    proof (cases "cap * 2 ^ b < a")
      case True
      then have "spent < cap"
        using assms(3,6) Some d by (simp add: trigger_def dbl_min_int_def int_less_dbl_def dbl_of_int_def)
      then have "spent * 2 ^ b < cap * 2 ^ b" by simp
      then have "spent * 2 ^ b < a" using True by (rule less_trans)
      then show ?thesis by (simp add: int_less_dbl_def d)
    next
      case False
      then show ?thesis
        using assms(3,6) Some d by (simp add: trigger_def dbl_min_int_def int_less_dbl_def)
    qed
  qed
  then show ?thesis by (rule less_dbl_mult_le_one[OF assms(1,2,4,5)])
qed

text \<open>Views keep the pairs of calls and results, and the current request.\<close>

definition paired :: "CanonicalMessage list \<Rightarrow> bool" where
  "paired messages \<longleftrightarrow>
     set (concat (map answered_ids messages)) \<subseteq> set (concat (map called_ids messages))"

definition users_answer_nothing :: "CanonicalMessage list \<Rightarrow> bool" where
  "users_answer_nothing messages \<longleftrightarrow>
     list_all (\<lambda>m. m_role m = RUser \<longrightarrow> answered_ids m = []) messages"

lemma summary_head_answers:
  assumes "users_answer_nothing (map s_message history)" "m \<in> set (summary_head prn text covered (request_of history) a tok)"
  shows "answered_ids m = []"
proof -
  have "answered_ids m' = []" if "request_of history = Some (i, m')" for i m'
    using request_of_Some[OF that] assms(1) by (auto simp: users_answer_nothing_def list_all_iff)
  moreover have "answered_ids \<lparr>m_role = RUser, m_blocks = [TextBlock t], m_author = Some APlatform\<rparr> = []" for t
    by (simp add: answered_ids_def)
  ultimately show ?thesis
    using assms(2) by (cases "request_of history") (auto simp: summary_head_def split: if_splits)
qed

lemma history_view_paired:
  assumes "history_view prn inp view" "paired (map s_message (pi_history inp))"
    "users_answer_nothing (map s_message (pi_history inp))"
  shows "paired view"
proof -
  let ?h = "pi_history inp"
  obtain k head where k: "\<not> splits_a_tool_pair ?h k" "view_head prn inp k head"
    "list_all2 same_turn (head @ map s_message (drop k ?h)) view"
    using assms(1) by (auto simp: history_view_def)
  have "paired (head @ map s_message (drop k ?h))"
    unfolding paired_def
  proof
    fix i
    assume "i \<in> set (concat (map answered_ids (head @ map s_message (drop k ?h))))"
    moreover have "answered_ids m = []" if "m \<in> set head" for m
      using k(2) that summary_head_answers[OF assms(3)] by (auto simp: view_head_def split: if_splits)
    ultimately have a: "i \<in> set (concat (map (\<lambda>x. answered_ids (s_message x)) (drop k ?h)))"
      by auto
    then have "i \<in> set (concat (map (\<lambda>x. called_ids (s_message x)) ?h))"
      using assms(2) by (auto simp: paired_def dest: in_set_dropD)
    then have "i \<in> set (concat (map (\<lambda>x. called_ids (s_message x)) (take k ?h))) \<or>
        i \<in> set (concat (map (\<lambda>x. called_ids (s_message x)) (drop k ?h)))"
      by (metis Un_iff append_take_drop_id concat_append map_append set_append)
    with k(1) a have "i \<in> set (concat (map (\<lambda>x. called_ids (s_message x)) (drop k ?h)))"
      unfolding splits_iff by blast
    then show "i \<in> set (concat (map called_ids (head @ map s_message (drop k ?h))))"
      by (auto simp: comp_def)
  qed
  then show ?thesis using same_turns_ids[OF k(3)] by (simp add: paired_def)
qed

lemma history_view_request:
  assumes "history_view prn inp view" "request_of (pi_history inp) = Some (i, m)"
  shows "m \<in> set view"
proof -
  let ?h = "pi_history inp"
  obtain k head where k: "k \<le> length ?h" "view_head prn inp k head"
    "list_all2 same_turn (head @ map s_message (drop k ?h)) view"
    using assms(1) by (auto simp: history_view_def)
  note r = request_of_Some[OF assms(2)]
  have "m \<in> set (head @ map s_message (drop k ?h))"
  proof (cases "i < k")
    case True
    then have "m \<in> set head"
      using k(1,2) assms(2) by (auto simp: view_head_def summary_head_def)
    then show ?thesis by simp
  next
    case False
    then have "?h ! i \<in> set (drop k ?h)"
      using r(1) by (metis add_diff_inverse_nat diff_less_mono length_drop linorder_not_less nth_drop nth_mem k(1))
    then show ?thesis using r(2) by auto
  qed
  then show ?thesis using same_turns_user[OF k(3)] r(3) by blast
qed

lemma plan_fits_view:
  assumes "p_fits (plan_context prn inp)"
  shows "history_view prn inp (p_messages (plan_context prn inp))"
  using plan_context_cases[of inp prn] assms
  by (auto simp: gives_up_def below_trigger_def sends_def)

lemma plan_context_segments:
  "\<exists>g' :: Segments. p_skill_summaries (plan_context prn inp) = map sk_text (g_kept g') \<and>
    p_memories (plan_context prn inp) = g_memories g' \<and>
    subseq (g_kept g') (g_kept (cap_segments inp)) \<and>
    prefix (g_memories g') (g_memories (cap_segments inp)) \<and>
    filter sk_loaded (g_kept g') = filter sk_loaded (g_kept (cap_segments inp))"
  using plan_context_cases[of inp prn]
proof (elim disjE)
  assume "below_trigger prn inp (cap_segments inp) (plan_context prn inp)"
  then have *: "p_skill_summaries (plan_context prn inp) = map sk_text (g_kept (cap_segments inp)) \<and>
      p_memories (plan_context prn inp) = g_memories (cap_segments inp)"
    by (auto simp: below_trigger_def)
  show ?thesis by (rule exI[of _ "cap_segments inp"]) (simp add: *)
qed (auto simp: gives_up_def sends_def)

text \<open>Small inputs the properties are applied to.\<close>

definition sample_turn :: "nat \<Rightarrow> Role \<Rightarrow> Block list \<Rightarrow> StoredMessage" where
  "sample_turn n role blocks =
     \<lparr>s_id = n, s_sequence = int n,
      s_message = \<lparr>m_role = role, m_blocks = blocks, m_author = None\<rparr>,
      s_withdrawn_at = None, s_source_run_id = None\<rparr>"

definition sample_history :: "StoredMessage list" where
  "sample_history =
     [sample_turn 1 RUser [TextBlock [104, 105]],
      sample_turn 2 RAssistant [BToolCall \<lparr>tc_call_id = [99], tc_name = [108, 115], tc_arguments = []\<rparr>],
      sample_turn 3 RTool [BToolResult \<lparr>tr_call_id = [99], tr_output = [97], tr_exit_code = 0,
        tr_failed = False\<rparr>]]"

definition sample_pictures :: "StoredMessage list" where
  "sample_pictures =
     [sample_turn 1 RAssistant [ImageBlock [97] [98], ImageBlock [99] [98], ImageBlock [100] [98]],
      sample_turn 2 RUser [TextBlock [104, 105]]]"

definition sample_input :: "int \<Rightarrow> bool \<Rightarrow> StoredMessage list \<Rightarrow> PlanInput" where
  "sample_input window forced history =
     \<lparr>pi_window = \<lparr>context_window = window, reserved_output_tokens = 0, accounting = SHARED,
        w_tokenizer = None\<rparr>,
      pi_safety_rules = [], pi_personality = [], pi_tool_schemas = [], pi_history = history,
      pi_skill_summaries = [], pi_memories = [], pi_segments = DEFAULT_SEGMENTS,
      pi_stored_summary = None, pi_threshold = DEFAULT_COMPACTION_THRESHOLD, pi_trigger_cap = None,
      pi_forced = forced, pi_untrimmed_tools = {}\<rparr>"

lemma sample_fits: "p_fits (plan_context (\<lambda>_. False) (sample_input 1000 False sample_history))"
  by code_simp

lemma sample_overflows: "\<not> p_fits (plan_context (\<lambda>_. False) (sample_input 10 False sample_history))"
  by code_simp

lemma sample_compacts:
  "map_option cr_message_ids
     (p_compacted (plan_context (\<lambda>_. False) (sample_input 1500 True sample_pictures))) = Some [1]"
  by code_simp

lemma sample_allowance: "0 \<le> n \<Longrightarrow> input_allowance (pi_window (sample_input n forced history)) = n"
  by (simp add: sample_input_def input_allowance_def)

lemma sample_threshold: "pi_threshold (sample_input n forced history) = Dbl 7656119366529843 53"
  by (simp add: sample_input_def DEFAULT_COMPACTION_THRESHOLD_def)

section \<open>Properties\<close>

text \<open>What a round costs, counted over what the plan says to send.\<close>

definition round_cost :: "(nat \<Rightarrow> bool) \<Rightarrow> PlanInput \<Rightarrow> ContextPlan \<Rightarrow> int" where
  "round_cost prn inp plan =
     base_estimate prn inp + memory_estimate (p_skill_summaries plan) (pi_tok inp) +
     memory_estimate (p_memories plan) (pi_tok inp) + MESSAGE_OVERHEAD_TOKENS * 2 +
     messages_estimate prn (p_messages plan) (pi_tok inp)"

text \<open>
  C4. A plan that fits fits. Whatever was trimmed, compacted, given back and stubbed on the
  way, the number the plan reports is the estimate of exactly what it says to send, and it is
  within the input allowance.
\<close>

theorem plan_fits_exactly:
  "p_fits (plan_context prn inp) \<Longrightarrow>
   p_input_estimate (plan_context prn inp) = round_cost prn inp (plan_context prn inp) \<and>
   p_input_estimate (plan_context prn inp) \<le> input_allowance (pi_window inp)"
  using plan_context_cases[of inp prn]
  by (auto simp: gives_up_def below_trigger_def sends_def round_cost_def view_estimate_def
      fixed_estimate_def summary_estimate_texts)

theorem plan_fits_exactly_witness:
  "p_input_estimate (plan_context (\<lambda>_. False) (sample_input 1000 False sample_history)) \<le> 1000"
  using plan_fits_exactly[OF sample_fits] by (simp add: sample_allowance)

text \<open>
  C28. A plan that does not fit hides nothing: with a threshold of at most one, it carries the
  turns of the history as they are stored, and no compaction and no checkpoint.
\<close>

theorem plan_overflow_keeps_originals:
  "\<not> p_fits (plan_context prn inp) \<Longrightarrow> pi_threshold inp = Dbl n k \<Longrightarrow> 0 \<le> n \<Longrightarrow> n \<le> 2 ^ k \<Longrightarrow>
   0 \<le> input_allowance (pi_window inp) \<Longrightarrow> input_allowance (pi_window inp) < 2 ^ 53 \<Longrightarrow>
   p_messages (plan_context prn inp) = map s_message (pi_history inp) \<and>
   p_compacted (plan_context prn inp) = None \<and> p_checkpoint (plan_context prn inp) = None"
  using plan_context_cases[of inp prn] trigger_le_allowance[of inp n k]
  by (fastforce simp: gives_up_def below_trigger_def sends_def)

theorem plan_overflow_keeps_originals_witness:
  "p_messages (plan_context (\<lambda>_. False) (sample_input 10 False sample_history)) =
   map s_message (pi_history (sample_input 10 False sample_history))"
  using plan_overflow_keeps_originals[OF sample_overflows, of 7656119366529843 53]
  by (simp add: sample_allowance sample_threshold)

text \<open>
  C3. No plan that fits sends a tool result without its call. If in the stored history every
  result has a call, and results stand in no user turn, then so it is in what is sent, across
  the stored summary, the retained tail, the compaction and the stubs.
\<close>

theorem plan_keeps_tool_pairs:
  "p_fits (plan_context prn inp) \<Longrightarrow> paired (map s_message (pi_history inp)) \<Longrightarrow>
   users_answer_nothing (map s_message (pi_history inp)) \<Longrightarrow>
   paired (p_messages (plan_context prn inp))"
  by (rule history_view_paired[OF plan_fits_view])

theorem plan_keeps_tool_pairs_witness:
  "paired (p_messages (plan_context (\<lambda>_. False) (sample_input 1000 False sample_history)))"
  by (rule plan_keeps_tool_pairs[OF sample_fits])
    (simp_all add: sample_input_def sample_history_def sample_turn_def paired_def
      users_answer_nothing_def called_ids_def answered_ids_def)

text \<open>
  C27. The current request is always sent. The last turn of the user is one of the messages of
  every plan that fits, unchanged, even when it lies in the range a summary covers.
\<close>

theorem plan_sends_the_request:
  "p_fits (plan_context prn inp) \<Longrightarrow> request_of (pi_history inp) = Some (i, m) \<Longrightarrow>
   m \<in> set (p_messages (plan_context prn inp)) \<and> m = s_message (pi_history inp ! i) \<and> m_role m = RUser"
  using history_view_request[OF plan_fits_view] request_of_Some by blast

theorem plan_sends_the_request_witness:
  "s_message (sample_turn 1 RUser [TextBlock [104, 105]])
     \<in> set (p_messages (plan_context (\<lambda>_. False) (sample_input 1000 False sample_history)))"
  using plan_sends_the_request[OF sample_fits, of 0 "s_message (sample_turn 1 RUser [TextBlock [104, 105]])"]
  by (simp add: sample_input_def sample_history_def request_of_def sample_turn_def)

text \<open>
  A compaction says what it covered. When a plan carries the record of one, the plan fits;
  the ids are those of the turns from the stored summary to the cut, there is at least one,
  the cut splits no call from its result, the range runs from the first turn of the history to
  the last one covered, and the compaction gained: something in any case, and the required
  minimum unless it was asked for or the round did not fit without it.
\<close>

theorem plan_compaction_record:
  "p_compacted (plan_context prn inp) = Some r \<Longrightarrow>
   p_fits (plan_context prn inp) \<and>
   compaction_made prn inp r (p_before_compaction_estimate (plan_context prn inp))"
  using plan_context_cases[of inp prn]
  by (auto simp: gives_up_def below_trigger_def sends_def)

theorem plan_compaction_record_witness:
  "p_fits (plan_context (\<lambda>_. False) (sample_input 1500 True sample_pictures))"
proof -
  obtain r where "p_compacted (plan_context (\<lambda>_. False) (sample_input 1500 True sample_pictures)) = Some r"
    using sample_compacts by blast
  then show ?thesis
    using plan_compaction_record by blast
qed

text \<open>
  What the segments lose. Whether or not the plan fits, the skill summaries sent are some
  of those bound, in their order, with every loaded one among them, and the memories sent are
  a beginning of those recalled.
\<close>

theorem plan_segments_whole:
  "\<exists>kept. p_skill_summaries (plan_context prn inp) = map sk_text kept \<and>
     subseq kept (pi_skill_summaries inp) \<and>
     filter sk_loaded kept = filter sk_loaded (pi_skill_summaries inp) \<and>
     prefix (p_memories (plan_context prn inp)) (pi_memories inp)"
proof -
  obtain g' :: Segments where g': "p_skill_summaries (plan_context prn inp) = map sk_text (g_kept g')"
    "p_memories (plan_context prn inp) = g_memories g'"
    "subseq (g_kept g') (g_kept (cap_segments inp))" "prefix (g_memories g') (g_memories (cap_segments inp))"
    "filter sk_loaded (g_kept g') = filter sk_loaded (g_kept (cap_segments inp))"
    using plan_context_segments[of prn inp] by blast
  then show ?thesis
    using cap_segments_spec[of inp]
    by (intro exI[of _ "g_kept g'"]) (auto intro: subseq_order.trans prefix_order.trans)
qed

end
