(* ===== verification/Tables.thy ===== *)
theory Tables
  imports Prelude
begin

text \<open>
  The relational reads and writes the stores are built from, over tables kept as lists of
  rows: a read by key, an \<open>UPDATE ... WHERE\<close>, and an
  \<open>ORDER BY ... LIMIT 1\<close>. The locale \<open>table_key\<close> holds what a write that keeps
  the primary key does to a read by that key; every table of the model interprets it.
\<close>

section \<open>Reads and writes\<close>

definition lookup :: "('r \<Rightarrow> 'k) \<Rightarrow> 'k \<Rightarrow> 'r list \<Rightarrow> 'r option" where
  "lookup key k rows = find (\<lambda>r. key r = k) rows"

definition update_where :: "('r \<Rightarrow> bool) \<Rightarrow> ('r \<Rightarrow> 'r) \<Rightarrow> 'r list \<Rightarrow> 'r list" where
  "update_where p f rows = map (\<lambda>r. if p r then f r else r) rows"

definition first_row :: "('r \<Rightarrow> bool) \<Rightarrow> ('r \<Rightarrow> 'o::linorder) \<Rightarrow> 'r list \<Rightarrow> 'r option" where
  "first_row p ord rows =
     (case sort_key ord (filter p rows) of [] \<Rightarrow> None | r # _ \<Rightarrow> Some r)"

section \<open>Facts\<close>

lemma lookup_Nil [simp]: "lookup key k [] = None"
  by (simp add: lookup_def)

lemma lookup_Cons [simp]:
  "lookup key k (r # rows) = (if key r = k then Some r else lookup key k rows)"
  by (simp add: lookup_def)

lemma lookup_SomeD: "lookup key k rows = Some r \<Longrightarrow> r \<in> set rows \<and> key r = k"
  by (auto simp: lookup_def find_Some_iff)

lemma lookup_None_iff: "lookup key k rows = None \<longleftrightarrow> k \<notin> key ` set rows"
  by (auto simp: lookup_def find_None_iff)

lemma lookup_distinct:
  "distinct (map key rows) \<Longrightarrow> r \<in> set rows \<Longrightarrow> lookup key (key r) rows = Some r"
proof (induction rows)
  case (Cons a rows)
  then show ?case by (cases "r = a") (auto simp: rev_image_eqI)
qed simp

lemma lookup_Some_iff:
  "distinct (map key rows) \<Longrightarrow> lookup key k rows = Some r \<longleftrightarrow> r \<in> set rows \<and> key r = k"
  using lookup_SomeD[of key k rows r] lookup_distinct[of key rows r] by auto

lemma lookup_append:
  "lookup key k (xs @ ys) = (case lookup key k xs of None \<Rightarrow> lookup key k ys | Some r \<Rightarrow> Some r)"
  by (induction xs) auto

lemma length_update_where [simp]: "length (update_where p f rows) = length rows"
  by (simp add: update_where_def)

lemma update_where_Nil [simp]: "update_where p f [] = []"
  by (simp add: update_where_def)

lemma update_where_Cons [simp]:
  "update_where p f (r # rows) = (if p r then f r else r) # update_where p f rows"
  by (simp add: update_where_def)

lemma set_update_where: "set (update_where p f rows) = (\<lambda>r. if p r then f r else r) ` set rows"
  by (simp add: update_where_def)

lemma map_update_where:
  "(\<And>r. p r \<Longrightarrow> g (f r) = g r) \<Longrightarrow> map g (update_where p f rows) = map g rows"
  by (simp add: update_where_def)

lemma filter_update_where:
  "(\<And>r. p r \<Longrightarrow> q (f r) = q r) \<Longrightarrow>
   filter q (update_where p f rows) = update_where p f (filter q rows)"
  by (induction rows) auto

lemma first_row_SomeD:
  assumes "first_row p ord rows = Some r"
  shows "r \<in> set rows" "p r" "\<And>x. x \<in> set rows \<Longrightarrow> p x \<Longrightarrow> ord r \<le> ord x"
proof -
  from assms obtain rest where s: "sort_key ord (filter p rows) = r # rest"
    by (auto simp: first_row_def split: list.splits)
  then have set: "set (r # rest) = {x \<in> set rows. p x}"
    using set_sort[of ord "filter p rows"] by auto
  then show "r \<in> set rows" "p r" by auto
  have "sorted (map ord (r # rest))" using sorted_sort_key[of ord "filter p rows"] s by simp
  then show "ord r \<le> ord x" if "x \<in> set rows" "p x" for x
    using set that by auto
qed

lemma first_row_None_iff: "first_row p ord rows = None \<longleftrightarrow> (\<forall>r \<in> set rows. \<not> p r)"
proof -
  have "first_row p ord rows = None \<longleftrightarrow> sort_key ord (filter p rows) = []"
    by (simp add: first_row_def split: list.splits)
  also have "\<dots> \<longleftrightarrow> filter p rows = []"
    using set_sort[of ord "filter p rows"] by (metis set_empty)
  finally show ?thesis by (auto simp: filter_empty_conv)
qed

lemma first_row_min:
  assumes "r \<in> set rows" "p r" "\<And>x. x \<in> set rows \<Longrightarrow> p x \<Longrightarrow> x \<noteq> r \<Longrightarrow> ord r < ord x"
  shows "first_row p ord rows = Some r"
proof (cases "first_row p ord rows")
  case None
  with assms show ?thesis by (auto simp: first_row_None_iff)
next
  case (Some x)
  with first_row_SomeD[OF Some] assms show ?thesis
    by (metis leD)
qed

lemma insort_key_map:
  "insort_key k (g x) (map g ys) = map g (insort_key (\<lambda>x. k (g x)) x ys)"
  by (induction ys) auto

lemma sort_key_map: "sort_key k (map g xs) = map g (sort_key (\<lambda>x. k (g x)) xs)"
  by (induction xs) (auto simp: insort_key_map)

lemma first_row_map:
  "first_row p k (map g xs) = map_option g (first_row (\<lambda>x. p (g x)) (\<lambda>x. k (g x)) xs)"
  by (simp add: first_row_def List.filter_map comp_def sort_key_map split: list.splits)

lemma lookup_map: "lookup key k (map g xs) = map_option g (lookup (\<lambda>x. key (g x)) k xs)"
  by (induction xs) auto

lemma update_where_map:
  "(\<And>x. p (g x) \<longleftrightarrow> p' x) \<Longrightarrow> (\<And>x. p' x \<Longrightarrow> f (g x) = g (f' x)) \<Longrightarrow>
   update_where p f (map g xs) = map g (update_where p' f' xs)"
  by (induction xs) auto

text \<open>The contract of a primary key: a write that keeps it is seen through the key alone.\<close>

locale table_key =
  fixes key :: "'r \<Rightarrow> 'k" and upd :: "'r \<Rightarrow> 'r"
  assumes keeps_key: "key (upd r) = key r"
begin

lemma keys_update: "map key (update_where p upd rows) = map key rows"
  by (simp add: map_update_where keeps_key)

lemma lookup_update:
  "lookup key k (update_where p upd rows) =
   map_option (\<lambda>r. if p r then upd r else r) (lookup key k rows)"
  by (induction rows) (auto simp: keeps_key)

lemma lookup_update_other:
  "j \<noteq> k \<Longrightarrow> lookup key k (update_where (\<lambda>r. key r = j) upd rows) = lookup key k rows"
  by (induction rows) (auto simp: keeps_key)

lemma lookup_update_same:
  "lookup key k (update_where (\<lambda>r. key r = k) upd rows) = map_option upd (lookup key k rows)"
  by (induction rows) (auto simp: keeps_key)

end

end
