(* ===== verification/Session_Queue.thy ===== *)
theory Session_Queue
  imports Tables Run_Models "HOL-Library.Sublist"
begin

text \<open>
  The queue a Session keeps, apart from everything else the store holds: of a Run its place in
  the queue, of a Session its head. The three moves of the queue (\<open>q_write\<close>: a Run
  changes its state, \<open>q_enqueue\<close>: one joins, \<open>q_open\<close>: a Session is created) keep
  the invariant \<open>queue_inv\<close>, and the Runs waiting in a Session form a first-in first-out
  list (\<open>fifo\<close>). The store's operations are shown to make only these moves in
  \<^verbatim>\<open>Store_Queue\<close>.
\<close>

section \<open>Definitions\<close>

record QRun =
  qr_id :: nat
  qr_session :: nat
  qr_workspace :: nat
  qr_status :: RunState
  qr_sequence :: nat
  qr_blocked_by :: "nat option"

record QSession =
  qs_id :: nat
  qs_workspace :: nat
  qs_head :: "nat option"
  qs_next :: nat

type_synonym qstate = "QRun list \<times> QSession list"

definition q_live :: "QRun \<Rightarrow> bool" where
  "q_live r \<longleftrightarrow> qr_status r \<notin> TERMINAL_STATES"

definition q_first :: "nat \<Rightarrow> QRun list \<Rightarrow> QRun option" where
  "q_first sid runs = first_row (\<lambda>r. qr_session r = sid \<and> q_live r) qr_sequence runs"

definition q_pending :: "nat \<Rightarrow> QRun list \<Rightarrow> QRun list" where
  "q_pending sid runs = sort_key qr_sequence (filter (\<lambda>r. qr_session r = sid \<and> q_live r) runs)"

definition waits_right :: "nat option \<Rightarrow> QRun \<Rightarrow> bool" where
  "waits_right head r \<longleftrightarrow> qr_blocked_by r = (if Some (qr_id r) = head then None else head)"

definition session_ok :: "QRun list \<Rightarrow> QSession \<Rightarrow> bool" where
  "session_ok runs s \<longleftrightarrow>
     qs_head s = map_option qr_id (q_first (qs_id s) runs) \<and>
     (\<forall>r \<in> set runs. qr_session r = qs_id s \<longrightarrow>
        qr_sequence r < qs_next s \<and> qr_workspace r = qs_workspace s \<and>
        (q_live r \<longrightarrow> waits_right (qs_head s) r) \<and>
        (qr_status r = RUNNING \<longrightarrow> qs_head s = Some (qr_id r)))"

definition queue_inv :: "qstate \<Rightarrow> bool" where
  "queue_inv q \<longleftrightarrow>
     distinct (map qr_id (fst q)) \<and> distinct (map qs_id (snd q)) \<and>
     inj_on (\<lambda>r. (qr_session r, qr_sequence r)) (set (fst q)) \<and>
     qr_session ` set (fst q) \<subseteq> qs_id ` set (snd q) \<and>
     (\<forall>s \<in> set (snd q). session_ok (fst q) s)"

definition q_set :: "nat \<Rightarrow> RunState \<Rightarrow> QRun list \<Rightarrow> QRun list" where
  "q_set i state runs =
     update_where (\<lambda>r. qr_id r = i)
       (\<lambda>r. r\<lparr>qr_status := state, qr_blocked_by := (if state \<in> TERMINAL_STATES then None else qr_blocked_by r)\<rparr>)
       runs"

definition q_hand_over :: "nat \<Rightarrow> nat \<Rightarrow> qstate \<Rightarrow> qstate" where
  "q_hand_over sid i q =
     (let successor = map_option qr_id
            (first_row (\<lambda>r. qr_session r = sid \<and> qr_id r \<noteq> i \<and> q_live r) qr_sequence (fst q));
          runs1 = (case successor of
                     None \<Rightarrow> fst q
                   | Some s \<Rightarrow> update_where (\<lambda>r. qr_id r = s) (\<lambda>r. r\<lparr>qr_blocked_by := None\<rparr>) (fst q));
          spared = (case successor of None \<Rightarrow> i | Some s \<Rightarrow> s)
      in (update_where (\<lambda>r. qr_session r = sid \<and> qr_blocked_by r = Some i \<and> qr_id r \<noteq> spared)
            (\<lambda>r. r\<lparr>qr_blocked_by := successor\<rparr>) runs1,
          update_where (\<lambda>s. qs_id s = sid) (\<lambda>s. s\<lparr>qs_head := successor\<rparr>) (snd q)))"

definition q_head :: "nat \<Rightarrow> qstate \<Rightarrow> nat option" where
  "q_head sid q = Option.bind (lookup qs_id sid (snd q)) qs_head"

definition q_write :: "nat \<Rightarrow> nat \<Rightarrow> RunState \<Rightarrow> qstate \<Rightarrow> qstate" where
  "q_write sid i state q =
     (let q1 = (q_set i state (fst q), snd q)
      in if state \<in> TERMINAL_STATES \<and> q_head sid q = Some i then q_hand_over sid i q1 else q1)"

definition q_enqueue :: "QRun \<Rightarrow> qstate \<Rightarrow> qstate" where
  "q_enqueue r q =
     (fst q @ [r],
      update_where (\<lambda>s. qs_id s = qr_session r)
        (\<lambda>s. s\<lparr>qs_next := qs_next s + 1,
              qs_head := (case qs_head s of None \<Rightarrow> Some (qr_id r) | Some h \<Rightarrow> Some h)\<rparr>) (snd q))"

definition q_open :: "QSession \<Rightarrow> qstate \<Rightarrow> qstate" where
  "q_open s q = (fst q, snd q @ [s])"

text \<open>The moves, each with what it may rely on.\<close>

inductive q_step :: "qstate \<Rightarrow> qstate \<Rightarrow> bool" where
  moved: "r \<in> set (fst q) \<Longrightarrow> q_live r \<Longrightarrow>
     (state = RUNNING \<Longrightarrow> q_head (qr_session r) q = Some (qr_id r)) \<Longrightarrow>
     q_step q (q_write (qr_session r) (qr_id r) state q)"
| joined: "s \<in> set (snd q) \<Longrightarrow> qr_id r \<notin> qr_id ` set (fst q) \<Longrightarrow> qr_session r = qs_id s \<Longrightarrow>
     qr_workspace r = qs_workspace s \<Longrightarrow> qr_status r = RunState.QUEUED \<Longrightarrow>
     qr_sequence r = qs_next s \<Longrightarrow> qr_blocked_by r = qs_head s \<Longrightarrow>
     q_step q (q_enqueue r q)"
| opened: "qs_id s \<notin> qs_id ` set (snd q) \<Longrightarrow> qs_head s = None \<Longrightarrow>
     q_step q (q_open s q)"

inductive_cases q_stepE: "q_step q q'"

section \<open>The invariant\<close>

lemma queue_invD:
  assumes "queue_inv (runs, sessions)"
  shows "distinct (map qr_id runs)" "distinct (map qs_id sessions)"
    "inj_on (\<lambda>r. (qr_session r, qr_sequence r)) (set runs)"
    "\<And>r. r \<in> set runs \<Longrightarrow> qr_session r \<in> qs_id ` set sessions"
    "\<And>s. s \<in> set sessions \<Longrightarrow> session_ok runs s"
  using assms by (auto simp: queue_inv_def)

lemma same_idD:
  assumes "distinct (map qr_id runs)" "r \<in> set runs" "r' \<in> set runs" "qr_id r = qr_id r'"
  shows "r = r'"
  using assms by (auto simp: distinct_map inj_on_def)

lemma same_seqD:
  assumes "inj_on (\<lambda>r. (qr_session r, qr_sequence r)) (set runs)" "r \<in> set runs" "r' \<in> set runs"
    "qr_session r = qr_session r'" "qr_sequence r = qr_sequence r'"
  shows "r = r'"
  using assms by (auto simp: inj_on_def)

lemma head_lookup:
  assumes "distinct (map qs_id sessions)" "s \<in> set sessions"
  shows "q_head (qs_id s) (runs, sessions) = qs_head s"
  using assms by (simp add: q_head_def lookup_distinct)

text \<open>The head of a Session is a live Run of it, with the smallest sequence of all.\<close>

lemma session_ok_head:
  assumes "session_ok runs s" "qs_head s = Some h"
  obtains r where "r \<in> set runs" "qr_id r = h" "qr_session r = qs_id s" "q_live r"
    "\<And>x. x \<in> set runs \<Longrightarrow> qr_session x = qs_id s \<Longrightarrow> q_live x \<Longrightarrow> qr_sequence r \<le> qr_sequence x"
proof -
  from assms obtain r where r: "q_first (qs_id s) runs = Some r" "qr_id r = h"
    by (cases "q_first (qs_id s) runs") (auto simp: session_ok_def)
  with first_row_SomeD[OF r(1)[unfolded q_first_def]] show ?thesis
    by (intro that[of r]) auto
qed

lemma session_ok_no_head:
  "session_ok runs s \<Longrightarrow> qs_head s = None \<Longrightarrow> x \<in> set runs \<Longrightarrow> qr_session x = qs_id s \<Longrightarrow> \<not> q_live x"
  by (auto simp: session_ok_def q_first_def first_row_None_iff)

lemma session_ok_row:
  assumes "session_ok runs s" "x \<in> set runs" "qr_session x = qs_id s"
  shows "qr_sequence x < qs_next s" "qr_workspace x = qs_workspace s"
    "q_live x \<Longrightarrow> waits_right (qs_head s) x" "qr_status x = RUNNING \<Longrightarrow> qs_head s = Some (qr_id x)"
  using assms unfolding session_ok_def by blast+

text \<open>How to show a Session well-formed: name its head.\<close>

lemma session_okI:
  assumes inj: "inj_on (\<lambda>r. (qr_session r, qr_sequence r)) (set runs)"
    and head: "\<And>h. qs_head s = Some h \<Longrightarrow> \<exists>r \<in> set runs. qr_id r = h \<and> qr_session r = qs_id s \<and> q_live r \<and>
        (\<forall>x \<in> set runs. qr_session x = qs_id s \<longrightarrow> q_live x \<longrightarrow> qr_sequence r \<le> qr_sequence x)"
    and no_head: "\<And>x. qs_head s = None \<Longrightarrow> x \<in> set runs \<Longrightarrow> qr_session x = qs_id s \<Longrightarrow> \<not> q_live x"
    and rows: "\<And>r. r \<in> set runs \<Longrightarrow> qr_session r = qs_id s \<Longrightarrow>
        qr_sequence r < qs_next s \<and> qr_workspace r = qs_workspace s \<and>
        (q_live r \<longrightarrow> waits_right (qs_head s) r) \<and> (qr_status r = RUNNING \<longrightarrow> qs_head s = Some (qr_id r))"
  shows "session_ok runs s"
proof -
  have "qs_head s = map_option qr_id (q_first (qs_id s) runs)"
  proof (cases "qs_head s")
    case None
    with no_head have "q_first (qs_id s) runs = None" by (auto simp: q_first_def first_row_None_iff)
    with None show ?thesis by simp
  next
    case (Some h)
    then obtain r where r: "r \<in> set runs" "qr_id r = h" "qr_session r = qs_id s" "q_live r"
      "\<And>x. x \<in> set runs \<Longrightarrow> qr_session x = qs_id s \<Longrightarrow> q_live x \<Longrightarrow> qr_sequence r \<le> qr_sequence x"
      using head by blast
    have "q_first (qs_id s) runs = Some r"
      unfolding q_first_def
    proof (rule first_row_min)
      fix x assume x: "x \<in> set runs" "qr_session x = qs_id s \<and> q_live x" "x \<noteq> r"
      with r have "qr_sequence r \<le> qr_sequence x" by blast
      moreover have "qr_sequence r \<noteq> qr_sequence x" using same_seqD[OF inj r(1) x(1)] r x by auto
      ultimately show "qr_sequence r < qr_sequence x" by simp
    qed (use r in auto)
    with Some r show ?thesis by simp
  qed
  with rows show ?thesis by (auto simp: session_ok_def)
qed

lemmas q_live_states = q_live_def TERMINAL_STATES_def

subsection \<open>A Run changes state and stays\<close>

lemma set_q_set:
  "set (q_set i state runs) =
   (\<lambda>r. if qr_id r = i then r\<lparr>qr_status := state,
          qr_blocked_by := (if state \<in> TERMINAL_STATES then None else qr_blocked_by r)\<rparr> else r) ` set runs"
  by (simp add: q_set_def set_update_where)

lemma q_set_keeps_keys:
  "map qr_id (q_set i state runs) = map qr_id runs"
  "map qr_session (q_set i state runs) = map qr_session runs"
  "map (\<lambda>r. (qr_session r, qr_sequence r)) (q_set i state runs) = map (\<lambda>r. (qr_session r, qr_sequence r)) runs"
  by (simp_all add: q_set_def map_update_where)

lemma inj_on_of_map:
  assumes "map k xs = map k ys" "distinct (map i xs)" "map i xs = map i ys" "inj_on k (set ys)"
  shows "inj_on k (set xs)"
proof -
  have "distinct ys" using assms(2,3) by (metis distinct_map)
  then have "distinct (map k ys)" using assms(4) by (simp add: distinct_map)
  then show ?thesis using assms(1) by (metis distinct_map)
qed

lemma q_set_keys_inv:
  assumes "queue_inv (runs, sessions)"
  shows "distinct (map qr_id (q_set i state runs))"
    "inj_on (\<lambda>r. (qr_session r, qr_sequence r)) (set (q_set i state runs))"
    "qr_session ` set (q_set i state runs) \<subseteq> qs_id ` set sessions"
proof -
  note inv = queue_invD[OF assms]
  show d: "distinct (map qr_id (q_set i state runs))" using inv(1) by (simp add: q_set_keeps_keys)
  show "inj_on (\<lambda>r. (qr_session r, qr_sequence r)) (set (q_set i state runs))"
    using inj_on_of_map[OF q_set_keeps_keys(3) d q_set_keeps_keys(1) inv(3)] .
  show "qr_session ` set (q_set i state runs) \<subseteq> qs_id ` set sessions"
    using inv(4) by (auto simp: set_q_set)
qed

lemma write_live_session_ok:
  assumes inv: "queue_inv (runs, sessions)" and r: "r \<in> set runs" "q_live r"
    and live: "state \<notin> TERMINAL_STATES" and s: "s \<in> set sessions"
    and run: "state = RUNNING \<Longrightarrow> qr_session r = qs_id s \<Longrightarrow> qs_head s = Some (qr_id r)"
  shows "session_ok (q_set (qr_id r) state runs) s"
proof (rule session_okI)
  note inv' = queue_invD[OF inv]
  note keys = q_set_keys_inv[OF inv, of "qr_id r" state]
  show "inj_on (\<lambda>r. (qr_session r, qr_sequence r)) (set (q_set (qr_id r) state runs))" by (rule keys(2))
  have ok: "session_ok runs s" by (rule inv'(5)[OF s])
  define f where "f x = (if qr_id x = qr_id r then x\<lparr>qr_status := state,
      qr_blocked_by := (if state \<in> TERMINAL_STATES then None else qr_blocked_by x)\<rparr> else x)" for x :: QRun
  have set: "set (q_set (qr_id r) state runs) = f ` set runs" unfolding f_def by (rule set_q_set)
  have eq: "x = r" if "x \<in> set runs" "qr_id x = qr_id r" for x using same_idD[OF inv'(1) that(1) r(1) that(2)] .
  have flive: "q_live (f x) = q_live x" if "x \<in> set runs" for x
    using eq[OF that] r(2) live by (auto simp: f_def q_live_def)
  have same: "qr_id (f x) = qr_id x" "qr_session (f x) = qr_session x" "qr_sequence (f x) = qr_sequence x"
    "qr_workspace (f x) = qr_workspace x" "qr_blocked_by (f x) = qr_blocked_by x" for x
    using live by (auto simp: f_def)
  show "\<exists>y \<in> set (q_set (qr_id r) state runs). qr_id y = h \<and> qr_session y = qs_id s \<and> q_live y \<and>
      (\<forall>x \<in> set (q_set (qr_id r) state runs). qr_session x = qs_id s \<longrightarrow> q_live x \<longrightarrow> qr_sequence y \<le> qr_sequence x)"
    if "qs_head s = Some h" for h
    using session_ok_head[OF ok that] by (auto simp: set same flive) metis
  show "\<not> q_live x" if "qs_head s = None" "x \<in> set (q_set (qr_id r) state runs)" "qr_session x = qs_id s" for x
    using session_ok_no_head[OF ok that(1)] that(2,3) by (auto simp: set same flive)
  fix y assume "y \<in> set (q_set (qr_id r) state runs)" "qr_session y = qs_id s"
  then obtain x where x: "x \<in> set runs" "y = f x" "qr_session x = qs_id s" by (auto simp: set same)
  note row = session_ok_row[OF ok x(1,3)]
  have "qr_status (f x) = RUNNING \<longrightarrow> qs_head s = Some (qr_id x)"
    using x row(4) run eq[OF x(1)] by (auto simp: f_def)
  then show "qr_sequence y < qs_next s \<and> qr_workspace y = qs_workspace s \<and>
      (q_live y \<longrightarrow> waits_right (qs_head s) y) \<and> (qr_status y = RUNNING \<longrightarrow> qs_head s = Some (qr_id y))"
    using x row by (auto simp: same flive waits_right_def)
qed

subsection \<open>A Run ends\<close>

text \<open>The rows after a Run ended and, where it was the head, its Session was handed over: the
  Run is terminal and waits for nobody, and every other row keeps what makes it what it is.\<close>

lemma session_ok_after_end:
  assumes inv: "queue_inv (runs, sessions)" and r: "r \<in> set runs" and fin: "state \<in> TERMINAL_STATES"
    and s: "s \<in> set sessions" and other: "qs_head s \<noteq> Some (qr_id r) \<or> qr_session r \<noteq> qs_id s"
  shows "session_ok (q_set (qr_id r) state runs) s"
proof (rule session_okI)
  note inv' = queue_invD[OF inv]
  note keys = q_set_keys_inv[OF inv, of "qr_id r" state]
  show "inj_on (\<lambda>r. (qr_session r, qr_sequence r)) (set (q_set (qr_id r) state runs))" by (rule keys(2))
  have ok: "session_ok runs s" by (rule inv'(5)[OF s])
  define f where "f x = (if qr_id x = qr_id r then x\<lparr>qr_status := state,
      qr_blocked_by := (if state \<in> TERMINAL_STATES then None else qr_blocked_by x)\<rparr> else x)" for x :: QRun
  have set: "set (q_set (qr_id r) state runs) = f ` set runs" unfolding f_def by (rule set_q_set)
  have eq: "x = r" if "x \<in> set runs" "qr_id x = qr_id r" for x using same_idD[OF inv'(1) that(1) r that(2)] .
  have same: "qr_id (f x) = qr_id x" "qr_session (f x) = qr_session x" "qr_sequence (f x) = qr_sequence x"
    "qr_workspace (f x) = qr_workspace x" for x
    by (auto simp: f_def)
  have flive: "q_live (f x) \<longleftrightarrow> q_live x \<and> qr_id x \<noteq> qr_id r" for x
    using fin by (auto simp: f_def q_live_def)
  have keep: "qr_id x \<noteq> qr_id r \<Longrightarrow> f x = x" for x by (simp add: f_def)
  show "\<exists>y \<in> set (q_set (qr_id r) state runs). qr_id y = h \<and> qr_session y = qs_id s \<and> q_live y \<and>
      (\<forall>x \<in> set (q_set (qr_id r) state runs). qr_session x = qs_id s \<longrightarrow> q_live x \<longrightarrow> qr_sequence y \<le> qr_sequence x)"
    if h: "qs_head s = Some h" for h
  proof -
    obtain y where y: "y \<in> set runs" "qr_id y = h" "qr_session y = qs_id s" "q_live y"
      "\<And>x. x \<in> set runs \<Longrightarrow> qr_session x = qs_id s \<Longrightarrow> q_live x \<Longrightarrow> qr_sequence y \<le> qr_sequence x"
      using session_ok_head[OF ok h] by blast
    have "qr_id y \<noteq> qr_id r" using eq[OF y(1)] y h other by auto
    then have "f y \<in> f ` set runs \<and> qr_id (f y) = h \<and> qr_session (f y) = qs_id s \<and> q_live (f y)"
      using y by (simp add: same flive)
    then show ?thesis using y(5) by (intro bexI[of _ "f y"]) (auto simp: set same flive)
  qed
  show "\<not> q_live x" if "qs_head s = None" "x \<in> set (q_set (qr_id r) state runs)" "qr_session x = qs_id s" for x
    using session_ok_no_head[OF ok that(1)] that(2,3) by (auto simp: set same flive)
  fix y assume "y \<in> set (q_set (qr_id r) state runs)" "qr_session y = qs_id s"
  then obtain x where x: "x \<in> set runs" "y = f x" "qr_session x = qs_id s" by (auto simp: set same)
  note row = session_ok_row[OF ok x(1,3)]
  have "qr_status (f x) = RUNNING \<Longrightarrow> qr_id x \<noteq> qr_id r" using fin by (auto simp: f_def)
  with row x keep[of x] show "qr_sequence y < qs_next s \<and> qr_workspace y = qs_workspace s \<and>
      (q_live y \<longrightarrow> waits_right (qs_head s) y) \<and> (qr_status y = RUNNING \<longrightarrow> qs_head s = Some (qr_id y))"
    by (auto simp: same flive)
qed

definition q_successor :: "nat \<Rightarrow> nat \<Rightarrow> QRun list \<Rightarrow> nat option" where
  "q_successor sid i runs = map_option qr_id
     (first_row (\<lambda>r. qr_session r = sid \<and> qr_id r \<noteq> i \<and> q_live r) qr_sequence runs)"

text \<open>The end of a head and the handover, row by row.\<close>

definition ended_row :: "nat \<Rightarrow> nat \<Rightarrow> RunState \<Rightarrow> nat option \<Rightarrow> QRun \<Rightarrow> QRun" where
  "ended_row sid i state successor x =
     (if qr_id x = i then x\<lparr>qr_status := state, qr_blocked_by := None\<rparr>
      else if Some (qr_id x) = successor then x\<lparr>qr_blocked_by := None\<rparr>
      else if qr_session x = sid \<and> qr_blocked_by x = Some i then x\<lparr>qr_blocked_by := successor\<rparr>
      else x)"

lemma ended_row_keeps [simp]:
  "qr_id (ended_row sid i state c x) = qr_id x"
  "qr_session (ended_row sid i state c x) = qr_session x"
  "qr_sequence (ended_row sid i state c x) = qr_sequence x"
  "qr_workspace (ended_row sid i state c x) = qr_workspace x"
  by (simp_all add: ended_row_def)

lemma ended_map_keys:
  "map qr_id (map (ended_row sid i state c) runs) = map qr_id runs"
  "map (\<lambda>r. (qr_session r, qr_sequence r)) (map (ended_row sid i state c) runs) =
   map (\<lambda>r. (qr_session r, qr_sequence r)) runs"
  "map qr_session (map (ended_row sid i state c) runs) = map qr_session runs"
  by simp_all

lemma hand_over_rows:
  fixes sid i :: nat and runs :: "QRun list"
  assumes fin: "state \<in> TERMINAL_STATES"
  defines "c \<equiv> q_successor sid i (q_set i state runs)"
  shows "q_hand_over sid i (q_set i state runs, sessions) =
    (map (ended_row sid i state c) runs,
     update_where (\<lambda>s. qs_id s = sid) (\<lambda>s. s\<lparr>qs_head := c\<rparr>) sessions)"
proof -
  have "c \<noteq> Some i"
  proof
    assume "c = Some i"
    then obtain y where "first_row (\<lambda>r. qr_session r = sid \<and> qr_id r \<noteq> i \<and> q_live r) qr_sequence
        (q_set i state runs) = Some y" "qr_id y = i"
      unfolding c_def q_successor_def by (auto simp only: map_option_eq_Some)
    from first_row_SomeD(2)[OF this(1)] this(2) show False by simp
  qed
  have c: "map_option qr_id (first_row (\<lambda>r. qr_session r = sid \<and> qr_id r \<noteq> i \<and> q_live r) qr_sequence
      (q_set i state runs)) = c"
    by (simp add: c_def q_successor_def)
  have rows: "q_set i state runs = map (\<lambda>x. if qr_id x = i
      then x\<lparr>qr_status := state, qr_blocked_by := None\<rparr> else x) runs"
    using fin by (simp add: q_set_def update_where_def)
  show ?thesis
  proof (cases c)
    case None
    then show ?thesis
      unfolding q_hand_over_def Let_def fst_conv snd_conv c
      unfolding rows by (auto simp: update_where_def ended_row_def)
  next
    case (Some h)
    with \<open>c \<noteq> Some i\<close> show ?thesis
      unfolding q_hand_over_def Let_def fst_conv snd_conv c
      unfolding rows by (auto simp: update_where_def ended_row_def)
  qed
qed

lemma hand_over_head:
  assumes fin: "state \<in> TERMINAL_STATES" and inj: "inj_on (\<lambda>r. (qr_session r, qr_sequence r)) (set runs)"
  shows "q_successor sid i (q_set i state runs) = Some h \<Longrightarrow>
      \<exists>y \<in> set runs. qr_id y = h \<and> h \<noteq> i \<and> qr_session y = sid \<and> q_live y \<and>
        (\<forall>x \<in> set runs. qr_session x = sid \<longrightarrow> q_live x \<longrightarrow> qr_id x \<noteq> i \<longrightarrow> qr_sequence y \<le> qr_sequence x)"
    and "q_successor sid i (q_set i state runs) = None \<Longrightarrow> x \<in> set runs \<Longrightarrow> qr_session x = sid \<Longrightarrow>
      qr_id x \<noteq> i \<Longrightarrow> \<not> q_live x"
proof -
  have mem: "x \<in> set (q_set i state runs) \<longleftrightarrow> x \<in> set runs" if "qr_id x \<noteq> i" for x
    using that by (auto simp: set_q_set intro: rev_image_eqI)
  show "\<exists>y \<in> set runs. qr_id y = h \<and> h \<noteq> i \<and> qr_session y = sid \<and> q_live y \<and>
        (\<forall>x \<in> set runs. qr_session x = sid \<longrightarrow> q_live x \<longrightarrow> qr_id x \<noteq> i \<longrightarrow> qr_sequence y \<le> qr_sequence x)"
    if h: "q_successor sid i (q_set i state runs) = Some h"
  proof -
    from h obtain y where y: "first_row (\<lambda>r. qr_session r = sid \<and> qr_id r \<noteq> i \<and> q_live r) qr_sequence
        (q_set i state runs) = Some y" "qr_id y = h"
      by (auto simp: q_successor_def)
    note d = first_row_SomeD[OF y(1)]
    show ?thesis
      using d y(2) mem by (intro bexI[of _ y]) auto
  qed
  show "\<not> q_live x" if "q_successor sid i (q_set i state runs) = None" "x \<in> set runs" "qr_session x = sid"
    "qr_id x \<noteq> i" for x
    using that mem[of x] by (auto simp: q_successor_def first_row_None_iff)
qed

lemma session_ok_handed_over:
  assumes inv: "queue_inv (runs, sessions)" and r: "r \<in> set runs" and fin: "state \<in> TERMINAL_STATES"
    and s: "s \<in> set sessions" and head: "qs_head s = Some (qr_id r)" "qr_session r = qs_id s"
  defines "c \<equiv> q_successor (qs_id s) (qr_id r) (q_set (qr_id r) state runs)"
  shows "session_ok (map (ended_row (qs_id s) (qr_id r) state c) runs) (s\<lparr>qs_head := c\<rparr>)"
proof (rule session_okI)
  let ?g = "ended_row (qs_id s) (qr_id r) state c"
  note inv' = queue_invD[OF inv]
  have ok: "session_ok runs s" by (rule inv'(5)[OF s])
  note succ = hand_over_head[OF fin inv'(3), of "qs_id s" "qr_id r", folded c_def]
  have live: "q_live (?g x) \<longleftrightarrow> q_live x \<and> qr_id x \<noteq> qr_id r" for x
    using fin by (auto simp: ended_row_def q_live_def)
  show "inj_on (\<lambda>r. (qr_session r, qr_sequence r)) (set (map ?g runs))"
    by (rule inj_on_of_map[OF ended_map_keys(2) _ ended_map_keys(1) inv'(3)])
      (simp only: ended_map_keys inv'(1))
  show "\<exists>y \<in> set (map ?g runs). qr_id y = h \<and> qr_session y = qs_id (s\<lparr>qs_head := c\<rparr>) \<and> q_live y \<and>
      (\<forall>x \<in> set (map ?g runs). qr_session x = qs_id (s\<lparr>qs_head := c\<rparr>) \<longrightarrow> q_live x \<longrightarrow> qr_sequence y \<le> qr_sequence x)"
    if h: "qs_head (s\<lparr>qs_head := c\<rparr>) = Some h" for h
  proof -
    from succ(1)[of h] h obtain y where y: "y \<in> set runs" "qr_id y = h" "h \<noteq> qr_id r" "qr_session y = qs_id s"
      "q_live y" "\<forall>x \<in> set runs. qr_session x = qs_id s \<longrightarrow> q_live x \<longrightarrow> qr_id x \<noteq> qr_id r \<longrightarrow> qr_sequence y \<le> qr_sequence x"
      by auto
    then show ?thesis by (intro bexI[of _ "?g y"]) (auto simp: live)
  qed
  show "\<not> q_live x" if "qs_head (s\<lparr>qs_head := c\<rparr>) = None" "x \<in> set (map ?g runs)"
    "qr_session x = qs_id (s\<lparr>qs_head := c\<rparr>)" for x
  proof -
    from that(2,3) obtain x0 where "x0 \<in> set runs" "x = ?g x0" "qr_session x0 = qs_id s" by auto
    then show ?thesis using succ(2)[of x0] that(1) live[of x0] by auto
  qed
  fix y assume "y \<in> set (map ?g runs)" "qr_session y = qs_id (s\<lparr>qs_head := c\<rparr>)"
  then obtain x where x: "x \<in> set runs" "y = ?g x" "qr_session x = qs_id s" by auto
  note row = session_ok_row[OF ok x(1,3)]
  have "waits_right c (?g x)" if "q_live (?g x)"
  proof -
    have "q_live x" "qr_id x \<noteq> qr_id r" using that live by auto
    moreover from this row(3) head have "qr_blocked_by x = Some (qr_id r)" by (simp add: waits_right_def)
    ultimately show ?thesis using x(3) by (auto simp: ended_row_def waits_right_def)
  qed
  moreover have "qr_status (?g x) \<noteq> RUNNING"
  proof (cases "qr_id x = qr_id r")
    case False
    then have "qr_status x \<noteq> RUNNING" using row(4) head by auto
    then show ?thesis by (simp add: ended_row_def False)
  qed (use fin in \<open>auto simp: ended_row_def\<close>)
  ultimately show "qr_sequence y < qs_next (s\<lparr>qs_head := c\<rparr>) \<and>
      qr_workspace y = qs_workspace (s\<lparr>qs_head := c\<rparr>) \<and>
      (q_live y \<longrightarrow> waits_right (qs_head (s\<lparr>qs_head := c\<rparr>)) y) \<and>
      (qr_status y = RUNNING \<longrightarrow> qs_head (s\<lparr>qs_head := c\<rparr>) = Some (qr_id y))"
    using row x by simp
qed

lemma session_ok_elsewhere:
  assumes inv: "queue_inv (runs, sessions)" and s: "s \<in> set sessions" "qs_id s \<noteq> sid"
    and keep: "\<And>x. x \<in> set runs \<Longrightarrow> qr_session x \<noteq> sid \<Longrightarrow> g x = x"
    and sess: "\<And>x. qr_session (g x) = qr_session x"
    and inj: "inj_on (\<lambda>r. (qr_session r, qr_sequence r)) (set (map g runs))"
  shows "session_ok (map g runs) s"
proof -
  have ok: "session_ok runs s" using queue_invD(5)[OF inv s(1)] .
  have mem: "x \<in> set (map g runs) \<longleftrightarrow> x \<in> set runs" if "qr_session x = qs_id s" for x
    using that s(2) keep sess by (auto simp: image_iff) metis+
  show ?thesis
  proof (rule session_okI[OF inj])
    show "\<exists>y \<in> set (map g runs). qr_id y = h \<and> qr_session y = qs_id s \<and> q_live y \<and>
        (\<forall>x \<in> set (map g runs). qr_session x = qs_id s \<longrightarrow> q_live x \<longrightarrow> qr_sequence y \<le> qr_sequence x)"
      if "qs_head s = Some h" for h
      using session_ok_head[OF ok that] mem by metis
  qed (use mem session_ok_row[OF ok] session_ok_no_head[OF ok] in blast)+
qed

lemma q_write_inv:
  assumes inv: "queue_inv q" and r: "r \<in> set (fst q)" "q_live r"
    and run: "state = RUNNING \<Longrightarrow> q_head (qr_session r) q = Some (qr_id r)"
  shows "queue_inv (q_write (qr_session r) (qr_id r) state q)"
proof -
  obtain runs sessions where q: "q = (runs, sessions)" by (cases q)
  note inv' = queue_invD[OF inv[unfolded q]]
  note keys = q_set_keys_inv[OF inv[unfolded q], of "qr_id r" state]
  have r': "r \<in> set runs" using r(1) q by simp
  obtain s0 where s0: "s0 \<in> set sessions" "qs_id s0 = qr_session r" using inv'(4)[OF r'] by auto
  have head: "q_head (qr_session r) q = qs_head s0"
    using head_lookup[OF inv'(2) s0(1)] s0(2) q by simp
  have only: "s = s0" if "s \<in> set sessions" "qs_id s = qr_session r" for s
    using that s0 inv'(2) by (auto simp: distinct_map inj_on_def)
  consider (stays) "state \<notin> TERMINAL_STATES" | (other) "state \<in> TERMINAL_STATES" "qs_head s0 \<noteq> Some (qr_id r)"
    | (head) "state \<in> TERMINAL_STATES" "qs_head s0 = Some (qr_id r)" by blast
  then show ?thesis
  proof cases
    case stays
    then have "q_write (qr_session r) (qr_id r) state q = (q_set (qr_id r) state runs, sessions)"
      by (simp add: q_write_def q Let_def)
    moreover have "session_ok (q_set (qr_id r) state runs) s" if "s \<in> set sessions" for s
    proof (rule write_live_session_ok[OF inv[unfolded q] r' r(2) stays that])
      assume "state = RUNNING" "qr_session r = qs_id s"
      then show "qs_head s = Some (qr_id r)" using run head only[OF that] by simp
    qed
    ultimately show ?thesis using keys inv'(2) by (simp add: queue_inv_def)
  next
    case other
    then have "q_write (qr_session r) (qr_id r) state q = (q_set (qr_id r) state runs, sessions)"
      using head q by (simp add: q_write_def Let_def)
    moreover have "session_ok (q_set (qr_id r) state runs) s" if "s \<in> set sessions" for s
      by (rule session_ok_after_end[OF inv[unfolded q] r' other(1) that])
        (use other(2) only[OF that] in force)
    ultimately show ?thesis using keys inv'(2) by (simp add: queue_inv_def)
  next
    case ended: head
    define c where "c = q_successor (qr_session r) (qr_id r) (q_set (qr_id r) state runs)"
    let ?g = "ended_row (qr_session r) (qr_id r) state c"
    let ?sessions = "update_where (\<lambda>s. qs_id s = qr_session r) (\<lambda>s. s\<lparr>qs_head := c\<rparr>) sessions"
    have w: "q_write (qr_session r) (qr_id r) state q = (map ?g runs, ?sessions)"
      using ended head q hand_over_rows[OF ended(1), of "qr_session r" "qr_id r" runs sessions]
      by (simp add: q_write_def Let_def c_def)
    have inj: "inj_on (\<lambda>r. (qr_session r, qr_sequence r)) (set (map ?g runs))"
      by (rule inj_on_of_map[OF ended_map_keys(2) _ ended_map_keys(1) inv'(3)])
        (simp only: ended_map_keys inv'(1))
    have keep: "?g x = x" if "x \<in> set runs" "qr_session x \<noteq> qr_session r" for x
    proof -
      have "qr_id x \<noteq> qr_id r" using same_idD[OF inv'(1) that(1) r'] that(2) by auto
      moreover have "Some (qr_id x) \<noteq> c"
      proof
        assume "Some (qr_id x) = c"
        then obtain y where "y \<in> set runs" "qr_id y = qr_id x" "qr_session y = qr_session r"
          using hand_over_head(1)[OF ended(1) inv'(3), of "qr_session r" "qr_id r" "qr_id x"] c_def by auto
        then show False using same_idD[OF inv'(1) _ that(1)] that(2) by blast
      qed
      ultimately show ?thesis using that(2) by (simp add: ended_row_def)
    qed
    have "session_ok (map ?g runs) s" if s: "s \<in> set ?sessions" for s
    proof (cases "qs_id s = qr_session r")
      case True
      then have "s = s0\<lparr>qs_head := c\<rparr>" using s only by (auto simp: set_update_where split: if_splits)
      then show ?thesis
        using session_ok_handed_over[OF inv[unfolded q] r' ended(1) s0(1) ended(2)] s0(2)
        by (simp add: c_def)
    next
      case False
      then have "s \<in> set sessions" using s by (auto simp: set_update_where split: if_splits)
      then show ?thesis
        using session_ok_elsewhere[OF inv[unfolded q] _ False keep _ inj] by simp
    qed
    moreover have "map qs_id ?sessions = map qs_id sessions" by (simp add: map_update_where)
    moreover have "qr_session ` set (map ?g runs) \<subseteq> qs_id ` set ?sessions"
      using inv'(4) \<open>map qs_id ?sessions = map qs_id sessions\<close>
      by (auto simp: image_comp) (metis image_set inv'(4) set_map)
    moreover have "distinct (map qr_id (map ?g runs))" using inv'(1) by (simp only: ended_map_keys)
    ultimately show ?thesis using inj inv'(2) by (simp add: w queue_inv_def)
  qed
qed

subsection \<open>A Run joins, a Session opens\<close>

lemma q_enqueue_inv:
  assumes inv: "queue_inv q" and s: "s \<in> set (snd q)" and fresh: "qr_id r \<notin> qr_id ` set (fst q)"
    and r: "qr_session r = qs_id s" "qr_workspace r = qs_workspace s" "qr_status r = RunState.QUEUED"
      "qr_sequence r = qs_next s" "qr_blocked_by r = qs_head s"
  shows "queue_inv (q_enqueue r q)"
proof -
  obtain runs sessions where q: "q = (runs, sessions)" by (cases q)
  note inv' = queue_invD[OF inv[unfolded q]]
  let ?head = "case qs_head s of None \<Rightarrow> Some (qr_id r) | Some h \<Rightarrow> Some h"
  let ?s = "s\<lparr>qs_next := qs_next s + 1, qs_head := ?head\<rparr>"
  let ?sessions = "snd (q_enqueue r q)"
  have rs: "fst (q_enqueue r q) = runs @ [r]" by (simp add: q_enqueue_def q)
  have s': "s \<in> set sessions" using s q by simp
  have only: "t = s" if "t \<in> set sessions" "qs_id t = qs_id s" for t
    using that s' inv'(2) by (auto simp: distinct_map inj_on_def)
  have ids: "map qs_id ?sessions = map qs_id sessions" by (simp add: q_enqueue_def q map_update_where)
  have ok: "session_ok runs s" by (rule inv'(5)[OF s'])
  have new: "qr_sequence x < qr_sequence r" if "x \<in> set runs" "qr_session x = qr_session r" for x
    using session_ok_row(1)[OF ok that(1)] that(2) r by simp
  have "(qr_session r, qr_sequence r) \<notin> (\<lambda>r. (qr_session r, qr_sequence r)) ` (set runs - {r})"
    using new by fastforce
  then have inj: "inj_on (\<lambda>r. (qr_session r, qr_sequence r)) (set (runs @ [r]))"
    using inv'(3) by (simp add: inj_on_insert)
  have "session_ok (runs @ [r]) ?s"
  proof (rule session_okI[OF inj])
    show "\<exists>y \<in> set (runs @ [r]). qr_id y = h \<and> qr_session y = qs_id ?s \<and> q_live y \<and>
        (\<forall>x \<in> set (runs @ [r]). qr_session x = qs_id ?s \<longrightarrow> q_live x \<longrightarrow> qr_sequence y \<le> qr_sequence x)"
      if h: "qs_head ?s = Some h" for h
    proof (cases "qs_head s")
      case None
      then have "h = qr_id r" using h by simp
      moreover have "\<forall>x \<in> set (runs @ [r]). qr_session x = qs_id s \<longrightarrow> q_live x \<longrightarrow> x = r"
        using session_ok_no_head[OF ok None] by auto
      moreover have "q_live r" using r by (simp add: q_live_def)
      ultimately show ?thesis using r by (intro bexI[of _ r]) auto
    next
      case (Some h')
      then have "h' = h" using h by simp
      obtain y where "y \<in> set runs" "qr_id y = h'" "qr_session y = qs_id s" "q_live y"
        "\<And>x. x \<in> set runs \<Longrightarrow> qr_session x = qs_id s \<Longrightarrow> q_live x \<Longrightarrow> qr_sequence y \<le> qr_sequence x"
        using session_ok_head[OF ok Some] by blast
      moreover from this have "qr_sequence y \<le> qr_sequence r" using new[of y] r by simp
      ultimately show ?thesis using r \<open>h' = h\<close> by (intro bexI[of _ y]) auto
    qed
    show "\<not> q_live x" if "qs_head ?s = None" "x \<in> set (runs @ [r])" "qr_session x = qs_id ?s" for x
      using that by (simp split: option.splits)
    fix x assume x: "x \<in> set (runs @ [r])" "qr_session x = qs_id ?s"
    show "qr_sequence x < qs_next ?s \<and> qr_workspace x = qs_workspace ?s \<and>
        (q_live x \<longrightarrow> waits_right (qs_head ?s) x) \<and> (qr_status x = RUNNING \<longrightarrow> qs_head ?s = Some (qr_id x))"
    proof (cases "x = r")
      case True
      have "qs_head s \<noteq> Some (qr_id r)"
      proof
        assume "qs_head s = Some (qr_id r)"
        from session_ok_head[OF ok this] fresh q show False by (metis fst_conv image_eqI)
      qed
      with True r show ?thesis by (auto simp: waits_right_def split: option.splits)
    next
      case False
      then have x': "x \<in> set runs" "qr_session x = qs_id s" using x by auto
      note row = session_ok_row[OF ok x']
      have "qs_head s = None \<Longrightarrow> \<not> q_live x" using session_ok_no_head[OF ok _ x'] .
      moreover have "qs_head s = None \<Longrightarrow> qr_status x \<noteq> RUNNING" using row(4) by auto
      ultimately show ?thesis using row by (auto split: option.splits)
    qed
  qed
  moreover have "session_ok (runs @ [r]) t" if t: "t \<in> set sessions" "qs_id t \<noteq> qs_id s" for t
  proof -
    have okt: "session_ok runs t" by (rule inv'(5)[OF t(1)])
    have mem: "x \<in> set (runs @ [r]) \<longleftrightarrow> x \<in> set runs" if "qr_session x = qs_id t" for x
      using that t r by auto
    show ?thesis
    proof (rule session_okI[OF inj])
      show "\<exists>y \<in> set (runs @ [r]). qr_id y = h \<and> qr_session y = qs_id t \<and> q_live y \<and>
          (\<forall>x \<in> set (runs @ [r]). qr_session x = qs_id t \<longrightarrow> q_live x \<longrightarrow> qr_sequence y \<le> qr_sequence x)"
        if "qs_head t = Some h" for h
        using session_ok_head[OF okt that] mem by metis
    qed (use mem session_ok_row[OF okt] session_ok_no_head[OF okt] in blast)+
  qed
  ultimately have "\<forall>t \<in> set ?sessions. session_ok (runs @ [r]) t"
    using only r(1) by (auto simp: q_enqueue_def q set_update_where)
  moreover have "qr_session ` set (runs @ [r]) \<subseteq> qs_id ` set ?sessions"
  proof -
    have "qs_id ` set ?sessions = qs_id ` set sessions" using ids by (metis set_map)
    then show ?thesis using inv'(4) s' r(1) by auto
  qed
  ultimately show ?thesis
    unfolding queue_inv_def rs using inv'(1,2) ids inj fresh q by simp
qed

lemma q_open_inv:
  assumes inv: "queue_inv q" and fresh: "qs_id s \<notin> qs_id ` set (snd q)" and s: "qs_head s = None"
  shows "queue_inv (q_open s q)"
proof -
  obtain runs sessions where q: "q = (runs, sessions)" by (cases q)
  note inv' = queue_invD[OF inv[unfolded q]]
  have none: "qr_session x \<noteq> qs_id s" if "x \<in> set runs" for x using inv'(4)[OF that] fresh q by auto
  have "session_ok runs s"
    by (rule session_okI[OF inv'(3)]) (use none s in auto)
  then show ?thesis using inv' fresh q by (auto simp: queue_inv_def q_open_def)
qed

theorem q_step_inv: "q_step q q' \<Longrightarrow> queue_inv q \<Longrightarrow> queue_inv q'"
  by (induction rule: q_step.induct) (blast intro: q_write_inv q_enqueue_inv q_open_inv)+

section \<open>First in, first out\<close>

text \<open>The queue of a Session as a list of Runs, and what may happen to it: nothing, a Run never
  seen before at the end, or one Run taken out from wherever it stands.\<close>

definition q_ids :: "qstate \<Rightarrow> nat \<Rightarrow> nat list" where
  "q_ids q sid = map qr_id (q_pending sid (fst q))"

definition q_seen :: "qstate \<Rightarrow> nat set" where
  "q_seen q = qr_id ` set (fst q)"

inductive fifo_step :: "nat set \<Rightarrow> (nat \<Rightarrow> nat list) \<Rightarrow> (nat \<Rightarrow> nat list) \<Rightarrow> bool" where
  fifo_stay: "fifo_step S Q Q"
| fifo_join: "i \<notin> S \<Longrightarrow> fifo_step S Q (Q(sid := Q sid @ [i]))"
| fifo_leave: "i \<in> set (Q sid) \<Longrightarrow> fifo_step S Q (Q(sid := remove1 i (Q sid)))"

lemma subseq_remove1: "subseq (remove1 x xs) xs"
  by (induction xs) auto

text \<open>The contract a client of the queue relies on: an implementation whose moves keep an
  invariant, whose waiting list moves as \<open>fifo_step\<close> says, and whose head is the first of
  the list. No Run can then overtake another.\<close>

locale fifo =
  fixes inv :: "'q \<Rightarrow> bool" and move :: "'q \<Rightarrow> 'q \<Rightarrow> bool"
    and ids :: "'q \<Rightarrow> nat \<Rightarrow> nat list" and head :: "nat \<Rightarrow> 'q \<Rightarrow> nat option"
    and known :: "'q \<Rightarrow> nat \<Rightarrow> bool" and seen :: "'q \<Rightarrow> nat set"
  assumes move_inv: "move q q' \<Longrightarrow> inv q \<Longrightarrow> inv q'"
    and move_ids: "inv q \<Longrightarrow> move q q' \<Longrightarrow> fifo_step (seen q) (ids q) (ids q')"
    and move_seen: "inv q \<Longrightarrow> move q q' \<Longrightarrow> seen q \<subseteq> seen q'"
    and head_first: "inv q \<Longrightarrow> known q sid \<Longrightarrow>
      head sid q = (case ids q sid of [] \<Rightarrow> None | i # _ \<Rightarrow> Some i)"
begin

lemma moves_inv: "move\<^sup>*\<^sup>* q q' \<Longrightarrow> inv q \<Longrightarrow> inv q'"
  by (induction rule: rtranclp_induct) (auto intro: move_inv)

lemma moves_seen: "move\<^sup>*\<^sup>* q q' \<Longrightarrow> inv q \<Longrightarrow> seen q \<subseteq> seen q'"
proof (induction rule: rtranclp_induct)
  case (step y z)
  then show ?case using moves_inv move_seen by blast
qed simp

text \<open>What waits later is what waited before, less those that left, and then those that came,
  which are none of those that were ever there.\<close>

lemma no_overtaking:
  assumes "move\<^sup>*\<^sup>* q q'" "inv q"
  shows "\<exists>stayed came. ids q' sid = stayed @ came \<and> subseq stayed (ids q sid) \<and> set came \<inter> seen q = {}"
  using assms(1)
proof (induction rule: rtranclp_induct)
  case base
  have "ids q sid = ids q sid @ [] \<and> subseq (ids q sid) (ids q sid) \<and> set [] \<inter> seen q = {}" by simp
  then show ?case by blast
next
  case (step y z)
  then obtain stayed came where sc: "ids y sid = stayed @ came" "subseq stayed (ids q sid)"
    "set came \<inter> seen q = {}" by blast
  have inv: "inv y" using step.hyps(1) moves_inv[OF _ assms(2)] by blast
  have "fifo_step (seen y) (ids y) (ids z)" using step.hyps(2) inv move_ids by blast
  then show ?case
  proof (cases rule: fifo_step.cases)
    case fifo_stay
    with sc show ?thesis by auto
  next
    case (fifo_join i s)
    have "i \<notin> seen q" using fifo_join(2) moves_seen[OF step.hyps(1) assms(2)] by blast
    then have "set (came @ [i]) \<inter> seen q = {}" using sc(3) by auto
    moreover have "ids z sid = (if s = sid then stayed @ (came @ [i]) else stayed @ came)"
      using fifo_join(1) sc(1) by auto
    ultimately show ?thesis using sc(2,3) by (metis (full_types))
  next
    case (fifo_leave i s)
    show ?thesis
    proof (cases "s = sid")
      case True
      have "subseq (remove1 i stayed) (ids q sid)"
        using sc(2) subseq_order.trans subseq_remove1 by metis
      moreover have "set (remove1 i came) \<inter> seen q = {}" using sc(3) set_remove1_subset by fastforce
      ultimately show ?thesis using True fifo_leave sc by (auto simp: remove1_append)
    qed (use sc fifo_leave in auto)
  qed
qed

lemma head_waits:
  assumes "inv q" "known q sid" "head sid q = Some i"
  shows "i \<in> set (ids q sid)"
  using assms head_first[OF assms(1,2)] by (auto split: list.splits)

end

lemma insort_key_snoc:
  "k x < k r \<Longrightarrow> insort_key k x (ys @ [r]) = insort_key k x ys @ [r]"
  by (induction ys) auto

lemma sort_key_snoc:
  assumes "\<And>x. x \<in> set xs \<Longrightarrow> k x < k r"
  shows "sort_key k (xs @ [r]) = sort_key k xs @ [r]"
  using assms by (induction xs) (auto simp: insort_key_snoc)

lemma q_ids_map:
  assumes "\<And>x. qr_id (g x) = qr_id x" "\<And>x. qr_session (g x) = qr_session x"
    "\<And>x. qr_sequence (g x) = qr_sequence x"
    and "\<And>x. x \<in> set runs \<Longrightarrow> q_live (g x) \<longleftrightarrow> q_live x \<and> keep (qr_id x)"
  shows "q_ids (map g runs, sessions) sid = filter keep (q_ids (runs, sessions') sid)"
proof -
  have "filter (\<lambda>r. qr_session r = sid \<and> q_live r) (map g runs) =
      map g (filter (\<lambda>r. keep (qr_id r)) (filter (\<lambda>r. qr_session r = sid \<and> q_live r) runs))"
    using assms by (induction runs) auto
  then have "q_ids (map g runs, sessions) sid =
      map qr_id (map g (sort_key qr_sequence (filter (\<lambda>r. keep (qr_id r))
        (filter (\<lambda>r. qr_session r = sid \<and> q_live r) runs))))"
    using assms by (simp add: q_ids_def q_pending_def sort_key_map del: map_map)
  also have "\<dots> = map qr_id (filter (\<lambda>r. keep (qr_id r)) (q_pending sid runs))"
    using assms by (simp add: q_pending_def filter_sort comp_def)
  also have "\<dots> = filter keep (map qr_id (q_pending sid runs))"
    by (simp add: filter_map comp_def)
  finally show ?thesis by (simp add: q_ids_def)
qed

lemma filter_not_mem: "i \<notin> set xs \<Longrightarrow> filter (\<lambda>x. x \<noteq> i) xs = xs"
  by (auto simp: filter_id_conv)

lemma set_q_ids: "set (q_ids q sid) = qr_id ` {r \<in> set (fst q). qr_session r = sid \<and> q_live r}"
  by (auto simp: q_ids_def q_pending_def)

lemma distinct_q_ids: "queue_inv q \<Longrightarrow> distinct (q_ids q sid)"
  by (auto simp: queue_inv_def q_ids_def q_pending_def distinct_map inj_on_def)

text \<open>What a state change does to the waiting lists.\<close>

lemma q_write_ids:
  assumes inv: "queue_inv q" and r: "r \<in> set (fst q)" "q_live r"
  shows "q_ids (q_write (qr_session r) (qr_id r) state q) sid =
    filter (\<lambda>i. state \<in> TERMINAL_STATES \<longrightarrow> i \<noteq> qr_id r) (q_ids q sid)"
proof -
  obtain runs sessions where q: "q = (runs, sessions)" by (cases q)
  note inv' = queue_invD[OF inv[unfolded q]]
  have r': "r \<in> set runs" using r(1) q by simp
  let ?i = "qr_id r"
  have eq: "x = r" if "x \<in> set runs" "qr_id x = ?i" for x using same_idD[OF inv'(1) that(1) r' that(2)] .
  show ?thesis
  proof (cases "state \<in> TERMINAL_STATES \<and> q_head (qr_session r) q = Some ?i")
    case True
    let ?c = "q_successor (qr_session r) ?i (q_set ?i state runs)"
    have "fst (q_write (qr_session r) ?i state q) = map (ended_row (qr_session r) ?i state ?c) runs"
      using True q hand_over_rows[of state "qr_session r" ?i runs sessions] by (simp add: q_write_def Let_def)
    moreover have "q_live (ended_row (qr_session r) ?i state ?c x) \<longleftrightarrow> q_live x \<and> qr_id x \<noteq> ?i" for x
      using True by (auto simp: ended_row_def q_live_def)
    ultimately show ?thesis
      using q_ids_map[of "ended_row (qr_session r) ?i state ?c" runs "\<lambda>i. i \<noteq> ?i" _ sid sessions] True
      by (simp add: q q_ids_def)
  next
    case False
    define g where "g x = (if qr_id x = ?i then x\<lparr>qr_status := state,
      qr_blocked_by := (if state \<in> TERMINAL_STATES then None else qr_blocked_by x)\<rparr> else x)" for x :: QRun
    have "fst (q_write (qr_session r) ?i state q) = map g runs"
      using False q by (auto simp: q_write_def Let_def q_set_def update_where_def g_def)
    moreover have "q_live (g x) \<longleftrightarrow> q_live x \<and> (state \<in> TERMINAL_STATES \<longrightarrow> qr_id x \<noteq> ?i)"
      if "x \<in> set runs" for x
      using eq[OF that] r(2) by (auto simp: g_def q_live_def)
    ultimately show ?thesis
      using q_ids_map[of g runs "\<lambda>i. state \<in> TERMINAL_STATES \<longrightarrow> i \<noteq> ?i" _ sid sessions]
      by (simp add: q q_ids_def g_def)
  qed
qed

lemma q_enqueue_ids:
  assumes "queue_inv q" "s \<in> set (snd q)" "qr_session r = qs_id s" "qr_status r = RunState.QUEUED"
    "qr_sequence r = qs_next s"
  shows "q_ids (q_enqueue r q) sid = (if sid = qs_id s then q_ids q sid @ [qr_id r] else q_ids q sid)"
proof -
  have ok: "session_ok (fst q) s" using assms(1,2) by (simp add: queue_inv_def)
  have "qr_sequence x < qr_sequence r" if "x \<in> set (fst q)" "qr_session x = qs_id s" for x
    using session_ok_row(1)[OF ok that] assms(5) by simp
  then have "sort_key qr_sequence (filter (\<lambda>r. qr_session r = qs_id s \<and> q_live r) (fst q) @ [r]) =
      sort_key qr_sequence (filter (\<lambda>r. qr_session r = qs_id s \<and> q_live r) (fst q)) @ [r]"
    by (intro sort_key_snoc) auto
  moreover have "q_live r" using assms(4) by (simp add: q_live_def)
  ultimately show ?thesis
    using assms(3) by (auto simp: q_ids_def q_pending_def q_enqueue_def)
qed

lemma q_step_fifo:
  assumes "q_step q q'" "queue_inv q"
  shows "fifo_step (q_seen q) (q_ids q) (q_ids q')"
  using assms(1)
proof (cases rule: q_step.cases)
  case (moved r state)
  let ?sid = "qr_session r" and ?i = "qr_id r"
  have ids: "q_ids q' = (\<lambda>sid. filter (\<lambda>i. state \<in> TERMINAL_STATES \<longrightarrow> i \<noteq> ?i) (q_ids q sid))"
    using q_write_ids[OF assms(2) moved(2,3)] moved(1) by auto
  show ?thesis
  proof (cases "state \<in> TERMINAL_STATES")
    case False
    then show ?thesis using ids fifo_stay by simp
  next
    case True
    have mine: "?i \<in> set (q_ids q ?sid)" using moved by (auto simp: set_q_ids)
    have others: "?i \<notin> set (q_ids q sid)" if "sid \<noteq> ?sid" for sid
      using that moved(2) assms(2) by (auto simp: set_q_ids queue_inv_def dest: same_idD)
    have "q_ids q' = (q_ids q)(?sid := remove1 ?i (q_ids q ?sid))"
      using True ids others
      by (auto simp: fun_eq_iff filter_not_mem distinct_remove1_removeAll[OF distinct_q_ids[OF assms(2)]]
          removeAll_filter_not_eq intro!: filter_cong)
    then show ?thesis using fifo_leave[of ?i "q_ids q" ?sid] mine by simp
  qed
next
  case (joined s r)
  have "q_ids q' = (q_ids q)(qs_id s := q_ids q (qs_id s) @ [qr_id r])"
    using q_enqueue_ids[OF assms(2) joined(2,4,6,7)] joined(1) by (auto simp: fun_eq_iff)
  moreover have "qr_id r \<notin> q_seen q" using joined(3) by (simp add: q_seen_def)
  ultimately show ?thesis using fifo_join by metis
next
  case (opened s)
  then have "q_ids q' = q_ids q" by (simp add: fun_eq_iff q_ids_def q_open_def)
  then show ?thesis using fifo_stay by simp
qed

lemma q_head_first:
  assumes "queue_inv q" "sid \<in> qs_id ` set (snd q)"
  shows "q_head sid q = (case q_ids q sid of [] \<Rightarrow> None | i # _ \<Rightarrow> Some i)"
proof -
  obtain runs sessions where q: "q = (runs, sessions)" by (cases q)
  obtain s where s: "s \<in> set sessions" "qs_id s = sid" using assms(2) q by auto
  note inv = queue_invD[OF assms(1)[unfolded q]]
  have "q_head sid q = qs_head s" using head_lookup[OF inv(2) s(1)] s(2) q by simp
  also have "\<dots> = map_option qr_id (q_first sid runs)" using inv(5)[OF s(1)] s(2) by (simp add: session_ok_def)
  finally show ?thesis
    by (simp add: q q_ids_def q_pending_def q_first_def first_row_def split: list.splits)
qed

lemma update_where_ids:
  "(\<And>r. qr_id (f r) = qr_id r) \<Longrightarrow> qr_id ` set (update_where P f runs) = qr_id ` set runs"
  using map_update_where[of P qr_id f runs] by (metis set_map)

lemma q_step_seen: "q_step q q' \<Longrightarrow> q_seen q \<subseteq> q_seen q'"
proof (induction rule: q_step.induct)
  case (moved r q state)
  then show ?case
    by (simp add: q_seen_def q_write_def q_set_def q_hand_over_def Let_def update_where_ids split: option.split)
qed (auto simp: q_seen_def q_enqueue_def q_open_def)

interpretation session_queue: fifo queue_inv q_step q_ids q_head "\<lambda>q sid. sid \<in> qs_id ` set (snd q)" q_seen
  by unfold_locales (auto intro: q_step_inv q_step_fifo dest: q_step_seen simp: q_head_first)

end
