(* ===== verification/Py_Uuid.thy ===== *)
theory Py_Uuid
  imports Py_Values
begin

text \<open>
  Python's \<open>UUID\<close> as the store uses it: \<open>str(uuid)\<close> and \<open>UUID(text)\<close>. A UUID
  is the natural number below \<open>2 ^ 128\<close> it is built from. The constructor drops the words
  \<open>urn:\<close> and \<open>uuid:\<close>, braces at the ends and every dash, wants 32 characters, and
  reads them with \<open>int(text, 16)\<close>, of which only the ASCII digits are known here.
\<close>

section \<open>Definitions\<close>

text \<open>\<open>str(uuid)\<close>: 32 hexadecimal digits in groups of 8, 4, 4, 4 and 12.\<close>

definition uuid_str :: "nat \<Rightarrow> pystr" where
  "uuid_str u =
     (let h = hex_pad 32 u; dash = py ''-''
      in take 8 h @ dash @ take 4 (drop 8 h) @ dash @ take 4 (drop 12 h) @ dash @
         take 4 (drop 16 h) @ dash @ drop 20 h)"

text \<open>\<open>text.replace(word, '')\<close> for a word of at least one character.\<close>

function py_remove :: "pystr \<Rightarrow> pystr \<Rightarrow> pystr" where
  "py_remove word [] = []"
| "py_remove word (c # cs) =
     (if word \<noteq> [] \<and> take (length word) (c # cs) = word
      then py_remove word (drop (length word) (c # cs))
      else c # py_remove word cs)"
  by pat_completeness auto
termination
proof (relation "measure (\<lambda>(word, s). length s)", goal_cases)
  case (2 word c cs)
  then show ?case by (cases word) auto
qed auto

definition strip_braces :: "pystr \<Rightarrow> pystr" where
  "strip_braces s =
     (let brace = (\<lambda>c. c = 123 \<or> c = 125) in rev (dropWhile brace (rev (dropWhile brace s))))"

fun hex_digits :: "nat \<Rightarrow> bool \<Rightarrow> pystr \<Rightarrow> nat option" where
  "hex_digits acc after_digit [] = (if after_digit then Some acc else None)"
| "hex_digits acc after_digit (c # cs) =
     (case hex_value c of
        Some v \<Rightarrow> hex_digits (16 * acc + v) True cs
      | None \<Rightarrow> if c = 95 \<and> after_digit then hex_digits acc False cs else None)"

text \<open>The digits of \<open>int(text, 16)\<close> after its sign: a prefix \<open>0x\<close> may come first, and an
  underscore after it.\<close>

definition hex_body :: "pystr \<Rightarrow> nat option" where
  "hex_body s =
     (case s of
        a # b # rest \<Rightarrow>
          if a = 48 \<and> (b = 120 \<or> b = 88)
          then hex_digits 0 False (if rest \<noteq> [] \<and> hd rest = 95 then tl rest else rest)
          else hex_digits 0 False s
      | _ \<Rightarrow> hex_digits 0 False s)"

definition int_of_hex :: "pystr \<Rightarrow> (py_error, int) result" where
  "int_of_hex s =
     (case py_strip s of
        [] \<Rightarrow> Inl ValueError
      | c # cs \<Rightarrow>
          (case hex_body (if c = 43 \<or> c = 45 then cs else c # cs) of
             None \<Rightarrow> Inl ValueError
           | Some n \<Rightarrow> Inr (if c = 45 then - int n else int n)))"

definition uuid_of_str :: "pystr \<Rightarrow> (py_error, nat) result" where
  "uuid_of_str s =
     (let hex = py_remove (py ''-'') (strip_braces (py_remove (py ''uuid:'') (py_remove (py ''urn:'') s)))
      in if length hex \<noteq> 32 then Inl ValueError
         else bind_res (int_of_hex hex)
                (\<lambda>n. if 0 \<le> n \<and> n < 2 ^ 128 then Inr (nat n) else Inl ValueError))"

section \<open>Facts\<close>

definition hex_char :: "nat \<Rightarrow> bool" where
  "hex_char c \<longleftrightarrow> 48 \<le> c \<and> c \<le> 57 \<or> 97 \<le> c \<and> c \<le> 102"

lemma hex_char_digit: "n < 16 \<Longrightarrow> hex_char (hex_digit n)"
  by (auto simp: hex_char_def hex_digit_def)

lemma length_hex_pad [simp]: "length (hex_pad k n) = k"
  by (induction k arbitrary: n) auto

lemma hex_pad_chars: "c \<in> set (hex_pad k n) \<Longrightarrow> hex_char c"
  by (induction k arbitrary: n) (auto simp: hex_char_digit)

lemma hex_digits_append:
  assumes "\<And>c. c \<in> set xs \<Longrightarrow> hex_value c \<noteq> None"
  shows "hex_digits acc d (xs @ ys) =
    (if xs = [] then hex_digits acc d ys
     else hex_digits (the (hex_digits acc True xs)) True ys)"
  using assms
proof (induction xs arbitrary: acc d)
  case (Cons x xs)
  then obtain v where v: "hex_value x = Some v" by fastforce
  have "hex_digits acc d ((x # xs) @ ys) = hex_digits (16 * acc + v) True (xs @ ys)"
    by (simp add: v)
  also have "\<dots> = hex_digits (the (hex_digits acc True (x # xs))) True ys"
    using Cons.IH[of "16 * acc + v" True] Cons.prems by (cases "xs = []") (auto simp: v)
  finally show ?case by simp
qed simp

lemma hex_char_value: "hex_char c \<Longrightarrow> hex_value c \<noteq> None"
  by (auto simp: hex_char_def hex_value_def)

lemma hex_digits_pad: "hex_digits acc True (hex_pad k n) = Some (acc * 16 ^ k + n mod 16 ^ k)"
proof (induction k arbitrary: n)
  case 0
  then show ?case by simp
next
  case (Suc k)
  have all: "\<And>c. c \<in> set (hex_pad k (n div 16)) \<Longrightarrow> hex_value c \<noteq> None"
    using hex_pad_chars hex_char_value by blast
  have "n mod 16 ^ Suc k = 16 * (n div 16 mod 16 ^ k) + n mod 16"
    using mod_mult2_eq[of n 16 "16 ^ k"] by (simp add: mult.commute)
  then show ?case
    using Suc[of "n div 16"] hex_digits_append[OF all, where acc = acc and d = True and ys = "[hex_digit (n mod 16)]"]
    by (cases "k = 0") (auto simp: hex_value_digit algebra_simps)
qed

lemma hex_digits_pad_False: "0 < k \<Longrightarrow> hex_digits acc False (hex_pad k n) = hex_digits acc True (hex_pad k n)"
proof -
  assume "0 < k"
  then obtain c cs where c: "hex_pad k n = c # cs"
    by (cases "hex_pad k n") (auto dest: arg_cong[where f = length])
  then have "hex_value c \<noteq> None" using hex_pad_chars[of c k n] hex_char_value by simp
  with c show ?thesis by auto
qed

lemma py_remove_absent: "word \<noteq> [] \<Longrightarrow> hd word \<notin> set s \<Longrightarrow> py_remove word s = s"
proof (induction s)
  case (Cons c cs)
  then have "take (length word) (c # cs) \<noteq> word" by (cases word) auto
  with Cons show ?case by simp
qed simp

lemma py_remove_char: "py_remove [x] s = filter (\<lambda>c. c \<noteq> x) s"
  by (induction s) auto

lemma dropWhile_hd: "s \<noteq> [] \<Longrightarrow> \<not> p (hd s) \<Longrightarrow> dropWhile p s = s"
  by (cases s) auto

lemma strip_ends:
  assumes "s \<noteq> []" "\<not> p (hd s)" "\<not> p (last s)"
  shows "rev (dropWhile p (rev (dropWhile p s))) = s"
  using assms by (simp add: dropWhile_hd hd_rev)

lemma uuid_str_chars: "c \<in> set (uuid_str u) \<Longrightarrow> hex_char c \<or> c = 45"
  by (auto simp: uuid_str_def Let_def py_def simp del: hex_pad.simps
      dest!: in_set_takeD in_set_dropD hex_pad_chars)

lemma uuid_str_digits: "filter (\<lambda>c. c \<noteq> 45) (uuid_str u) = hex_pad 32 u"
proof -
  let ?h = "hex_pad 32 u"
  have keep: "filter (\<lambda>c. c \<noteq> 45) xs = xs" if "set xs \<subseteq> set ?h" for xs
    using that hex_pad_chars[of 45 32 u] by (auto simp: filter_id_conv hex_char_def)
  have sub: "set (take i (drop j ?h)) \<subseteq> set ?h" "set (take i ?h) \<subseteq> set ?h" "set (drop j ?h) \<subseteq> set ?h" for i j
    by (auto dest: in_set_takeD in_set_dropD)
  have h: "take 8 ?h @ take 4 (drop 8 ?h) @ take 4 (drop 12 ?h) @ take 4 (drop 16 ?h) @ drop 20 ?h = ?h"
  proof -
    have "take 4 (drop 16 ?h) @ drop 20 ?h = drop 16 ?h"
      using append_take_drop_id[of 4 "drop 16 ?h"] by simp
    moreover have "take 4 (drop 12 ?h) @ drop 16 ?h = drop 12 ?h"
      using append_take_drop_id[of 4 "drop 12 ?h"] by simp
    moreover have "take 4 (drop 8 ?h) @ drop 12 ?h = drop 8 ?h"
      using append_take_drop_id[of 4 "drop 8 ?h"] by simp
    ultimately show ?thesis by simp
  qed
  show ?thesis
    unfolding uuid_str_def Let_def py_def
    by (simp add: keep sub h del: hex_pad.simps)
qed

lemma int_of_hex_pad: "int_of_hex (hex_pad 32 n) = Inr (int (n mod 16 ^ 32))"
proof -
  let ?h = "hex_pad 32 n"
  obtain a b rest where h: "?h = a # b # rest"
    by (cases "?h"; cases "tl ?h") (auto dest: arg_cong[where f = length])
  then have ab: "hex_char a" "hex_char b" using hex_pad_chars[of _ 32 n] by auto
  have "?h \<noteq> []" using h by simp
  have ends: "\<not> is_space (hd ?h)" "\<not> is_space (last ?h)"
    using hex_pad_chars[OF hd_in_set, of 32 n] hex_pad_chars[OF last_in_set, of 32 n] \<open>?h \<noteq> []\<close>
    by (auto simp: hex_char_def is_space_def simp del: hex_pad.simps)
  have "py_strip ?h = ?h" unfolding py_strip_def using strip_ends[OF \<open>?h \<noteq> []\<close> ends] .
  moreover have "hex_body ?h = Some (n mod 16 ^ 32)"
    using ab h hex_digits_pad_False[of 32 0 n] hex_digits_pad[of 0 32 n]
    by (auto simp: hex_body_def hex_char_def simp del: hex_pad.simps)
  ultimately show ?thesis
    using h ab by (auto simp: int_of_hex_def hex_char_def simp del: hex_pad.simps)
qed

lemma uuid_roundtrip: "u < 2 ^ 128 \<Longrightarrow> uuid_of_str (uuid_str u) = Inr u"
proof -
  assume u: "u < 2 ^ 128"
  let ?s = "uuid_str u"
  have "uuid_str u \<noteq> []" by (simp add: uuid_str_def Let_def)
  have ends: "\<not> (hd ?s = 123 \<or> hd ?s = 125)" "\<not> (last ?s = 123 \<or> last ?s = 125)"
    using uuid_str_chars[OF hd_in_set, of u] uuid_str_chars[OF last_in_set, of u] \<open>?s \<noteq> []\<close>
    by (auto simp: hex_char_def)
  have "117 \<notin> set ?s" using uuid_str_chars[of 117 u] by (auto simp: hex_char_def)
  then have r: "py_remove (py ''urn:'') ?s = ?s" "py_remove (py ''uuid:'') ?s = ?s"
    by (auto intro!: py_remove_absent simp: py_def)
  have b: "strip_braces ?s = ?s"
    unfolding strip_braces_def Let_def using strip_ends[OF \<open>?s \<noteq> []\<close> ends] .
  have d: "py_remove (py ''-'') ?s = hex_pad 32 u"
    using uuid_str_digits[of u] by (simp add: py_def py_remove_char)
  have "u mod 16 ^ 32 = u" using u by simp
  then show ?thesis
    using u by (simp add: uuid_of_str_def r b d int_of_hex_pad Let_def del: hex_pad.simps)
qed

end
