(* ===== verification/Pricing.thy ===== *)
theory Pricing
  imports Complex_Main Py_Values
begin

text \<open>
  \<^verbatim>\<open>model_catalog/domain/pricing.py\<close>: what a round cost and whether one more fits
  under a spending limit. A \<open>Decimal\<close> is a rational number (the amounts that occur
  stay within the 28 digits of Python's default context, where its arithmetic is exact), and
  \<open>rounded\<close> is \<open>quantize\<close> to six places, half up. The reasons a limit gives
  for refusing are the three of the source, without the numbers written into the sentence.
\<close>

section \<open>Definitions\<close>

datatype CostQuality = PROVIDER | ESTIMATED | UNKNOWN

datatype UsageQuality = UPROVIDER | UUNAVAILABLE

datatype PricingError = InvalidPricing

definition TOKENS_PER_UNIT :: rat where "TOKENS_PER_UNIT = 1000000"

definition CURRENCY_LENGTH :: nat where "CURRENCY_LENGTH = 3"

text \<open>\<open>amount.quantize(Decimal("0.000001"), rounding=ROUND_HALF_UP)\<close>: ties away from zero.\<close>

definition rounded :: "rat \<Rightarrow> rat" where
  "rounded amount = sgn amount * of_int \<lfloor>\<bar>amount\<bar> * 1000000 + 1 / 2\<rfloor> / 1000000"

record TokenPrices =
  tp_currency :: pystr
  tp_input_per_million :: rat
  tp_output_per_million :: rat
  tp_cached_input_per_million :: "rat option"

text \<open>The currency is checked for its shape; only the ASCII letters are known here.\<close>

definition token_prices :: "pystr \<Rightarrow> rat \<Rightarrow> rat \<Rightarrow> rat option \<Rightarrow> (PricingError, TokenPrices) result" where
  "token_prices currency input output cached =
     (if length currency \<noteq> CURRENCY_LENGTH \<or>
         \<not> list_all (\<lambda>c. (65 \<le> c \<and> c \<le> 90) \<or> (97 \<le> c \<and> c \<le> 122)) currency
      then Inl InvalidPricing
      else if \<not> list_all (\<lambda>c. c < 97) currency then Inl InvalidPricing
      else if input < 0 \<or> output < 0 \<or> (case cached of None \<Rightarrow> False | Some c \<Rightarrow> c < 0)
      then Inl InvalidPricing
      else Inr \<lparr>tp_currency = currency, tp_input_per_million = input,
                tp_output_per_million = output, tp_cached_input_per_million = cached\<rparr>)"

definition is_free :: "TokenPrices \<Rightarrow> bool" where
  "is_free prices \<longleftrightarrow> tp_input_per_million prices = 0 \<and> tp_output_per_million prices = 0"

record Cost =
  co_amount :: "rat option"
  co_currency :: "pystr option"
  co_quality :: CostQuality

definition known :: "Cost \<Rightarrow> bool" where
  "known cost \<longleftrightarrow> co_amount cost \<noteq> None"

definition unknown :: Cost where
  "unknown = \<lparr>co_amount = None, co_currency = None, co_quality = UNKNOWN\<rparr>"

definition free_cost :: "pystr \<Rightarrow> Cost" where
  "free_cost currency = \<lparr>co_amount = Some 0, co_currency = Some currency, co_quality = PROVIDER\<rparr>"

definition plus_cost :: "Cost \<Rightarrow> Cost \<Rightarrow> Cost" where
  "plus_cost a b =
     (case (co_amount a, co_amount b) of
        (Some mine, Some theirs) \<Rightarrow>
          if co_currency a \<noteq> co_currency b then unknown
          else \<lparr>co_amount = Some (rounded (mine + theirs)), co_currency = co_currency a,
                co_quality = (if co_quality a = ESTIMATED \<or> co_quality b = ESTIMATED
                              then ESTIMATED else PROVIDER)\<rparr>
      | _ \<Rightarrow> unknown)"

definition int_or_0 :: "int option \<Rightarrow> int" where
  "int_or_0 n = (case n of None \<Rightarrow> 0 | Some k \<Rightarrow> k)"

definition cost_of ::
  "TokenPrices option \<Rightarrow> int option \<Rightarrow> int option \<Rightarrow> UsageQuality \<Rightarrow> int option \<Rightarrow> Cost" where
  "cost_of prices input_tokens output_tokens usage_quality cached_input_tokens =
     (case prices of
        None \<Rightarrow> unknown
      | Some p \<Rightarrow>
          if usage_quality = UUNAVAILABLE then unknown
          else if input_tokens = None \<and> output_tokens = None then unknown
          else
            let cached = int_or_0 cached_input_tokens;
                plain = max (int_or_0 input_tokens - cached) 0;
                cached_rate = (case tp_cached_input_per_million p of
                                 None \<Rightarrow> tp_input_per_million p | Some r \<Rightarrow> r);
                amount = (of_int plain * tp_input_per_million p + of_int cached * cached_rate +
                          of_int (int_or_0 output_tokens) * tp_output_per_million p) / TOKENS_PER_UNIT
            in \<lparr>co_amount = Some (rounded amount), co_currency = Some (tp_currency p),
                co_quality = PROVIDER\<rparr>)"

definition projected_cost :: "TokenPrices option \<Rightarrow> int \<Rightarrow> int \<Rightarrow> Cost" where
  "projected_cost prices input_estimate max_output_tokens =
     cost_of prices (Some input_estimate) (Some max_output_tokens) UPROVIDER None"

record CostCeiling =
  ce_max_amount :: "rat option"
  ce_currency :: "pystr option"

datatype CeilingVerdict = Allowed | CannotBeCounted | CurrencyDiffers | WouldPassLimit

definition within_ceiling :: "CostCeiling \<Rightarrow> Cost \<Rightarrow> Cost \<Rightarrow> CeilingVerdict" where
  "within_ceiling cap consumed projected =
     (case ce_max_amount cap of
        None \<Rightarrow> Allowed
      | Some limit \<Rightarrow>
          if \<not> known consumed \<or> \<not> known projected then CannotBeCounted
          else if ce_currency cap \<noteq> None \<and> ce_currency cap \<noteq> co_currency projected
          then CurrencyDiffers
          else
            (case (co_amount consumed, co_amount projected) of
               (Some spent, Some further) \<Rightarrow> if spent + further > limit then WouldPassLimit else Allowed
             | _ \<Rightarrow> CannotBeCounted))"

record EnforcedValves =
  ev_tokens :: bool
  ev_currency :: bool
  ev_elapsed_time :: bool
  ev_model_calls :: bool
  ev_max_output_tokens :: bool

definition enforced_valves :: "UsageQuality \<Rightarrow> EnforcedValves" where
  "enforced_valves usage_quality =
     (let counted = (usage_quality \<noteq> UUNAVAILABLE)
      in \<lparr>ev_tokens = counted, ev_currency = counted, ev_elapsed_time = True,
          ev_model_calls = True, ev_max_output_tokens = True\<rparr>)"

section \<open>Facts\<close>

text \<open>An amount that is kept: a multiple of a millionth.\<close>

definition micro :: "rat \<Rightarrow> bool" where
  "micro amount \<longleftrightarrow> (\<exists>n :: int. amount = of_int n / 1000000)"

lemma micro_0 [simp]: "micro 0"
  unfolding micro_def by (rule exI[of _ 0]) simp

lemma micro_add: "micro a \<Longrightarrow> micro b \<Longrightarrow> micro (a + b)"
  by (auto simp: micro_def add_divide_distrib[symmetric] simp flip: of_int_add)

lemma rounded_micro: "micro (rounded q)"
proof -
  have "sgn q \<in> {-1, 0, 1}" by (auto simp: sgn_if)
  then obtain s :: int where "sgn q = of_int s"
    by (metis insertE of_int_0 of_int_1 of_int_minus singletonD)
  then have "rounded q = of_int (s * \<lfloor>\<bar>q\<bar> * 1000000 + 1 / 2\<rfloor>) / 1000000"
    by (simp add: rounded_def)
  then show ?thesis unfolding micro_def by blast
qed

lemma rounded_id: "micro q \<Longrightarrow> rounded q = q"
proof -
  assume "micro q"
  then obtain n :: int where n: "q = of_int n / 1000000" by (auto simp: micro_def)
  have "\<bar>q\<bar> * 1000000 = of_int \<bar>n\<bar>" by (simp add: n abs_divide)
  then have "\<lfloor>\<bar>q\<bar> * 1000000 + 1 / 2\<rfloor> = \<bar>n\<bar>" by linarith
  then show ?thesis by (simp add: rounded_def n sgn_divide sgn_if)
qed

lemma rounded_close: "\<bar>rounded q - q\<bar> \<le> 1 / 2000000"
proof -
  have "\<bar>of_int \<lfloor>\<bar>q\<bar> * 1000000 + 1 / 2\<rfloor> - \<bar>q\<bar> * 1000000\<bar> \<le> (1 / 2 :: rat)"
    by linarith
  then have "\<bar>of_int \<lfloor>\<bar>q\<bar> * 1000000 + 1 / 2\<rfloor> / 1000000 - \<bar>q\<bar>\<bar> \<le> (1 / 2000000 :: rat)"
    by (simp add: field_simps abs_le_iff)
  then show ?thesis
    by (cases "q > 0"; cases "q = 0") (auto simp: rounded_def sgn_if abs_if split: if_splits)
qed

lemma rounded_nonneg: "0 \<le> q \<Longrightarrow> 0 \<le> rounded q"
  by (auto simp: rounded_def sgn_if)

text \<open>A cost the program makes: the amount is kept to six places, and it is missing exactly
  when the quality says unknown.\<close>

definition wf_cost :: "Cost \<Rightarrow> bool" where
  "wf_cost c \<longleftrightarrow>
     (case co_amount c of None \<Rightarrow> co_quality c = UNKNOWN
      | Some a \<Rightarrow> micro a \<and> co_quality c \<noteq> UNKNOWN \<and> co_currency c \<noteq> None)"

lemma wf_unknown [simp]: "wf_cost unknown"
  by (simp add: wf_cost_def unknown_def)

lemma cost_of_wf: "wf_cost (cost_of prices i out usage cached)"
  by (auto simp: cost_of_def wf_cost_def unknown_def Let_def rounded_micro split: option.splits)

lemma plus_cost_wf: "wf_cost a \<Longrightarrow> wf_cost b \<Longrightarrow> wf_cost (plus_cost a b)"
  by (auto simp: plus_cost_def wf_cost_def unknown_def rounded_micro split: option.splits)

lemma plus_cost_known:
  assumes "wf_cost a" "wf_cost b"
  shows "co_amount (plus_cost a b) =
    (if known a \<and> known b \<and> co_currency a = co_currency b
     then Some (the (co_amount a) + the (co_amount b)) else None)"
  using assms
  by (auto simp: plus_cost_def known_def unknown_def wf_cost_def rounded_id micro_add split: option.splits)

section \<open>Properties\<close>

text \<open>
  A limit is never taken for satisfied when it cannot be checked. With a spending limit, a
  round is allowed exactly when what was spent and what the round may cost are both known, the
  currencies agree where the limit has one, and the two together do not pass the limit. Without
  a limit it is always allowed.
\<close>

theorem within_ceiling_allows_iff:
  "(within_ceiling cap consumed projected = Allowed) =
   (case ce_max_amount cap of
      None \<Rightarrow> True
    | Some limit \<Rightarrow>
        \<exists>spent further. co_amount consumed = Some spent \<and> co_amount projected = Some further \<and>
          (ce_currency cap = None \<or> ce_currency cap = co_currency projected) \<and>
          spent + further \<le> limit)"
  by (auto simp: within_ceiling_def known_def split: option.splits if_splits)

text \<open>
  The cost of a round. It is unknown exactly when no price is configured, the endpoint
  reports no usage, or it reported none; a missing price is never a zero. Otherwise it is the
  priced sum within half a millionth, and kept to six places.
\<close>

theorem cost_of_known_iff:
  "wf_cost (cost_of prices i out usage cached) \<and>
   (known (cost_of prices i out usage cached) =
     (prices \<noteq> None \<and> usage \<noteq> UUNAVAILABLE \<and> (i \<noteq> None \<or> out \<noteq> None))) \<and>
   (case (prices, co_amount (cost_of prices i out usage cached)) of
      (Some p, Some a) \<Rightarrow>
        \<bar>a * 1000000 -
          (of_int (max (int_or_0 i - int_or_0 cached) 0) * tp_input_per_million p +
           of_int (int_or_0 cached) *
             (case tp_cached_input_per_million p of None \<Rightarrow> tp_input_per_million p | Some r \<Rightarrow> r) +
           of_int (int_or_0 out) * tp_output_per_million p)\<bar> \<le> 1 / 2
    | _ \<Rightarrow> True)"
proof -
  have scale: "\<bar>rounded (x / 1000000) * 1000000 - x\<bar> \<le> 1 / 2" for x
    using rounded_close[of "x / 1000000"] by (simp add: abs_le_iff field_simps)
  show ?thesis
  proof (intro conjI)
    show "wf_cost (cost_of prices i out usage cached)" by (rule cost_of_wf)
  qed (use scale in \<open>auto simp: cost_of_def known_def unknown_def Let_def TOKENS_PER_UNIT_def
        split: option.splits\<close>)
qed

end
