(* ===== verification/Run_Budget.thy ===== *)
theory Run_Budget
  imports Pricing Run_Models
begin

text \<open>
  The budget a tree of Runs shares: the row of \<^verbatim>\<open>run_budget_scopes\<close>, the
  valves that say whether a Run may execute (\<open>BudgetSummary.allows_execution\<close> in
  \<^verbatim>\<open>runs/domain/models.py\<close>) and the writes of
  \<^verbatim>\<open>runs/infrastructure/sql_store.py\<close> on it. \<open>_budget_summary\<close> copies
  the row field by field, so the row stands for its summary. The conditional
  \<open>UPDATE ... RETURNING\<close> statements are functions to an option: \<open>None\<close> when no
  row matched.
\<close>

section \<open>Definitions\<close>

record AgentLimits =
  al_max_execution_seconds :: int
  al_max_elapsed_seconds :: int
  al_max_model_calls :: int
  al_max_tool_calls :: int
  al_max_derived_retries :: int

record BudgetRow =
  b_root_run_id :: nat
  b_max_execution_seconds :: int
  b_consumed_execution_ms :: int
  b_max_elapsed_seconds :: int
  b_elapsed_deadline_at :: datetime
  b_max_model_calls :: int
  b_consumed_model_calls :: int
  b_max_tool_calls :: int
  b_consumed_tool_calls :: int
  b_max_tokens :: "int option"
  b_consumed_tokens :: int
  b_max_derived_retries :: int
  b_derived_retry_count :: int
  b_max_cost :: "rat option"
  b_cost_currency :: "pystr option"
  b_consumed_cost :: "rat option"
  b_cost_quality :: CostQuality
  b_version :: int

definition allows_execution :: "BudgetRow \<Rightarrow> datetime \<Rightarrow> bool" where
  "allows_execution b now =
     (if now \<ge> b_elapsed_deadline_at b then False
      else if b_consumed_model_calls b \<ge> b_max_model_calls b then False
      else if b_consumed_execution_ms b \<ge> b_max_execution_seconds b * 1000 then False
      else \<not> (case b_max_tokens b of None \<Rightarrow> False | Some limit \<Rightarrow> b_consumed_tokens b \<ge> limit))"

definition new_budget ::
  "nat \<Rightarrow> AgentLimits \<Rightarrow> datetime \<Rightarrow> rat option \<times> pystr option \<Rightarrow> BudgetRow" where
  "new_budget run_id limits now cap =
     \<lparr>b_root_run_id = run_id,
      b_max_execution_seconds = al_max_execution_seconds limits, b_consumed_execution_ms = 0,
      b_max_elapsed_seconds = al_max_elapsed_seconds limits,
      b_elapsed_deadline_at = now + timedelta_seconds (al_max_elapsed_seconds limits),
      b_max_model_calls = al_max_model_calls limits, b_consumed_model_calls = 0,
      b_max_tool_calls = al_max_tool_calls limits, b_consumed_tool_calls = 0,
      b_max_tokens = None, b_consumed_tokens = 0,
      b_max_derived_retries = al_max_derived_retries limits, b_derived_retry_count = 0,
      b_max_cost = fst cap, b_cost_currency = snd cap,
      b_consumed_cost = Some 0, b_cost_quality = PROVIDER, b_version = 1\<rparr>"

text \<open>\<open>budget.cost_currency or cost.currency\<close>: an empty string is no currency.\<close>

definition or_currency :: "pystr option \<Rightarrow> pystr option \<Rightarrow> pystr option" where
  "or_currency a b = (if a = None \<or> a = Some [] then b else a)"

definition accumulate_cost :: "Cost option \<Rightarrow> BudgetRow \<Rightarrow> BudgetRow" where
  "accumulate_cost cost b =
     (if b_cost_quality b = CostQuality.UNKNOWN then b
      else case cost of
        None \<Rightarrow> b\<lparr>b_consumed_cost := None, b_cost_quality := CostQuality.UNKNOWN\<rparr>
      | Some c \<Rightarrow>
          if \<not> known c then b\<lparr>b_consumed_cost := None, b_cost_quality := CostQuality.UNKNOWN\<rparr>
          else
            let running = \<lparr>co_amount = Some (case b_consumed_cost b of Some a \<Rightarrow> a | None \<Rightarrow> 0),
                           co_currency = or_currency (b_cost_currency b) (co_currency c),
                           co_quality = b_cost_quality b\<rparr>;
                total' = plus_cost running c
            in b\<lparr>b_consumed_cost := co_amount total', b_cost_quality := co_quality total',
                 b_cost_currency := (if b_cost_currency b = None then co_currency total'
                                     else b_cost_currency b)\<rparr>)"

definition consume_budget :: "int \<Rightarrow> int \<Rightarrow> int \<Rightarrow> Cost option \<Rightarrow> BudgetRow \<Rightarrow> BudgetRow" where
  "consume_budget executed_ms model_calls tokens cost b =
     accumulate_cost cost
       (b\<lparr>b_consumed_execution_ms := b_consumed_execution_ms b + executed_ms,
          b_consumed_model_calls := b_consumed_model_calls b + model_calls,
          b_consumed_tokens := b_consumed_tokens b + tokens,
          b_version := b_version b + 1\<rparr>)"

text \<open>The statement of \<open>_charge_tool_call\<close>.\<close>

definition reserve_call :: "datetime \<Rightarrow> BudgetRow \<Rightarrow> BudgetRow option" where
  "reserve_call now b =
     (if b_consumed_tool_calls b < b_max_tool_calls b \<and> b_elapsed_deadline_at b > now
      then Some (b\<lparr>b_consumed_tool_calls := b_consumed_tool_calls b + 1,
                   b_version := b_version b + 1\<rparr>)
      else None)"

text \<open>The statement of \<open>derive_retry\<close>: the version read is the version the row has, for
  the row is locked.\<close>

definition reserve_retry :: "BudgetRow \<Rightarrow> BudgetRow option" where
  "reserve_retry b =
     (if b_derived_retry_count b < b_max_derived_retries b
      then Some (b\<lparr>b_derived_retry_count := b_derived_retry_count b + 1,
                   b_version := b_version b + 1\<rparr>)
      else None)"

text \<open>The write of \<open>widen_budget\<close>: \<open>None\<close> is \<open>BudgetNotWidened\<close>.\<close>

definition widen :: "int \<Rightarrow> BudgetRow \<Rightarrow> BudgetRow option" where
  "widen max_model_calls b =
     (if max_model_calls \<le> b_max_model_calls b then None
      else Some (b\<lparr>b_max_model_calls := max_model_calls, b_version := b_version b + 1\<rparr>))"

text \<open>\<open>_cost_precheck\<close> of the Worker, with the price of the endpoint and the largest output
  it may produce.\<close>

definition cost_precheck :: "BudgetRow \<Rightarrow> TokenPrices option \<Rightarrow> int \<Rightarrow> int \<Rightarrow> CeilingVerdict" where
  "cost_precheck b prices input_estimate max_output =
     (if b_max_cost b = None then Allowed
      else
        let consumed = (case b_consumed_cost b of
                          None \<Rightarrow> unknown
                        | Some a \<Rightarrow> \<lparr>co_amount = Some a, co_currency = b_cost_currency b,
                                     co_quality = b_cost_quality b\<rparr>)
        in within_ceiling \<lparr>ce_max_amount = b_max_cost b, ce_currency = b_cost_currency b\<rparr>
             consumed (projected_cost prices input_estimate max_output))"

section \<open>Facts\<close>

text \<open>What every write on the row keeps: the counters never go down, the ceilings never go
  down, and the calls and retries reserved stay within theirs.\<close>

definition budget_grows :: "BudgetRow \<Rightarrow> BudgetRow \<Rightarrow> bool" where
  "budget_grows b b' \<longleftrightarrow>
     b_root_run_id b' = b_root_run_id b \<and>
     b_consumed_execution_ms b \<le> b_consumed_execution_ms b' \<and>
     b_consumed_model_calls b \<le> b_consumed_model_calls b' \<and>
     b_consumed_tool_calls b \<le> b_consumed_tool_calls b' \<and>
     b_consumed_tokens b \<le> b_consumed_tokens b' \<and>
     b_derived_retry_count b \<le> b_derived_retry_count b' \<and>
     b_max_execution_seconds b = b_max_execution_seconds b' \<and>
     b_elapsed_deadline_at b = b_elapsed_deadline_at b' \<and>
     b_max_model_calls b \<le> b_max_model_calls b' \<and>
     b_max_tool_calls b = b_max_tool_calls b' \<and>
     b_max_tokens b = b_max_tokens b' \<and>
     b_max_derived_retries b = b_max_derived_retries b' \<and>
     b_max_cost b = b_max_cost b' \<and>
     (b_consumed_cost b = None \<longrightarrow> b_consumed_cost b' = None) \<and>
     b_version b \<le> b_version b'"

definition wf_budget :: "BudgetRow \<Rightarrow> bool" where
  "wf_budget b \<longleftrightarrow>
     0 \<le> b_consumed_tool_calls b \<and> b_consumed_tool_calls b \<le> max (b_max_tool_calls b) 0 \<and>
     0 \<le> b_derived_retry_count b \<and> b_derived_retry_count b \<le> max (b_max_derived_retries b) 0 \<and>
     (b_consumed_cost b = None \<longleftrightarrow> b_cost_quality b = CostQuality.UNKNOWN) \<and>
     (\<forall>a. b_consumed_cost b = Some a \<longrightarrow> micro a)"

lemma accumulate_cost_other [simp]:
  "b_root_run_id (accumulate_cost c b) = b_root_run_id b"
  "b_consumed_execution_ms (accumulate_cost c b) = b_consumed_execution_ms b"
  "b_max_execution_seconds (accumulate_cost c b) = b_max_execution_seconds b"
  "b_elapsed_deadline_at (accumulate_cost c b) = b_elapsed_deadline_at b"
  "b_consumed_model_calls (accumulate_cost c b) = b_consumed_model_calls b"
  "b_max_model_calls (accumulate_cost c b) = b_max_model_calls b"
  "b_consumed_tool_calls (accumulate_cost c b) = b_consumed_tool_calls b"
  "b_max_tool_calls (accumulate_cost c b) = b_max_tool_calls b"
  "b_consumed_tokens (accumulate_cost c b) = b_consumed_tokens b"
  "b_max_tokens (accumulate_cost c b) = b_max_tokens b"
  "b_derived_retry_count (accumulate_cost c b) = b_derived_retry_count b"
  "b_max_derived_retries (accumulate_cost c b) = b_max_derived_retries b"
  "b_max_cost (accumulate_cost c b) = b_max_cost b"
  "b_version (accumulate_cost c b) = b_version b"
  by (simp_all add: accumulate_cost_def Let_def split: option.splits)

lemma allows_execution_grows:
  "budget_grows b b' \<Longrightarrow> b_max_model_calls b' = b_max_model_calls b \<Longrightarrow> now \<le> now' \<Longrightarrow>
   allows_execution b' now' \<Longrightarrow> allows_execution b now"
  by (auto simp: budget_grows_def allows_execution_def split: if_splits option.splits)

text \<open>
  The contract of a write on the shared row. A client that only knows it knows that a budget
  that is spent stays spent as long as nobody raises the number of model calls.
\<close>

locale budget_write =
  fixes upd :: "BudgetRow \<Rightarrow> BudgetRow option"
  assumes grows: "upd b = Some b' \<Longrightarrow> budget_grows b b'"
    and keeps: "wf_budget b \<Longrightarrow> upd b = Some b' \<Longrightarrow> wf_budget b'"
begin

lemma stays_spent:
  "\<not> allows_execution b now \<Longrightarrow> upd b = Some b' \<Longrightarrow> b_max_model_calls b' = b_max_model_calls b \<Longrightarrow>
   now \<le> now' \<Longrightarrow> \<not> allows_execution b' now'"
  using grows allows_execution_grows by blast

end

lemma accumulate_cost_wf [inv_intros]:
  assumes "wf_budget b" "\<And>c. cost = Some c \<Longrightarrow> wf_cost c"
  shows "wf_budget (accumulate_cost cost b)"
  using assms
  by (auto simp: wf_budget_def accumulate_cost_def Let_def plus_cost_def unknown_def known_def
      wf_cost_def rounded_micro micro_add split: option.splits)

lemma accumulate_cost_unknown:
  "wf_budget b \<Longrightarrow> b_consumed_cost b = None \<Longrightarrow> accumulate_cost cost b = b"
  by (auto simp: wf_budget_def accumulate_cost_def)

interpretation reserving: budget_write "reserve_call now" for now
  by unfold_locales (auto simp: reserve_call_def budget_grows_def wf_budget_def split: if_splits)

interpretation retrying: budget_write reserve_retry
  by unfold_locales (auto simp: reserve_retry_def budget_grows_def wf_budget_def split: if_splits)

interpretation widening: budget_write "widen n" for n
  by unfold_locales (auto simp: widen_def budget_grows_def wf_budget_def split: if_splits)

text \<open>The usage of one slice, where the counts are not negative and the cost is one the
  program computed.\<close>

definition consume_write :: "nat \<Rightarrow> nat \<Rightarrow> nat \<Rightarrow> Cost option \<Rightarrow> BudgetRow \<Rightarrow> BudgetRow option" where
  "consume_write ms calls tokens cost b =
     (if wf_budget b \<and> (case cost of None \<Rightarrow> True | Some c \<Rightarrow> wf_cost c)
      then Some (consume_budget (int ms) (int calls) (int tokens) cost b) else None)"

lemma consume_budget_grows:
  assumes "wf_budget b" "\<And>c. cost = Some c \<Longrightarrow> wf_cost c"
  shows "budget_grows b (consume_budget (int ms) (int calls) (int tokens) cost b)"
    "wf_budget (consume_budget (int ms) (int calls) (int tokens) cost b)"
proof -
  let ?b = "b\<lparr>b_consumed_execution_ms := b_consumed_execution_ms b + int ms,
          b_consumed_model_calls := b_consumed_model_calls b + int calls,
          b_consumed_tokens := b_consumed_tokens b + int tokens, b_version := b_version b + 1\<rparr>"
  have wf: "wf_budget ?b" using assms(1) by (simp add: wf_budget_def)
  show "wf_budget (consume_budget (int ms) (int calls) (int tokens) cost b)"
    unfolding consume_budget_def by (rule accumulate_cost_wf[OF wf assms(2)])
  have "b_consumed_cost b = None \<Longrightarrow> b_consumed_cost (accumulate_cost cost ?b) = None"
    using accumulate_cost_unknown[OF wf] by simp
  then show "budget_grows b (consume_budget (int ms) (int calls) (int tokens) cost b)"
    by (simp add: consume_budget_def budget_grows_def)
qed

interpretation consuming: budget_write "consume_write ms calls tokens cost" for ms calls tokens cost
  by unfold_locales
    (auto simp: consume_write_def intro!: consume_budget_grows split: if_splits option.splits)

text \<open>Every write there is.\<close>

datatype BudgetWrite =
    Consume nat nat nat "Cost option"
  | ReserveCall datetime
  | ReserveRetry
  | Widen int

fun apply_write :: "BudgetWrite \<Rightarrow> BudgetRow \<Rightarrow> BudgetRow option" where
  "apply_write (Consume ms calls tokens cost) b = consume_write ms calls tokens cost b"
| "apply_write (ReserveCall now) b = reserve_call now b"
| "apply_write ReserveRetry b = reserve_retry b"
| "apply_write (Widen n) b = widen n b"

interpretation any_write: budget_write "apply_write w" for w
proof
  fix b b'
  assume "apply_write w b = Some b'"
  then show "budget_grows b b'"
    by (cases w) (auto intro: consuming.grows reserving.grows retrying.grows widening.grows)
next
  fix b b'
  assume "wf_budget b" "apply_write w b = Some b'"
  then show "wf_budget b'"
    by (cases w) (auto intro: consuming.keeps reserving.keeps retrying.keeps widening.keeps)
qed

text \<open>A write that is refused leaves the row as it was.\<close>

definition try_write :: "BudgetWrite \<Rightarrow> BudgetRow \<Rightarrow> BudgetRow" where
  "try_write w b = (case apply_write w b of None \<Rightarrow> b | Some b' \<Rightarrow> b')"

lemma budget_grows_refl: "budget_grows b b"
  by (simp add: budget_grows_def)

lemma budget_grows_trans: "budget_grows a b \<Longrightarrow> budget_grows b c \<Longrightarrow> budget_grows a c"
  by (auto simp: budget_grows_def)

lemma try_writes_keep:
  "wf_budget b \<Longrightarrow> wf_budget (fold try_write ws b) \<and> budget_grows b (fold try_write ws b)"
proof (induction ws arbitrary: b)
  case Nil
  then show ?case by (simp add: budget_grows_refl)
next
  case (Cons w ws)
  have "wf_budget (try_write w b)" "budget_grows b (try_write w b)"
    using Cons.prems any_write.keeps[of b w] any_write.grows[of w b]
    by (auto simp: try_write_def budget_grows_refl split: option.splits)
  with Cons.IH[of "try_write w b"] show ?case
    by (auto intro: budget_grows_trans)
qed

lemma new_budget_wf: "wf_budget (new_budget run_id limits now cap)"
  by (simp add: new_budget_def wf_budget_def)

subsection \<open>The total\<close>

text \<open>The currency a total is in: the limit's, or that of the first round.\<close>

definition total_currency :: "pystr option \<Rightarrow> Cost list \<Rightarrow> pystr option" where
  "total_currency limit costs =
     (case limit of Some c \<Rightarrow> Some c
      | None \<Rightarrow> (case costs of [] \<Rightarrow> None | c # _ \<Rightarrow> co_currency c))"

definition countable_costs :: "pystr option \<Rightarrow> Cost list \<Rightarrow> bool" where
  "countable_costs limit costs \<longleftrightarrow>
     list_all (\<lambda>c. known c \<and> co_currency c = total_currency limit costs) costs"

definition costs_total :: "Cost list \<Rightarrow> rat" where
  "costs_total costs = sum_list (map (\<lambda>c. case co_amount c of None \<Rightarrow> 0 | Some a \<Rightarrow> a) costs)"

definition named_currency :: "Cost \<Rightarrow> bool" where
  "named_currency c \<longleftrightarrow> co_currency c \<noteq> Some []"

lemma costs_total_micro: "list_all wf_cost costs \<Longrightarrow> micro (costs_total costs)"
  by (induction costs) (auto simp: costs_total_def wf_cost_def micro_add split: option.splits)

lemma total_currency_snoc:
  "costs \<noteq> [] \<Longrightarrow> total_currency limit (costs @ [c]) = total_currency limit costs"
  by (cases costs) (auto simp: total_currency_def split: option.splits)

lemma countable_snoc:
  "countable_costs limit (costs @ [c]) \<longleftrightarrow>
   countable_costs limit costs \<and> known c \<and> co_currency c = total_currency limit (costs @ [c])"
proof (cases "costs = []")
  case True
  then show ?thesis by (simp add: countable_costs_def)
next
  case False
  then show ?thesis by (auto simp: countable_costs_def total_currency_snoc)
qed

lemma accumulate_known:
  assumes "b_cost_quality b \<noteq> CostQuality.UNKNOWN" "b_consumed_cost b = Some spent" "micro spent"
    and "known c" "co_amount c = Some a" "micro a"
  shows "or_currency (b_cost_currency b) (co_currency c) = co_currency c \<Longrightarrow>
      b_consumed_cost (accumulate_cost (Some c) b) = Some (spent + a) \<and>
      b_cost_quality (accumulate_cost (Some c) b) \<noteq> CostQuality.UNKNOWN \<and>
      b_cost_currency (accumulate_cost (Some c) b) =
        (if b_cost_currency b = None then co_currency c else b_cost_currency b)"
    and "or_currency (b_cost_currency b) (co_currency c) \<noteq> co_currency c \<Longrightarrow>
      b_consumed_cost (accumulate_cost (Some c) b) = None \<and>
      b_cost_quality (accumulate_cost (Some c) b) = CostQuality.UNKNOWN"
  using assms
  by (simp_all add: accumulate_cost_def plus_cost_def Let_def unknown_def rounded_id micro_add)

lemma accumulate_costs:
  fixes run_id limits now cap costs
  assumes "list_all wf_cost costs" "list_all named_currency costs" "snd cap \<noteq> Some []"
  defines "b \<equiv> fold (\<lambda>c. accumulate_cost (Some c)) costs (new_budget run_id limits now cap)"
  shows "if countable_costs (snd cap) costs
         then b_consumed_cost b = Some (costs_total costs) \<and> b_cost_quality b \<noteq> CostQuality.UNKNOWN \<and>
              b_cost_currency b = total_currency (snd cap) costs
         else b_consumed_cost b = None \<and> b_cost_quality b = CostQuality.UNKNOWN"
  using assms(1,2) unfolding b_def
proof (induction costs rule: rev_induct)
  case Nil
  then show ?case
    by (simp add: countable_costs_def new_budget_def costs_total_def total_currency_def split: option.splits)
next
  case (snoc c costs)
  let ?b = "fold (\<lambda>c. accumulate_cost (Some c)) costs (new_budget run_id limits now cap)"
  show ?case
  proof (cases "countable_costs (snd cap) costs")
    case False
    then have "b_cost_quality ?b = CostQuality.UNKNOWN" "b_consumed_cost ?b = None" using snoc by auto
    moreover from this have "accumulate_cost (Some c) ?b = ?b" by (simp add: accumulate_cost_def)
    ultimately show ?thesis using False by (simp add: countable_snoc)
  next
    case True
    then have ih: "b_consumed_cost ?b = Some (costs_total costs)" "b_cost_quality ?b \<noteq> CostQuality.UNKNOWN"
      "b_cost_currency ?b = total_currency (snd cap) costs" using snoc by auto
    have mic: "micro (costs_total costs)" using snoc.prems by (intro costs_total_micro) simp
    have first: "co_currency a \<noteq> None" if "costs = a # list" for a list
    proof -
      have "known a" "wf_cost a" using True snoc.prems that by (simp_all add: countable_costs_def)
      then show ?thesis by (auto simp: known_def wf_cost_def split: option.splits)
    qed
    have cur: "or_currency (total_currency (snd cap) costs) (co_currency c) =
        total_currency (snd cap) (costs @ [c])"
      using assms(3) snoc.prems first by (cases costs)
        (auto simp: or_currency_def total_currency_def named_currency_def split: option.splits)
    show ?thesis
    proof (cases "known c")
      case False
      then show ?thesis using True ih by (simp add: countable_snoc accumulate_cost_def)
    next
      case known: True
      then obtain a where a: "co_amount c = Some a" by (auto simp: known_def)
      have ma: "micro a" "co_currency c \<noteq> None" using a snoc.prems by (auto simp: wf_cost_def)
      have tot: "costs_total (costs @ [c]) = costs_total costs + a" by (simp add: costs_total_def a)
      have keep: "total_currency (snd cap) costs \<noteq> None \<Longrightarrow>
          total_currency (snd cap) (costs @ [c]) = total_currency (snd cap) costs"
        by (cases costs) (auto simp: total_currency_def split: option.splits)
      show ?thesis
      proof (cases "co_currency c = total_currency (snd cap) (costs @ [c])")
        case same: True
        then have "or_currency (b_cost_currency ?b) (co_currency c) = co_currency c"
          using ih cur by simp
        from accumulate_known(1)[OF ih(2,1) mic known a ma(1) this] show ?thesis
          using True known same keep ih by (simp add: countable_snoc tot)
      next
        case differs: False
        then have "or_currency (b_cost_currency ?b) (co_currency c) \<noteq> co_currency c"
          using ih cur by simp
        from accumulate_known(2)[OF ih(2,1) mic known a ma(1) this] show ?thesis
          using differs by (simp add: countable_snoc)
      qed
    qed
  qed
qed

section \<open>Properties\<close>

text \<open>
  C26. What a Run has spent is never under-reported. Starting from a new budget, after any
  number of rounds the total is known exactly when every round's cost is known and in one
  currency, the limit's where there is one; then it is the exact sum of the rounds. One
  round that cannot be priced makes it unknown for good.
\<close>

theorem spending_total_exact:
  "list_all wf_cost costs \<Longrightarrow> list_all named_currency costs \<Longrightarrow> snd cap \<noteq> Some [] \<Longrightarrow>
   b_consumed_cost (fold (\<lambda>c. accumulate_cost (Some c)) costs (new_budget run_id limits now cap)) =
   (if countable_costs (snd cap) costs then Some (costs_total costs) else None)"
  using accumulate_costs[of costs cap run_id limits now] by (auto split: if_splits)

theorem spending_total_exact_witness:
  "b_consumed_cost (fold (\<lambda>c. accumulate_cost (Some c)) [free_cost (py ''EUR''), unknown]
     (new_budget 1 \<lparr>al_max_execution_seconds = 900, al_max_elapsed_seconds = 86400,
        al_max_model_calls = 20, al_max_tool_calls = 50, al_max_derived_retries = 3\<rparr> 0 (None, None))) = None"
  using spending_total_exact[of "[free_cost (py ''EUR''), unknown]" "(None, None)"]
  by (simp add: wf_cost_def free_cost_def unknown_def named_currency_def countable_costs_def known_def)

text \<open>
  C11. The valves hold. Whatever writes reach the shared row of a tree of Runs, in whatever
  order, from its creation on: the tool calls reserved and the retries derived never pass
  their ceilings, no counter goes down, no ceiling is lowered, and a budget that no longer
  allows execution does not allow it again later unless the number of model calls was raised.
\<close>

theorem budget_valves_hold:
  "let b = fold try_write ws (new_budget run_id limits now cap);
       b' = fold try_write ws' b
   in b_consumed_tool_calls b \<le> max (b_max_tool_calls b) 0 \<and>
      b_derived_retry_count b \<le> max (b_max_derived_retries b) 0 \<and>
      b_max_tool_calls b = al_max_tool_calls limits \<and>
      b_max_derived_retries b = al_max_derived_retries limits \<and>
      budget_grows b b' \<and>
      (b_max_model_calls b' = b_max_model_calls b \<longrightarrow> t \<le> t' \<longrightarrow> \<not> allows_execution b t \<longrightarrow>
       \<not> allows_execution b' t')"
proof -
  define b where "b = fold try_write ws (new_budget run_id limits now cap)"
  define b' where "b' = fold try_write ws' b"
  have b: "wf_budget b" "budget_grows (new_budget run_id limits now cap) b"
    unfolding b_def using try_writes_keep[OF new_budget_wf] by blast+
  have b': "budget_grows b b'"
    unfolding b'_def using try_writes_keep[OF b(1)] by blast
  have "\<not> allows_execution b' t'"
    if "b_max_model_calls b' = b_max_model_calls b" "t \<le> t'" "\<not> allows_execution b t"
    using allows_execution_grows[OF b' that(1,2)] that(3) by blast
  then show ?thesis
    using b b' unfolding Let_def b_def[symmetric] b'_def[symmetric]
    by (auto simp: wf_budget_def budget_grows_def new_budget_def)
qed

theorem budget_valves_hold_witness:
  "let limits = \<lparr>al_max_execution_seconds = 900, al_max_elapsed_seconds = 86400,
        al_max_model_calls = 1, al_max_tool_calls = 50, al_max_derived_retries = 3\<rparr>;
       b = fold try_write [Consume 10 1 5 (Some unknown)] (new_budget 1 limits 0 (None, None))
   in \<not> allows_execution (fold try_write [ReserveCall 5] b) 9"
proof -
  let ?limits = "\<lparr>al_max_execution_seconds = 900, al_max_elapsed_seconds = 86400,
        al_max_model_calls = 1, al_max_tool_calls = 50, al_max_derived_retries = 3\<rparr>"
  let ?b = "fold try_write [Consume 10 1 5 (Some unknown)] (new_budget 1 ?limits 0 (None, None))"
  have "\<not> allows_execution ?b 7"
    by (simp add: try_write_def consume_write_def wf_budget_def micro_0 consume_budget_def
        allows_execution_def new_budget_def)
  moreover have "b_max_model_calls (fold try_write [ReserveCall 5] ?b) = b_max_model_calls ?b"
    by (simp add: try_write_def reserve_call_def)
  ultimately show ?thesis
    using budget_valves_hold[of "[Consume 10 1 5 (Some unknown)]" 1 ?limits 0 "(None, None)" "[ReserveCall 5]" 7 9]
    unfolding Let_def by simp
qed

text \<open>
  With a spending limit, the check before a call lets it through only if the total so far
  is known and that total with the most the call may cost is within the limit.
\<close>

theorem cost_precheck_allows:
  "cost_precheck b prices input_estimate max_output = Allowed \<Longrightarrow> b_max_cost b = Some limit \<Longrightarrow>
   \<exists>spent further. b_consumed_cost b = Some spent \<and>
     co_amount (projected_cost prices input_estimate max_output) = Some further \<and>
     spent + further \<le> limit"
  by (auto simp: cost_precheck_def within_ceiling_def known_def unknown_def Let_def
      split: option.splits if_splits)

theorem cost_precheck_allows_witness:
  "\<exists>spent further.
     b_consumed_cost (new_budget 1 \<lparr>al_max_execution_seconds = 900, al_max_elapsed_seconds = 86400,
        al_max_model_calls = 1, al_max_tool_calls = 50, al_max_derived_retries = 3\<rparr> 0 (Some 5, None)) = Some spent \<and>
     co_amount (projected_cost (Some \<lparr>tp_currency = py ''EUR'', tp_input_per_million = 0,
       tp_output_per_million = 0, tp_cached_input_per_million = None\<rparr>) 1000 100) = Some further \<and>
     spent + further \<le> 5"
  by (rule cost_precheck_allows)
    (simp_all add: cost_precheck_def new_budget_def within_ceiling_def projected_cost_def cost_of_def
      known_def rounded_def Let_def)

end
