(* ===== verification/Tool_Names.thy ===== *)
theory Tool_Names
  imports Py_Values
begin

text \<open>
  The names of \<^verbatim>\<open>tools/domain/registry.py\<close>: the tools the platform implements, those it
  answers itself, those that only read the sandbox and may run side by side, and those whose
  results are never cut down. \<open>changes_workspace\<close> is from \<^verbatim>\<open>tools/domain/files.py\<close>.
\<close>

definition IMPLEMENTED_TOOLS :: "pystr list" where
  "IMPLEMENTED_TOOLS = map py
     [''shell.exec'', ''file.list'', ''file.read'', ''file.write'', ''platform.wait'', ''skill.load'',
      ''skill.propose'', ''memory.remember'', ''session.search'', ''agent.delegate'', ''artifact.read'',
      ''todo.write'', ''site.publish'', ''file.send'']"

definition PLATFORM_TOOLS :: "pystr list" where
  "PLATFORM_TOOLS = map py
     [''platform.wait'', ''skill.load'', ''skill.propose'', ''memory.remember'', ''session.search'',
      ''agent.delegate'', ''artifact.read'', ''todo.write'', ''site.publish'', ''file.send'']"

definition PARALLEL_READS :: "pystr list" where
  "PARALLEL_READS = map py [''file.read'', ''file.list'']"

definition UNTRIMMED_TOOLS :: "pystr list" where
  "UNTRIMMED_TOOLS = map py [''skill.load'', ''todo.write'']"

definition changes_workspace :: "pystr \<Rightarrow> bool" where
  "changes_workspace name \<longleftrightarrow> name = py ''file.write'' \<or> name = py ''shell.exec''"

end
