(* ===== verification/Py_Text.thy ===== *)
theory Py_Text
  imports Py_Values "HOL-Library.Sublist"
begin

text \<open>
  The methods of Python's \<open>str\<close> that the components around the Runs use, on strings as
  lists of code points: prefixes, suffixes, containment, splitting at one character and at the
  line boundaries, stripping of given characters, lower case, the set of keys a mapping has
  beyond those allowed, and UTF-8. Lower case of a string with non-ASCII characters is the
  Unicode table's, an argument \<open>low\<close>. \<open>encode\<close> of a lone surrogate raises
  \<open>UnicodeEncodeError\<close>, here \<open>None\<close>.
\<close>

section \<open>Prefixes and containment\<close>

definition py_startswith :: "pystr \<Rightarrow> pystr \<Rightarrow> bool" where
  "py_startswith s p \<longleftrightarrow> take (length p) s = p"

definition py_endswith :: "pystr \<Rightarrow> pystr \<Rightarrow> bool" where
  "py_endswith s p \<longleftrightarrow> length p \<le> length s \<and> drop (length s - length p) s = p"

fun py_contains :: "pystr \<Rightarrow> pystr \<Rightarrow> bool" where
  "py_contains [] p \<longleftrightarrow> p = []"
| "py_contains (c # cs) p \<longleftrightarrow> py_startswith (c # cs) p \<or> py_contains cs p"

lemma py_startswith_prefix: "py_startswith s p \<longleftrightarrow> prefix p s"
  unfolding py_startswith_def by (metis append_eq_conv_conj append_take_drop_id prefix_def)

lemma py_endswith_suffix: "py_endswith s p \<longleftrightarrow> suffix p s"
proof
  assume "py_endswith s p"
  then show "suffix p s" unfolding py_endswith_def by (metis suffix_drop)
qed (auto simp: py_endswith_def suffix_def)

section \<open>Splitting\<close>

text \<open>\<open>s.split(c)\<close> at one character: never empty.\<close>

fun py_split :: "nat \<Rightarrow> pystr \<Rightarrow> pystr list" where
  "py_split c [] = [[]]"
| "py_split c (x # xs) =
     (if x = c then [] # py_split c xs
      else (x # hd (py_split c xs)) # tl (py_split c xs))"

lemma py_split_not_Nil [simp]: "py_split c s \<noteq> []"
  by (cases s) simp_all

lemma py_split_code [code]:
  "py_split c [] = [[]]"
  "py_split c (x # xs) =
     (case py_split c xs of [] \<Rightarrow> [] | q # qs \<Rightarrow> if x = c then [] # q # qs else (x # q) # qs)"
  using py_split_not_Nil[of c xs] by (auto split: list.splits simp del: py_split_not_Nil)

lemma py_split_no_sep: "p \<in> set (py_split c s) \<Longrightarrow> c \<notin> set p"
proof (induction s arbitrary: p)
  case (Cons x xs)
  obtain q qs where q: "py_split c xs = q # qs" using py_split_not_Nil by (metis neq_Nil_conv)
  with Cons show ?case by (auto split: if_splits)
qed simp

lemma py_join_split: "py_join [c] (py_split c s) = s"
proof (induction s)
  case (Cons x xs)
  obtain q qs where q: "py_split c xs = q # qs" using py_split_not_Nil by (metis neq_Nil_conv)
  show ?case
  proof (cases qs)
    case Nil
    with Cons q show ?thesis by auto
  next
    case (Cons a as)
    with q \<open>py_join [c] (py_split c xs) = xs\<close> show ?thesis by auto
  qed
qed simp

lemma py_split_plain: "c \<notin> set s \<Longrightarrow> py_split c s = [s]"
  by (induction s) auto

lemma py_split_append: "c \<notin> set p \<Longrightarrow> py_split c (p @ c # s) = p # py_split c s"
  by (induction p) auto

lemma py_split_join:
  "ps \<noteq> [] \<Longrightarrow> (\<And>p. p \<in> set ps \<Longrightarrow> c \<notin> set p) \<Longrightarrow> py_split c (py_join [c] ps) = ps"
  by (induction "[c]" ps rule: py_join.induct) (auto simp: py_split_plain py_split_append)

lemma py_split_inj: "py_split c s = py_split c t \<Longrightarrow> s = t"
  by (metis py_join_split)

text \<open>\<open>partition\<close> and \<open>rpartition\<close> at one character.\<close>

definition py_partition :: "nat \<Rightarrow> pystr \<Rightarrow> pystr \<times> bool \<times> pystr" where
  "py_partition c s =
     (if c \<in> set s then (takeWhile (\<lambda>x. x \<noteq> c) s, True, tl (dropWhile (\<lambda>x. x \<noteq> c) s))
      else (s, False, []))"

definition py_after_last :: "nat \<Rightarrow> pystr \<Rightarrow> pystr" where
  "py_after_last c s = last (py_split c s)"

lemma takeWhile_sep: "c \<in> set s \<Longrightarrow> takeWhile (\<lambda>x. x \<noteq> c) s @ c # tl (dropWhile (\<lambda>x. x \<noteq> c) s) = s"
  by (induction s) auto

lemma py_partition_join: "py_partition c s = (a, True, b) \<Longrightarrow> s = a @ c # b"
  by (auto simp: py_partition_def takeWhile_sep split: if_splits)

section \<open>Stripping and case\<close>

definition py_lstrip_of :: "nat set \<Rightarrow> pystr \<Rightarrow> pystr" where
  "py_lstrip_of cs s = dropWhile (\<lambda>c. c \<in> cs) s"

definition py_rstrip_of :: "nat set \<Rightarrow> pystr \<Rightarrow> pystr" where
  "py_rstrip_of cs s = rev (dropWhile (\<lambda>c. c \<in> cs) (rev s))"

definition py_rstrip :: "pystr \<Rightarrow> pystr" where
  "py_rstrip s = rev (dropWhile is_space (rev s))"

lemma rev_dropWhile_rev: "\<exists>t. s = rev (dropWhile P (rev s)) @ t \<and> (\<forall>c \<in> set t. P c)"
proof -
  have "s = rev (dropWhile P (rev s)) @ rev (takeWhile P (rev s))"
    by (metis rev_append rev_rev_ident takeWhile_dropWhile_id)
  moreover have "\<forall>c \<in> set (rev (takeWhile P (rev s))). P c" by (auto dest: set_takeWhileD)
  ultimately show ?thesis by blast
qed

lemma last_rev_dropWhile_rev: "rev (dropWhile P (rev s)) \<noteq> [] \<Longrightarrow> \<not> P (last (rev (dropWhile P (rev s))))"
  by (metis hd_dropWhile hd_rev last_rev rev_is_Nil_conv rev_rev_ident)

lemma py_strip_ends:
  assumes "py_strip s \<noteq> []"
  shows "\<not> is_space (hd (py_strip s))" "\<not> is_space (last (py_strip s))"
proof -
  obtain t where t: "dropWhile is_space s = py_strip s @ t"
    using rev_dropWhile_rev[of "dropWhile is_space s" is_space] by (auto simp: py_strip_def)
  have "hd (dropWhile is_space s) = hd (py_strip s)" using t assms by simp
  moreover have "dropWhile is_space s \<noteq> []" using t assms by auto
  ultimately show "\<not> is_space (hd (py_strip s))" using hd_dropWhile by metis
  show "\<not> is_space (last (py_strip s))"
    using last_rev_dropWhile_rev[of is_space "dropWhile is_space s"] assms by (simp add: py_strip_def)
qed

lemma set_py_strip: "set (py_strip s) \<subseteq> set s"
  by (auto simp: py_strip_def dest!: set_dropWhileD)

lemma py_strip_id: "s = [] \<or> \<not> is_space (hd s) \<and> \<not> is_space (last s) \<Longrightarrow> py_strip s = s"
proof -
  assume s: "s = [] \<or> \<not> is_space (hd s) \<and> \<not> is_space (last s)"
  show "py_strip s = s"
  proof (cases "s = []")
    case False
    then have "dropWhile is_space s = s" using s by (cases s) auto
    moreover have "dropWhile is_space (rev s) = rev s"
      using False s by (cases s rule: rev_cases) auto
    ultimately show ?thesis by (simp add: py_strip_def)
  qed (simp add: py_strip_def)
qed

lemma py_strip_idem [simp]: "py_strip (py_strip s) = py_strip s"
  using py_strip_id py_strip_ends by blast

definition is_ascii :: "pystr \<Rightarrow> bool" where
  "is_ascii s \<longleftrightarrow> list_all (\<lambda>c. c < 128) s"

definition lower_char :: "nat \<Rightarrow> nat" where
  "lower_char c = (if 65 \<le> c \<and> c \<le> 90 then c + 32 else c)"

definition py_lower :: "(pystr \<Rightarrow> pystr) \<Rightarrow> pystr \<Rightarrow> pystr" where
  "py_lower low s = (if is_ascii s then map lower_char s else low s)"

text \<open>The line boundaries of \<open>splitlines\<close>, with a carriage return before a newline taken
  together; a final boundary opens no further line.\<close>

definition is_line_break :: "nat \<Rightarrow> bool" where
  "is_line_break c \<longleftrightarrow> (10 \<le> c \<and> c \<le> 13) \<or> (28 \<le> c \<and> c \<le> 30) \<or> c = 133 \<or> c = 8232 \<or> c = 8233"

fun splitlines_from :: "pystr \<Rightarrow> pystr \<Rightarrow> pystr list" where
  "splitlines_from acc [] = (if acc = [] then [] else [rev acc])"
| "splitlines_from acc [c] = (if is_line_break c then [rev acc] else [rev (c # acc)])"
| "splitlines_from acc (c # d # cs) =
     (if c = 13 \<and> d = 10 then rev acc # splitlines_from [] cs
      else if is_line_break c then rev acc # splitlines_from [] (d # cs)
      else splitlines_from (c # acc) (d # cs))"

definition py_splitlines :: "pystr \<Rightarrow> pystr list" where
  "py_splitlines s = splitlines_from [] s"

section \<open>Keys beyond those allowed\<close>

text \<open>\<open>sorted(set(d) - allowed)\<close>: strings compare by code points.\<close>

definition extra_keys :: "pystr list \<Rightarrow> jobject \<Rightarrow> pystr list" where
  "extra_keys allowed d = sort (remdups (filter (\<lambda>k. k \<notin> set allowed) (map fst d)))"

lemma extra_keys_Nil: "extra_keys allowed d = [] \<longleftrightarrow> fst ` set d \<subseteq> set allowed"
proof -
  have "extra_keys allowed d = [] \<longleftrightarrow> set (extra_keys allowed d) = {}" by (simp only: set_empty)
  also have "set (extra_keys allowed d) = fst ` set d - set allowed" by (auto simp: extra_keys_def)
  finally show ?thesis by auto
qed

section \<open>UTF-8\<close>

definition utf8_char :: "nat \<Rightarrow> nat list option" where
  "utf8_char c =
     (if c < 128 then Some [c]
      else if c < 2048 then Some [192 + c div 64, 128 + c mod 64]
      else if 55296 \<le> c \<and> c \<le> 57343 then None
      else if c < 65536 then Some [224 + c div 4096, 128 + c div 64 mod 64, 128 + c mod 64]
      else Some [240 + c div 262144, 128 + c div 4096 mod 64, 128 + c div 64 mod 64, 128 + c mod 64])"

fun utf8 :: "pystr \<Rightarrow> nat list option" where
  "utf8 [] = Some []"
| "utf8 (c # cs) =
     (case utf8_char c of
        None \<Rightarrow> None
      | Some b \<Rightarrow> (case utf8 cs of None \<Rightarrow> None | Some bs \<Rightarrow> Some (b @ bs)))"

lemma utf8_append:
  "utf8 (s @ t) = (case utf8 s of None \<Rightarrow> None | Some a \<Rightarrow> (case utf8 t of None \<Rightarrow> None | Some b \<Rightarrow> Some (a @ b)))"
  by (induction s) (auto split: option.splits)

lemma utf8_ascii: "is_ascii s \<Longrightarrow> utf8 s = Some s"
  by (induction s) (auto simp: is_ascii_def utf8_char_def)

lemma utf8_char_not_Nil: "utf8_char c = Some b \<Longrightarrow> b \<noteq> []"
  by (auto simp: utf8_char_def split: if_splits)

text \<open>The bytes of a character: the first tells how many follow, and the order of two characters
  is the order of their bytes.\<close>

lemma div_eq_cases:
  assumes "(c::nat) < d"
  shows "c div k < d div k \<or> c div k = d div k \<and> c mod k < d mod k"
proof -
  have "c div k \<le> d div k" using assms by (simp add: div_le_mono)
  moreover have "c mod k < d mod k" if "c div k = d div k"
  proof -
    have "c = d div k * k + c mod k" "d = d div k * k + d mod k" using that by (metis div_mult_mod_eq)+
    then show ?thesis using assms by linarith
  qed
  ultimately show ?thesis by linarith
qed

lemma list_less_Cons: "(x # xs :: nat list) < y # ys \<longleftrightarrow> x < y \<or> x = y \<and> xs < ys"
  by (simp add: list_less_def lexord_cons_cons)

lemma utf8_char_less:
  assumes "utf8_char c = Some a" "utf8_char d = Some b" "c < d"
  shows "a @ x < b @ y"
proof -
  have 1: "c div 64 < d div 64 \<or> c div 64 = d div 64 \<and> c mod 64 < d mod 64"
    by (rule div_eq_cases[OF assms(3)])
  have 2: "c div 4096 < d div 4096 \<or> c div 4096 = d div 4096 \<and>
      (c div 64 mod 64 < d div 64 mod 64 \<or> c div 64 mod 64 = d div 64 mod 64 \<and> c div 64 = d div 64)"
  proof -
    have "c div 64 \<le> d div 64" using assms(3) by (simp add: div_le_mono)
    then have "c div 64 = d div 64 \<or> c div 64 div 64 < d div 64 div 64 \<or>
        c div 64 div 64 = d div 64 div 64 \<and> c div 64 mod 64 < d div 64 mod 64"
      using div_eq_cases[of "c div 64" "d div 64" 64] by (meson le_neq_implies_less)
    moreover have "n div 64 div 64 = n div 4096" for n :: nat by (simp add: div_mult2_eq[symmetric])
    ultimately show ?thesis by metis
  qed
  have 3: "c div 262144 < d div 262144 \<or> c div 262144 = d div 262144 \<and>
      (c div 4096 mod 64 < d div 4096 mod 64 \<or> c div 4096 mod 64 = d div 4096 mod 64 \<and> c div 4096 = d div 4096)"
  proof -
    have "c div 4096 \<le> d div 4096" using assms(3) by (simp add: div_le_mono)
    then have "c div 4096 = d div 4096 \<or> c div 4096 div 64 < d div 4096 div 64 \<or>
        c div 4096 div 64 = d div 4096 div 64 \<and> c div 4096 mod 64 < d div 4096 mod 64"
      using div_eq_cases[of "c div 4096" "d div 4096" 64] by (meson le_neq_implies_less)
    moreover have "n div 4096 div 64 = n div 262144" for n :: nat by (simp add: div_mult2_eq[symmetric])
    ultimately show ?thesis by metis
  qed
  have small: "c < 2048 \<Longrightarrow> c div 64 < 32" "c < 65536 \<Longrightarrow> c div 4096 < 16" by simp_all
  consider "d < 128" | "c < 128" "128 \<le> d" | "128 \<le> c" "d < 2048" | "128 \<le> c" "c < 2048" "2048 \<le> d"
    | "2048 \<le> c" "d < 65536" | "2048 \<le> c" "c < 65536" "65536 \<le> d" | "65536 \<le> c"
    by linarith
  then show ?thesis
  proof cases
    case 1
    then have "a = [c]" "b = [d]" using assms by (simp_all add: utf8_char_def)
    then show ?thesis using assms(3) by (simp add: list_less_Cons)
  next
    case 2
    then have "a = [c]" "hd b \<ge> 192" "b \<noteq> []" using assms by (auto simp: utf8_char_def split: if_splits)
    then show ?thesis using 2 by (cases b) (simp_all add: list_less_Cons)
  next
    case 3
    then have "a = [192 + c div 64, 128 + c mod 64]" "b = [192 + d div 64, 128 + d mod 64]"
      using assms by (simp_all add: utf8_char_def)
    then show ?thesis using 1 by (auto simp: list_less_Cons)
  next
    case 4
    then have "a = [192 + c div 64, 128 + c mod 64]" "hd b \<ge> 224" "b \<noteq> []"
      using assms by (auto simp: utf8_char_def split: if_splits)
    then show ?thesis using small(1) 4 by (cases b) (simp_all add: list_less_Cons)
  next
    case 5
    then have "a = [224 + c div 4096, 128 + c div 64 mod 64, 128 + c mod 64]"
        "b = [224 + d div 4096, 128 + d div 64 mod 64, 128 + d mod 64]"
      using assms by (simp_all add: utf8_char_def split: if_splits)
    then show ?thesis using 1 2 by (simp only: list_less_Cons append_Cons add_less_cancel_left add_left_cancel) (metis less_irrefl)
  next
    case 6
    then have "a = [224 + c div 4096, 128 + c div 64 mod 64, 128 + c mod 64]" "hd b \<ge> 240" "b \<noteq> []"
      using assms by (auto simp: utf8_char_def split: if_splits)
    then show ?thesis using small(2) 6 by (cases b) (simp_all add: list_less_Cons)
  next
    case 7
    then have "a = [240 + c div 262144, 128 + c div 4096 mod 64, 128 + c div 64 mod 64, 128 + c mod 64]"
        "b = [240 + d div 262144, 128 + d div 4096 mod 64, 128 + d div 64 mod 64, 128 + d mod 64]"
      using assms by (simp_all add: utf8_char_def)
    then show ?thesis using 1 2 3
      by (simp only: list_less_Cons append_Cons add_less_cancel_left add_left_cancel) (metis less_irrefl)
  qed
qed

text \<open>The order of two strings by their bytes is their order by code points, and no two strings
  have the same bytes.\<close>

lemma utf8_less:
  assumes "utf8 s = Some a" "utf8 t = Some b" "s < t"
  shows "a < b"
  using assms
proof (induction s arbitrary: t a b)
  case Nil
  then obtain d ds where t: "t = d # ds" by (cases t) auto
  then obtain x xs where "utf8_char d = Some x" "b = x @ xs" using Nil.prems by (auto split: option.splits)
  then show ?case using Nil.prems utf8_char_not_Nil by (cases x) auto
next
  case (Cons c cs)
  then obtain d ds where t: "t = d # ds" by (cases t) auto
  obtain x xs where x: "utf8_char c = Some x" "utf8 cs = Some xs" "a = x @ xs"
    using Cons.prems(1) by (auto split: option.splits)
  obtain y ys where y: "utf8_char d = Some y" "utf8 ds = Some ys" "b = y @ ys"
    using Cons.prems(2) t by (auto split: option.splits)
  from Cons.prems(3) t consider "c < d" | "c = d" "cs < ds" by (auto simp: list_less_Cons)
  then show ?case
  proof cases
    case 1
    then show ?thesis using utf8_char_less x y by simp
  next
    case 2
    then show ?thesis using Cons.IH[OF x(2) y(2)] x y by (simp add: list_less_def lexord_append_leftI)
  qed
qed

lemma utf8_mono: "utf8 s = Some a \<Longrightarrow> utf8 t = Some b \<Longrightarrow> a \<le> b \<longleftrightarrow> s \<le> t"
  by (metis linorder_not_less order_le_less utf8_less option.inject)

lemma utf8_inj: "utf8 s = Some a \<Longrightarrow> utf8 t = Some a \<Longrightarrow> s = t"
  by (metis linorder_neqE order_less_irrefl utf8_less)

text \<open>\<open>decode\<close>: overlong forms, surrogates (unless they are let through) and
  anything beyond the last code point raise \<open>UnicodeDecodeError\<close>.\<close>

definition continuation :: "nat \<Rightarrow> bool" where
  "continuation b \<longleftrightarrow> 128 \<le> b \<and> b < 192"

fun utf8_decode :: "bool \<Rightarrow> nat list \<Rightarrow> pystr option" where
  "utf8_decode pass [] = Some []"
| "utf8_decode pass (a # r) =
     (if a < 128 then map_option ((#) a) (utf8_decode pass r)
      else if 194 \<le> a \<and> a < 224 then
        (case r of
           b # r' \<Rightarrow>
             (if continuation b then map_option ((#) ((a - 192) * 64 + (b - 128))) (utf8_decode pass r')
              else None)
         | _ \<Rightarrow> None)
      else if 224 \<le> a \<and> a < 240 then
        (case r of
           b # c # r' \<Rightarrow>
             (let u = (a - 224) * 4096 + (b - 128) * 64 + (c - 128)
              in if continuation b \<and> continuation c \<and> 2048 \<le> u \<and> (pass \<or> \<not> (55296 \<le> u \<and> u \<le> 57343))
                 then map_option ((#) u) (utf8_decode pass r') else None)
         | _ \<Rightarrow> None)
      else if 240 \<le> a \<and> a < 245 then
        (case r of
           b # c # d # r' \<Rightarrow>
             (let u = (a - 240) * 262144 + (b - 128) * 4096 + (c - 128) * 64 + (d - 128)
              in if continuation b \<and> continuation c \<and> continuation d \<and> 65536 \<le> u \<and> u \<le> 1114111
                 then map_option ((#) u) (utf8_decode pass r') else None)
         | _ \<Rightarrow> None)
      else None)"

lemma div_mod_sums:
  "(c::nat) div 64 * 64 + c mod 64 = c"
  "c div 4096 * 4096 + c div 64 mod 64 * 64 + c mod 64 = c"
  "c div 262144 * 262144 + c div 4096 mod 64 * 4096 + c div 64 mod 64 * 64 + c mod 64 = c"
proof -
  have 1: "(n::nat) div 64 * 64 + n mod 64 = n" for n by (rule div_mult_mod_eq)
  have 2: "n div 64 div 64 = n div 4096" "n div 4096 div 64 = n div 262144" for n :: nat
    by (simp_all add: div_mult2_eq[symmetric])
  have three: "n div 4096 * 4096 + n div 64 mod 64 * 64 + n mod 64 = n" for n :: nat
    using 1[of n] 1[of "n div 64"] unfolding 2 by linarith
  show "c div 64 * 64 + c mod 64 = c" by (rule 1)
  show "c div 4096 * 4096 + c div 64 mod 64 * 64 + c mod 64 = c" by (rule three)
  show "c div 262144 * 262144 + c div 4096 mod 64 * 4096 + c div 64 mod 64 * 64 + c mod 64 = c"
    using three[of c] 1[of "c div 4096"] unfolding 2 by linarith
qed

lemma continuation_mod: "continuation (128 + n mod 64)"
  by (simp add: continuation_def)

lemma utf8_decode_char:
  assumes "utf8_char c = Some x" "c \<le> 1114111"
  shows "utf8_decode pass (x @ r) = map_option ((#) c) (utf8_decode pass r)"
proof -
  consider "c < 128" | "128 \<le> c" "c < 2048" | "2048 \<le> c" "c < 65536" | "65536 \<le> c" by linarith
  then show ?thesis
  proof cases
    case 1
    then show ?thesis using assms(1) by (auto simp: utf8_char_def)
  next
    case 2
    then have x: "x = [192 + c div 64, 128 + c mod 64]" using assms(1) by (simp add: utf8_char_def)
    have "2 \<le> c div 64" "c div 64 < 32" using 2 by simp_all
    then show ?thesis using continuation_mod[of c] div_mod_sums(1)[of c] unfolding x by simp
  next
    case 3
    then have x: "x = [224 + c div 4096, 128 + c div 64 mod 64, 128 + c mod 64]"
      and u: "\<not> (55296 \<le> c \<and> c \<le> 57343)"
      using assms(1) by (simp_all add: utf8_char_def split: if_splits)
    have "c div 4096 < 16" using 3 by simp
    then show ?thesis
      using continuation_mod[of c] continuation_mod[of "c div 64"] div_mod_sums(2)[of c] 3 u
      unfolding x by (simp add: Let_def)
  next
    case 4
    then have x: "x = [240 + c div 262144, 128 + c div 4096 mod 64, 128 + c div 64 mod 64, 128 + c mod 64]"
      using assms(1) by (simp add: utf8_char_def)
    have "c div 262144 < 5" using assms(2) by simp
    then show ?thesis
      using continuation_mod[of c] continuation_mod[of "c div 64"] continuation_mod[of "c div 4096"]
        div_mod_sums(3)[of c] 4 assms(2)
      unfolding x by (simp add: Let_def)
  qed
qed

lemma utf8_roundtrip:
  "utf8 s = Some b \<Longrightarrow> \<forall>c \<in> set s. c \<le> 1114111 \<Longrightarrow> utf8_decode pass b = Some s"
proof (induction s arbitrary: b)
  case (Cons c cs)
  then obtain x y where "utf8_char c = Some x" "utf8 cs = Some y" "b = x @ y" by (auto split: option.splits)
  then show ?case using Cons utf8_decode_char by simp
qed simp

end
