(* ===== verification/Py_Net.thy ===== *)
theory Py_Net
  imports Py_Text "HOL-Library.Word"
begin

text \<open>
  The parts of Python's \<open>ipaddress\<close> and \<open>urllib.parse\<close> the outbound boundary uses:
  addresses as 32-bit and 128-bit words, networks with their masks, the reading and the printing of
  both, membership and containment, and \<open>urlsplit\<close> of an absolute URL. Exceptions of the
  library are \<open>None\<close>. Unicode normalization of a host outside ASCII is the argument
  \<open>nfkc\<close>.
\<close>

unbundle bit_operations_syntax

section \<open>Addresses and networks\<close>

datatype Address = IPv4 "32 word" | IPv6 "128 word" "pystr option"

text \<open>The address with its host bits cleared, and the prefix length.\<close>

datatype Network = Net4 "32 word" nat | Net6 "128 word" nat

definition netmask :: "nat \<Rightarrow> 'a::len word" where
  "netmask p = NOT (mask (LENGTH('a) - p))"

definition in_block :: "'a::len word \<Rightarrow> nat \<Rightarrow> 'a word \<Rightarrow> bool" where
  "in_block base p a \<longleftrightarrow> a AND netmask p = base"

definition broadcast :: "'a::len word \<Rightarrow> nat \<Rightarrow> 'a word" where
  "broadcast base p = base OR NOT (netmask p)"

definition block_within :: "'a::len word \<Rightarrow> nat \<Rightarrow> 'a word \<Rightarrow> nat \<Rightarrow> bool" where
  "block_within base p base' p' \<longleftrightarrow> base' \<le> base \<and> broadcast base p \<le> broadcast base' p'"

text \<open>\<open>address.version == network.version and address in network\<close>, and the same for
  \<open>subnet_of\<close>.\<close>

fun in_network :: "Address \<Rightarrow> Network \<Rightarrow> bool" where
  "in_network (IPv4 a) (Net4 base p) = in_block base p a"
| "in_network (IPv6 a _) (Net6 base p) = in_block base p a"
| "in_network _ _ = False"

fun subnet_of :: "Network \<Rightarrow> Network \<Rightarrow> bool" where
  "subnet_of (Net4 base p) (Net4 base' p') = block_within base p base' p'"
| "subnet_of (Net6 base p) (Net6 base' p') = block_within base p base' p'"
| "subnet_of _ _ = False"

fun wf_network :: "Network \<Rightarrow> bool" where
  "wf_network (Net4 base p) \<longleftrightarrow> p \<le> 32 \<and> base AND netmask p = base"
| "wf_network (Net6 base p) \<longleftrightarrow> p \<le> 128 \<and> base AND netmask p = base"

subsection \<open>Reading\<close>

definition ascii_digits :: "pystr \<Rightarrow> bool" where
  "ascii_digits s \<longleftrightarrow> s \<noteq> [] \<and> list_all (\<lambda>c. 48 \<le> c \<and> c \<le> 57) s"

definition digits_number :: "pystr \<Rightarrow> nat" where
  "digits_number s = foldl (\<lambda>n c. 10 * n + (c - 48)) 0 s"

definition parse_octet :: "pystr \<Rightarrow> nat option" where
  "parse_octet s =
     (if \<not> ascii_digits s \<or> length s > 3 \<or> (s \<noteq> [48] \<and> hd s = 48) \<or> digits_number s > 255 then None
      else Some (digits_number s))"

definition v4_of_string :: "pystr \<Rightarrow> 32 word option" where
  "v4_of_string s =
     (case map parse_octet (py_split 46 s) of
        [Some a, Some b, Some c, Some d] \<Rightarrow> Some (word_of_nat (16777216 * a + 65536 * b + 256 * c + d))
      | _ \<Rightarrow> None)"

definition parse_hextet :: "pystr \<Rightarrow> nat option" where
  "parse_hextet s =
     (if s = [] \<or> length s > 4 \<or> list_ex (\<lambda>c. hex_value c = None) s then None
      else Some (foldl (\<lambda>n c. 16 * n + the (hex_value c)) 0 s))"

fun all_some :: "'a option list \<Rightarrow> 'a list option" where
  "all_some [] = Some []"
| "all_some (None # xs) = None"
| "all_some (Some x # xs) = map_option ((#) x) (all_some xs)"

definition hextets_word :: "nat list \<Rightarrow> 128 word" where
  "hextets_word hs = word_of_int (foldl (\<lambda>n h. 65536 * n + int h) 0 hs)"

definition v4_suffix :: "pystr list \<Rightarrow> pystr list option" where
  "v4_suffix parts =
     (if 46 \<in> set (last parts)
      then map_option (\<lambda>w. butlast parts @ [hex_pad 4 (unat w div 65536), hex_pad 4 (unat w mod 65536)])
             (v4_of_string (last parts))
      else Some parts)"

text \<open>The pieces around a \<open>::\<close>, with the count of those it stands for.\<close>

definition hextet_parts :: "pystr list \<Rightarrow> (pystr list \<times> nat \<times> pystr list) option" where
  "hextet_parts parts =
     (let n = length parts; skips = filter (\<lambda>i. parts ! i = []) [1..<n - 1]
      in if n > 9 then None
         else
           (case skips of
              [] \<Rightarrow> (if n \<noteq> 8 \<or> hd parts = [] \<or> last parts = [] then None else Some (parts, 0, []))
            | [i] \<Rightarrow>
                (let hi = (if hd parts = [] then i - 1 else i); lo = (if last parts = [] then n - i - 2 else n - i - 1)
                 in if (hd parts = [] \<and> hi \<noteq> 0) \<or> (last parts = [] \<and> lo \<noteq> 0) \<or> hi + lo > 7 then None
                    else Some (take hi parts, 8 - (hi + lo), drop (n - lo) parts))
            | _ \<Rightarrow> None))"

definition v6_of_string :: "pystr \<Rightarrow> 128 word option" where
  "v6_of_string s =
     (let parts = py_split 58 s
      in if length parts < 3 then None
         else
           Option.bind (v4_suffix parts)
             (\<lambda>ps. Option.bind (hextet_parts ps)
                (\<lambda>(hi, skipped, lo).
                   Option.bind (all_some (map parse_hextet hi))
                     (\<lambda>h. map_option (\<lambda>l. hextets_word (h @ replicate skipped 0 @ l))
                            (all_some (map parse_hextet lo))))))"

definition split_scope_id :: "pystr \<Rightarrow> (pystr \<times> pystr option) option" where
  "split_scope_id s =
     (case py_partition 37 s of
        (addr, sep, scope) \<Rightarrow>
          (if \<not> sep then Some (addr, None)
           else if scope = [] \<or> 37 \<in> set scope then None
           else Some (addr, Some scope)))"

definition ip_address :: "pystr \<Rightarrow> Address option" where
  "ip_address s =
     (if 47 \<in> set s then None
      else
        (case v4_of_string s of
           Some w \<Rightarrow> Some (IPv4 w)
         | None \<Rightarrow>
             Option.bind (split_scope_id s)
               (\<lambda>(addr, scope). map_option (\<lambda>w. IPv6 w scope) (v6_of_string addr))))"

definition prefix_string :: "nat \<Rightarrow> pystr \<Rightarrow> nat option" where
  "prefix_string limit s =
     (if \<not> ascii_digits s \<or> digits_number s > limit then None else Some (digits_number s))"

text \<open>A mask written as an address: a netmask, or else a hostmask.\<close>

definition mask_string :: "pystr \<Rightarrow> nat option" where
  "mask_string s =
     Option.bind (v4_of_string s)
       (\<lambda>w. case find (\<lambda>p. netmask p = w) [0..<33] of
          Some p \<Rightarrow> Some p
        | None \<Rightarrow> find (\<lambda>p. netmask p = NOT w) [0..<33])"

definition v4_network :: "pystr \<Rightarrow> pystr option \<Rightarrow> Network option" where
  "v4_network addr given =
     Option.bind (v4_of_string addr)
       (\<lambda>w. map_option (\<lambda>p. Net4 (w AND netmask p) p)
          (case given of
             None \<Rightarrow> Some 32
           | Some m \<Rightarrow> (case prefix_string 32 m of Some p \<Rightarrow> Some p | None \<Rightarrow> mask_string m)))"

definition v6_network :: "pystr \<Rightarrow> pystr option \<Rightarrow> Network option" where
  "v6_network addr given =
     Option.bind (split_scope_id addr)
       (\<lambda>(a, _). Option.bind (v6_of_string a)
          (\<lambda>w. map_option (\<lambda>p. Net6 (w AND netmask p) p)
             (case given of None \<Rightarrow> Some 128 | Some m \<Rightarrow> prefix_string 128 m)))"

text \<open>\<open>ip_network(s, strict=False)\<close>.\<close>

definition ip_network :: "pystr \<Rightarrow> Network option" where
  "ip_network s =
     (case py_split 47 s of
        [addr] \<Rightarrow> (case v4_network addr None of Some n \<Rightarrow> Some n | None \<Rightarrow> v6_network addr None)
      | [addr, m] \<Rightarrow> (case v4_network addr (Some m) of Some n \<Rightarrow> Some n | None \<Rightarrow> v6_network addr (Some m))
      | _ \<Rightarrow> None)"

subsection \<open>Printing\<close>

definition v4_string :: "32 word \<Rightarrow> pystr" where
  "v4_string w =
     (let n = unat w
      in py_join [46] (map py_digits [n div 16777216, n div 65536 mod 256, n div 256 mod 256, n mod 256]))"

definition hex_short :: "nat \<Rightarrow> pystr" where
  "hex_short n = (let s = dropWhile (\<lambda>c. c = 48) (hex_pad 4 n) in if s = [] then [48] else s)"

text \<open>The first longest run of zero hextets: its start and its length.\<close>

fun zero_runs :: "nat \<Rightarrow> nat \<times> nat \<Rightarrow> nat \<times> nat \<Rightarrow> nat list \<Rightarrow> nat \<times> nat" where
  "zero_runs i best current [] = best"
| "zero_runs i best current (h # hs) =
     (if h = 0 then
        (let run = (if snd current = 0 then (i, 1) else (fst current, snd current + 1))
         in zero_runs (i + 1) (if snd run > snd best then run else best) run hs)
      else zero_runs (i + 1) best (0, 0) hs)"

definition compressed :: "nat list \<Rightarrow> pystr list" where
  "compressed hs =
     (let (start, len) = zero_runs 0 (0, 0) (0, 0) hs; texts = map hex_short hs
      in if len > 1
         then (if start = 0 then [[]] else []) @ take start texts @ [[]] @ drop (start + len) texts @
              (if start + len = length hs then [[]] else [])
         else texts)"

definition word_hextets :: "128 word \<Rightarrow> nat list" where
  "word_hextets w = map (\<lambda>i. nat (uint w div 65536 ^ (7 - i) mod 65536)) [0..<8]"

definition v6_string :: "128 word \<Rightarrow> pystr" where
  "v6_string w = py_join [58] (compressed (word_hextets w))"

fun network_str :: "Network \<Rightarrow> pystr" where
  "network_str (Net4 base p) = v4_string base @ [47] @ py_digits p"
| "network_str (Net6 base p) = v6_string base @ [47] @ py_digits p"

section \<open>URLs\<close>

record SplitResult =
  url_scheme :: pystr
  url_netloc :: pystr
  url_path :: pystr
  url_query :: pystr

definition ascii_alpha :: "nat \<Rightarrow> bool" where
  "ascii_alpha c \<longleftrightarrow> (97 \<le> c \<and> c \<le> 122) \<or> (65 \<le> c \<and> c \<le> 90)"

definition scheme_char :: "nat \<Rightarrow> bool" where
  "scheme_char c \<longleftrightarrow> ascii_alpha c \<or> (48 \<le> c \<and> c \<le> 57) \<or> c = 43 \<or> c = 45 \<or> c = 46"

definition split_scheme :: "pystr \<Rightarrow> pystr \<times> pystr" where
  "split_scheme url =
     (case py_partition 58 url of
        (pre, found, rest) \<Rightarrow>
          (if found \<and> pre \<noteq> [] \<and> ascii_alpha (hd pre) \<and> list_all scheme_char pre
           then (map lower_char pre, rest) else ([], url)))"

definition split_netloc :: "pystr \<Rightarrow> pystr \<times> pystr" where
  "split_netloc url =
     (if py_startswith url (py ''//'')
      then (takeWhile (\<lambda>c. c \<noteq> 47 \<and> c \<noteq> 63 \<and> c \<noteq> 35) (drop 2 url),
            dropWhile (\<lambda>c. c \<noteq> 47 \<and> c \<noteq> 63 \<and> c \<noteq> 35) (drop 2 url))
      else ([], url))"

definition bracketed_host_ok :: "pystr \<Rightarrow> bool" where
  "bracketed_host_ok host =
     (if py_startswith host (py ''v'')
      then (let hexes = takeWhile (\<lambda>c. hex_value c \<noteq> None) (tl host);
                rest = dropWhile (\<lambda>c. hex_value c \<noteq> None) (tl host)
            in hexes \<noteq> [] \<and> length rest > 1 \<and> hd rest = 46)
      else (case ip_address host of Some (IPv6 _ _) \<Rightarrow> True | _ \<Rightarrow> False))"

definition bracketed_netloc_ok :: "pystr \<Rightarrow> bool" where
  "bracketed_netloc_ok netloc =
     (case py_partition 91 (py_after_last 64 netloc) of
        (before, have_open, bracketed) \<Rightarrow>
          (if have_open
           then (case py_partition 93 bracketed of
                   (host, _, port) \<Rightarrow>
                     before = [] \<and> (port = [] \<or> py_startswith port (py '':'')) \<and> bracketed_host_ok host)
           else bracketed_host_ok (fst (py_partition 58 (py_after_last 64 netloc)))))"

definition netloc_ok :: "(pystr \<Rightarrow> pystr) \<Rightarrow> pystr \<Rightarrow> bool" where
  "netloc_ok nfkc netloc =
     (is_ascii netloc \<or>
      (let n = filter (\<lambda>c. c \<notin> {64, 58, 35, 63}) netloc
       in nfkc n = n \<or> set (nfkc n) \<inter> {47, 63, 35, 64, 58} = {}))"

definition urlsplit :: "(pystr \<Rightarrow> pystr) \<Rightarrow> pystr \<Rightarrow> SplitResult option" where
  "urlsplit nfkc url =
     (let cleaned = filter (\<lambda>c. c \<notin> {9, 10, 13}) (dropWhile (\<lambda>c. c \<le> 32) url);
          (scheme, after_scheme) = split_scheme cleaned;
          (netloc, rest) = split_netloc after_scheme;
          (path, _, query) = py_partition 63 (takeWhile (\<lambda>c. c \<noteq> 35) rest)
      in if (91 \<in> set netloc) \<noteq> (93 \<in> set netloc) then None
         else if 91 \<in> set netloc \<and> \<not> bracketed_netloc_ok netloc then None
         else if \<not> netloc_ok nfkc netloc then None
         else Some \<lparr>url_scheme = scheme, url_netloc = netloc, url_path = path, url_query = query\<rparr>)"

section \<open>Blocks of addresses\<close>

lemma and_netmask: "(a :: 'a::len word) AND netmask p = push_bit (LENGTH('a) - p) (drop_bit (LENGTH('a) - p) a)"
  by (rule bit_word_eqI) (auto simp: netmask_def bit_simps)

lemma netmask_idem [simp]: "a AND netmask p AND netmask p = (a AND netmask p :: 'a::len word)"
  by (simp add: and.assoc)

lemma drop_bit_netmask: "drop_bit (LENGTH('a) - p) ((a :: 'a::len word) AND netmask p) = drop_bit (LENGTH('a) - p) a"
  by (rule bit_word_eqI) (auto simp: netmask_def bit_simps dest: bit_imp_le_length)

lemma drop_bit_broadcast: "drop_bit (LENGTH('a) - p) (broadcast (b :: 'a::len word) p) = drop_bit (LENGTH('a) - p) b"
  by (rule bit_word_eqI) (auto simp: netmask_def broadcast_def bit_simps)

lemma uint_drop_bit: "uint (drop_bit k (a :: 'a::len word)) = uint a div 2 ^ k"
  unfolding unsigned_drop_bit_eq by (simp add: drop_bit_eq_div take_bit_int_eq_self)

lemma drop_bit_mono: "(a :: 'a::len word) \<le> b \<Longrightarrow> drop_bit k a \<le> drop_bit k b"
  by (simp only: word_le_def uint_drop_bit) (simp add: zdiv_mono1)

lemma le_by_parts:
  assumes "drop_bit k (a :: 'a::len word) = drop_bit k b" "take_bit k (uint a) \<le> take_bit k (uint b)"
  shows "a \<le> b"
proof -
  have "uint a div 2 ^ k = uint b div 2 ^ k"
    using arg_cong[OF assms(1), of uint] by (simp only: uint_drop_bit)
  then have "uint a \<le> uint b"
    using assms(2) by (metis add_left_mono mult_div_mod_eq take_bit_eq_mod)
  then show ?thesis by (simp add: word_le_def)
qed

lemma in_block_iff:
  assumes "base AND netmask p = (base :: 'a::len word)"
  shows "in_block base p a \<longleftrightarrow> base \<le> a \<and> a \<le> broadcast base p"
proof
  let ?k = "LENGTH('a) - p"
  assume "in_block base p a"
  then have base: "a AND netmask p = base" by (simp add: in_block_def)
  have d: "drop_bit ?k a = drop_bit ?k base" using drop_bit_netmask[of p a] base by simp
  have low: "take_bit ?k (uint base) = 0"
    unfolding base[symmetric] by (rule bit_eqI) (auto simp: netmask_def bit_simps unsigned_and_eq)
  have high: "take_bit ?k (uint (broadcast base p)) = mask ?k"
    by (rule bit_eqI) (auto simp: broadcast_def netmask_def bit_simps)
  have "base \<le> a" by (rule le_by_parts[of ?k]) (simp_all add: d low)
  moreover have "a \<le> broadcast base p"
    by (rule le_by_parts[of ?k]) (simp_all add: d drop_bit_broadcast high take_bit_int_less_eq_mask)
  ultimately show "base \<le> a \<and> a \<le> broadcast base p" by simp
next
  let ?k = "LENGTH('a) - p"
  assume "base \<le> a \<and> a \<le> broadcast base p"
  then have "drop_bit ?k base \<le> drop_bit ?k a" "drop_bit ?k a \<le> drop_bit ?k base"
    using drop_bit_mono[of base a ?k] drop_bit_mono[of a "broadcast base p" ?k] by (simp_all add: drop_bit_broadcast)
  then have "drop_bit ?k a = drop_bit ?k base" by simp
  then show "in_block base p a" using assms by (simp add: in_block_def and_netmask)
qed

lemma block_within_in:
  "base AND netmask p = (base :: 'a::len word) \<Longrightarrow> base' AND netmask p' = base' \<Longrightarrow>
   block_within base p base' p' \<Longrightarrow> in_block base p a \<Longrightarrow> in_block base' p' a"
  by (auto simp: in_block_iff block_within_def)

lemma subnet_of_in:
  "wf_network n \<Longrightarrow> wf_network n' \<Longrightarrow> subnet_of n n' \<Longrightarrow> in_network a n \<Longrightarrow> in_network a n'"
  by (cases n; cases n'; cases a) (auto intro: block_within_in)

lemma find_netmask: "find P [0..<33] = Some p \<Longrightarrow> p \<le> 32"
  by (auto simp: find_Some_iff)

lemma mask_string_le: "mask_string s = Some p \<Longrightarrow> p \<le> 32"
  by (auto simp: mask_string_def bind_eq_Some_conv split: option.splits dest: find_netmask)

lemma prefix_string_le: "prefix_string n s = Some p \<Longrightarrow> p \<le> n"
  by (auto simp: prefix_string_def split: if_splits)

lemma ip_network_wf: "ip_network s = Some n \<Longrightarrow> wf_network n"
  by (auto simp: ip_network_def v4_network_def v6_network_def bind_eq_Some_conv
      split: list.splits option.splits dest: mask_string_le prefix_string_le)

end
