(* ===== verification/Py_Json.thy ===== *)
theory Py_Json
  imports Py_Text
begin

text \<open>
  \<open>json.dumps\<close> as the program calls it, with \<open>ensure_ascii=False\<close>, sorted keys
  and no white space, and \<open>json.loads\<close>, which reads any JSON text: white space, numbers,
  the escapes of strings with surrogate pairs joined, the three constants Python adds, and the
  last of several values for one key. What a lexeme with a fraction or an exponent is as a
  \<open>float\<close> is the argument \<open>fl\<close>. The recursion of the reader is bounded by the
  length of the text, which is enough since every level of nesting reads a character. The limit
  Python puts on the number of digits of an integer is not modelled.
  The main fact is that what was written reads back.
\<close>

section \<open>Writing\<close>

text \<open>\<open>json.dumps(document, ensure_ascii=False, sort_keys=True, separators=(",", ":"))\<close>.\<close>

definition json_char :: "nat \<Rightarrow> pystr" where
  "json_char c =
     (if c = 34 \<or> c = 92 then [92, c]
      else if c = 8 then 92 # py ''b''
      else if c = 9 then 92 # py ''t''
      else if c = 10 then 92 # py ''n''
      else if c = 12 then 92 # py ''f''
      else if c = 13 then 92 # py ''r''
      else if c < 32 then 92 # py ''u'' @ hex_pad 4 c
      else [c])"

definition json_string :: "pystr \<Rightarrow> pystr" where
  "json_string s = 34 # concat (map json_char s) @ [34]"

fun sort_json :: "json \<Rightarrow> json" where
  "sort_json (JList xs) = JList (map sort_json xs)"
| "sort_json (JDict d) = JDict (sort_key fst (map (\<lambda>(k, v). (k, sort_json v)) d))"
| "sort_json v = v"

fun json_text :: "json \<Rightarrow> pystr" where
  "json_text JNull = py ''null''"
| "json_text (JBool b) = (if b then py ''true'' else py ''false'')"
| "json_text (JInt i) = py_int i"
| "json_text (JFloat f) = fl_repr f"
| "json_text (JStr s) = json_string s"
| "json_text (JList xs) = py ''['' @ py_join (py '','') (map json_text xs) @ py '']''"
| "json_text (JDict d) =
     py ''{'' @ py_join (py '','') (map (\<lambda>(k, v). json_string k @ py '':'' @ json_text v) d) @ py ''}''"

definition json_dumps :: "json \<Rightarrow> pystr" where
  "json_dumps v = json_text (sort_json v)"

section \<open>Reading\<close>

definition is_digit :: "nat \<Rightarrow> bool" where
  "is_digit c \<longleftrightarrow> 48 \<le> c \<and> c \<le> 57"

definition skip_ws :: "pystr \<Rightarrow> pystr" where
  "skip_ws s = dropWhile (\<lambda>c. c = 32 \<or> c = 9 \<or> c = 10 \<or> c = 13) s"

definition hex4 :: "nat \<Rightarrow> nat \<Rightarrow> nat \<Rightarrow> nat \<Rightarrow> nat option" where
  "hex4 a b c d =
     (case (hex_value a, hex_value b, hex_value c, hex_value d) of
        (Some w, Some x, Some y, Some z) \<Rightarrow> Some (4096 * w + 256 * x + 16 * y + z)
      | _ \<Rightarrow> None)"

definition simple_escape :: "nat \<Rightarrow> nat option" where
  "simple_escape c =
     (if c = 34 \<or> c = 92 \<or> c = 47 then Some c
      else if c = 98 then Some 8
      else if c = 102 then Some 12
      else if c = 110 then Some 10
      else if c = 114 then Some 13
      else if c = 116 then Some 9
      else None)"

text \<open>The value of the four digits after \<open>\u\<close> joined with a low surrogate that follows
  a high one.\<close>

definition low_half :: "pystr \<Rightarrow> (nat \<times> pystr) option" where
  "low_half s =
     (case s of
        x # y # a # b # c # d # rest \<Rightarrow>
          (if x = 92 \<and> y = 117 then
             (case hex4 a b c d of
                Some u \<Rightarrow> if 56320 \<le> u \<and> u \<le> 57343 then Some (u, rest) else None
              | None \<Rightarrow> None)
           else None)
      | _ \<Rightarrow> None)"

lemma low_half_shorter: "low_half s = Some (u, rest) \<Longrightarrow> length rest < length s"
  by (auto simp: low_half_def split: list.splits option.splits if_splits)

text \<open>The characters of a string up to its closing quotation mark, and what follows it.\<close>

function scan_string :: "pystr \<Rightarrow> (pystr \<times> pystr) option" where
  "scan_string [] = None"
| "scan_string (c # cs) =
     (if c = 34 then Some ([], cs)
      else if c = 92 then
        (case cs of
           [] \<Rightarrow> None
         | e # es \<Rightarrow>
             (if e = 117 then
                (case es of
                   x # y # z # w # rest \<Rightarrow>
                     (case hex4 x y z w of
                        None \<Rightarrow> None
                      | Some u \<Rightarrow>
                          (case (if 55296 \<le> u \<and> u \<le> 56319 then low_half rest else None) of
                             Some (v, rest') \<Rightarrow>
                               map_option (\<lambda>(t, r). ((65536 + (u - 55296) * 1024 + (v - 56320)) # t, r))
                                 (scan_string rest')
                           | None \<Rightarrow> map_option (\<lambda>(t, r). (u # t, r)) (scan_string rest)))
                 | _ \<Rightarrow> None)
              else
                (case simple_escape e of
                   None \<Rightarrow> None
                 | Some v \<Rightarrow> map_option (\<lambda>(t, r). (v # t, r)) (scan_string es))))
      else if c < 32 then None
      else map_option (\<lambda>(t, r). (c # t, r)) (scan_string cs))"
  by pat_completeness auto
termination
  by (relation "measure length") (auto dest!: low_half_shorter split: if_splits)

fun digits_value :: "nat \<Rightarrow> pystr \<Rightarrow> nat" where
  "digits_value acc [] = acc"
| "digits_value acc (c # cs) = digits_value (10 * acc + (c - 48)) cs"

text \<open>The fraction and the exponent of a number, as far as they are there.\<close>

definition number_fraction :: "pystr \<Rightarrow> pystr" where
  "number_fraction s =
     (case s of
        c # t \<Rightarrow> (if c = 46 \<and> takeWhile is_digit t \<noteq> [] then 46 # takeWhile is_digit t else [])
      | [] \<Rightarrow> [])"

definition number_exponent :: "pystr \<Rightarrow> pystr" where
  "number_exponent s =
     (case s of
        c # t \<Rightarrow>
          (if c = 101 \<or> c = 69 then
             (let sign = (case t of d # _ \<Rightarrow> if d = 43 \<or> d = 45 then [d] else [] | [] \<Rightarrow> []);
                  ds = takeWhile is_digit (drop (length sign) t)
              in if ds = [] then [] else c # sign @ ds)
           else [])
      | [] \<Rightarrow> [])"

definition scan_number :: "(pystr \<Rightarrow> pyfloat) \<Rightarrow> pystr \<Rightarrow> (json \<times> pystr) option" where
  "scan_number fl s =
     (let neg = (s \<noteq> [] \<and> hd s = 45);
          r = (if neg then tl s else s);
          ds = takeWhile is_digit r;
          whole = (if ds \<noteq> [] \<and> hd ds = 48 then [48] else ds);
          r1 = drop (length whole) r;
          frac = number_fraction r1;
          r2 = drop (length frac) r1;
          ex = number_exponent r2;
          r3 = drop (length ex) r2
      in if whole = [] then None
         else if frac = [] \<and> ex = []
           then Some (JInt (if neg then - int (digits_value 0 whole) else int (digits_value 0 whole)), r3)
         else Some (JFloat (fl ((if neg then [45] else []) @ whole @ frac @ ex)), r3))"

text \<open>The constants, with Python's own among them.\<close>

definition scan_constant :: "(pystr \<Rightarrow> pyfloat) \<Rightarrow> pystr \<Rightarrow> (json \<times> pystr) option" where
  "scan_constant fl s =
     (if py_startswith s (py ''null'') then Some (JNull, drop 4 s)
      else if py_startswith s (py ''true'') then Some (JBool True, drop 4 s)
      else if py_startswith s (py ''false'') then Some (JBool False, drop 5 s)
      else if py_startswith s (py ''NaN'') then Some (JFloat (fl (py ''NaN'')), drop 3 s)
      else if py_startswith s (py ''Infinity'') then Some (JFloat (fl (py ''Infinity'')), drop 8 s)
      else if py_startswith s (py ''-Infinity'') then Some (JFloat (fl (py ''-Infinity'')), drop 9 s)
      else scan_number fl s)"

text \<open>\<open>dict(pairs)\<close>: a key keeps its first place and its last value.\<close>

fun dict_put :: "jobject \<Rightarrow> pystr \<Rightarrow> json \<Rightarrow> jobject" where
  "dict_put [] k v = [(k, v)]"
| "dict_put ((k', v') # d) k v = (if k' = k then (k, v) # d else (k', v') # dict_put d k v)"

definition dict_of :: "jobject \<Rightarrow> jobject" where
  "dict_of ps = foldl (\<lambda>d (k, v). dict_put d k v) [] ps"

fun scan_value :: "(pystr \<Rightarrow> pyfloat) \<Rightarrow> nat \<Rightarrow> pystr \<Rightarrow> (json \<times> pystr) option"
  and scan_items :: "(pystr \<Rightarrow> pyfloat) \<Rightarrow> nat \<Rightarrow> pystr \<Rightarrow> (json list \<times> pystr) option"
  and scan_pairs :: "(pystr \<Rightarrow> pyfloat) \<Rightarrow> nat \<Rightarrow> pystr \<Rightarrow> (jobject \<times> pystr) option" where
  "scan_value fl 0 s = None"
| "scan_value fl (Suc n) s =
     (case s of
        [] \<Rightarrow> None
      | c # r \<Rightarrow>
          (if c = 34 then map_option (\<lambda>(t, q). (JStr t, q)) (scan_string r)
           else if c = 91 then
             (if skip_ws r \<noteq> [] \<and> hd (skip_ws r) = 93 then Some (JList [], tl (skip_ws r))
              else map_option (\<lambda>(xs, q). (JList xs, q)) (scan_items fl n (skip_ws r)))
           else if c = 123 then
             (if skip_ws r \<noteq> [] \<and> hd (skip_ws r) = 125 then Some (JDict [], tl (skip_ws r))
              else map_option (\<lambda>(ps, q). (JDict (dict_of ps), q)) (scan_pairs fl n (skip_ws r)))
           else scan_constant fl s))"
| "scan_items fl 0 s = None"
| "scan_items fl (Suc n) s =
     (case scan_value fl n s of
        None \<Rightarrow> None
      | Some (v, r) \<Rightarrow>
          (case skip_ws r of
             [] \<Rightarrow> None
           | c # q \<Rightarrow>
               (if c = 93 then Some ([v], q)
                else if c = 44 then map_option (\<lambda>(vs, q'). (v # vs, q')) (scan_items fl n (skip_ws q))
                else None)))"
| "scan_pairs fl 0 s = None"
| "scan_pairs fl (Suc n) s =
     (case s of
        [] \<Rightarrow> None
      | c # r \<Rightarrow>
          (if c \<noteq> 34 then None
           else
             (case scan_string r of
                None \<Rightarrow> None
              | Some (k, r1) \<Rightarrow>
                  (case skip_ws r1 of
                     [] \<Rightarrow> None
                   | d # r2 \<Rightarrow>
                       (if d \<noteq> 58 then None
                        else
                          (case scan_value fl n (skip_ws r2) of
                             None \<Rightarrow> None
                           | Some (v, r3) \<Rightarrow>
                               (case skip_ws r3 of
                                  [] \<Rightarrow> None
                                | e # r4 \<Rightarrow>
                                    (if e = 125 then Some ([(k, v)], r4)
                                     else if e = 44
                                       then map_option (\<lambda>(ps, q). ((k, v) # ps, q))
                                              (scan_pairs fl n (skip_ws r4))
                                     else None))))))))"

definition json_loads :: "(pystr \<Rightarrow> pyfloat) \<Rightarrow> pystr \<Rightarrow> json option" where
  "json_loads fl s =
     (case scan_value fl (length s + 1) (skip_ws s) of
        None \<Rightarrow> None
      | Some (v, r) \<Rightarrow> if skip_ws r = [] then Some v else None)"

section \<open>What was written reads back\<close>

text \<open>A document without floats, with one value for each key.\<close>

fun plain :: "json \<Rightarrow> bool" where
  "plain (JFloat f) \<longleftrightarrow> False"
| "plain (JList xs) \<longleftrightarrow> (\<forall>x \<in> set xs. plain x)"
| "plain (JDict d) \<longleftrightarrow> distinct (map fst d) \<and> (\<forall>p \<in> set d. plain (snd p))"
| "plain _ \<longleftrightarrow> True"

lemma hex_pad_4:
  "hex_pad 4 c = [hex_digit (c div 16 div 16 div 16 mod 16), hex_digit (c div 16 div 16 mod 16),
     hex_digit (c div 16 mod 16), hex_digit (c mod 16)]"
proof -
  have "(4::nat) = Suc (Suc (Suc (Suc 0)))" by simp
  then show ?thesis by (simp only: hex_pad.simps append.simps)
qed

lemma json_char_control:
  assumes "c < 32" "c \<notin> {8, 9, 10, 12, 13}"
  shows "json_char c = [92, 117, hex_digit 0, hex_digit 0, hex_digit (c div 16), hex_digit (c mod 16)]"
proof -
  have c: "c div 16 < 2" using assms(1) by simp
  then have "c div 16 mod 16 = c div 16" "c div 16 div 16 = 0" by simp_all
  then have "hex_pad 4 c = [hex_digit 0, hex_digit 0, hex_digit (c div 16), hex_digit (c mod 16)]"
    by (simp add: hex_pad_4 del: div_mult2_eq)
  then show ?thesis using assms by (simp add: json_char_def py_def)
qed

lemma scan_json_char:
  "scan_string (json_char c @ t) = map_option (\<lambda>(s, r). (c # s, r)) (scan_string t)"
proof (cases "c < 32 \<and> c \<notin> {8, 9, 10, 12, 13}")
  case True
  then have "hex4 (hex_digit 0) (hex_digit 0) (hex_digit (c div 16)) (hex_digit (c mod 16)) = Some c"
  proof -
    have "c div 16 < 2" using True by (simp add: less_mult_imp_div_less)
    then have "hex_value (hex_digit (c div 16)) = Some (c div 16)" by (intro hex_value_digit) simp
    then show ?thesis using hex_value_digit[of "c mod 16"] hex_value_digit[of 0] by (simp add: hex4_def)
  qed
  then show ?thesis using True by (simp add: json_char_control)
next
  case False
  then consider "c \<in> {34, 92, 8, 9, 10, 12, 13}" | "32 \<le> c" "c \<noteq> 34" "c \<noteq> 92"
    by (cases "c = 34 \<or> c = 92") auto
  then show ?thesis
  proof cases
    case 1
    then show ?thesis by (auto simp: json_char_def py_def simple_escape_def)
  next
    case 2
    then have "json_char c = [c]" by (auto simp: json_char_def)
    then show ?thesis using 2 by simp
  qed
qed

lemma scan_json_string: "scan_string (concat (map json_char s) @ 34 # rest) = Some (s, rest)"
  by (induction s) (simp_all add: scan_json_char)

lemma digits_value_append: "digits_value acc (xs @ ys) = digits_value (digits_value acc xs) ys"
  by (induction xs arbitrary: acc) auto

lemma digits_value_py_digits: "digits_value 0 (py_digits n) = n"
proof (induction n rule: py_digits.induct)
  case (1 n)
  then show ?case by (subst py_digits.simps) (simp add: digits_value_append)
qed

lemma py_digits_digit: "c \<in> set (py_digits n) \<Longrightarrow> is_digit c"
proof (induction n rule: py_digits.induct)
  case (1 n)
  from 1(2) have "n < 10 \<and> c = 48 + n \<or> \<not> n < 10 \<and> (c \<in> set (py_digits (n div 10)) \<or> c = 48 + n mod 10)"
    by (subst (asm) py_digits.simps) (auto split: if_splits)
  then show ?case using 1(1) by (auto simp: is_digit_def)
qed

lemma py_digits_zero: "hd (py_digits n) = 48 \<Longrightarrow> n = 0"
proof (induction n rule: py_digits.induct)
  case (1 n)
  show ?case
  proof (cases "n < 10")
    case True
    then show ?thesis using 1(2) by (subst (asm) py_digits.simps) simp
  next
    case False
    then have "hd (py_digits (n div 10)) = 48"
      using 1(2) by (subst (asm) py_digits.simps) simp
    then show ?thesis using 1(1) False by simp
  qed
qed

definition number_ends :: "pystr \<Rightarrow> bool" where
  "number_ends r \<longleftrightarrow> r = [] \<or> hd r \<in> {44, 93, 125}"

lemma takeWhile_digits:
  assumes "number_ends r"
  shows "takeWhile is_digit (py_digits n @ r) = py_digits n"
proof -
  have "takeWhile is_digit r = []" using assms by (cases r) (auto simp: number_ends_def is_digit_def)
  then show ?thesis using py_digits_digit by (simp add: takeWhile_append)
qed

lemma scan_digits:
  assumes "number_ends r"
  shows "scan_number fl (py_digits n @ r) = Some (JInt (int n), r)"
    and "scan_number fl (45 # py_digits n @ r) = Some (JInt (- int n), r)"
proof -
  have first: "n = 0 \<and> py_digits n = [48] \<or> hd (py_digits n) \<noteq> 48"
  proof (cases "hd (py_digits n) = 48")
    case True
    then have "n = 0" by (rule py_digits_zero)
    moreover have "py_digits 0 = [48]" by (subst py_digits.simps) simp
    ultimately show ?thesis by simp
  qed simp
  have "hd (py_digits n) \<in> set (py_digits n)" by simp
  then have not_minus: "hd (py_digits n) \<noteq> 45" using py_digits_digit[of "hd (py_digits n)" n] by (auto simp: is_digit_def)
  have none: "number_fraction r = []" "number_exponent r = []"
    using assms by (cases r; auto simp: number_ends_def number_fraction_def number_exponent_def)+
  note rules = scan_number_def Let_def digits_value_py_digits takeWhile_digits[OF assms]
  have "takeWhile is_digit (48 # r) = [48]" using takeWhile_digits[OF assms, of 0] by (subst (asm) (1 2) py_digits.simps) simp
  then show "scan_number fl (py_digits n @ r) = Some (JInt (int n), r)"
    using first not_minus none by (auto simp: rules)
  show "scan_number fl (45 # py_digits n @ r) = Some (JInt (- int n), r)"
    using first none \<open>takeWhile is_digit (48 # r) = [48]\<close> by (auto simp: rules)
qed

lemma constant_digits:
  "is_digit c \<Longrightarrow> scan_constant fl (c # s) = scan_number fl (c # s)"
  "is_digit c \<Longrightarrow> scan_constant fl (45 # c # s) = scan_number fl (45 # c # s)"
  by (auto simp: scan_constant_def py_startswith_def py_def is_digit_def)

lemma py_digits_Cons: obtains c cs where "py_digits n = c # cs" "is_digit c"
  using py_digits_digit by (metis list.exhaust list.set_intros(1) py_digits_not_Nil)

lemma scan_int:
  assumes "number_ends r"
  shows "scan_constant fl (py_int i @ r) = Some (JInt i, r)"
proof -
  obtain c cs where c: "py_digits (nat \<bar>i\<bar>) = c # cs" "is_digit c" by (rule py_digits_Cons)
  show ?thesis
    using scan_digits[OF assms, of fl "nat \<bar>i\<bar>"] c constant_digits[OF c(2)]
    by (cases "i < 0") (simp_all add: py_int_def)
qed

lemma json_text_hd:
  assumes "plain v"
  shows "\<exists>c cs. json_text v = c # cs \<and> c \<notin> {32, 9, 10, 13, 93, 125}"
proof (cases v)
  case (JInt i)
  obtain c cs where "py_digits (nat \<bar>i\<bar>) = c # cs" "is_digit c" by (rule py_digits_Cons)
  then show ?thesis using JInt by (auto simp: py_int_def is_digit_def)
qed (use assms in \<open>auto simp: py_def json_string_def\<close>)

lemma skip_ws_text: "plain v \<Longrightarrow> skip_ws (json_text v @ r) = json_text v @ r"
  using json_text_hd[of v] by (auto simp: skip_ws_def)

lemma dict_put_new: "k \<notin> fst ` set d \<Longrightarrow> dict_put d k v = d @ [(k, v)]"
  by (induction d) (auto split: if_splits)

lemma foldl_dict_put:
  "distinct (map fst (d @ ps)) \<Longrightarrow> foldl (\<lambda>d (k, v). dict_put d k v) d ps = d @ ps"
proof (induction ps arbitrary: d)
  case (Cons p ps)
  obtain k v where p: "p = (k, v)" by (cases p)
  have "dict_put d k v = d @ [(k, v)]" using Cons.prems p by (intro dict_put_new) auto
  then show ?case using Cons.IH[of "d @ [(k, v)]"] Cons.prems p by simp
qed simp

lemma dict_of_distinct: "distinct (map fst ps) \<Longrightarrow> dict_of ps = ps"
  using foldl_dict_put[of "[]" ps] by (simp add: dict_of_def)

lemma scan_items_text:
  assumes "xs \<noteq> []" "\<And>x. x \<in> set xs \<Longrightarrow> plain x"
    "\<And>x n r. x \<in> set xs \<Longrightarrow> length (json_text x) \<le> n \<Longrightarrow> number_ends r \<Longrightarrow>
       scan_value fl n (json_text x @ r) = Some (x, r)"
    "length (py_join (py '','') (map json_text xs)) < n"
  shows "scan_items fl n (py_join (py '','') (map json_text xs) @ 93 # rest) = Some (xs, rest)"
  using assms
proof (induction xs arbitrary: n)
  case (Cons x xs)
  obtain m where n: "n = Suc m" using Cons.prems(4) by (cases n) auto
  show ?case
  proof (cases xs)
    case Nil
    then have "scan_value fl m (json_text x @ 93 # rest) = Some (x, 93 # rest)"
      using Cons.prems n by (intro Cons.prems(3)) (auto simp: number_ends_def)
    then show ?thesis using Nil n by (simp add: skip_ws_def)
  next
    case (Cons y ys)
    let ?more = "py_join (py '','') (map json_text (y # ys))"
    have val: "scan_value fl m (json_text x @ 44 # ?more @ 93 # rest) = Some (x, 44 # ?more @ 93 # rest)"
      using Cons.prems Cons n by (intro Cons.prems(3)) (auto simp: number_ends_def)
    have more: "scan_items fl m (?more @ 93 # rest) = Some (y # ys, rest)"
      using Cons.IH[of m] Cons.prems Cons n by (simp add: py_def)
    have "skip_ws (?more @ 93 # rest) = ?more @ 93 # rest"
      using json_text_hd[of y] Cons.prems(2)[of y] Cons by (cases ys) (auto simp: skip_ws_def)
    then show ?thesis using Cons n val more by (simp add: py_def skip_ws_def)
  qed
qed simp

lemma scan_pairs_text:
  assumes "ps \<noteq> []" "\<And>p. p \<in> set ps \<Longrightarrow> plain (snd p)"
    "\<And>p n r. p \<in> set ps \<Longrightarrow> length (json_text (snd p)) \<le> n \<Longrightarrow> number_ends r \<Longrightarrow>
       scan_value fl n (json_text (snd p) @ r) = Some (snd p, r)"
    "length (py_join (py '','') (map (\<lambda>(k, v). json_string k @ py '':'' @ json_text v) ps)) < n"
  shows "scan_pairs fl n (py_join (py '','') (map (\<lambda>(k, v). json_string k @ py '':'' @ json_text v) ps) @ 125 # rest)
    = Some (ps, rest)"
  using assms
proof (induction ps arbitrary: n)
  case (Cons p ps)
  obtain k v where p: "p = (k, v)" by (cases p)
  obtain m where n: "n = Suc m" using Cons.prems(4) by (cases n) auto
  have ws: "skip_ws (json_text v @ r) = json_text v @ r" for r
    using skip_ws_text Cons.prems(2)[of p] p by simp
  show ?case
  proof (cases ps)
    case Nil
    then have "scan_value fl m (json_text v @ 125 # rest) = Some (v, 125 # rest)"
      using Cons.prems(3)[of p m "125 # rest"] Cons.prems(4) n p by (simp add: number_ends_def)
    then show ?thesis using Nil n p ws by (simp add: skip_ws_def json_string_def scan_json_string py_def)
  next
    case (Cons q qs)
    let ?more = "py_join (py '','') (map (\<lambda>(k, v). json_string k @ py '':'' @ json_text v) (q # qs))"
    have val: "scan_value fl m (json_text v @ 44 # ?more @ 125 # rest) = Some (v, 44 # ?more @ 125 # rest)"
      using Cons.prems(3)[of p m "44 # ?more @ 125 # rest"] Cons.prems(4) Cons n p by (simp add: number_ends_def py_def)
    have more: "scan_pairs fl m (?more @ 125 # rest) = Some (q # qs, rest)"
      using Cons.IH[of m] Cons.prems Cons n p by (simp add: py_def)
    have "skip_ws (?more @ 125 # rest) = ?more @ 125 # rest"
      by (cases q; cases qs) (auto simp: skip_ws_def json_string_def)
    then show ?thesis
      using Cons n p ws val more by (simp add: skip_ws_def json_string_def scan_json_string py_def)
  qed
qed simp

lemma scan_value_text:
  "plain v \<Longrightarrow> length (json_text v) \<le> n \<Longrightarrow> number_ends r \<Longrightarrow>
   scan_value fl n (json_text v @ r) = Some (v, r)"
proof (induction v arbitrary: n r)
  case JNull
  then show ?case by (cases n) (auto simp: py_def scan_constant_def py_startswith_def)
next
  case (JBool b)
  then show ?case by (cases n; cases b) (auto simp: py_def scan_constant_def py_startswith_def)
next
  case (JInt i)
  obtain c cs where c: "json_text (JInt i) = c # cs" "c \<noteq> 34" "c \<noteq> 91" "c \<noteq> 123"
  proof -
    obtain c cs where "py_digits (nat \<bar>i\<bar>) = c # cs" "is_digit c" by (rule py_digits_Cons)
    then show thesis using that by (cases "i < 0") (auto simp: py_int_def is_digit_def)
  qed
  then show ?case using JInt scan_int[of r fl i] by (cases n) auto
next
  case (JStr s)
  then show ?case by (cases n) (auto simp: json_string_def scan_json_string)
next
  case (JList xs)
  obtain m where n: "n = Suc m" using JList.prems(2) by (cases n) (auto simp: py_def)
  show ?case
  proof (cases "xs = []")
    case True
    then show ?thesis using n by (simp add: py_def skip_ws_def)
  next
    case False
    have items: "scan_items fl m (py_join (py '','') (map json_text xs) @ 93 # r) = Some (xs, r)"
      using False JList n by (intro scan_items_text) (auto simp: py_def)
    obtain x ys where xs: "xs = x # ys" using False by (cases xs) auto
    obtain c cs where "json_text x = c # cs" "c \<notin> {32, 9, 10, 13, 93, 125}"
      using json_text_hd[of x] JList.prems(1) xs by auto
    then show ?thesis using items n xs by (cases ys) (auto simp: py_def skip_ws_def)
  qed
next
  case (JDict d)
  obtain m where n: "n = Suc m" using JDict.prems(2) by (cases n) (auto simp: py_def)
  show ?case
  proof (cases "d = []")
    case True
    then show ?thesis using n by (simp add: py_def skip_ws_def)
  next
    case False
    let ?t = "py_join (py '','') (map (\<lambda>(k, v). json_string k @ py '':'' @ json_text v) d)"
    have pairs: "scan_pairs fl m (?t @ 125 # r) = Some (d, r)"
      using False JDict n by (intro scan_pairs_text) (auto simp: py_def intro!: JDict.IH)
    obtain p ps where d: "d = p # ps" using False by (cases d) auto
    have "dict_of d = d" using JDict.prems(1) by (intro dict_of_distinct) simp
    moreover have "\<exists>cs. ?t = 34 # cs" using d by (cases p; cases ps) (auto simp: json_string_def)
    ultimately show ?thesis using pairs n by (auto simp: py_def skip_ws_def)
  qed
qed simp

lemma plain_sort_json: "plain v \<Longrightarrow> plain (sort_json v)"
proof (induction v)
  case (JDict d)
  let ?d = "map (\<lambda>(k, v). (k, sort_json v)) d"
  have "map fst ?d = map fst d" by (induction d) auto
  then have "distinct (map fst ?d)" using JDict.prems by (simp only: plain.simps)
  then have "distinct (map fst (sort_key fst ?d))" by (simp only: distinct_map distinct_sort set_sort)
  moreover have "\<forall>p \<in> set ?d. plain (snd p)" using JDict by auto
  ultimately show ?case by simp
qed auto

text \<open>Reading a written document gives the document with its keys sorted.\<close>

lemma json_loads_dumps:
  assumes "plain v"
  shows "json_loads fl (json_dumps v) = Some (sort_json v)"
proof -
  let ?t = "json_text (sort_json v)"
  have p: "plain (sort_json v)" using plain_sort_json[OF assms] .
  have "skip_ws ?t = ?t" using skip_ws_text[OF p, of "[]"] by simp
  moreover have "scan_value fl (length ?t + 1) ?t = Some (sort_json v, [])"
    using scan_value_text[OF p, of "length ?t + 1" "[]" fl] by (simp add: number_ends_def)
  ultimately show ?thesis by (simp add: json_loads_def json_dumps_def skip_ws_def)
qed

end
