(* ===== verification/Py_Url.thy ===== *)
theory Py_Url
  imports Py_Net Py_Json
begin

text \<open>
  \<open>str.replace\<close>, \<open>urllib.parse.quote\<close> and \<open>urlencode\<close>, and
  \<open>json.dumps\<close> with its defaults (ASCII only, a space after each separator). A float is
  written as its \<open>repr\<close>, so that the spelling of \<open>nan\<close> and of the infinities
  is not told apart. \<open>None\<close> is \<open>UnicodeEncodeError\<close>.
\<close>

section \<open>Replacing\<close>

text \<open>\<open>s.replace(old, new)\<close> for an \<open>old\<close> that is not empty: the first argument counts the
  characters of a found \<open>old\<close> still to be skipped.\<close>

fun replace_from :: "nat \<Rightarrow> pystr \<Rightarrow> pystr \<Rightarrow> pystr \<Rightarrow> pystr" where
  "replace_from k old new [] = []"
| "replace_from (Suc k) old new (c # cs) = replace_from k old new cs"
| "replace_from 0 old new (c # cs) =
     (if py_startswith (c # cs) old then new @ replace_from (length old - 1) old new cs
      else c # replace_from 0 old new cs)"

definition py_replace :: "pystr \<Rightarrow> pystr \<Rightarrow> pystr \<Rightarrow> pystr" where
  "py_replace old new s = replace_from 0 old new s"

section \<open>Percent encoding\<close>

definition unreserved :: "nat \<Rightarrow> bool" where
  "unreserved c \<longleftrightarrow> ascii_alpha c \<or> (48 \<le> c \<and> c \<le> 57) \<or> c \<in> {95, 46, 45, 126}"

definition hex_upper :: "nat \<Rightarrow> nat" where
  "hex_upper n = (if n < 10 then 48 + n else 55 + n)"

definition quote_byte :: "nat list \<Rightarrow> nat \<Rightarrow> pystr" where
  "quote_byte safe b =
     (if unreserved b \<or> b \<in> set safe then [b] else [37, hex_upper (b div 16), hex_upper (b mod 16)])"

definition quote :: "nat list \<Rightarrow> pystr \<Rightarrow> pystr option" where
  "quote safe s = map_option (\<lambda>bs. concat (map (quote_byte safe) bs)) (utf8 s)"

definition quote_plus :: "pystr \<Rightarrow> pystr option" where
  "quote_plus s =
     (if 32 \<in> set s then map_option (map (\<lambda>c. if c = 32 then 43 else c)) (quote [32] s) else quote [] s)"

definition query_pair :: "pystr \<times> pystr \<Rightarrow> pystr option" where
  "query_pair p =
     (case (quote_plus (fst p), quote_plus (snd p)) of (Some k, Some v) \<Rightarrow> Some (k @ py ''='' @ v) | _ \<Rightarrow> None)"

definition urlencode :: "(pystr \<times> pystr) list \<Rightarrow> pystr option" where
  "urlencode query = map_option (py_join (py ''&'')) (all_some (map query_pair query))"

section \<open>ASCII JSON\<close>

definition json_ascii_char :: "nat \<Rightarrow> pystr" where
  "json_ascii_char c =
     (if 32 \<le> c \<and> c \<le> 126 \<or> c < 32 then json_char c
      else if c < 65536 then 92 # py ''u'' @ hex_pad 4 c
      else 92 # py ''u'' @ hex_pad 4 (55296 + (c - 65536) div 1024)
           @ 92 # py ''u'' @ hex_pad 4 (56320 + (c - 65536) mod 1024))"

definition json_ascii_string :: "pystr \<Rightarrow> pystr" where
  "json_ascii_string s = 34 # concat (map json_ascii_char s) @ [34]"

text \<open>\<open>json.dumps\<close> with its default separators; \<open>esc\<close> writes a string.\<close>

fun json_spaced :: "(pystr \<Rightarrow> pystr) \<Rightarrow> json \<Rightarrow> pystr" where
  "json_spaced esc (JStr s) = esc s"
| "json_spaced esc (JList xs) = py ''['' @ py_join (py '', '') (map (json_spaced esc) xs) @ py '']''"
| "json_spaced esc (JDict d) =
     py ''{'' @ py_join (py '', '') (map (\<lambda>(k, v). esc k @ py '': '' @ json_spaced esc v) d) @ py ''}''"
| "json_spaced esc v = json_text v"

section \<open>Facts\<close>

lemma py_replace_nil [simp]: "py_replace old new [] = []"
  by (simp add: py_replace_def)

lemma replace_from_plain: "c \<notin> set s \<Longrightarrow> replace_from 0 (c # old) new s = s"
  by (induction s) (auto simp: py_startswith_def)

lemma py_replace_plain: "c \<notin> set s \<Longrightarrow> py_replace (c # old) new s = s"
  by (simp add: py_replace_def replace_from_plain)

lemma hd_py_split: "hd (py_split c s) = takeWhile (\<lambda>x. x \<noteq> c) s"
  by (induction s) auto

lemma startswith_segment: "c \<notin> set old \<Longrightarrow> py_startswith (takeWhile (\<lambda>x. x \<noteq> c) s) old = py_startswith s old"
proof (induction old arbitrary: s)
  case (Cons o' os)
  then show ?case by (cases s) (auto simp: py_startswith_def)
qed (simp add: py_startswith_def)

lemma py_split_prefix:
  "c \<notin> set p \<Longrightarrow> py_split c (p @ s) = (p @ hd (py_split c s)) # tl (py_split c s)"
  by (induction p) auto

text \<open>A replacement that has no separator on either side works on each segment by itself.\<close>

lemma split_replace_from:
  "old \<noteq> [] \<Longrightarrow> c \<notin> set old \<Longrightarrow> c \<notin> set new \<Longrightarrow> c \<notin> set (take k s) \<Longrightarrow>
   py_split c (replace_from k old new s) =
     replace_from k old new (hd (py_split c s)) # map (replace_from 0 old new) (tl (py_split c s))"
proof (induction k old new s rule: replace_from.induct)
  case (2 k old new x xs)
  then show ?case by (cases "x = c") auto
next
  case (3 old new x xs)
  have same: "py_startswith (x # hd (py_split c xs)) old = py_startswith (x # xs) old" if "x \<noteq> c"
    using startswith_segment[OF 3(4), of "x # xs"] that by (simp add: hd_py_split)
  show ?case
  proof (cases "py_startswith (x # xs) old")
    case True
    then obtain os where os: "old = x # os" "take (length os) xs = os"
      using 3(3) by (cases old) (auto simp: py_startswith_def)
    then have IH: "py_split c (replace_from (length old - 1) old new xs) =
        replace_from (length old - 1) old new (hd (py_split c xs)) # map (replace_from 0 old new) (tl (py_split c xs))"
      using 3(1)[OF True 3(3-5)] 3(4) by simp
    have "x \<noteq> c" using os 3(4) by auto
    with True same IH show ?thesis by (simp add: py_split_prefix[OF 3(5)])
  next
    case False
    note IH = 3(2)[OF False 3(3-5)]
    show ?thesis
    proof (cases "x = c")
      case True
      then have "py_split c (replace_from 0 old new (x # xs)) = [] # py_split c (replace_from 0 old new xs)"
        using False by simp
      also have "\<dots> = [] # map (replace_from 0 old new) (py_split c xs)"
        using IH by (metis list.map(2) list.collapse py_split_not_Nil take_0 empty_iff empty_set)
      finally show ?thesis using True by simp
    next
      case out: False
      with False same IH show ?thesis by simp
    qed
  qed
qed simp

lemma split_replace:
  assumes "old \<noteq> []" "c \<notin> set old" "c \<notin> set new"
  shows "py_split c (py_replace old new s) = map (py_replace old new) (py_split c s)"
proof -
  have "py_split c (replace_from 0 old new s) =
      replace_from 0 old new (hd (py_split c s)) # map (replace_from 0 old new) (tl (py_split c s))"
    using split_replace_from[OF assms, of 0 s] by simp
  then have "py_split c (replace_from 0 old new s) = map (replace_from 0 old new) (py_split c s)"
    by (metis list.map(2) list.collapse py_split_not_Nil)
  then show ?thesis by (simp add: py_replace_def[abs_def])
qed

lemma filter_replace_from:
  "old \<noteq> [] \<Longrightarrow> filter P old = [] \<Longrightarrow> filter P new = [] \<Longrightarrow> filter P (take k s) = [] \<Longrightarrow>
   filter P (replace_from k old new s) = filter P s"
proof (induction k old new s rule: replace_from.induct)
  case (3 old new x xs)
  show ?case
  proof (cases "py_startswith (x # xs) old")
    case True
    then obtain os where os: "old = x # os" "take (length os) xs = os"
      using 3(3) by (cases old) (auto simp: py_startswith_def)
    with 3(4) have "filter P (take (length old - 1) xs) = []" "\<not> P x" by (auto split: if_splits)
    with 3(1)[OF True 3(3-5)] True 3(5) show ?thesis by simp
  next
    case False
    with 3 show ?thesis by simp
  qed
qed (auto split: if_splits)

lemma filter_replace:
  "old \<noteq> [] \<Longrightarrow> filter P old = [] \<Longrightarrow> filter P new = [] \<Longrightarrow> filter P (py_replace old new s) = filter P s"
  by (simp add: py_replace_def filter_replace_from)

lemma quote_byte_chars: "c \<in> set (quote_byte [] b) \<Longrightarrow> unreserved c \<or> c = 37 \<or> 48 \<le> c \<and> c \<le> 57 \<or> 65 \<le> c"
  by (auto simp: quote_byte_def hex_upper_def split: if_splits)

text \<open>What was quoted has no character that delimits the parts of a URL or of a query.\<close>

lemma quote_delimiters: "quote [] s = Some q \<Longrightarrow> c \<in> set q \<Longrightarrow> c \<notin> {47, 63, 35, 38, 61, 43, 32}"
  by (auto simp: quote_def unreserved_def ascii_alpha_def dest!: quote_byte_chars)

section \<open>A URL put together from the parts of another\<close>

definition scheme_text :: "pystr \<Rightarrow> bool" where
  "scheme_text s \<longleftrightarrow> s \<noteq> [] \<and> ascii_alpha (hd s) \<and> list_all scheme_char s \<and> map lower_char s = s"

definition netloc_text :: "(pystr \<Rightarrow> pystr) \<Rightarrow> pystr \<Rightarrow> bool" where
  "netloc_text nfkc n \<longleftrightarrow> list_all (\<lambda>c. c \<notin> {47, 63, 35, 9, 10, 13}) n \<and>
     (91 \<in> set n) = (93 \<in> set n) \<and> (91 \<in> set n \<longrightarrow> bracketed_netloc_ok n) \<and> netloc_ok nfkc n"

lemma lower_scheme:
  "scheme_char c \<Longrightarrow> scheme_char (lower_char c)" "ascii_alpha c \<Longrightarrow> ascii_alpha (lower_char c)"
  "lower_char (lower_char c) = lower_char c"
  by (auto simp: scheme_char_def ascii_alpha_def lower_char_def)

lemma split_scheme_text: "split_scheme u = (s, r) \<Longrightarrow> (s = [] \<or> scheme_text s) \<and> set r \<subseteq> set u"
proof -
  assume a: "split_scheme u = (s, r)"
  obtain x f y where p: "py_partition 58 u = (x, f, y)" by (metis prod_cases3)
  have "f \<Longrightarrow> u = x @ 58 # y" using p py_partition_join by simp
  with a p show ?thesis
    by (auto simp: split_scheme_def scheme_text_def list_all_iff lower_scheme hd_map split: if_splits)
qed

lemma split_scheme_again:
  assumes "scheme_text s"
  shows "split_scheme (s @ 58 # r) = (s, r)"
proof -
  have "\<forall>c \<in> set s. scheme_char c" using assms unfolding scheme_text_def list_all_iff by blast
  then have "58 \<notin> set s" by (auto simp: scheme_char_def ascii_alpha_def)
  then have "py_partition 58 (s @ 58 # r) = (s, True, r)" by (auto simp: py_partition_def takeWhile_append dropWhile_append)
  with assms show ?thesis by (simp add: split_scheme_def scheme_text_def)
qed

lemma split_netloc_again:
  assumes "netloc_text nfkc n" "r = [] \<or> hd r \<in> {47, 63, 35}"
  shows "split_netloc (47 # 47 # n @ r) = (n, r)"
proof -
  have "c \<in> set n \<Longrightarrow> c \<noteq> 47 \<and> c \<noteq> 63 \<and> c \<noteq> 35" for c
    using assms(1) by (auto simp: netloc_text_def list_all_iff)
  moreover have "takeWhile (\<lambda>c. c \<noteq> 47 \<and> c \<noteq> 63 \<and> c \<noteq> 35) r = []" "dropWhile (\<lambda>c. c \<noteq> 47 \<and> c \<noteq> 63 \<and> c \<noteq> 35) r = r"
    using assms(2) by (cases r; auto)+
  ultimately show ?thesis
    by (simp add: split_netloc_def py_startswith_def py_def takeWhile_append2 dropWhile_append2)
qed

lemma split_netloc_rest:
  "split_netloc u = (n, r) \<Longrightarrow> n \<noteq> [] \<Longrightarrow> r = [] \<or> hd r \<in> {47, 63, 35}"
proof -
  assume split: "split_netloc u = (n, r)" "n \<noteq> []"
  then have "r = dropWhile (\<lambda>c. c \<noteq> 47 \<and> c \<noteq> 63 \<and> c \<noteq> 35) (drop 2 u)"
    by (cases "py_startswith u (py ''//'')") (simp_all add: split_netloc_def)
  then show ?thesis using hd_dropWhile[of "\<lambda>c. c \<noteq> 47 \<and> c \<noteq> 63 \<and> c \<noteq> 35" "drop 2 u"] by blast
qed

lemma split_netloc_plain: "split_netloc u = (n, r) \<Longrightarrow> c \<in> set n \<Longrightarrow> c \<in> set u \<and> c \<notin> {47, 63, 35}"
  by (auto simp: split_netloc_def split: if_splits dest!: set_takeWhileD dest: in_set_dropD)

lemma path_of_rest:
  "py_partition 63 (takeWhile (\<lambda>c. c \<noteq> 35) r) = (p, f, q) \<Longrightarrow> r = [] \<or> hd r \<in> {47, 63, 35 :: nat} \<Longrightarrow>
   p = [] \<or> hd p = 47"
  by (cases r) (auto simp: py_partition_def split: if_splits)

lemma urlsplit_texts:
  assumes "urlsplit nfkc u = Some b" "url_scheme b \<noteq> []" "url_netloc b \<noteq> []"
  shows "scheme_text (url_scheme b)" "netloc_text nfkc (url_netloc b)" "url_path b = [] \<or> hd (url_path b) = 47"
proof -
  define v where "v = filter (\<lambda>c. c \<notin> {9, 10, 13}) (dropWhile (\<lambda>c. c \<le> 32) u)"
  obtain s a where s: "split_scheme v = (s, a)" by fastforce
  obtain n r where n: "split_netloc a = (n, r)" by fastforce
  obtain p f q where p: "py_partition 63 (takeWhile (\<lambda>c. c \<noteq> 35) r) = (p, f, q)" by (metis prod_cases3)
  have b: "b = \<lparr>url_scheme = s, url_netloc = n, url_path = p, url_query = q\<rparr>" and
    ok: "(91 \<in> set n) = (93 \<in> set n)" "91 \<in> set n \<longrightarrow> bracketed_netloc_ok n" "netloc_ok nfkc n"
    using assms(1) unfolding urlsplit_def v_def[symmetric] Let_def s n p prod.case by (auto split: if_splits)
  have "set a \<subseteq> set v" using split_scheme_text[OF s] by blast
  then have "c \<in> set n \<Longrightarrow> c \<notin> {47, 63, 35, 9, 10, 13}" for c
    using split_netloc_plain[OF n, of c] by (auto simp: v_def)
  with ok have "netloc_text nfkc n" unfolding netloc_text_def list_all_iff by blast
  with b assms split_scheme_text[OF s] path_of_rest[OF p split_netloc_rest[OF n]]
  show "scheme_text (url_scheme b)" "netloc_text nfkc (url_netloc b)" "url_path b = [] \<or> hd (url_path b) = 47"
    by auto
qed

lemma urlsplit_again:
  assumes "scheme_text s" "netloc_text nfkc n" "r = [] \<or> hd r \<in> {47, 63, 35}"
  shows "\<exists>b. urlsplit nfkc (s @ py ''://'' @ n @ r) = Some b \<and> url_scheme b = s \<and> url_netloc b = n"
proof -
  define r' where "r' = filter (\<lambda>c. c \<notin> {9, 10, 13 :: nat}) r"
  have chars: "\<forall>c \<in> set s. scheme_char c" "s \<noteq> []" "ascii_alpha (hd s)"
    using assms(1) unfolding scheme_text_def list_all_iff by blast+
  have keep: "filter (\<lambda>c. c \<notin> {9, 10, 13}) s = s" "filter (\<lambda>c. c \<notin> {9, 10, 13}) n = n"
    using chars assms(2)
    by (auto simp: netloc_text_def list_all_iff scheme_char_def ascii_alpha_def intro!: filter_True)
  obtain c cs where s: "s = c # cs" "32 < c"
    using chars(2,3) by (cases s) (auto simp: ascii_alpha_def)
  then have "dropWhile (\<lambda>c. c \<le> 32) (s @ py ''://'' @ n @ r) = s @ py ''://'' @ n @ r" by simp
  then have v: "filter (\<lambda>c. c \<notin> {9, 10, 13}) (dropWhile (\<lambda>c. c \<le> 32) (s @ py ''://'' @ n @ r)) = s @ 58 # 47 # 47 # n @ r'"
    using keep by (simp add: r'_def py_def)
  have r': "r' = [] \<or> hd r' \<in> {47, 63, 35}" using assms(3) unfolding r'_def by (cases r) auto
  obtain p f q where p: "py_partition 63 (takeWhile (\<lambda>c. c \<noteq> 35) r') = (p, f, q)" by (metis prod_cases3)
  show ?thesis
    using assms(2) unfolding urlsplit_def v Let_def split_scheme_again[OF assms(1)] prod.case
      split_netloc_again[OF assms(2) r'] p
    by (auto simp: netloc_text_def)
qed

end
