(* ===== verification/Open_Api.thy ===== *)
theory Open_Api
  imports Py_Url
begin

text \<open>
  \<^verbatim>\<open>tools/domain/openapi.py\<close>: what the description of an API turns into, or the
  refusal of it. A refusal carries what it names; its prose is the constructor. Two exceptions the
  code does not catch are constructors too: \<open>str.encode\<close> of a lone surrogate, and a set
  asked for a member that cannot be hashed. The hash is the argument \<open>digest\<close>, the
  reading of a float \<open>fl\<close>.
\<close>

definition MAX_DOCUMENT_BYTES :: nat where "MAX_DOCUMENT_BYTES = 1024 * 1024"
definition MAX_OPERATIONS :: nat where "MAX_OPERATIONS = 128"
definition MAX_PARAMETERS :: nat where "MAX_PARAMETERS = 32"

definition SERVED_METHODS :: "pystr list" where
  "SERVED_METHODS = map py [''get'', ''put'', ''post'', ''delete'', ''patch'', ''head'', ''options'']"

definition READ_ONLY_METHODS :: "pystr list" where
  "READ_ONLY_METHODS = map py [''GET'', ''HEAD'', ''OPTIONS'']"

datatype Location = PathLocation | QueryLocation

record OperationParameter =
  pa_name :: pystr
  pa_location :: Location
  pa_required :: bool
  pa_schema :: jobject
  pa_description :: "pystr option"

record Operation =
  op_operation_id :: pystr
  op_method :: pystr
  op_path :: pystr
  op_summary :: "pystr option"
  op_parameters :: "OperationParameter list"
  op_body_schema :: "jobject option"

definition read_only :: "Operation \<Rightarrow> bool" where
  "read_only op \<longleftrightarrow> op_method op \<in> set READ_ONLY_METHODS"

record OpenApiDocument =
  oa_title :: pystr
  oa_version :: pystr
  oa_operations :: "Operation list"
  oa_content_hash :: pystr

datatype OpenApiError =
    TooManyBytes nat
  | NotJson
  | NotAnObject
  | NoOpenApiVersion
  | NoInfo
  | NoPaths
  | TooManyOperations nat
  | NoOperation
  | PathItemNotObject pystr
  | SharedId pystr
  | NoOperationId pystr pystr
  | ParametersNotList pystr
  | TooManyParameters pystr nat
  | ParameterNotObject pystr
  | ParameterIsRef pystr
  | ParameterNoName pystr
  | ParameterElsewhere pystr pystr
  | BodyNotObject pystr
  | PathNotAtRoot pystr
  | PathTraverses pystr
  | NotAVariable pystr pystr
  | TemplateMissing pystr "pystr list"
  | TemplateExtra pystr "pystr list"
  | DocumentEncodeError
  | LocationTypeError

section \<open>Names and templates\<close>

definition letter_or_underscore :: "nat \<Rightarrow> bool" where
  "letter_or_underscore c \<longleftrightarrow> (97 \<le> c \<and> c \<le> 122) \<or> (65 \<le> c \<and> c \<le> 90) \<or> c = 95"

definition name_char :: "nat \<Rightarrow> bool" where
  "name_char c \<longleftrightarrow> letter_or_underscore c \<or> (48 \<le> c \<and> c \<le> 57) \<or> c = 46 \<or> c = 45"

definition name_core :: "pystr \<Rightarrow> bool" where
  "name_core s \<longleftrightarrow> s \<noteq> [] \<and> letter_or_underscore (hd s) \<and> list_all name_char (tl s)"

text \<open>\<open>^[A-Za-z_][A-Za-z0-9_.-]*$\<close>: a final line feed passes.\<close>

definition variable_match :: "pystr \<Rightarrow> bool" where
  "variable_match s \<longleftrightarrow> name_core s \<or> (s \<noteq> [] \<and> last s = 10 \<and> name_core (butlast s))"

definition operation_id_match :: "pystr \<Rightarrow> bool" where
  "operation_id_match s \<longleftrightarrow>
     (name_core s \<and> length s \<le> 64) \<or> (s \<noteq> [] \<and> last s = 10 \<and> name_core (butlast s) \<and> length s \<le> 65)"

text \<open>\<open>re.findall\<close> of a name between braces.\<close>

function templates :: "pystr \<Rightarrow> pystr list" where
  "templates [] = []"
| "templates (c # cs) =
     (let inner = takeWhile (\<lambda>x. x \<noteq> 123 \<and> x \<noteq> 125) cs;
          rest = dropWhile (\<lambda>x. x \<noteq> 123 \<and> x \<noteq> 125) cs
      in if c = 123 \<and> rest \<noteq> [] \<and> hd rest = 125 then inner # templates (tl rest)
         else templates cs)"
  by pat_completeness auto

termination
proof (relation "measure length", goal_cases)
  case (2 c cs inner rest)
  have "length rest \<le> length cs" unfolding 2(2) by (rule length_dropWhile_le)
  then show ?case by simp
qed simp_all

definition has_double_slash :: "pystr \<Rightarrow> bool" where
  "has_double_slash s = py_contains s (py ''//'')"

definition checked_path :: "pystr \<Rightarrow> (OpenApiError, pystr) result" where
  "checked_path path =
     (if \<not> py_startswith path (py ''/'') then Inl (PathNotAtRoot path)
      else if has_double_slash path \<or> py ''..'' \<in> set (py_split 47 path) then Inl (PathTraverses path)
      else
        (case find (\<lambda>v. \<not> variable_match v) (templates path) of
           Some v \<Rightarrow> Inl (NotAVariable path v)
         | None \<Rightarrow> Inr path))"

definition check_template :: "pystr \<Rightarrow> pystr \<Rightarrow> OperationParameter list \<Rightarrow> (OpenApiError, unit) result" where
  "check_template path operation_id parameters =
     (let named = templates path;
          supplied = map pa_name (filter (\<lambda>p. pa_location p = PathLocation) parameters);
          missing = sort (remdups (filter (\<lambda>v. v \<notin> set supplied) named));
          extra = sort (remdups (filter (\<lambda>v. v \<notin> set named) supplied))
      in if missing \<noteq> [] then Inl (TemplateMissing operation_id missing)
         else if extra \<noteq> [] then Inl (TemplateExtra operation_id extra)
         else Inr ())"

section \<open>Operations\<close>

definition location_of :: "pystr \<Rightarrow> (nat \<Rightarrow> bool) \<Rightarrow> pystr \<Rightarrow> json \<Rightarrow> (OpenApiError, Location) result" where
  "location_of operation_id prn name v =
     (case v of
        JStr s \<Rightarrow>
          (if s = py ''path'' then Inr PathLocation
           else if s = py ''query'' then Inr QueryLocation
           else Inl (ParameterElsewhere operation_id name))
      | JList _ \<Rightarrow> Inl LocationTypeError
      | JDict _ \<Rightarrow> Inl LocationTypeError
      | _ \<Rightarrow> Inl (ParameterElsewhere operation_id name))"

definition parameter_of :: "pystr \<Rightarrow> (nat \<Rightarrow> bool) \<Rightarrow> json \<Rightarrow> (OpenApiError, OperationParameter) result" where
  "parameter_of operation_id prn entry =
     (case entry of
        JDict parameter \<Rightarrow>
          (if jget parameter (py ''$ref'') \<noteq> None then Inl (ParameterIsRef operation_id)
           else
             (case jget parameter (py ''name'') of
                Some (JStr name) \<Rightarrow>
                  (if py_strip name = [] then Inl (ParameterNoName operation_id)
                   else
                     map_sum id
                       (\<lambda>location.
                          \<lparr>pa_name = py_strip name, pa_location = location,
                           pa_required = py_bool (jget_or parameter (py ''required'') (JBool (location = PathLocation))),
                           pa_schema = (case jget parameter (py ''schema'') of
                                          Some (JDict s) \<Rightarrow> s | _ \<Rightarrow> [(py ''type'', JStr (py ''string''))]),
                           pa_description = (case jget parameter (py ''description'') of
                                               Some (JStr d) \<Rightarrow> Some d | _ \<Rightarrow> None)\<rparr>)
                       (location_of operation_id prn name (jget_or parameter (py ''in'') JNull)))
              | _ \<Rightarrow> Inl (ParameterNoName operation_id)))
      | _ \<Rightarrow> Inl (ParameterNotObject operation_id))"

definition parameters_of :: "pystr \<Rightarrow> (nat \<Rightarrow> bool) \<Rightarrow> json \<Rightarrow> (OpenApiError, OperationParameter list) result" where
  "parameters_of operation_id prn raw =
     (case raw of
        JNull \<Rightarrow> Inr []
      | JList entries \<Rightarrow>
          (if length entries > MAX_PARAMETERS then Inl (TooManyParameters operation_id (length entries))
           else map_res (parameter_of operation_id prn) entries)
      | _ \<Rightarrow> Inl (ParametersNotList operation_id))"

definition body_schema_of :: "pystr \<Rightarrow> json \<Rightarrow> (OpenApiError, jobject option) result" where
  "body_schema_of operation_id raw =
     (case raw of
        JNull \<Rightarrow> Inr None
      | JDict d \<Rightarrow>
          (case jget d (py ''content'') of
             Some (JDict content) \<Rightarrow>
               (case jget content (py ''application/json'') of
                  Some (JDict entry) \<Rightarrow>
                    (case jget entry (py ''schema'') of Some (JDict schema) \<Rightarrow> Inr (Some schema) | _ \<Rightarrow> Inr None)
                | _ \<Rightarrow> Inr None)
           | _ \<Rightarrow> Inr None)
      | _ \<Rightarrow> Inl (BodyNotObject operation_id))"

definition upper_ascii :: "pystr \<Rightarrow> pystr" where
  "upper_ascii s = map (\<lambda>c. if 97 \<le> c \<and> c \<le> 122 then c - 32 else c) s"

definition operation_of ::
  "(nat \<Rightarrow> bool) \<Rightarrow> pystr \<Rightarrow> pystr \<Rightarrow> jobject \<Rightarrow> (OpenApiError, Operation) result" where
  "operation_of prn path method body =
     (case jget body (py ''operationId'') of
        Some (JStr operation_id) \<Rightarrow>
          (if \<not> operation_id_match operation_id then Inl (NoOperationId method path)
           else
             bind_res (parameters_of operation_id prn (jget_or body (py ''parameters'') JNull))
               (\<lambda>parameters. bind_res (check_template path operation_id parameters)
                  (\<lambda>_. map_sum id
                     (\<lambda>schema.
                        \<lparr>op_operation_id = operation_id, op_method = upper_ascii method, op_path = path,
                         op_summary =
                           (let summary = jget_or body (py ''summary'') JNull;
                                shown = (if py_bool summary then summary else jget_or body (py ''description'') JNull)
                            in case shown of JStr s \<Rightarrow> Some s | _ \<Rightarrow> None),
                         op_parameters = parameters, op_body_schema = schema\<rparr>)
                     (body_schema_of operation_id (jget_or body (py ''requestBody'') JNull)))))
      | _ \<Rightarrow> Inl (NoOperationId method path))"

fun method_operations ::
  "(nat \<Rightarrow> bool) \<Rightarrow> pystr \<Rightarrow> jobject \<Rightarrow> Operation list \<Rightarrow> pystr list \<Rightarrow> (OpenApiError, Operation list) result" where
  "method_operations prn path item found [] = Inr found"
| "method_operations prn path item found (method # methods) =
     (case jget item method of
        Some (JDict body) \<Rightarrow>
          bind_res (operation_of prn path method body)
            (\<lambda>operation.
               if op_operation_id operation \<in> set (map op_operation_id found)
               then Inl (SharedId (op_operation_id operation))
               else method_operations prn path item (found @ [operation]) methods)
      | _ \<Rightarrow> method_operations prn path item found methods)"

fun path_operations ::
  "(nat \<Rightarrow> bool) \<Rightarrow> Operation list \<Rightarrow> jobject \<Rightarrow> (OpenApiError, Operation list) result" where
  "path_operations prn found [] = Inr found"
| "path_operations prn found ((raw_path, raw_item) # rest) =
     bind_res (checked_path raw_path)
       (\<lambda>path.
          case raw_item of
            JDict item \<Rightarrow>
              bind_res (method_operations prn path item found SERVED_METHODS) (\<lambda>found'. path_operations prn found' rest)
          | _ \<Rightarrow> Inl (PathItemNotObject path))"

definition operations_of :: "(nat \<Rightarrow> bool) \<Rightarrow> jobject \<Rightarrow> (OpenApiError, Operation list) result" where
  "operations_of prn paths = path_operations prn [] (sort_key fst paths)"

section \<open>Documents\<close>

definition content_hash :: "(nat list \<Rightarrow> pystr) \<Rightarrow> jobject \<Rightarrow> (OpenApiError, pystr) result" where
  "content_hash digest document =
     (case utf8 (json_dumps (JDict document)) of None \<Rightarrow> Inl DocumentEncodeError | Some b \<Rightarrow> Inr (digest b))"

definition document_parts :: "json option \<Rightarrow> (OpenApiError, jobject \<times> jobject \<times> jobject) result" where
  "document_parts loaded =
     (case loaded of
        None \<Rightarrow> Inl NotJson
      | Some (JDict document) \<Rightarrow>
          (case jget document (py ''openapi'') of
             Some (JStr _) \<Rightarrow>
               (case jget document (py ''info'') of
                  Some (JDict info) \<Rightarrow>
                    (case jget document (py ''paths'') of
                       Some (JDict paths) \<Rightarrow> Inr (document, info, paths)
                     | _ \<Rightarrow> Inl NoPaths)
                | _ \<Rightarrow> Inl NoInfo)
           | _ \<Rightarrow> Inl NoOpenApiVersion)
      | _ \<Rightarrow> Inl NotAnObject)"

definition parse_document ::
  "(pystr \<Rightarrow> pyfloat) \<Rightarrow> (nat \<Rightarrow> bool) \<Rightarrow> (nat list \<Rightarrow> pystr) \<Rightarrow> pystr \<Rightarrow> (OpenApiError, OpenApiDocument) result" where
  "parse_document fl prn digest body =
     (case utf8 body of
        None \<Rightarrow> Inl DocumentEncodeError
      | Some b \<Rightarrow>
          (if length b > MAX_DOCUMENT_BYTES then Inl (TooManyBytes (length b))
           else
             bind_res (document_parts (json_loads fl body))
               (\<lambda>(document, info, paths). bind_res (operations_of prn paths)
                  (\<lambda>operations.
                     if length operations > MAX_OPERATIONS then Inl (TooManyOperations (length operations))
                     else if operations = [] then Inl NoOperation
                     else
                       map_sum id
                         (\<lambda>h. \<lparr>oa_title = py_str prn (jget_or info (py ''title'') (JStr [])),
                               oa_version = py_str prn (jget_or info (py ''version'') (JStr [])),
                               oa_operations = sort_key op_operation_id operations, oa_content_hash = h\<rparr>)
                         (content_hash digest document)))))"

section \<open>What a description costs\<close>

definition CHARS_PER_TOKEN :: nat where "CHARS_PER_TOKEN = 3"

definition estimated_tokens_of :: "json list \<Rightarrow> nat" where
  "estimated_tokens_of described =
     sum_list (map (\<lambda>e. (length (json_spaced json_string (sort_json e)) + (CHARS_PER_TOKEN - 1)) div CHARS_PER_TOKEN)
                 described)"

definition opt_str :: "pystr option \<Rightarrow> json" where
  "opt_str v = (case v of None \<Rightarrow> JNull | Some s \<Rightarrow> JStr s)"

fun Location_value :: "Location \<Rightarrow> pystr" where
  "Location_value PathLocation = py ''path''"
| "Location_value QueryLocation = py ''query''"

definition described_operation :: "Operation \<Rightarrow> json" where
  "described_operation op =
     JDict
       [(py ''name'', JStr (op_operation_id op)), (py ''summary'', opt_str (op_summary op)),
        (py ''parameters'', JList (map
           (\<lambda>p. JDict [(py ''name'', JStr (pa_name p)), (py ''in'', JStr (Location_value (pa_location p))),
                       (py ''required'', JBool (pa_required p)), (py ''schema'', JDict (pa_schema p)),
                       (py ''description'', opt_str (pa_description p))])
           (op_parameters op))),
        (py ''body'', case op_body_schema op of None \<Rightarrow> JNull | Some s \<Rightarrow> JDict s)]"

definition estimated_schema_tokens :: "Operation list \<Rightarrow> nat" where
  "estimated_schema_tokens operations = estimated_tokens_of (map described_operation operations)"

end
