(* ===== verification/Http_Calls.thy ===== *)
theory Http_Calls
  imports Open_Api Run_Messages
begin

text \<open>
  \<^verbatim>\<open>tools/domain/http_calls.py\<close>: a bound operation as a tool the model is told about, and
  what the model asked for as a request. A refusal carries its reason and its detail; the other
  constructors are the exceptions the code does not catch, \<open>urlsplit\<close> of a base address it
  cannot read and the encoding of a lone surrogate. NFKC, which \<open>urlsplit\<close> consults, is
  the argument \<open>nfkc\<close>, SHA-256 the argument \<open>digest\<close>.
\<close>

definition HTTP_PREFIX :: pystr where "HTTP_PREFIX = py ''http''"
definition MAX_RESPONSE_BYTES :: nat where "MAX_RESPONSE_BYTES = 65536"

record BoundOperation =
  bo_tool_name :: pystr
  bo_version_id :: nat
  bo_base_url :: pystr
  bo_credential_ref :: "pystr option"
  bo_operation :: Operation

definition call_name :: "BoundOperation \<Rightarrow> pystr" where
  "call_name entry = HTTP_PREFIX @ py ''.'' @ bo_tool_name entry @ py ''.'' @ op_operation_id (bo_operation entry)"

record HttpRequestPlan =
  hp_method :: pystr
  hp_url :: pystr
  hp_body :: "nat list option"
  hp_headers :: "(pystr \<times> pystr) list"
  hp_read_only :: bool

definition plan_fingerprint :: "(nat list \<Rightarrow> pystr) \<Rightarrow> HttpRequestPlan \<Rightarrow> pystr option" where
  "plan_fingerprint digest plan =
     map_option (\<lambda>b. digest (b @ (case hp_body plan of None \<Rightarrow> [] | Some body \<Rightarrow> body)))
       (utf8 (hp_method plan @ [10] @ hp_url plan @ [10]))"

datatype HttpCallError = HttpCallRefused pystr pystr | BaseUrlUnreadable | NotEncodable

abbreviation invalid_arguments :: "pystr \<Rightarrow> HttpCallError" where
  "invalid_arguments detail \<equiv> HttpCallRefused (py ''invalid_arguments'') detail"

section \<open>What the model is told\<close>

definition description_of :: "BoundOperation \<Rightarrow> pystr" where
  "description_of entry =
     (case op_summary (bo_operation entry) of
        Some s \<Rightarrow> (if s = [] then op_operation_id (bo_operation entry) else s)
      | None \<Rightarrow> op_operation_id (bo_operation entry))
     @ (if read_only (bo_operation entry) then [] else py '' This changes data at the far end.'')"

definition parameter_schema :: "OperationParameter \<Rightarrow> jobject" where
  "parameter_schema p =
     (case pa_description p of
        Some d \<Rightarrow> (if d = [] then pa_schema p else dict_put (pa_schema p) (py ''description'') (JStr d))
      | None \<Rightarrow> pa_schema p)"

definition operation_properties :: "Operation \<Rightarrow> jobject" where
  "operation_properties op =
     (let ps = foldl (\<lambda>d p. dict_put d (pa_name p) (JDict (parameter_schema p))) [] (op_parameters op)
      in case op_body_schema op of None \<Rightarrow> ps | Some s \<Rightarrow> dict_put ps (py ''body'') (JDict s))"

definition operation_required :: "Operation \<Rightarrow> pystr list" where
  "operation_required op =
     map pa_name (filter pa_required (op_parameters op))
     @ (case op_body_schema op of None \<Rightarrow> [] | Some _ \<Rightarrow> [py ''body''])"

definition operation_schema :: "BoundOperation \<Rightarrow> json" where
  "operation_schema entry =
     JDict
       [(py ''type'', JStr (py ''function'')),
        (py ''function'', JDict
           [(py ''name'', JStr (call_name entry)), (py ''description'', JStr (description_of entry)),
            (py ''parameters'', JDict
               [(py ''type'', JStr (py ''object'')),
                (py ''properties'', JDict (operation_properties (bo_operation entry))),
                (py ''required'', JList (map JStr (operation_required (bo_operation entry)))),
                (py ''additionalProperties'', JBool False)])])]"

definition schemas_for_operations :: "BoundOperation list \<Rightarrow> json list" where
  "schemas_for_operations bound = map operation_schema bound"

section \<open>What the model asked for\<close>

fun rendered :: "pystr \<Rightarrow> json \<Rightarrow> (HttpCallError, pystr) result" where
  "rendered name (JBool b) = Inr (if b then py ''true'' else py ''false'')"
| "rendered name (JStr s) = Inr s"
| "rendered name (JInt i) = Inr (py_int i)"
| "rendered name (JFloat f) = Inr (fl_repr f)"
| "rendered name _ = Inl (invalid_arguments name)"

definition joined_url :: "(pystr \<Rightarrow> pystr) \<Rightarrow> pystr \<Rightarrow> pystr \<Rightarrow> pystr option" where
  "joined_url nfkc base_url path =
     map_option
       (\<lambda>parts. url_scheme parts @ py ''://'' @ url_netloc parts @ py_rstrip_of {47} (url_path parts) @ path)
       (urlsplit nfkc base_url)"

text \<open>The dictionary of the parameters: of two with one name the later is the one that is kept.\<close>

definition declared :: "Operation \<Rightarrow> pystr \<rightharpoonup> OperationParameter" where
  "declared op = map_of (rev (map (\<lambda>p. (pa_name p, p)) (op_parameters op)))"

definition declared_path :: "Operation \<Rightarrow> pystr \<Rightarrow> bool" where
  "declared_path op name \<longleftrightarrow> (case declared op name of Some p \<Rightarrow> pa_location p = PathLocation | None \<Rightarrow> False)"

definition call_arguments :: "jobject \<Rightarrow> jobject" where
  "call_arguments arguments = filter (\<lambda>(k, v). k \<noteq> py ''body'') arguments"

definition call_body :: "jobject \<Rightarrow> json option" where
  "call_body arguments = (case jget arguments (py ''body'') of Some JNull \<Rightarrow> None | b \<Rightarrow> b)"

definition unknown_arguments :: "Operation \<Rightarrow> jobject \<Rightarrow> pystr list" where
  "unknown_arguments op arguments = sort (filter (\<lambda>k. declared op k = None) (remdups (map fst arguments)))"

definition missing_arguments :: "Operation \<Rightarrow> jobject \<Rightarrow> pystr list" where
  "missing_arguments op arguments =
     sort (filter (\<lambda>k. case declared op k of Some p \<Rightarrow> pa_required p \<and> k \<notin> set (map fst arguments) | None \<Rightarrow> False)
       (remdups (map pa_name (op_parameters op))))"

definition check_arguments :: "Operation \<Rightarrow> jobject \<Rightarrow> (HttpCallError, unit) result" where
  "check_arguments op arguments =
     (if unknown_arguments op arguments \<noteq> []
      then Inl (invalid_arguments (py_join (py '','') (unknown_arguments op arguments)))
      else if missing_arguments op arguments \<noteq> []
      then Inl (invalid_arguments (py_join (py '','') (missing_arguments op arguments)))
      else
        (case find (\<lambda>k. \<not> variable_match k) (map fst arguments) of
           Some k \<Rightarrow> Inl (invalid_arguments k)
         | None \<Rightarrow> Inr ()))"

fun placed ::
  "Operation \<Rightarrow> jobject \<Rightarrow> pystr \<Rightarrow> (pystr \<times> pystr) list \<Rightarrow> (HttpCallError, pystr \<times> (pystr \<times> pystr) list) result" where
  "placed op [] path query = Inr (path, query)"
| "placed op ((name, v) # rest) path query =
     bind_res (rendered name v)
       (\<lambda>text.
          if declared_path op name
          then (case quote [] text of
                  None \<Rightarrow> Inl NotEncodable
                | Some q \<Rightarrow> placed op rest (py_replace ([123] @ name @ [125]) q path) query)
          else placed op rest path (query @ [(name, text)]))"

definition check_body :: "Operation \<Rightarrow> json option \<Rightarrow> (HttpCallError, unit) result" where
  "check_body op body =
     (if (op_body_schema op = None) \<noteq> (body = None) then Inl (invalid_arguments (py ''body'')) else Inr ())"

definition with_query :: "pystr \<Rightarrow> (pystr \<times> pystr) list \<Rightarrow> (HttpCallError, pystr) result" where
  "with_query url query =
     (if query = [] then Inr url
      else (case urlencode query of None \<Rightarrow> Inl NotEncodable | Some q \<Rightarrow> Inr (url @ py ''?'' @ q)))"

definition request_bytes :: "json option \<Rightarrow> (HttpCallError, nat list option) result" where
  "request_bytes body =
     (case body of
        None \<Rightarrow> Inr None
      | Some v \<Rightarrow>
          (case utf8 (json_spaced json_ascii_string v) of None \<Rightarrow> Inl NotEncodable | Some b \<Rightarrow> Inr (Some b)))"

definition request_plan ::
  "(pystr \<Rightarrow> pystr) \<Rightarrow> BoundOperation \<Rightarrow> pystr \<Rightarrow> (pystr \<times> pystr) list \<Rightarrow> json option
   \<Rightarrow> (HttpCallError, HttpRequestPlan) result" where
  "request_plan nfkc entry path query body =
     (case joined_url nfkc (bo_base_url entry) path of
        None \<Rightarrow> Inl BaseUrlUnreadable
      | Some base \<Rightarrow>
          bind_res (with_query base query)
            (\<lambda>url. map_sum id
               (\<lambda>bytes.
                  \<lparr>hp_method = op_method (bo_operation entry), hp_url = url, hp_body = bytes,
                   hp_headers = (if body = None then [] else [(py ''Content-Type'', py ''application/json'')]),
                   hp_read_only = read_only (bo_operation entry)\<rparr>)
               (request_bytes body)))"

definition http_call_of ::
  "(pystr \<Rightarrow> pystr) \<Rightarrow> ToolCallBlock \<Rightarrow> BoundOperation list \<Rightarrow> (HttpCallError, HttpRequestPlan) result" where
  "http_call_of nfkc call bound =
     (case find (\<lambda>item. call_name item = tc_name call) bound of
        None \<Rightarrow> Inl (HttpCallRefused (py ''tool_not_authorized'') (tc_name call))
      | Some entry \<Rightarrow>
          (let op = bo_operation entry; arguments = call_arguments (tc_arguments call); body = call_body (tc_arguments call)
           in bind_res (check_arguments op arguments)
                (\<lambda>_. bind_res (placed op arguments (op_path op) [])
                   (\<lambda>(path, query). bind_res (check_body op body)
                      (\<lambda>_. request_plan nfkc entry path query body)))))"

section \<open>Keeping a credential out of an answer\<close>

text \<open>\<^verbatim>\<open>runs/infrastructure/credential_echo.py\<close>.\<close>

definition REDACTED :: pystr where "REDACTED = py ''[redacted credential]''"

definition without_credential :: "pystr \<Rightarrow> pystr option \<Rightarrow> pystr" where
  "without_credential body token =
     (case token of None \<Rightarrow> body | Some t \<Rightarrow> (if t = [] then body else py_replace t REDACTED body))"

section \<open>Facts\<close>

lemma checked_path_same: "checked_path p = Inr q \<Longrightarrow> q = p \<and> p \<noteq> [] \<and> hd p = 47"
  by (cases p) (auto simp: checked_path_def py_startswith_def py_def simp del: py_split.simps py_contains.simps
    split: if_splits option.splits)

lemma name_core_chars: "name_core s \<Longrightarrow> c \<in> set s \<Longrightarrow> name_char c"
  by (cases s) (auto simp: name_core_def name_char_def list_all_iff)

lemma variable_match_chars: "variable_match s \<Longrightarrow> c \<in> set s \<Longrightarrow> name_char c \<or> c = 10"
proof -
  assume m: "variable_match s" and c: "c \<in> set s"
  show ?thesis
  proof (cases "name_core s")
    case False
    with m have "s = butlast s @ [10]" "name_core (butlast s)" by (auto simp: variable_match_def dest: append_butlast_last_id)
    with c name_core_chars show ?thesis by (metis rotate1.simps(2) set_ConsD set_rotate1)
  qed (use c name_core_chars in blast)
qed

definition delimiter :: "nat \<Rightarrow> bool" where
  "delimiter c \<longleftrightarrow> c \<in> {47, 63, 35}"

text \<open>The segments that hold no brace are as they were, the others are somewhere else filled in.\<close>

definition same_segments :: "pystr \<Rightarrow> pystr \<Rightarrow> bool" where
  "same_segments p q \<longleftrightarrow> filter delimiter q = filter delimiter p \<and>
     list_all2 (\<lambda>a b. 123 \<in> set a \<or> b = a) (py_split 47 p) (py_split 47 q)"

lemma same_segments_refl [simp]: "same_segments p p"
  by (simp add: same_segments_def list.rel_refl)

lemma same_segments_trans: "same_segments p q \<Longrightarrow> same_segments q r \<Longrightarrow> same_segments p r"
  unfolding same_segments_def
  by (elim conjE, intro conjI, simp, erule (1) list_all2_trans[rotated]) auto

lemma same_segments_replace:
  assumes "quote [] t = Some q" "variable_match name"
  shows "same_segments p (py_replace (123 # name @ [125]) q p)"
proof -
  have name: "delimiter c \<Longrightarrow> c \<notin> set (123 # name @ [125])" for c
    using variable_match_chars[OF assms(2), of c]
    by (auto simp: delimiter_def name_char_def letter_or_underscore_def)
  have q: "delimiter c \<Longrightarrow> c \<notin> set q" for c
    using quote_delimiters[OF assms(1), of c] by (auto simp: delimiter_def)
  have "filter delimiter (py_replace (123 # name @ [125]) q p) = filter delimiter p"
    by (rule filter_replace) (use name q in \<open>auto simp: filter_empty_conv\<close>)
  moreover have "py_split 47 (py_replace (123 # name @ [125]) q p) =
      map (py_replace (123 # name @ [125]) q) (py_split 47 p)"
    by (rule split_replace) (use name[of 47] q[of 47] in \<open>auto simp: delimiter_def\<close>)
  ultimately show ?thesis
    by (auto simp: same_segments_def list_all2_map2 intro!: list.rel_refl_strong py_replace_plain)
qed

lemma placed_segments:
  "placed op arguments path query = Inr (path', query') \<Longrightarrow> list_all variable_match (map fst arguments) \<Longrightarrow>
   same_segments path path'"
proof (induction op arguments path query rule: placed.induct)
  case (2 op name v rest path query)
  then obtain shown where r: "rendered name v = Inr shown" by (auto simp: bind_res_eq_Inr)
  have name: "variable_match name" "list_all variable_match (map fst rest)" using 2 by auto
  show ?case
  proof (cases "declared_path op name")
    case True
    then obtain q where q: "quote [] shown = Some q"
      "placed op rest (py_replace (123 # name @ [125]) q path) query = Inr (path', query')"
      using 2(3) r by (auto split: option.splits)
    with 2(1)[OF True q(1)] name same_segments_replace[OF q(1) name(1), of path] same_segments_trans
    show ?thesis by simp
  next
    case False
    with 2(2)[OF False, of shown] 2(3) r name show ?thesis by simp
  qed
qed simp

lemma same_segments_root: "same_segments p q \<Longrightarrow> p \<noteq> [] \<Longrightarrow> hd p = 47 \<Longrightarrow> q \<noteq> [] \<and> hd q = 47"
proof -
  assume same: "same_segments p q" and "p \<noteq> []" "hd p = 47"
  then obtain p' where "p = 47 # p'" by (cases p) auto
  with same obtain qs where qs: "py_split 47 q = [] # qs"
    "list_all2 (\<lambda>a b. 123 \<in> set a \<or> b = a) (py_split 47 p') qs"
    by (auto simp: same_segments_def list_all2_Cons1)
  moreover have "qs \<noteq> []" using qs(2) py_split_not_Nil by fastforce
  ultimately have "py_split 47 q = [] # qs" "qs \<noteq> []" by simp_all
  then show ?thesis by (cases q) (auto split: if_splits)
qed

lemma rstrip_slash: "s = [] \<or> hd s = 47 \<Longrightarrow> py_rstrip_of {47} s = [] \<or> hd (py_rstrip_of {47} s) = 47"
proof -
  assume s: "s = [] \<or> hd s = 47"
  obtain t where "s = py_rstrip_of {47} s @ t"
    using rev_dropWhile_rev[of s "\<lambda>c. c \<in> {47 :: nat}"] unfolding py_rstrip_of_def by blast
  with s show ?thesis by (cases "py_rstrip_of {47} s") (metis, metis append_Cons list.sel(1) list.simps(3))
qed

text \<open>A request put together under a base address is sent to the scheme and the host of that address.\<close>

lemma joined_url_same_host:
  assumes base: "urlsplit nfkc u = Some b" "url_scheme b \<noteq> []" "url_netloc b \<noteq> []"
    and path: "p \<noteq> []" "hd p = 47" and url: "joined_url nfkc u p = Some j"
  shows "\<exists>w. urlsplit nfkc (j @ q) = Some w \<and> url_scheme w = url_scheme b \<and> url_netloc w = url_netloc b"
proof -
  note parts = urlsplit_texts[OF base]
  let ?r = "py_rstrip_of {47} (url_path b) @ p @ q"
  have j: "j @ q = url_scheme b @ py ''://'' @ url_netloc b @ ?r" using url base(1) by (auto simp: joined_url_def)
  have "hd ?r \<in> {47, 63, 35}" using rstrip_slash[OF parts(3)] path by (auto simp: hd_append)
  then show ?thesis unfolding j using urlsplit_again[OF parts(1,2)] by blast
qed

text \<open>What a call has to be for a request to be composed.\<close>

lemma check_arguments_ok:
  "check_arguments op arguments = Inr () \<longleftrightarrow>
     (\<forall>k \<in> set (map fst arguments). declared op k \<noteq> None \<and> variable_match k) \<and>
     (\<forall>k p. declared op k = Some p \<longrightarrow> pa_required p \<longrightarrow> k \<in> set (map fst arguments))"
proof -
  have unknown: "unknown_arguments op arguments = [] \<longleftrightarrow> (\<forall>k \<in> set (map fst arguments). declared op k \<noteq> None)"
    by (auto simp: unknown_arguments_def filter_empty_conv simp flip: set_empty)
  have "declared op k = Some p \<Longrightarrow> k \<in> set (map pa_name (op_parameters op))" for k p
    by (auto simp: declared_def dest!: map_of_SomeD)
  then have missing: "missing_arguments op arguments = [] \<longleftrightarrow>
      (\<forall>k p. declared op k = Some p \<longrightarrow> pa_required p \<longrightarrow> k \<in> set (map fst arguments))"
    by (fastforce simp: missing_arguments_def filter_empty_conv simp flip: set_empty split: option.splits)
  have "find (\<lambda>k. \<not> variable_match k) (map fst arguments) = None \<longleftrightarrow> (\<forall>k \<in> set (map fst arguments). variable_match k)"
    by (auto simp: find_None_iff)
  with unknown missing show ?thesis by (auto simp: check_arguments_def split: option.splits)
qed

lemma http_call_inv:
  assumes "http_call_of nfkc call bound = Inr plan"
  obtains entry path query j rest where
    "find (\<lambda>item. call_name item = tc_name call) bound = Some entry"
    "check_arguments (bo_operation entry) (call_arguments (tc_arguments call)) = Inr ()"
    "placed (bo_operation entry) (call_arguments (tc_arguments call)) (op_path (bo_operation entry)) [] = Inr (path, query)"
    "check_body (bo_operation entry) (call_body (tc_arguments call)) = Inr ()"
    "joined_url nfkc (bo_base_url entry) path = Some j" "hp_url plan = j @ rest" "rest = [] \<longleftrightarrow> query = []" "rest \<noteq> [] \<longrightarrow> hd rest = 63"
    "hp_method plan = op_method (bo_operation entry)" "hp_read_only plan = read_only (bo_operation entry)"
    "hp_body plan = None \<longleftrightarrow> call_body (tc_arguments call) = None"
proof -
  obtain entry where entry: "find (\<lambda>item. call_name item = tc_name call) bound = Some entry"
    using assms by (auto simp: http_call_of_def split: option.splits)
  then obtain path query where steps:
    "check_arguments (bo_operation entry) (call_arguments (tc_arguments call)) = Inr ()"
    "placed (bo_operation entry) (call_arguments (tc_arguments call)) (op_path (bo_operation entry)) [] = Inr (path, query)"
    "check_body (bo_operation entry) (call_body (tc_arguments call)) = Inr ()"
    "request_plan nfkc entry path query (call_body (tc_arguments call)) = Inr plan"
    using assms by (auto simp: http_call_of_def Let_def bind_res_eq_Inr)
  then obtain j url bytes where plan: "joined_url nfkc (bo_base_url entry) path = Some j" "with_query j query = Inr url"
    "request_bytes (call_body (tc_arguments call)) = Inr bytes"
    "hp_url plan = url" "hp_body plan = bytes" "hp_method plan = op_method (bo_operation entry)"
    "hp_read_only plan = read_only (bo_operation entry)"
    by (auto simp: request_plan_def bind_res_eq_Inr split: option.splits)
  obtain rest where "url = j @ rest" "rest = [] \<longleftrightarrow> query = []" "rest \<noteq> [] \<longrightarrow> hd rest = 63"
    using plan(2) by (auto simp: with_query_def py_def split: if_splits option.splits)
  moreover have "bytes = None \<longleftrightarrow> call_body (tc_arguments call) = None"
    using plan(3) unfolding request_bytes_def by (cases "call_body (tc_arguments call)") (fastforce split: option.splits)+
  ultimately show ?thesis using that entry steps plan by auto
qed

text \<open>Every path an operation has was checked when its document was read.\<close>

definition path_ok :: "Operation \<Rightarrow> bool" where
  "path_ok op \<longleftrightarrow> checked_path (op_path op) = Inr (op_path op)"

lemma operation_of_path: "operation_of prn path method body = Inr op \<Longrightarrow> op_path op = path"
  by (auto simp: operation_of_def bind_res_eq_Inr split: option.splits json.splits if_splits)

lemma method_operations_paths:
  "method_operations prn path item found methods = Inr ops \<Longrightarrow> checked_path path = Inr path \<Longrightarrow>
   list_all path_ok found \<Longrightarrow> list_all path_ok ops"
proof (induction methods arbitrary: found)
  case (Cons verb verbs)
  show ?case
  proof (cases "\<exists>body. jget item verb = Some (JDict body)")
    case True
    then obtain body op where op: "operation_of prn path verb body = Inr op"
      "method_operations prn path item (found @ [op]) verbs = Inr ops"
      using Cons.prems(1) by (auto simp: bind_res_eq_Inr split: if_splits)
    have "path_ok op" using operation_of_path[OF op(1)] Cons.prems(2) by (simp add: path_ok_def)
    with Cons.IH[OF op(2)] Cons.prems(2,3) show ?thesis by simp
  next
    case False
    with Cons show ?thesis by (cases "jget item verb") (auto split: json.splits)
  qed
qed simp

lemma path_operations_paths:
  "path_operations prn found paths = Inr ops \<Longrightarrow> list_all path_ok found \<Longrightarrow> list_all path_ok ops"
proof (induction prn found paths rule: path_operations.induct)
  case (2 prn found raw_path raw_item rest)
  then obtain path where path: "checked_path raw_path = Inr path" by (auto simp: bind_res_eq_Inr)
  obtain item found' where steps: "raw_item = JDict item"
    "method_operations prn path item found SERVED_METHODS = Inr found'" "path_operations prn found' rest = Inr ops"
    using "2.prems"(1) path by (cases raw_item) (auto simp: bind_res_eq_Inr)
  have "checked_path path = Inr path" using path checked_path_same by metis
  then show ?case
    using "2.IH"[OF steps(1), of found'] steps(3) method_operations_paths[OF steps(2) _ "2.prems"(2)] by simp
qed simp

lemma parsed_paths_ok: "parse_document fl prn digest body = Inr document \<Longrightarrow> list_all path_ok (oa_operations document)"
  by (auto simp: parse_document_def operations_of_def bind_res_eq_Inr list_all_iff split: option.splits if_splits
      dest!: path_operations_paths)

section \<open>Properties\<close>

definition witness_operation :: Operation where
  "witness_operation =
     \<lparr>op_operation_id = py ''g'', op_method = py ''GET'', op_path = py ''/a/{id}'', op_summary = None,
      op_parameters = [\<lparr>pa_name = py ''id'', pa_location = PathLocation, pa_required = True, pa_schema = [],
                        pa_description = None\<rparr>],
      op_body_schema = None\<rparr>"

definition witness_entry :: BoundOperation where
  "witness_entry =
     \<lparr>bo_tool_name = py ''crm'', bo_version_id = 1, bo_base_url = py ''https://api.x/v2/'',
      bo_credential_ref = None, bo_operation = witness_operation\<rparr>"

definition witness_call :: "pystr \<Rightarrow> ToolCallBlock" where
  "witness_call id_value =
     \<lparr>tc_call_id = py ''1'', tc_name = py ''http.crm.g'', tc_arguments = [(py ''id'', JStr id_value)]\<rparr>"

lemma witness_url:
  "map_sum id hp_url (http_call_of (\<lambda>s. s) (witness_call (py ''x/y'')) [witness_entry]) =
     Inr (py ''https://api.x/v2/a/x%2Fy'')"
  by code_simp

text \<open>Two dots are not encoded, so that an argument does choose the directory above.\<close>

lemma dots_are_a_segment:
  "map_sum id hp_url (http_call_of (\<lambda>s. s) (witness_call (py ''..'')) [witness_entry]) =
     Inr (py ''https://api.x/v2/a/..'')"
  by code_simp

text \<open>A required parameter whose name is not a plain one, such as \<open>filter[status]\<close>, is taken from a
  document, and no call of its operation is ever composed.\<close>

lemma unusual_name_never_called:
  assumes "find (\<lambda>item. call_name item = tc_name call) bound = Some entry"
    "declared (bo_operation entry) k = Some p" "pa_required p" "\<not> variable_match k"
  shows "http_call_of nfkc call bound \<noteq> Inr plan"
proof
  assume "http_call_of nfkc call bound = Inr plan"
  then have "check_arguments (bo_operation entry) (call_arguments (tc_arguments call)) = Inr ()"
    using assms(1) by (auto elim!: http_call_inv)
  with assms(2-4) show False unfolding check_arguments_ok by blast
qed

lemma unusual_name_is_parsed:
  "\<exists>p. parameter_of (py ''g'') prn
     (JDict [(py ''name'', JStr (py ''f[s]'')), (py ''in'', JStr (py ''query'')), (py ''required'', JBool True)]) = Inr p \<and>
     pa_required p \<and> \<not> variable_match (pa_name p)"
  by (simp add: parameter_of_def py_def py_strip_def is_space_def location_of_def jget_or_def variable_match_def name_core_def
      name_char_def letter_or_underscore_def)

text \<open>A request is for the operation that was called, under the base address it was bound with:
  \<open>urlsplit\<close> reads it back as going to the scheme and the host of that address, its path is the
  operation's with the braces filled, and what follows the path is a query.\<close>

definition request_for :: "(pystr \<Rightarrow> pystr) \<Rightarrow> ToolCallBlock \<Rightarrow> Operation \<Rightarrow> pystr \<Rightarrow> HttpRequestPlan \<Rightarrow> bool" where
  "request_for nfkc call op base plan \<longleftrightarrow>
     hp_method plan = op_method op \<and> hp_read_only plan = read_only op \<and>
     (\<exists>b w filled rest.
        urlsplit nfkc base = Some b \<and> urlsplit nfkc (hp_url plan) = Some w \<and>
        url_scheme w = url_scheme b \<and> url_netloc w = url_netloc b \<and>
        hp_url plan = url_scheme b @ py ''://'' @ url_netloc b @ py_rstrip_of {47} (url_path b) @ filled @ rest \<and>
        same_segments (op_path op) filled \<and> (rest = [] \<or> hd rest = 63)) \<and>
     (\<forall>k \<in> fst ` set (tc_arguments call). k = py ''body'' \<or> declared op k \<noteq> None) \<and>
     (\<forall>k p. declared op k = Some p \<longrightarrow> pa_required p \<longrightarrow> k \<in> fst ` set (tc_arguments call)) \<and>
     (hp_body plan = None \<longleftrightarrow> op_body_schema op = None)"

lemma http_call_on_operation:
  assumes call: "http_call_of nfkc call bound = Inr plan"
    and paths: "\<forall>entry \<in> set bound. path_ok (bo_operation entry)"
    and bases: "\<forall>entry \<in> set bound. \<exists>b. urlsplit nfkc (bo_base_url entry) = Some b \<and> url_scheme b \<noteq> [] \<and> url_netloc b \<noteq> []"
  shows "\<exists>entry \<in> set bound. call_name entry = tc_name call \<and> request_for nfkc call (bo_operation entry) (bo_base_url entry) plan"
  using call
proof (rule http_call_inv)
  fix entry path query j rest
  assume found: "find (\<lambda>item. call_name item = tc_name call) bound = Some entry"
    and args: "check_arguments (bo_operation entry) (call_arguments (tc_arguments call)) = Inr ()"
    and place: "placed (bo_operation entry) (call_arguments (tc_arguments call)) (op_path (bo_operation entry)) [] = Inr (path, query)"
    and body: "check_body (bo_operation entry) (call_body (tc_arguments call)) = Inr ()"
    and url: "joined_url nfkc (bo_base_url entry) path = Some j" "hp_url plan = j @ rest" "rest \<noteq> [] \<longrightarrow> hd rest = 63"
    and plan: "hp_method plan = op_method (bo_operation entry)" "hp_read_only plan = read_only (bo_operation entry)"
      "hp_body plan = None \<longleftrightarrow> call_body (tc_arguments call) = None"
  have entry: "entry \<in> set bound" "call_name entry = tc_name call" using found by (auto simp: find_Some_iff)
  note asked = args[unfolded check_arguments_ok]
  have "list_all variable_match (map fst (call_arguments (tc_arguments call)))"
    using asked unfolding list_all_iff by blast
  with place have same: "same_segments (op_path (bo_operation entry)) path" by (rule placed_segments)
  have "path_ok (bo_operation entry)" using paths entry(1) by blast
  then have rooted: "path \<noteq> []" "hd path = 47"
    using same_segments_root[OF same] checked_path_same by (auto simp: path_ok_def)
  obtain b where b: "urlsplit nfkc (bo_base_url entry) = Some b" "url_scheme b \<noteq> []" "url_netloc b \<noteq> []"
    using bases entry(1) by blast
  obtain w where w: "urlsplit nfkc (hp_url plan) = Some w" "url_scheme w = url_scheme b" "url_netloc w = url_netloc b"
    using joined_url_same_host[OF b rooted url(1)] url(2) by auto
  have shape: "hp_url plan = url_scheme b @ py ''://'' @ url_netloc b @ py_rstrip_of {47} (url_path b) @ path @ rest"
    "rest = [] \<or> hd rest = 63"
    using url b(1) by (auto simp: joined_url_def)
  have sub: "set (map fst (call_arguments (tc_arguments call))) \<subseteq> fst ` set (tc_arguments call)"
    by (auto simp: call_arguments_def)
  have bodies: "hp_body plan = None \<longleftrightarrow> op_body_schema (bo_operation entry) = None"
    using plan(3) body by (auto simp: check_body_def split: if_splits)
  have known: "\<forall>k \<in> fst ` set (tc_arguments call). k = py ''body'' \<or> declared (bo_operation entry) k \<noteq> None"
    using asked by (fastforce simp: call_arguments_def)
  have present: "\<forall>k p. declared (bo_operation entry) k = Some p \<longrightarrow> pa_required p \<longrightarrow> k \<in> fst ` set (tc_arguments call)"
    using asked sub by blast
  show ?thesis
    unfolding request_for_def
    by (intro bexI[OF _ entry(1)] conjI exI[of _ b] exI[of _ w] exI[of _ path] exI[of _ rest])
      (fact entry plan b w shape same bodies known present)+
qed

definition witness_document :: pystr where
  "witness_document =
     py ''{\"openapi\":\"3\",\"info\":{},\"paths\":{\"/a/{id}\":{\"get\":{\"operationId\":\"g\",\"parameters\":[{\"name\":\"id\",\"in\":\"path\",\"schema\":{}}]}}}}''"

definition witness_paths :: jobject where
  "witness_paths =
     [(py ''/a/{id}'', JDict [(py ''get'', JDict
         [(py ''operationId'', JStr (py ''g'')),
          (py ''parameters'', JList [JDict [(py ''name'', JStr (py ''id'')), (py ''in'', JStr (py ''path'')),
                                            (py ''schema'', JDict [])]])])])]"

definition witness_object :: jobject where
  "witness_object = [(py ''openapi'', JStr (py ''3'')), (py ''info'', JDict []), (py ''paths'', JDict witness_paths)]"

lemma witness_loads:
  "json_loads fl witness_document =
     Some (JDict witness_object)"
  by code_simp

lemma witness_bytes: "utf8 witness_document = Some witness_document" "length witness_document = 126"
  by code_simp+

lemma witness_operations: "operations_of (\<lambda>c. True) witness_paths = Inr [witness_operation]"
  by code_simp

lemma witness_dumps:
  "utf8 (json_dumps (JDict witness_object)) \<noteq> None"
  by code_simp

definition witness_parse :: OpenApiDocument where
  "witness_parse = \<lparr>oa_title = [], oa_version = [], oa_operations = [witness_operation], oa_content_hash = []\<rparr>"

lemma witness_parsed: "parse_document fl (\<lambda>c. True) (\<lambda>b. []) witness_document = Inr witness_parse"
proof -
  obtain b where "utf8 (json_dumps (JDict witness_object)) = Some b"
    using witness_dumps by blast
  moreover have parts: "Open_Api.document_parts (Some (JDict witness_object)) = Inr (witness_object, [], witness_paths)"
    by (simp add: Open_Api.document_parts_def witness_object_def py_def)
  ultimately show ?thesis
    by (simp add: parse_document_def witness_bytes MAX_DOCUMENT_BYTES_def witness_loads parts
        witness_operations MAX_OPERATIONS_def content_hash_def witness_parse_def jget_or_def)
qed

end
