(* ===== verification/Delegation.thy ===== *)
theory Delegation
  imports Run_Budget Tool_Names Http_Calls
begin

text \<open>
  \<^verbatim>\<open>agents/domain/delegation.py\<close>: what a child Agent may do. A scope has six
  faces, each a set of names, and the only way scopes are combined is intersection. The stored
  form of a scope is a JSON object of lists of names (\<open>scope_document\<close>). Of a published
  \<open>AgentSpec\<close> the record keeps the fields the Run store and this module read.
\<close>

section \<open>Definitions\<close>

definition MAX_DELEGATION_DEPTH :: nat where "MAX_DELEGATION_DEPTH = 1"

datatype MemoryPermission = READ_PRIVATE | PROPOSE_PRIVATE

fun memory_value :: "MemoryPermission \<Rightarrow> pystr" where
  "memory_value READ_PRIVATE = py ''memory.read_private''"
| "memory_value PROPOSE_PRIVATE = py ''memory.propose_private''"

definition memory_permission :: "pystr \<Rightarrow> (py_error, MemoryPermission) result" where
  "memory_permission name =
     (if name = memory_value READ_PRIVATE then Inr READ_PRIVATE
      else if name = memory_value PROPOSE_PRIVATE then Inr PROPOSE_PRIVATE
      else Inl ValueError)"

record DelegationScope =
  ds_tools :: "pystr set"
  ds_files :: "pystr set"
  ds_network :: "pystr set"
  ds_secrets :: "pystr set"
  ds_skills :: "pystr set"
  ds_memory :: "MemoryPermission set"

definition no_scope :: DelegationScope where
  "no_scope = \<lparr>ds_tools = {}, ds_files = {}, ds_network = {}, ds_secrets = {}, ds_skills = {},
               ds_memory = {}\<rparr>"

definition scope_empty :: "DelegationScope \<Rightarrow> bool" where
  "scope_empty s \<longleftrightarrow>
     \<not> (ds_tools s \<noteq> {} \<or> ds_files s \<noteq> {} \<or> ds_network s \<noteq> {} \<or> ds_secrets s \<noteq> {} \<or>
        ds_skills s \<noteq> {} \<or> ds_memory s \<noteq> {})"

definition covers :: "DelegationScope \<Rightarrow> DelegationScope \<Rightarrow> bool" where
  "covers s other \<longleftrightarrow>
     ds_tools other \<subseteq> ds_tools s \<and> ds_files other \<subseteq> ds_files s \<and>
     ds_network other \<subseteq> ds_network s \<and> ds_secrets other \<subseteq> ds_secrets s \<and>
     ds_skills other \<subseteq> ds_skills s \<and> ds_memory other \<subseteq> ds_memory s"

text \<open>\<open>sorted(theirs - mine)\<close>, kept under the face's name when it is not empty.\<close>

definition face_missing :: "string \<Rightarrow> pystr set \<Rightarrow> pystr set \<Rightarrow> (pystr \<times> pystr list) list" where
  "face_missing face mine theirs =
     (let extra = sorted_list_of_set (theirs - mine)
      in if extra = [] then [] else [(py face, extra)])"

definition missing_from ::
  "DelegationScope \<Rightarrow> DelegationScope \<Rightarrow> (pystr \<times> pystr list) list" where
  "missing_from s other =
     face_missing ''tools'' (ds_tools s) (ds_tools other) @
     face_missing ''files'' (ds_files s) (ds_files other) @
     face_missing ''network'' (ds_network s) (ds_network other) @
     face_missing ''secrets'' (ds_secrets s) (ds_secrets other) @
     face_missing ''skills'' (ds_skills s) (ds_skills other) @
     face_missing ''memory'' (memory_value ` ds_memory s) (memory_value ` ds_memory other)"

type_synonym scope_document = "(pystr \<times> pystr list) list"

definition scope_to_document :: "DelegationScope \<Rightarrow> scope_document" where
  "scope_to_document s =
     [(py ''tools'', sorted_list_of_set (ds_tools s)),
      (py ''files'', sorted_list_of_set (ds_files s)),
      (py ''network'', sorted_list_of_set (ds_network s)),
      (py ''secrets'', sorted_list_of_set (ds_secrets s)),
      (py ''skills'', sorted_list_of_set (ds_skills s)),
      (py ''memory'', sorted_list_of_set (memory_value ` ds_memory s))]"

definition face :: "scope_document \<Rightarrow> string \<Rightarrow> pystr list" where
  "face document name = (case map_of document (py name) of None \<Rightarrow> [] | Some xs \<Rightarrow> xs)"

text \<open>The memory names this version knows; \<open>except ValueError: continue\<close> drops the rest.\<close>

definition known_memory :: "pystr list \<Rightarrow> MemoryPermission list" where
  "known_memory names =
     filter_map (\<lambda>n. case memory_permission n of Inl e \<Rightarrow> None | Inr p \<Rightarrow> Some p) names"

definition scope_from_document :: "scope_document \<Rightarrow> DelegationScope" where
  "scope_from_document document =
     \<lparr>ds_tools = set (face document ''tools''), ds_files = set (face document ''files''),
      ds_network = set (face document ''network''), ds_secrets = set (face document ''secrets''),
      ds_skills = set (face document ''skills''),
      ds_memory = set (known_memory (face document ''memory''))\<rparr>"

definition meet :: "DelegationScope \<Rightarrow> DelegationScope \<Rightarrow> DelegationScope" where
  "meet a b =
     \<lparr>ds_tools = ds_tools a \<inter> ds_tools b, ds_files = ds_files a \<inter> ds_files b,
      ds_network = ds_network a \<inter> ds_network b, ds_secrets = ds_secrets a \<inter> ds_secrets b,
      ds_skills = ds_skills a \<inter> ds_skills b, ds_memory = ds_memory a \<inter> ds_memory b\<rparr>"

fun intersect_scopes :: "DelegationScope list \<Rightarrow> DelegationScope" where
  "intersect_scopes [] = no_scope"
| "intersect_scopes (first # rest) = fold (\<lambda>scope acc. meet acc scope) rest first"

record ChildBinding =
  cb_alias :: pystr
  cb_tools :: "pystr list"
  cb_files :: "pystr list"
  cb_network :: "pystr list"
  cb_secrets :: "pystr list"
  cb_skills :: "pystr list"
  cb_memory :: "MemoryPermission list"

record DelegationPolicy =
  dp_children :: "ChildBinding list"
  dp_max_parallel :: nat

record AgentSpec =
  sp_tools :: "pystr list"
  sp_limits :: AgentLimits
  sp_endpoint :: "nat option"
  sp_network_allow :: "pystr list option"
  sp_skills :: "pystr list"
  sp_delegation :: "DelegationPolicy option"

definition scope_of_spec :: "AgentSpec \<Rightarrow> DelegationScope" where
  "scope_of_spec spec =
     no_scope\<lparr>ds_tools := set (sp_tools spec),
       ds_network := (case sp_network_allow spec of None \<Rightarrow> {} | Some allow \<Rightarrow> set allow),
       ds_skills := set (sp_skills spec),
       ds_memory := (if py ''memory.remember'' \<in> set (sp_tools spec)
                     then {READ_PRIVATE, PROPOSE_PRIVATE} else {READ_PRIVATE})\<rparr>"

definition asked_by :: "ChildBinding \<Rightarrow> DelegationScope" where
  "asked_by b =
     \<lparr>ds_tools = set (cb_tools b), ds_files = set (cb_files b), ds_network = set (cb_network b),
      ds_secrets = set (cb_secrets b), ds_skills = set (cb_skills b), ds_memory = set (cb_memory b)\<rparr>"

definition granted :: "AgentSpec \<Rightarrow> ChildBinding \<Rightarrow> DelegationScope" where
  "granted parent binding = intersect_scopes [scope_of_spec parent, asked_by binding]"

section \<open>What a round may use\<close>

text \<open>The tools a platform implements, the only names an Agent may bind, and the properties
  \<open>tools\<close>, \<open>granted_skills\<close> and \<open>granted_operations\<close> of
  \<open>ExecutionContext\<close>: what the Agent binds, narrowed by the scope of a delegated Run.\<close>

definition context_tools :: "DelegationScope option \<Rightarrow> AgentSpec \<Rightarrow> pystr list" where
  "context_tools delegated spec =
     (case delegated of
        None \<Rightarrow> sp_tools spec
      | Some scope \<Rightarrow> filter (\<lambda>name. name \<in> ds_tools scope) (sp_tools spec))"

definition granted_skills :: "DelegationScope option \<Rightarrow> pystr list \<Rightarrow> pystr list" where
  "granted_skills delegated skills =
     (case delegated of
        None \<Rightarrow> skills
      | Some scope \<Rightarrow> filter (\<lambda>version. version \<in> ds_skills scope) skills)"

definition granted_operations :: "DelegationScope option \<Rightarrow> BoundOperation list \<Rightarrow> BoundOperation list" where
  "granted_operations delegated operations =
     (case delegated of
        None \<Rightarrow> operations
      | Some scope \<Rightarrow>
          filter (\<lambda>operation. call_name operation \<in> ds_tools scope \<and>
            (case bo_credential_ref operation of
               None \<Rightarrow> True | Some ref \<Rightarrow> ref \<in> ds_secrets scope)) operations)"

section \<open>Facts\<close>

definition finite_scope :: "DelegationScope \<Rightarrow> bool" where
  "finite_scope s \<longleftrightarrow>
     finite (ds_tools s) \<and> finite (ds_files s) \<and> finite (ds_network s) \<and>
     finite (ds_secrets s) \<and> finite (ds_skills s) \<and> finite (ds_memory s)"

lemma covers_refl: "covers s s"
  by (simp add: covers_def)

lemma covers_trans: "covers a b \<Longrightarrow> covers b c \<Longrightarrow> covers a c"
  by (auto simp: covers_def)

lemma covers_meet: "covers s a \<or> covers s b \<Longrightarrow> covers s (meet a b)"
  by (auto simp: covers_def meet_def)

lemma meet_greatest: "covers a s \<Longrightarrow> covers b s \<Longrightarrow> covers (meet a b) s"
  by (auto simp: covers_def meet_def)

text \<open>The order the scopes form: the contract \<open>intersect\<close> is used through. A client that
  only combines scopes with a lower bound operation cannot widen one.\<close>

locale narrowing =
  fixes below :: "'s \<Rightarrow> 's \<Rightarrow> bool" and combine :: "'s \<Rightarrow> 's \<Rightarrow> 's"
  assumes refl: "below s s"
    and trans: "below a b \<Longrightarrow> below b c \<Longrightarrow> below a c"
    and left: "below (combine a b) a"
    and right: "below (combine a b) b"
begin

lemma fold_below_start: "below (fold (\<lambda>x acc. combine acc x) xs s) s"
proof (induction xs arbitrary: s)
  case Nil
  then show ?case by (simp add: refl)
next
  case (Cons x xs)
  then show ?case using left trans by (metis fold_simps(2))
qed

lemma fold_below_member: "x \<in> set xs \<Longrightarrow> below (fold (\<lambda>x acc. combine acc x) xs s) x"
proof (induction xs arbitrary: s)
  case (Cons y ys)
  then show ?case
    using fold_below_start[of ys "combine s y"] right trans by fastforce
qed simp

end

interpretation scopes: narrowing "\<lambda>a b. covers b a" meet
  by unfold_locales (auto simp: covers_refl covers_meet intro: covers_trans)

lemma memory_permission_value [simp]: "memory_permission (memory_value p) = Inr p"
  by (cases p) (simp_all add: memory_permission_def)

lemma memory_value_inj: "inj memory_value"
proof (rule injI)
  fix p q
  assume "memory_value p = memory_value q"
  then have "memory_permission (memory_value p) = memory_permission (memory_value q)" by simp
  then show "p = q" by simp
qed

lemma known_memory_values: "known_memory (map memory_value ps) = ps"
  by (induction ps) (simp_all add: known_memory_def)

lemma set_known_memory:
  assumes "set names = memory_value ` M"
  shows "set (known_memory names) = M"
proof -
  have "set (known_memory names) = {p. memory_value p \<in> set names}"
  proof (induction names)
    case (Cons n names)
    have "(case memory_permission n of Inl e \<Rightarrow> None | Inr p \<Rightarrow> Some p) = Some p \<longleftrightarrow> n = memory_value p"
      for p by (cases p) (auto simp: memory_permission_def)
    with Cons show ?case
      by (cases "memory_permission n") (auto simp: known_memory_def dest: sym)
  qed (simp add: known_memory_def)
  with assms show ?thesis using memory_value_inj by (auto dest: injD)
qed

lemma face_missing_empty_iff:
  "finite theirs \<Longrightarrow> face_missing f mine theirs = [] \<longleftrightarrow> theirs \<subseteq> mine"
  by (auto simp: face_missing_def Let_def)

lemma granted_faces:
  "ds_secrets (granted parent binding) = {}" "ds_files (granted parent binding) = {}"
  by (simp_all add: granted_def meet_def scope_of_spec_def no_scope_def)

lemma missing_from_Nil_iff:
  assumes "finite_scope other"
  shows "missing_from s other = [] \<longleftrightarrow> covers s other"
proof -
  have mem: "memory_value ` ds_memory other \<subseteq> memory_value ` ds_memory s \<longleftrightarrow>
      ds_memory other \<subseteq> ds_memory s"
    by (rule inj_image_subset_iff[OF memory_value_inj])
  show ?thesis
    using assms by (auto simp: missing_from_def face_missing_empty_iff finite_scope_def covers_def mem)
qed

section \<open>Properties\<close>

text \<open>
  Delegation cannot widen. Whatever scopes a chain combines, the result is inside each of
  them, an empty chain grants nothing, and what a child is granted is the widest scope inside
  both what its parent holds and what its binding asks for.
\<close>

theorem delegation_never_widens:
  "list_all (\<lambda>s. covers s (intersect_scopes scopes)) scopes \<and>
   scope_empty (intersect_scopes []) \<and>
   (covers (granted parent binding) s \<longleftrightarrow>
    covers (scope_of_spec parent) s \<and> covers (asked_by binding) s)"
proof -
  have "covers s (intersect_scopes scopes)" if "s \<in> set scopes" for s
  proof (cases scopes)
    case (Cons first rest)
    then show ?thesis
      using that scopes.fold_below_start[where xs = rest and s = first]
        scopes.fold_below_member[where xs = rest and s = first and x = s]
      by auto
  qed (use that in simp)
  moreover have "covers (granted parent binding) s \<longleftrightarrow>
    covers (scope_of_spec parent) s \<and> covers (asked_by binding) s"
    by (auto simp: granted_def covers_def meet_def)
  ultimately show ?thesis
    by (auto simp: list_all_iff scope_empty_def no_scope_def)
qed

text \<open>
  The refusal an author reads is exact: no face is reported missing exactly when the scope
  covers what was asked, and a scope written onto a child Run reads back as itself.
\<close>

theorem scope_documents:
  "finite_scope s \<Longrightarrow> scope_from_document (scope_to_document s) = s \<and>
   (missing_from holder s = [] \<longleftrightarrow> covers holder s)"
proof -
  assume fin: "finite_scope s"
  let ?d = "scope_to_document s"
  have faces: "set (face ?d ''tools'') = ds_tools s" "set (face ?d ''files'') = ds_files s"
    "set (face ?d ''network'') = ds_network s" "set (face ?d ''secrets'') = ds_secrets s"
    "set (face ?d ''skills'') = ds_skills s"
    "set (face ?d ''memory'') = memory_value ` ds_memory s"
    using fin by (simp_all add: face_def scope_to_document_def finite_scope_def)
  then have "scope_from_document ?d = s"
    using set_known_memory[OF faces(6)] by (simp add: scope_from_document_def)
  with missing_from_Nil_iff[OF fin] show ?thesis by blast
qed

theorem scope_documents_witness:
  "let s = no_scope\<lparr>ds_tools := {py ''shell.exec''}, ds_memory := {READ_PRIVATE}\<rparr>
   in scope_from_document (scope_to_document s) = s \<and> missing_from no_scope s \<noteq> []"
proof -
  let ?s = "no_scope\<lparr>ds_tools := {py ''shell.exec''}, ds_memory := {READ_PRIVATE}\<rparr>"
  have "finite_scope ?s" by (simp add: finite_scope_def no_scope_def)
  moreover have "\<not> covers no_scope ?s" by (simp add: covers_def no_scope_def)
  ultimately show ?thesis
    using scope_documents[of ?s no_scope] unfolding Let_def by blast
qed



end
