(* ===== verification/Interruption.thy ===== *)
theory Interruption
  imports Run_Messages Tool_Names
begin

text \<open>
  \<^verbatim>\<open>runs/domain/interruption.py\<close>: the round that was in flight when a Worker was
  lost, as it is written down with the call being sent, and what recovery puts into the
  transcript from it. \<open>changes_workspace\<close> is from
  \<^verbatim>\<open>tools/domain/files.py\<close>. Apostrophes and quotation marks aside, the texts are
  the source's.
\<close>

section \<open>Definitions\<close>

definition UNKNOWN_TEXT :: pystr where
  "UNKNOWN_TEXT = py (''interrupted: the platform stopped while this call was going out, so whether '' @
     ''it took effect is unknown; it may have. Before doing it again, check its '' @
     ''effect if you can, for example by reading back what it would have changed.'')"

definition SAME_KEY :: pystr where
  "SAME_KEY = py ('' Repeating exactly the same request (same operation, same arguments) sends it '' @
     ''with the same Idempotency-Key as the interrupted one, so an API that honours '' @
     ''that header applies it at most once. Any other request gets a new key.'')"

definition NOT_COMPLETED :: pystr where
  "NOT_COMPLETED = py (''not completed: the platform stopped earlier in this round, so this call may '' @
     ''not have run.'')"

definition LATER :: pystr where
  "LATER = py ''The platform stopped later in this round.''"

definition NOT_SAVED :: pystr where
  "NOT_SAVED = py ('' Its changes to /workspace/data, if any, were not saved: the workspace '' @
     ''continues from the last saved revision.'')"

record InFlightRound =
  if_assistant :: CanonicalMessage
  if_finished :: "ToolResultBlock list"
  if_call_id :: pystr
  if_idempotency_key :: "pystr option"
  if_fingerprint :: "pystr option"

definition optional_str :: "pystr option \<Rightarrow> json" where
  "optional_str v = (case v of None \<Rightarrow> JNull | Some s \<Rightarrow> JStr s)"

definition inflight_document :: "InFlightRound \<Rightarrow> jobject" where
  "inflight_document r =
     [(py ''assistant'', JDict (message_document (if_assistant r))),
      (py ''finished'', JList (map (\<lambda>b. JDict (block_document (BToolResult b))) (if_finished r))),
      (py ''call_id'', JStr (if_call_id r)),
      (py ''idempotency_key'', optional_str (if_idempotency_key r)),
      (py ''fingerprint'', optional_str (if_fingerprint r))]"

definition inflight_from_document ::
  "(nat \<Rightarrow> bool) \<Rightarrow> jobject \<Rightarrow> (py_error, InFlightRound) result" where
  "inflight_from_document prn document =
     (let finished_part = jget_or document (py ''finished'') JNull;
          parts = (if py_bool finished_part then finished_part else JList []);
          key = jget_or document (py ''idempotency_key'') JNull;
          fingerprint = jget_or document (py ''fingerprint'') JNull
      in
      bind_res
        (if py_bool parts
         then map_sum id m_blocks
                (message_from_document prn [(py ''role'', JStr (py ''tool'')), (py ''parts'', parts)])
         else Inr [])
        (\<lambda>finished.
      bind_res
        (case jget document (py ''assistant'') of
           None \<Rightarrow> Inl KeyError
         | Some (JDict d) \<Rightarrow> message_from_document prn d
         | Some _ \<Rightarrow> Inl AttributeError)
        (\<lambda>assistant.
      (case jget document (py ''call_id'') of
         None \<Rightarrow> Inl KeyError
       | Some c \<Rightarrow>
           Inr \<lparr>if_assistant = assistant,
                if_finished = filter_map result_of_block finished,
                if_call_id = py_str prn c,
                if_idempotency_key = (if key = JNull then None else Some (py_str prn key)),
                if_fingerprint =
                  (if fingerprint = JNull then None else Some (py_str prn fingerprint))\<rparr>))))"

definition calls_of :: "CanonicalMessage \<Rightarrow> ToolCallBlock list" where
  "calls_of m = filter_map call_of_block (m_blocks m)"

definition failed_answer :: "ToolCallBlock \<Rightarrow> pystr \<Rightarrow> ToolResultBlock" where
  "failed_answer call output =
     \<lparr>tr_call_id = tc_call_id call, tr_output = output, tr_exit_code = 1, tr_failed = True\<rparr>"

text \<open>\<open>{block.call_id: block for block in finished}\<close>: a later entry replaces an earlier.\<close>

definition finished_by_id :: "ToolResultBlock list \<Rightarrow> pystr \<Rightarrow> ToolResultBlock option" where
  "finished_by_id finished = map_of (rev (map (\<lambda>b. (tr_call_id b, b)) finished))"

definition answer_for ::
  "InFlightRound \<Rightarrow> bool \<Rightarrow> ToolCallBlock \<Rightarrow> ToolResultBlock" where
  "answer_for sending reached call =
     (if tc_call_id call = if_call_id sending then
        failed_answer call
          (UNKNOWN_TEXT @ (if if_idempotency_key sending \<noteq> None then SAME_KEY else []) @
           (if changes_workspace (tc_name call) then NOT_SAVED else []))
      else
        (case (if reached then None else finished_by_id (if_finished sending) (tc_call_id call)) of
           None \<Rightarrow>
             failed_answer call
               (NOT_COMPLETED @ (if changes_workspace (tc_name call) then NOT_SAVED else []))
         | Some done \<Rightarrow>
             if changes_workspace (tc_name call)
             then done\<lparr>tr_output :=
                    tr_output done @ [10, 10] @ py ''['' @ LATER @ NOT_SAVED @ py '']''\<rparr>
             else done))"

fun answers_for :: "InFlightRound \<Rightarrow> bool \<Rightarrow> ToolCallBlock list \<Rightarrow> ToolResultBlock list" where
  "answers_for sending reached [] = []"
| "answers_for sending reached (call # calls) =
     answer_for sending reached call #
     answers_for sending (reached \<or> tc_call_id call = if_call_id sending) calls"

definition told_after_interruption ::
  "InFlightRound \<Rightarrow> (py_error, CanonicalMessage \<times> CanonicalMessage) result" where
  "told_after_interruption sending =
     map_sum id (\<lambda>m. (if_assistant sending, m))
       (canonical_message RTool
          (map BToolResult (answers_for sending False (calls_of (if_assistant sending)))) None)"

section \<open>Lemmas\<close>

lemma finished_by_id_Some:
  "finished_by_id finished i = Some b \<Longrightarrow> b \<in> set finished \<and> tr_call_id b = i"
  by (auto simp: finished_by_id_def dest!: map_of_SomeD)

lemma answer_for_call_id: "tr_call_id (answer_for sending reached call) = tc_call_id call"
  by (auto simp: answer_for_def failed_answer_def dest: finished_by_id_Some split: option.splits)

lemma answers_for_call_ids:
  "map tr_call_id (answers_for sending reached calls) = map tc_call_id calls"
  by (induction calls arbitrary: reached) (simp_all add: answer_for_call_id)

lemma nth_answers_for:
  "i < length calls \<Longrightarrow>
   answers_for sending reached calls ! i =
   answer_for sending (reached \<or> (\<exists>j < i. tc_call_id (calls ! j) = if_call_id sending)) (calls ! i)"
proof (induction calls arbitrary: i reached)
  case (Cons call calls)
  show ?case
  proof (cases i)
    case (Suc k)
    have "(\<exists>j < Suc k. tc_call_id ((call # calls) ! j) = if_call_id sending) \<longleftrightarrow>
        tc_call_id call = if_call_id sending \<or>
        (\<exists>j < k. tc_call_id (calls ! j) = if_call_id sending)"
      by (auto simp: less_Suc_eq_0_disj)
    with Suc Cons show ?thesis by (simp add: disj_assoc)
  qed simp
qed simp

lemma length_answers_for [simp]: "length (answers_for sending reached calls) = length calls"
  by (induction calls arbitrary: reached) auto

lemma answered_ids_results:
  "answered_ids \<lparr>m_role = role, m_blocks = map BToolResult rs, m_author = a\<rparr> = map tr_call_id rs"
  by (simp add: answered_ids_def filter_map_map comp_def)

lemma called_ids_calls_of: "called_ids m = map tc_call_id (calls_of m)"
proof -
  have "map_option tc_call_id (call_of_block b) = called_id b" for b
    by (cases b) auto
  then show ?thesis
    by (simp add: called_ids_def calls_of_def map_filter_map)
qed

lemma filter_map_result_blocks: "filter_map result_of_block (map BToolResult rs) = rs"
  by (simp add: filter_map_map comp_def)

lemma finished_document_roundtrip:
  assumes "list_all (\<lambda>r. tr_call_id r \<noteq> []) rs" and "rs \<noteq> []"
  shows "message_from_document prn
      [(py ''role'', JStr (py ''tool'')),
       (py ''parts'', JList (map (\<lambda>b. JDict (block_document (BToolResult b))) rs))] =
    Inr \<lparr>m_role = RTool, m_blocks = map BToolResult rs, m_author = None\<rparr>"
proof -
  have "list_all wf_block (map BToolResult rs)"
    using assms(1) by (simp add: list_all_iff)
  from blocks_from_parts_roundtrip[OF this, of prn] assms(2) show ?thesis
    by (simp add: message_from_document_def canonical_message_def jget_or_def comp_def Let_def)
qed

section \<open>Properties\<close>

text \<open>
  C33. After an interruption the model is told about its whole turn: the turn itself, unchanged,
  and one answer for each call in it, in the order of the calls. Telling fails only for a turn
  with no call in it, which has nothing in flight.
\<close>

theorem told_answers_every_call:
  "(case told_after_interruption sending of
      Inl _ \<Rightarrow> called_ids (if_assistant sending) = []
    | Inr (assistant, answers) \<Rightarrow>
        assistant = if_assistant sending \<and> m_role answers = RTool \<and>
        called_ids assistant \<noteq> [] \<and> answered_ids answers = called_ids assistant)"
proof (cases "calls_of (if_assistant sending)")
  case Nil
  then show ?thesis
    by (simp add: told_after_interruption_def canonical_message_def called_ids_calls_of)
next
  case (Cons call calls)
  then have "answers_for sending False (calls_of (if_assistant sending)) \<noteq> []"
    by simp
  then show ?thesis
    using Cons
    by (simp add: told_after_interruption_def canonical_message_def called_ids_calls_of
        answered_ids_results answers_for_call_ids del: answers_for.simps)
qed

text \<open>
  C34. What each call is told. Up to the call that was being sent, a call whose answer had been
  recorded keeps it, exit code and all, with at most a note appended; the call being sent, every
  call after it, and a call with no recorded answer are answered as failed. So no answer
  claims success for work that may not have happened.
\<close>

theorem told_answers_honest:
  assumes "i < length (calls_of (if_assistant sending))"
  shows "let call = calls_of (if_assistant sending) ! i;
             answer = answers_for sending False (calls_of (if_assistant sending)) ! i;
             reached = (\<exists>j \<le> i. tc_call_id (calls_of (if_assistant sending) ! j) = if_call_id sending)
         in case (if reached then None else finished_by_id (if_finished sending) (tc_call_id call)) of
              None \<Rightarrow> tr_failed answer \<and> tr_exit_code answer = 1
            | Some b \<Rightarrow> b \<in> set (if_finished sending) \<and> tr_failed answer = tr_failed b \<and>
                tr_exit_code answer = tr_exit_code b \<and> (\<exists>note. tr_output answer = tr_output b @ note)"
proof -
  let ?calls = "calls_of (if_assistant sending)"
  have "(\<exists>j \<le> i. tc_call_id (?calls ! j) = if_call_id sending) \<longleftrightarrow>
      (\<exists>j < i. tc_call_id (?calls ! j) = if_call_id sending) \<or>
      tc_call_id (?calls ! i) = if_call_id sending"
    by (auto simp: le_less)
  then show ?thesis
    using assms
    by (auto simp: Let_def nth_answers_for answer_for_def failed_answer_def
        dest: finished_by_id_Some split: option.splits)
qed

definition example_sending :: InFlightRound where
  "example_sending =
     \<lparr>if_assistant = \<lparr>m_role = RAssistant,
        m_blocks = [BToolCall \<lparr>tc_call_id = py ''a'', tc_name = py ''http'', tc_arguments = []\<rparr>],
        m_author = None\<rparr>,
      if_finished = [], if_call_id = py ''a'', if_idempotency_key = None,
      if_fingerprint = None\<rparr>"

theorem told_answers_honest_witness:
  "tr_failed (answers_for example_sending False (calls_of (if_assistant example_sending)) ! 0)"
  using told_answers_honest[of 0 example_sending]
  by (simp add: example_sending_def calls_of_def Let_def)

text \<open>
  C35. The in-flight record survives storage: what recovery reads back is the round that was
  written down.
\<close>

theorem inflight_document_roundtrip:
  assumes "wf_message (if_assistant r)" and "list_all (\<lambda>b. tr_call_id b \<noteq> []) (if_finished r)"
  shows "inflight_from_document prn (inflight_document r) = Inr r"
proof (cases "if_finished r = []")
  case True
  then show ?thesis
    using message_document_roundtrip_lemma[OF assms(1)]
    by (cases r) (auto simp: inflight_from_document_def inflight_document_def jget_or_def
        optional_str_def Let_def split: option.splits)
next
  case False
  then show ?thesis
    using message_document_roundtrip_lemma[OF assms(1)]
      finished_document_roundtrip[OF assms(2) False, of prn]
    by (cases r) (auto simp: inflight_from_document_def inflight_document_def jget_or_def
        optional_str_def Let_def filter_map_result_blocks split: option.splits)
qed

theorem inflight_document_roundtrip_witness:
  "inflight_from_document (\<lambda>_. True) (inflight_document example_sending) = Inr example_sending"
  by (rule inflight_document_roundtrip) (simp_all add: example_sending_def wf_message_def)

end
