(* ===== verification/Approval_Rules.thy ===== *)
theory Approval_Rules
  imports Py_Json "HOL-Library.Multiset"
begin

text \<open>
  \<^verbatim>\<open>runs/domain/approval.py\<close> and \<^verbatim>\<open>runs/domain/approval_query.py\<close>: what a
  person approved, whether an old approval still covers a call, who may decide it, for how long
  it is good, and what one page of the queue may ask for. A call's arguments are decoded values,
  with strings as the keys of a mapping and \<open>PyOther\<close> for any object that is none of
  the kinds the source names. \<open>json.dumps\<close> with sorted keys is that of \<open>Py_Json\<close>; the digest
  \<open>hashlib.sha256\<close> is the argument \<open>digest\<close>.
\<close>

section \<open>Definitions\<close>

definition DEFAULT_VALIDITY :: timedelta where "DEFAULT_VALIDITY = timedelta_seconds (24 * 3600)"
definition MIN_VALIDITY :: timedelta where "MIN_VALIDITY = timedelta_seconds (5 * 60)"
definition MAX_VALIDITY :: timedelta where "MAX_VALIDITY = timedelta_seconds (7 * 24 * 3600)"

datatype ApprovalType = USER_CONFIRMATION | GOVERNANCE_APPROVAL

datatype ApprovalStatus = PENDING | APPROVED | REJECTED | EXPIRED

datatype ApprovalDecision = APPROVE | REJECT

datatype pyany =
    PyNone
  | PyBool bool
  | PyInt int
  | PyFloat pyfloat
  | PyStr pystr
  | PyDict "(pystr \<times> pyany) list"
  | PyList "pyany list"
  | PyOther

record NormalizedCall =
  nc_document :: jobject
  nc_content_hash :: pystr

datatype CallNotNormalizable = CallNotNormalizable pystr

fun value_of :: "pystr \<Rightarrow> pyany \<Rightarrow> (CallNotNormalizable, json) result" where
  "value_of name PyNone = Inr JNull"
| "value_of name (PyBool b) = Inr (JBool b)"
| "value_of name (PyInt i) = Inr (JInt i)"
| "value_of name (PyFloat f) = Inr (JFloat f)"
| "value_of name (PyStr s) = Inr (JStr s)"
| "value_of name (PyDict d) =
     map_sum id JDict
       (map_res (\<lambda>(key, item). map_sum id (Pair key) (value_of (name @ py ''.'' @ key) item)) d)"
| "value_of name (PyList xs) =
     map_sum id JList (map_res (\<lambda>item. value_of (name @ py ''[]'') item) xs)"
| "value_of name PyOther = Inl (CallNotNormalizable (name @ py '' has no stable representation''))"

definition optional_json :: "pystr option \<Rightarrow> json" where
  "optional_json v = (case v of None \<Rightarrow> JNull | Some s \<Rightarrow> JStr s)"

definition normalize_call ::
  "(pystr \<Rightarrow> pystr) \<Rightarrow> pystr \<Rightarrow> (pystr \<times> pyany) list \<Rightarrow> pystr option \<Rightarrow> pystr option \<Rightarrow>
   pystr option \<Rightarrow> (CallNotNormalizable, NormalizedCall) result" where
  "normalize_call digest tool arguments working_directory target required_permission =
     map_sum id
       (\<lambda>args.
          let document =
            [(py ''tool'', JStr tool), (py ''arguments'', JDict args),
             (py ''working_directory'', optional_json working_directory),
             (py ''target'', optional_json target),
             (py ''required_permission'', optional_json required_permission)]
          in \<lparr>nc_document = document, nc_content_hash = digest (json_dumps (JDict document))\<rparr>)
       (map_res (\<lambda>(name, item). map_sum id (Pair name) (value_of name item)) arguments)"

record Approval =
  ap_id :: nat
  ap_run_id :: nat
  ap_workspace_id :: nat
  ap_approval_type :: ApprovalType
  ap_status :: ApprovalStatus
  ap_tool :: pystr
  ap_content_hash :: pystr
  ap_document :: jobject
  ap_required_permission :: "pystr option"
  ap_requested_by :: nat
  ap_expires_at :: datetime
  ap_decided_by :: "nat option"
  ap_decided_at :: "datetime option"
  ap_decision_reason :: "pystr option"

definition is_still_valid :: "Approval \<Rightarrow> NormalizedCall \<Rightarrow> datetime \<Rightarrow> bool" where
  "is_still_valid approval call moment =
     (if ap_status approval \<noteq> ApprovalStatus.APPROVED then False
      else if ap_expires_at approval \<le> moment then False
      else ap_content_hash approval = nc_content_hash call)"

record Decider =
  de_user_id :: nat
  de_is_workspace_admin :: bool
  de_is_platform_admin :: bool
  de_is_run_end_user :: bool

definition may_decide :: "Approval \<Rightarrow> Decider \<Rightarrow> bool" where
  "may_decide approval decider =
     (if ap_approval_type approval = USER_CONFIRMATION
      then de_is_run_end_user decider \<and> de_user_id decider = ap_requested_by approval
      else de_is_workspace_admin decider \<or> de_is_platform_admin decider)"

definition validity_window :: "timedelta option \<Rightarrow> timedelta" where
  "validity_window configured =
     (case configured of
        None \<Rightarrow> DEFAULT_VALIDITY
      | Some c \<Rightarrow> max MIN_VALIDITY (min MAX_VALIDITY c))"

definition expires_at :: "datetime \<Rightarrow> timedelta option \<Rightarrow> datetime" where
  "expires_at now configured = now + validity_window configured"

subsection \<open>The queue's filter\<close>

definition DEFAULT_PAGE_SIZE :: int where "DEFAULT_PAGE_SIZE = 50"
definition MAX_PAGE_SIZE :: int where "MAX_PAGE_SIZE = 200"

datatype InvalidApprovalFilter =
  WindowReversed | NegativeOffset | EmptyPage | BlankTool

datatype QueueOrder = OLDEST_FIRST | NEWEST_FIRST

record ApprovalFilter =
  af_statuses :: "ApprovalStatus list"
  af_approval_type :: "ApprovalType option"
  af_tool :: "pystr option"
  af_decided_by :: "nat option"
  af_since :: "datetime option"
  af_until :: "datetime option"
  af_order :: QueueOrder
  af_limit :: int
  af_offset :: int

definition filter_for ::
  "ApprovalStatus list option \<Rightarrow> ApprovalType option \<Rightarrow> pystr option \<Rightarrow> nat option \<Rightarrow>
   datetime option \<Rightarrow> datetime option \<Rightarrow> QueueOrder option \<Rightarrow> int option \<Rightarrow> int \<Rightarrow>
   (InvalidApprovalFilter, ApprovalFilter) result" where
  "filter_for statuses approval_type tool decided_by since until order limit offset =
     (if (case (since, until) of (Some s, Some u) \<Rightarrow> s > u | _ \<Rightarrow> False) then Inl WindowReversed
      else if offset < 0 then Inl NegativeOffset
      else
        (let asked = (case limit of None \<Rightarrow> DEFAULT_PAGE_SIZE | Some l \<Rightarrow> l) in
         if asked < 1 then Inl EmptyPage
         else if (case tool of Some t \<Rightarrow> py_strip t = [] | None \<Rightarrow> False) then Inl BlankTool
         else Inr
           \<lparr>af_statuses = (case statuses of None \<Rightarrow> [ApprovalStatus.PENDING] | Some s \<Rightarrow> s),
            af_approval_type = approval_type, af_tool = tool, af_decided_by = decided_by,
            af_since = since, af_until = until,
            af_order = (case order of None \<Rightarrow> OLDEST_FIRST | Some r \<Rightarrow> r),
            af_limit = min asked MAX_PAGE_SIZE, af_offset = offset\<rparr>))"

section \<open>Lemmas\<close>

text \<open>A comprehension over a permuted list succeeds on the permuted results.\<close>

lemma map_res_perm:
  assumes "map_res f xs = Inr ys" and "mset xs' = mset xs"
  shows "\<exists>ys'. map_res f xs' = Inr ys' \<and> mset ys' = mset ys"
proof -
  define g where "g x = (case f x of Inl _ \<Rightarrow> undefined | Inr y \<Rightarrow> y)" for x
  have fg: "list_all2 (\<lambda>x y. f x = Inr y) xs ys"
    using assms(1) by (simp add: map_res_Inr_iff)
  have ys: "ys = map g xs" and ok: "x \<in> set xs \<Longrightarrow> f x = Inr (g x)" for x
    using fg by (induction rule: list_all2_induct) (auto simp: g_def)
  have "set xs' = set xs" using assms(2) by (metis set_mset_mset)
  with ok have "map_res f xs' = Inr (map g xs')"
    by (intro map_res_total) auto
  with ys assms(2) show ?thesis by auto
qed

lemma normalized_names:
  "map_res (\<lambda>(name, item). map_sum id (Pair name) (v name item)) arguments = Inr args \<Longrightarrow>
   map fst args = map fst arguments"
  by (induction arguments arbitrary: args) (auto split: sum.splits)

lemma sort_key_perm_eq:
  assumes "mset xs = mset ys" and "distinct (map f xs)"
  shows "sort_key f xs = sort_key f ys"
proof (rule sort_key_inj_key_eq)
  show "mset xs = mset (sort_key f ys)" using assms(1) by simp
  show "inj_on f (set xs)" using assms(2) by (simp add: distinct_map)
  show "sorted (map f (sort_key f ys))" by simp
qed

lemma json_dumps_perm:
  assumes "mset d = mset d'" and "distinct (map fst d)"
  shows "sort_json (JDict d) = sort_json (JDict d')"
proof -
  let ?f = "\<lambda>(k, v). (k, sort_json v)"
  have "mset (map ?f d) = mset (map ?f d')" using assms(1) by simp
  moreover have "distinct (map fst (map ?f d))"
  proof -
    have "map fst (map ?f d) = map fst d" by (induction d) auto
    then show ?thesis using assms(2) by (simp only:)
  qed
  ultimately have "sort_key fst (map ?f d) = sort_key fst (map ?f d')"
    by (rule sort_key_perm_eq)
  then show ?thesis by (simp only: sort_json.simps)
qed

text \<open>The document a call is hashed from, and how sorting it acts on its arguments.\<close>

definition normalized_document ::
  "pystr \<Rightarrow> jobject \<Rightarrow> pystr option \<Rightarrow> pystr option \<Rightarrow> pystr option \<Rightarrow> json" where
  "normalized_document tool args cwd target perm =
     JDict [(py ''tool'', JStr tool), (py ''arguments'', JDict args),
       (py ''working_directory'', optional_json cwd), (py ''target'', optional_json target),
       (py ''required_permission'', optional_json perm)]"

lemma normalize_call_document:
  "normalize_call digest tool arguments cwd target perm = Inr call \<longleftrightarrow>
   (\<exists>args. map_res (\<lambda>(name, item). map_sum id (Pair name) (value_of name item)) arguments = Inr args \<and>
     nc_content_hash call = digest (json_dumps (normalized_document tool args cwd target perm)) \<and>
     JDict (nc_document call) = normalized_document tool args cwd target perm)"
  by (cases call) (auto simp: normalize_call_def normalized_document_def Let_def)

lemma sort_normalized_document:
  "sort_json (normalized_document tool args cwd target perm) =
   JDict (sort_key fst
     [(py ''tool'', JStr tool), (py ''arguments'', sort_json (JDict args)),
      (py ''working_directory'', sort_json (optional_json cwd)),
      (py ''target'', sort_json (optional_json target)),
      (py ''required_permission'', sort_json (optional_json perm))])"
  by (simp only: normalized_document_def sort_json.simps list.map prod.case)

lemma validity_window_bounds:
  "MIN_VALIDITY \<le> validity_window c \<and> validity_window c \<le> MAX_VALIDITY"
  by (auto simp: validity_window_def MIN_VALIDITY_def MAX_VALIDITY_def DEFAULT_VALIDITY_def
      timedelta_seconds_def split: option.splits)

section \<open>Properties\<close>

text \<open>
  C38. The order in which a call's arguments arrive is no part of what was approved: the same
  arguments in any order normalize, and have the same hash.
\<close>

theorem normalize_call_order_irrelevant:
  assumes "normalize_call digest tool arguments cwd target perm = Inr call"
    and "distinct (map fst arguments)" and "mset arguments' = mset arguments"
  shows "\<exists>call'. normalize_call digest tool arguments' cwd target perm = Inr call' \<and>
    nc_content_hash call' = nc_content_hash call"
proof -
  let ?f = "\<lambda>(name, item). map_sum id (Pair name) (value_of name item)"
  from assms(1) obtain args where args: "map_res ?f arguments = Inr args"
    by (auto simp: normalize_call_def)
  with assms(3) obtain args' where args': "map_res ?f arguments' = Inr args'"
    "mset args' = mset args"
    using map_res_perm by blast
  have "distinct (map fst args)"
    using assms(2) normalized_names[OF args] by simp
  then have "sort_json (JDict args') = sort_json (JDict args)"
    using args'(2) json_dumps_perm[of args args'] by (simp only:)
  then have "json_dumps (normalized_document tool args' cwd target perm) =
      json_dumps (normalized_document tool args cwd target perm)"
    by (simp only: json_dumps_def sort_normalized_document)
  moreover define call' where "call' = \<lparr>nc_document =
      (case normalized_document tool args' cwd target perm of JDict d \<Rightarrow> d | _ \<Rightarrow> []),
    nc_content_hash = digest (json_dumps (normalized_document tool args' cwd target perm))\<rparr>"
  ultimately show ?thesis
    using args args'(1) assms(1)
    by (intro exI[of _ call']) (auto simp: normalize_call_document normalized_document_def)
qed

theorem normalize_call_order_irrelevant_witness:
  "\<exists>call'. normalize_call id (py ''http'')
      [(py ''b'', PyInt 1), (py ''a'', PyNone)] None None None = Inr call' \<and>
    nc_content_hash call' = nc_content_hash (projr (normalize_call id (py ''http'')
      [(py ''a'', PyNone), (py ''b'', PyInt 1)] None None None))"
  by (rule normalize_call_order_irrelevant[of _ _ "[(py ''a'', PyNone), (py ''b'', PyInt 1)]"])
    (simp_all add: normalize_call_def Let_def)


definition example_approval :: Approval where
  "example_approval =
     \<lparr>ap_id = 1, ap_run_id = 2, ap_workspace_id = 3, ap_approval_type = USER_CONFIRMATION,
      ap_status = ApprovalStatus.APPROVED, ap_tool = py ''http'', ap_content_hash = py ''h'',
      ap_document = [], ap_required_permission = None, ap_requested_by = 4,
      ap_expires_at = expires_at 0 (Some 1), ap_decided_by = Some 4, ap_decided_at = Some 0,
      ap_decision_reason = None\<rparr>"


text \<open>
  Who may decide. A confirmation belongs to the end user it was asked of and to nobody
  else, whatever powers a decider has; a governance approval belongs to administrators, and
  being the Run's end user counts for nothing there.
\<close>

theorem may_decide_separation:
  "(ap_approval_type approval = USER_CONFIRMATION \<longrightarrow>
      may_decide approval decider = may_decide approval
        (decider\<lparr>de_is_workspace_admin := a, de_is_platform_admin := b\<rparr>) \<and>
      (may_decide approval decider \<longrightarrow>
        de_user_id decider = ap_requested_by approval \<and> de_is_run_end_user decider)) \<and>
   (ap_approval_type approval = GOVERNANCE_APPROVAL \<longrightarrow>
      may_decide approval decider = may_decide approval
        (decider\<lparr>de_is_run_end_user := c, de_user_id := u\<rparr>) \<and>
      (may_decide approval decider \<longrightarrow>
        de_is_workspace_admin decider \<or> de_is_platform_admin decider))"
  by (simp add: may_decide_def)

theorem may_decide_separation_witness:
  "\<not> may_decide example_approval
     \<lparr>de_user_id = 5, de_is_workspace_admin = True, de_is_platform_admin = True,
      de_is_run_end_user = False\<rparr>"
  using may_decide_separation[of example_approval
      "\<lparr>de_user_id = 5, de_is_workspace_admin = True, de_is_platform_admin = True,
        de_is_run_end_user = False\<rparr>"]
  by (auto simp: example_approval_def)

text \<open>
  A page of the queue is refused exactly when its window is reversed, its offset negative,
  its size under one or its tool filter blank; a page that is served holds between one and two
  hundred rows.
\<close>

theorem filter_for_bounds:
  "(case filter_for statuses ty tool who since until order limit offset of
      Inr f \<Rightarrow> 1 \<le> af_limit f \<and> af_limit f \<le> 200 \<and> 0 \<le> af_offset f \<and>
        (case limit of None \<Rightarrow> af_limit f = 50 | Some l \<Rightarrow> af_limit f = min l 200)
    | Inl e \<Rightarrow> (\<exists>s u. since = Some s \<and> until = Some u \<and> u < s) \<or> offset < 0 \<or>
        (\<exists>l. limit = Some l \<and> l < 1) \<or> (\<exists>t. tool = Some t \<and> py_strip t = []))"
  by (auto simp: filter_for_def Let_def DEFAULT_PAGE_SIZE_def MAX_PAGE_SIZE_def
      split: option.splits)

end
