(* ===== verification/Run_Rows.thy ===== *)
theory Run_Rows
  imports Tables Py_Uuid Delegation Run_State_Machine Interruption Approval_Rules
begin

text \<open>
  The tables of \<^verbatim>\<open>runs/infrastructure/tables.py\<close> the Run store reads and writes,
  the \<open>Store\<close> that holds them, and the row helpers at the foot of
  \<^verbatim>\<open>sql_store.py\<close>. UUIDs are naturals below \<open>2 ^ 128\<close>. A stored message is
  kept as the message its document reads back as (\<^verbatim>\<open>Run_Messages\<close> proves the
  round trip). Left out are columns nothing here reads: the ids of messages and events, the
  trace context, search vectors, creation times of Sessions.
\<close>

section \<open>Rows\<close>

record RunRow =
  r_id :: nat
  r_workspace :: nat
  r_session :: nat
  r_agent_version :: nat
  r_status :: RunState
  r_purpose :: RunPurpose
  r_state_version :: nat
  r_next_event_sequence :: nat
  r_session_sequence :: nat
  r_blocked_by :: "nat option"
  r_pause_reason :: "PauseReason option"
  r_pause_requested_at :: "datetime option"
  r_cancel_requested_at :: "datetime option"
  r_wait_kind :: "pystr option"
  r_wait_policy :: "WaitPolicy option"
  r_wait_deadline_at :: "datetime option"
  r_retry_of :: "nat option"
  r_budget_root :: nat
  r_checkpoint :: "jobject option"
  r_checkpoint_replay_safe :: bool
  r_checkpoint_effect :: CheckpointEffectStatus
  r_checkpoint_revision :: "nat option"
  r_inflight_round :: "jobject option"
  r_interrupted_writes :: "(pystr \<times> pystr) list option"
  r_started_at :: "datetime option"
  r_finished_at :: "datetime option"
  r_queued_at :: datetime
  r_claimable_after :: "datetime option"
  r_updated_at :: datetime
  r_recovery_attempts :: nat
  r_last_heartbeat_at :: "datetime option"
  r_cleanup_target :: "WorkspaceCleanupTarget option"
  r_cleanup_sandbox :: "nat option"
  r_delivery_mode :: "pystr option"
  r_end_user :: "nat option"
  r_pricing_version :: "nat option"
  r_parent :: "nat option"
  r_depth :: nat
  r_delegation_scope :: "scope_document option"
  r_delegation_result :: "jobject option"
  r_result_delivered_at :: "datetime option"
  r_created_at :: datetime

record SessionRow =
  ss_id :: nat
  ss_workspace :: nat
  ss_agent :: nat
  ss_mode :: SessionMode
  ss_caller_type :: CallerType
  ss_caller_id :: nat
  ss_head :: "nat option"
  ss_next_run_sequence :: nat
  ss_next_message_sequence :: nat
  ss_revision :: "nat option"
  ss_compaction_requested_at :: "datetime option"

record SessionMessageRow =
  sm_session :: nat
  sm_workspace :: nat
  sm_sequence :: nat
  sm_message :: CanonicalMessage
  sm_source_run :: "nat option"
  sm_redacted :: bool
  sm_withdrawn_at :: "datetime option"
  sm_created_at :: datetime

record WorkerLeaseRow =
  l_id :: nat
  l_run :: nat
  l_worker :: pystr
  l_acquired_at :: datetime
  l_expires_at :: datetime
  l_released_at :: "datetime option"
  l_version :: nat

record RunEventRow =
  e_run :: nat
  e_workspace :: nat
  e_sequence :: nat
  e_type :: RunEventType
  e_payload :: jobject
  e_occurred_at :: datetime

record WorkspaceRow =
  w_id :: nat
  w_max_running :: "nat option"
  w_max_running_per_caller :: "nat option"
  w_max_run_cost :: "rat option"
  w_cost_currency :: "pystr option"

record AgentRow =
  ag_id :: nat
  ag_workspace :: nat
  ag_alias :: pystr
  ag_current_version :: "nat option"

record AgentVersionRow =
  av_id :: nat
  av_agent :: nat
  av_spec :: AgentSpec

record ModelPricingVersionRow =
  pv_id :: nat
  pv_endpoint :: nat
  pv_effective_at :: datetime
  pv_version_number :: nat

record ArtifactRow =
  ar_id :: nat
  ar_workspace :: nat
  ar_run :: nat
  ar_created_at :: datetime

record ArtifactGrantRow =
  gr_workspace :: nat
  gr_artifact :: nat
  gr_run :: nat
  gr_reason :: pystr

record AuditEventRow =
  au_workspace :: nat
  au_actor_type :: pystr
  au_actor :: "nat option"
  au_action :: pystr
  au_resource_type :: pystr
  au_resource :: nat
  au_result :: pystr
  au_request :: pystr
  au_context :: jobject

record CallerIdentity =
  ca_type :: CallerType
  ca_id :: nat

record RunCapabilities =
  can_control :: bool
  can_retry :: bool
  can_hold_budget :: bool

record ReservedEvent =
  re_type :: RunEventType
  re_payload :: jobject

section \<open>Constants and helpers\<close>

definition IDEMPOTENCY_RETENTION :: timedelta where
  "IDEMPOTENCY_RETENTION = timedelta_seconds (24 * 3600)"

definition MAX_CHILD_SUMMARY :: nat where "MAX_CHILD_SUMMARY = 4000"

definition CLAIM_ATTEMPTS :: nat where "CLAIM_ATTEMPTS = 5"

definition CHAT_COMPLETIONS :: pystr where "CHAT_COMPLETIONS = py ''chat_completions''"

definition WAITING_HEAD_STATES :: "RunState set" where
  "WAITING_HEAD_STATES = {PAUSED, WAITING_APPROVAL, WAITING_EXTERNAL}"

definition CANCELLABLE_STATUSES :: "RunState set" where
  "CANCELLABLE_STATUSES = fst ` fst ` set (filter (\<lambda>row. snd (fst row) = CANCEL_REQUESTED) TRANSITIONS)"

fun RunState_value :: "RunState \<Rightarrow> pystr" where
  "RunState_value RunState.QUEUED = py ''queued''"
| "RunState_value RUNNING = py ''running''"
| "RunState_value WAITING_APPROVAL = py ''waiting_approval''"
| "RunState_value WAITING_EXTERNAL = py ''waiting_external''"
| "RunState_value PAUSED = py ''paused''"
| "RunState_value CANCELLING = py ''cancelling''"
| "RunState_value RunState.INTERRUPTED = py ''interrupted''"
| "RunState_value RunState.COMPLETED = py ''completed''"
| "RunState_value RunState.FAILED = py ''failed''"
| "RunState_value CANCELLED = py ''cancelled''"

fun CallerType_value :: "CallerType \<Rightarrow> pystr" where
  "CallerType_value USER = py ''user''"
| "CallerType_value SERVICE_ACCOUNT = py ''service_account''"
| "CallerType_value END_USER = py ''end_user''"

definition failure_reason :: "jobject option \<Rightarrow> pystr option" where
  "failure_reason checkpoint =
     (case checkpoint of
        None \<Rightarrow> None
      | Some c \<Rightarrow>
          if c = [] then None
          else (case map_of c (py ''failure'') of
                  Some (JStr s) \<Rightarrow> if s = [] then None else Some s
                | _ \<Rightarrow> None))"

definition slice_payload :: "int \<Rightarrow> jobject option \<Rightarrow> jobject" where
  "slice_payload executed_ms checkpoint =
     (py ''executed_ms'', JInt executed_ms) #
     (case failure_reason checkpoint of
        None \<Rightarrow> [] | Some reason \<Rightarrow> [(py ''failure_reason'', JStr reason)])"

definition usage_quality :: "jobject option \<Rightarrow> pystr option" where
  "usage_quality checkpoint =
     (case checkpoint of
        None \<Rightarrow> None
      | Some c \<Rightarrow> (case map_of c (py ''usage_quality'') of Some (JStr s) \<Rightarrow> Some s | _ \<Rightarrow> None))"

definition checkpoint_int :: "string \<Rightarrow> jobject option \<Rightarrow> int option" where
  "checkpoint_int name checkpoint =
     (case checkpoint of
        None \<Rightarrow> None
      | Some c \<Rightarrow> (case map_of c (py name) of Some (JInt n) \<Rightarrow> Some n | _ \<Rightarrow> None))"

definition cached_input_tokens :: "jobject option \<Rightarrow> int option" where
  "cached_input_tokens = checkpoint_int ''cached_input_tokens''"

definition checkpoint_round :: "jobject option \<Rightarrow> int option" where
  "checkpoint_round = checkpoint_int ''round''"

definition goal_outcome :: "jobject option \<Rightarrow> pystr option" where
  "goal_outcome checkpoint =
     (case checkpoint of
        None \<Rightarrow> None
      | Some c \<Rightarrow>
          (case map_of c (py ''goal_outcome'') of
             Some (JStr s) \<Rightarrow> if s = [] then None else Some s | _ \<Rightarrow> None))"

definition goal_preempted :: "jobject option \<Rightarrow> bool" where
  "goal_preempted checkpoint =
     (case checkpoint of
        None \<Rightarrow> False | Some c \<Rightarrow> map_of c (py ''goal_preempted'') = Some (JBool True))"

definition goal_unmet :: "jobject option \<Rightarrow> pystr list" where
  "goal_unmet checkpoint =
     (case checkpoint of
        None \<Rightarrow> []
      | Some c \<Rightarrow>
          (case map_of c (py ''goal_unmet'') of
             Some (JList names) \<Rightarrow>
               filter_map (\<lambda>n. case n of JStr s \<Rightarrow> Some s | _ \<Rightarrow> None) names
           | _ \<Rightarrow> []))"

definition apply_decision :: "StateDecision \<Rightarrow> datetime \<Rightarrow> RunRow \<Rightarrow> RunRow" where
  "apply_decision d now run =
     run\<lparr>r_queued_at := (if d_state d = RunState.QUEUED \<and> r_status run \<noteq> RunState.QUEUED
                         then now else r_queued_at run),
         r_status := d_state d,
         r_pause_reason := d_pause_reason d,
         r_wait_kind := d_wait_kind d,
         r_wait_deadline_at := d_wait_deadline_at d,
         r_pause_requested_at :=
           (let set_at = (if d_set_pause_requested d then Some now else r_pause_requested_at run)
            in if d_clear_pause_request d then None else set_at),
         r_cancel_requested_at :=
           (let set_at = (if d_set_cancel_requested d then Some now else r_cancel_requested_at run)
            in if d_clear_cancel_request d then None else set_at),
         r_started_at := (if d_starts_execution d \<and> r_started_at run = None
                          then Some now else r_started_at run),
         r_finished_at := (if is_terminal d then Some now else r_finished_at run),
         r_blocked_by := (if is_terminal d then None else r_blocked_by run)\<rparr>"

definition queue_position ::
  "nat \<Rightarrow> RunState \<Rightarrow> (nat \<times> RunState) list \<Rightarrow> nat option \<Rightarrow> nat \<times> QueueStatus" where
  "queue_position run_id state pending head =
     (if state \<in> TERMINAL_STATES then (0, TERMINAL)
      else
        let position = (case find_index (\<lambda>p. fst p = run_id) pending of None \<Rightarrow> 0 | Some i \<Rightarrow> i + 1)
        in if head = Some run_id then (position, HEAD)
           else case find (\<lambda>p. Some (fst p) = head) pending of
             None \<Rightarrow> (position, QueueStatus.PENDING)
           | Some p \<Rightarrow>
               if snd p \<in> WAITING_HEAD_STATES then (position, SESSION_BLOCKED)
               else (position, QueueStatus.PENDING))"

definition denial_code :: "RunStateError \<Rightarrow> pystr" where
  "denial_code e =
     (if e = RunLimitReached then py ''retry_budget_exhausted'' else py ''invalid_state_transition'')"

datatype Relation = RelRetry | RelRoot | RelChild

definition relation_of :: "nat \<Rightarrow> nat \<Rightarrow> nat option \<Rightarrow> Relation" where
  "relation_of run_id root_id retry_of =
     (if retry_of \<noteq> None then RelRetry else if run_id = root_id then RelRoot else RelChild)"

end
