(* ===== verification/Run_Snapshots.thy ===== *)
theory Run_Snapshots
  imports Run_Rows
begin

text \<open>
  The \<open>Store\<close>, all tables of the Run store together, and its reads: the rows by key, the
  unfinished Runs of a Session in their order, what stands in the way of a retry, and the
  snapshot a caller is given of a Run (\<open>_snapshot\<close> and what it calls in
  \<^verbatim>\<open>sql_store.py\<close>; \<open>RunSnapshot\<close> of
  \<^verbatim>\<open>runs/domain/models.py\<close>). A response kept for replay is the snapshot itself,
  for its document is a function of it. The clock is an argument, read once per operation.
\<close>

section \<open>The store\<close>

datatype StoreError =
    UnknownRun | UnknownSession | StateVersionConflict | LeaseLost
  | StateError RunStateError | DeniedRunControl pystr | ForbiddenRunAction | BudgetNotWidened
  | EventSequenceConflict | IdempotencyKeyReused | AgentNotPublished | SessionAgentNotFound
  | RetryNotSafe | RetryLimitReached | RetryBudgetExhausted | RetryContextStale
  | PyError py_error

record RunSnapshot =
  sn_run :: RunRow
  sn_agent :: nat
  sn_input_preview :: "pystr option"
  sn_last_event_sequence :: nat
  sn_queue_position :: nat
  sn_queue_status :: QueueStatus
  sn_budget :: BudgetRow
  sn_available_actions :: "RunAction list"
  sn_usage_quality :: "pystr option"
  sn_cached_input_tokens :: "int option"
  sn_failure_reason :: "pystr option"
  sn_current_round :: "int option"
  sn_goal_outcome :: "pystr option"
  sn_goal_unmet :: "pystr list"
  sn_goal_preempted :: bool
  sn_head_status :: "RunState option"
  sn_head_pause_reason :: "PauseReason option"
  sn_head_wait_kind :: "pystr option"
  sn_head_wait_deadline_at :: "datetime option"
  sn_head_actions :: "RunAction list"
  sn_children :: "(nat \<times> RunState) list"

record IdempotencyRecordRow =
  k_workspace :: nat
  k_caller_type :: CallerType
  k_caller_id :: nat
  k_endpoint :: pystr
  k_key :: pystr
  k_fingerprint :: pystr
  k_run :: "nat option"
  k_response :: "RunSnapshot option"
  k_expires_at :: "datetime option"

record Store =
  st_workspaces :: "WorkspaceRow list"
  st_agents :: "AgentRow list"
  st_versions :: "AgentVersionRow list"
  st_prices :: "ModelPricingVersionRow list"
  st_sessions :: "SessionRow list"
  st_runs :: "RunRow list"
  st_budgets :: "BudgetRow list"
  st_leases :: "WorkerLeaseRow list"
  st_messages :: "SessionMessageRow list"
  st_events :: "RunEventRow list"
  st_idempotency :: "IdempotencyRecordRow list"
  st_approvals :: "Approval list"
  st_artifacts :: "ArtifactRow list"
  st_grants :: "ArtifactGrantRow list"
  st_audit :: "AuditEventRow list"

section \<open>Reads\<close>

definition live :: "RunRow \<Rightarrow> bool" where
  "live r \<longleftrightarrow> r_status r \<notin> TERMINAL_STATES"

definition lookup_run :: "nat \<Rightarrow> Store \<Rightarrow> RunRow option" where
  "lookup_run run_id st = lookup r_id run_id (st_runs st)"

definition lookup_session :: "nat \<Rightarrow> Store \<Rightarrow> SessionRow option" where
  "lookup_session session_id st = lookup ss_id session_id (st_sessions st)"

definition lookup_budget :: "nat \<Rightarrow> Store \<Rightarrow> BudgetRow option" where
  "lookup_budget root_id st = lookup b_root_run_id root_id (st_budgets st)"

definition lock_run :: "nat \<Rightarrow> nat \<Rightarrow> Store \<Rightarrow> RunRow option" where
  "lock_run workspace_id run_id st =
     find (\<lambda>r. r_id r = run_id \<and> r_workspace r = workspace_id) (st_runs st)"

definition lock_session :: "nat \<Rightarrow> nat \<Rightarrow> Store \<Rightarrow> SessionRow option" where
  "lock_session workspace_id session_id st =
     find (\<lambda>s. ss_id s = session_id \<and> ss_workspace s = workspace_id) (st_sessions st)"

definition lock_lease :: "nat \<Rightarrow> nat \<Rightarrow> Store \<Rightarrow> WorkerLeaseRow option" where
  "lock_lease lease_id run_id st = find (\<lambda>l. l_id l = lease_id \<and> l_run l = run_id) (st_leases st)"

text \<open>The unfinished Runs of a Session, in the order of their sequence.\<close>

definition pending_runs :: "nat \<Rightarrow> Store \<Rightarrow> RunRow list" where
  "pending_runs session_id st =
     sort_key r_session_sequence (filter (\<lambda>r. r_session r = session_id \<and> live r) (st_runs st))"

definition state_view :: "RunRow \<Rightarrow> BudgetRow \<Rightarrow> datetime \<Rightarrow> RunStateView" where
  "state_view run budget now =
     \<lparr>v_state = r_status run, v_pause_reason = r_pause_reason run, v_wait_kind = r_wait_kind run,
      v_wait_deadline_at = r_wait_deadline_at run,
      v_pause_requested = r_pause_requested_at run \<noteq> None,
      v_cancel_requested = r_cancel_requested_at run \<noteq> None,
      v_budget_allows_execution = allows_execution budget now\<rparr>"

definition successor_candidates :: "nat \<Rightarrow> nat \<Rightarrow> Store \<Rightarrow> RunRow option" where
  "successor_candidates session_id run_id st =
     first_row (\<lambda>r. r_session r = session_id \<and> r_id r \<noteq> run_id \<and> live r) r_session_sequence
       (st_runs st)"

definition has_waiting_run :: "nat \<Rightarrow> nat \<Rightarrow> datetime option \<Rightarrow> Store \<Rightarrow> bool" where
  "has_waiting_run session_id run_id run_started_at st =
     (case run_started_at of
        None \<Rightarrow> False
      | Some started \<Rightarrow>
          (case successor_candidates session_id run_id st of
             None \<Rightarrow> False
           | Some successor \<Rightarrow>
               if r_status successor \<noteq> RunState.QUEUED then False
               else list_ex (\<lambda>r. r_session r = session_id \<and> r_id r \<noteq> run_id \<and>
                      r_status r = RunState.QUEUED \<and> r_created_at r > started) (st_runs st)))"

datatype UnfinishedWork = UQueued | URunning | UParked "(nat \<times> nat) list"

definition unfinished_work :: "nat \<Rightarrow> Store \<Rightarrow> UnfinishedWork option" where
  "unfinished_work session_id st =
     (let rows = filter (\<lambda>r. r_session r = session_id \<and> live r) (st_runs st);
          head = Option.bind (lookup_session session_id st) ss_head
      in if rows = [] then None
         else case find (\<lambda>r. Some (r_id r) = head) rows of
           None \<Rightarrow> Some UQueued
         | Some at_head \<Rightarrow>
             if r_status at_head \<notin> WAITING_HEAD_STATES then Some URunning
             else if list_ex (\<lambda>r. r_status r \<notin> CANCELLABLE_STATUSES) rows then Some URunning
             else Some (UParked (map (\<lambda>r. (r_id r, r_state_version r))
                    (sort_key r_session_sequence (filter (\<lambda>r. Some (r_id r) \<noteq> head) rows) @ [at_head]))))"

definition latest_sequence :: "nat \<Rightarrow> Store \<Rightarrow> nat option" where
  "latest_sequence session_id st =
     (case map r_session_sequence (filter (\<lambda>r. r_session r = session_id) (st_runs st)) of
        [] \<Rightarrow> None | n # ns \<Rightarrow> Some (fold max ns n))"

definition retry_blocker :: "datetime \<Rightarrow> RunRow \<Rightarrow> SessionRow \<Rightarrow> BudgetRow \<Rightarrow> Store \<Rightarrow> StoreError option" where
  "retry_blocker now run session budget st =
     (if r_status run \<noteq> RunState.FAILED then Some RetryNotSafe
      else if \<not> r_checkpoint_replay_safe run then Some RetryNotSafe
      else if r_checkpoint_effect run = CheckpointEffectStatus.UNKNOWN then Some RetryNotSafe
      else if b_derived_retry_count budget \<ge> b_max_derived_retries budget then Some RetryLimitReached
      else if \<not> allows_execution budget now then Some RetryBudgetExhausted
      else if b_consumed_tool_calls budget \<ge> b_max_tool_calls budget then Some RetryBudgetExhausted
      else if (case latest_sequence (r_session run) st of
                 None \<Rightarrow> False | Some n \<Rightarrow> n \<noteq> r_session_sequence run) then Some RetryContextStale
      else if ss_revision session \<noteq> r_checkpoint_revision run then Some RetryContextStale
      else None)"

definition blocked_head_fields ::
  "datetime \<Rightarrow> QueueStatus \<Rightarrow> RunRow \<Rightarrow> RunCapabilities \<Rightarrow> Store \<Rightarrow> (RunRow \<times> RunAction list) option" where
  "blocked_head_fields now queue_status run caps st =
     (if queue_status \<noteq> SESSION_BLOCKED then None
      else case Option.bind (r_blocked_by run) (\<lambda>h. lookup_run h st) of
        None \<Rightarrow> None
      | Some head \<Rightarrow>
          (case lookup_budget (r_budget_root head) st of
             None \<Rightarrow> None
           | Some budget \<Rightarrow>
               Some (head, available_actions (state_view head budget now) (can_control caps) False
                             (can_hold_budget caps))))"

definition child_refs :: "RunRow \<Rightarrow> Store \<Rightarrow> (nat \<times> RunState) list" where
  "child_refs run st =
     (if r_depth run \<ge> MAX_DELEGATION_DEPTH then []
      else map (\<lambda>r. (r_id r, r_status r))
             (sort_key (\<lambda>r. (r_created_at r, r_id r)) (filter (\<lambda>r. r_parent r = Some (r_id run)) (st_runs st))))"

definition input_preview :: "RunRow \<Rightarrow> Store \<Rightarrow> pystr option" where
  "input_preview run st =
     map_option (\<lambda>m. take 160 (message_text (sm_message m)))
       (first_row (\<lambda>m. sm_source_run m = Some (r_id run) \<and> sm_workspace m = r_workspace run \<and>
            m_role (sm_message m) = RUser \<and> \<not> sm_redacted m \<and> sm_withdrawn_at m = None)
          sm_sequence (st_messages st))"

definition snapshot ::
  "datetime \<Rightarrow> RunCapabilities \<Rightarrow> RunRow \<Rightarrow> Store \<Rightarrow> (StoreError, RunSnapshot) result" where
  "snapshot now caps run st =
     (case (lookup_session (r_session run) st, lookup_budget (r_budget_root run) st) of
        (Some session, Some budget) \<Rightarrow>
          let pending = map (\<lambda>r. (r_id r, r_status r)) (pending_runs (r_session run) st);
              queue = queue_position (r_id run) (r_status run) pending (ss_head session);
              retry_allowed = (can_retry caps \<and> retry_blocker now run session budget st = None);
              blocked = blocked_head_fields now (snd queue) run caps st;
              checkpoint = r_checkpoint run
          in Inr \<lparr>sn_run = run, sn_agent = ss_agent session, sn_input_preview = input_preview run st,
               sn_last_event_sequence = r_next_event_sequence run - 1,
               sn_queue_position = fst queue, sn_queue_status = snd queue, sn_budget = budget,
               sn_available_actions = available_actions (state_view run budget now)
                 (can_control caps) retry_allowed (can_hold_budget caps),
               sn_usage_quality = usage_quality checkpoint,
               sn_cached_input_tokens = cached_input_tokens checkpoint,
               sn_failure_reason = failure_reason checkpoint,
               sn_current_round = checkpoint_round checkpoint,
               sn_goal_outcome = goal_outcome checkpoint, sn_goal_unmet = goal_unmet checkpoint,
               sn_goal_preempted = goal_preempted checkpoint,
               sn_head_status = map_option (\<lambda>b. r_status (fst b)) blocked,
               sn_head_pause_reason = Option.bind blocked (\<lambda>b. r_pause_reason (fst b)),
               sn_head_wait_kind = Option.bind blocked (\<lambda>b. r_wait_kind (fst b)),
               sn_head_wait_deadline_at = Option.bind blocked (\<lambda>b. r_wait_deadline_at (fst b)),
               sn_head_actions = (case blocked of None \<Rightarrow> [] | Some b \<Rightarrow> snd b),
               sn_children = child_refs run st\<rparr>
      | _ \<Rightarrow> Inl UnknownSession)"

definition get_run ::
  "datetime \<Rightarrow> nat \<Rightarrow> nat \<Rightarrow> RunCapabilities \<Rightarrow> Store \<Rightarrow> (StoreError, RunSnapshot option) result" where
  "get_run now workspace_id run_id caps st =
     (case lock_run workspace_id run_id st of
        None \<Rightarrow> Inr None
      | Some run \<Rightarrow> map_sum id Some (snapshot now caps run st))"

record TreeNode =
  tn_id :: nat
  tn_status :: RunState
  tn_depth :: nat
  tn_parent :: "nat option"
  tn_relation :: Relation

definition run_tree :: "nat \<Rightarrow> nat \<Rightarrow> Store \<Rightarrow> (nat \<times> TreeNode list \<times> BudgetRow) option" where
  "run_tree workspace_id run_id st =
     (case lock_run workspace_id run_id st of
        None \<Rightarrow> None
      | Some run \<Rightarrow>
          let root_id = r_budget_root run;
              rows = sort_key (\<lambda>r. (r_depth r, r_created_at r, r_id r))
                (filter (\<lambda>r. r_workspace r = workspace_id \<and> r_budget_root r = root_id) (st_runs st))
          in map_option (\<lambda>budget. (root_id,
               map (\<lambda>r. \<lparr>tn_id = r_id r, tn_status = r_status r, tn_depth = r_depth r,
                         tn_parent = r_parent r, tn_relation = relation_of (r_id r) root_id (r_retry_of r)\<rparr>) rows,
               budget)) (lookup_budget root_id st))"

section \<open>Facts\<close>

lemma lock_run_SomeD: "lock_run w i st = Some r \<Longrightarrow> r \<in> set (st_runs st) \<and> r_id r = i \<and> r_workspace r = w"
  by (auto simp: lock_run_def find_Some_iff)

lemma lock_session_SomeD:
  "lock_session w i st = Some s \<Longrightarrow> s \<in> set (st_sessions st) \<and> ss_id s = i \<and> ss_workspace s = w"
  by (auto simp: lock_session_def find_Some_iff)

lemma lookup_run_SomeD: "lookup_run i st = Some r \<Longrightarrow> r \<in> set (st_runs st) \<and> r_id r = i"
  unfolding lookup_run_def by (rule lookup_SomeD)

lemma lookup_session_SomeD: "lookup_session i st = Some s \<Longrightarrow> s \<in> set (st_sessions st) \<and> ss_id s = i"
  unfolding lookup_session_def by (rule lookup_SomeD)

lemma set_pending_runs: "set (pending_runs sid st) = {r \<in> set (st_runs st). r_session r = sid \<and> live r}"
  by (simp add: pending_runs_def)

lemma sorted_pending_runs: "sorted (map r_session_sequence (pending_runs sid st))"
  by (simp add: pending_runs_def)

text \<open>What makes a Run unavailable to \<open>retry\<close> is also what its snapshot withholds.\<close>

lemma snapshot_retry_iff:
  assumes "snapshot now caps run st = Inr sn"
  shows "Retry \<in> set (sn_available_actions sn) \<longleftrightarrow>
    r_status run = RunState.FAILED \<and> can_control caps \<and> can_retry caps \<and>
    (\<exists>session budget. lookup_session (r_session run) st = Some session \<and>
       lookup_budget (r_budget_root run) st = Some budget \<and>
       retry_blocker now run session budget st = None)"
proof -
  obtain session budget where rows: "lookup_session (r_session run) st = Some session"
      "lookup_budget (r_budget_root run) st = Some budget"
    using assms by (auto simp: snapshot_def split: option.splits)
  with assms have "sn_available_actions sn = available_actions (state_view run budget now)
      (can_control caps) (can_retry caps \<and> retry_blocker now run session budget st = None) (can_hold_budget caps)"
    by (auto simp: snapshot_def Let_def)
  with rows show ?thesis
    by (auto simp: available_actions_def state_view_def)
qed

end
