(* ===== verification/Run_Transitions.thy ===== *)
theory Run_Transitions
  imports Run_Snapshots
begin

text \<open>
  Where a signal becomes rows: \<open>append_events\<close>, \<open>_terminalize\<close>,
  \<open>_decide_and_write\<close> and the operations of \<^verbatim>\<open>sql_store.py\<close> that end in
  it on behalf of a caller or of the Worker that holds the Run (\<open>apply_signal\<close>,
  \<open>control_run\<close>, \<open>record_slice\<close>, the lease and tool-call writes). An operation is a
  function on the store; \<open>Inl\<close> is the exception it raises, and the transaction it ran in
  is then rolled back. \<^verbatim>\<open>_decide_and_write\<close> reads the locked Run and its Session
  back from the store, where its callers pass the rows they hold.
\<close>

section \<open>Writes\<close>

definition update_run :: "nat \<Rightarrow> (RunRow \<Rightarrow> RunRow) \<Rightarrow> Store \<Rightarrow> Store" where
  "update_run run_id f st = st\<lparr>st_runs := update_where (\<lambda>r. r_id r = run_id) f (st_runs st)\<rparr>"

definition update_session :: "nat \<Rightarrow> (SessionRow \<Rightarrow> SessionRow) \<Rightarrow> Store \<Rightarrow> Store" where
  "update_session session_id f st =
     st\<lparr>st_sessions := update_where (\<lambda>s. ss_id s = session_id) f (st_sessions st)\<rparr>"

definition update_budget :: "nat \<Rightarrow> (BudgetRow \<Rightarrow> BudgetRow) \<Rightarrow> Store \<Rightarrow> Store" where
  "update_budget root_id f st =
     st\<lparr>st_budgets := update_where (\<lambda>b. b_root_run_id b = root_id) f (st_budgets st)\<rparr>"

definition release_lease :: "datetime \<Rightarrow> nat \<Rightarrow> Store \<Rightarrow> Store" where
  "release_lease now run_id st =
     st\<lparr>st_leases := update_where (\<lambda>l. l_run l = run_id \<and> l_released_at l = None)
          (\<lambda>l. l\<lparr>l_released_at := Some now\<rparr>) (st_leases st)\<rparr>"

definition audit ::
  "nat \<Rightarrow> nat option \<Rightarrow> pystr \<Rightarrow> pystr \<Rightarrow> nat \<Rightarrow> pystr \<Rightarrow> pystr \<Rightarrow> jobject \<Rightarrow> pystr option \<Rightarrow> Store \<Rightarrow> Store" where
  "audit workspace_id actor action resource_type resource request_id result context actor_type st =
     st\<lparr>st_audit := st_audit st @
         [\<lparr>au_workspace = workspace_id,
           au_actor_type = (case actor_type of
                              Some t \<Rightarrow> t
                            | None \<Rightarrow> if actor \<noteq> None then py ''user'' else py ''system''),
           au_actor = actor, au_action = action, au_resource_type = resource_type,
           au_resource = resource, au_result = result, au_request = request_id,
           au_context = context\<rparr>]\<rparr>"

definition audit_run :: "nat \<Rightarrow> nat option \<Rightarrow> pystr \<Rightarrow> nat \<Rightarrow> pystr \<Rightarrow> Store \<Rightarrow> Store" where
  "audit_run workspace_id actor action run_id request_id =
     audit workspace_id actor action (py ''run'') run_id request_id (py ''succeeded'') [] None"

fun event_rows ::
  "nat \<Rightarrow> nat \<Rightarrow> datetime \<Rightarrow> nat \<Rightarrow> ReservedEvent list \<Rightarrow> RunEventRow list" where
  "event_rows workspace_id run_id now first [] = []"
| "event_rows workspace_id run_id now first (ev # evs) =
     \<lparr>e_run = run_id, e_workspace = workspace_id, e_sequence = first, e_type = re_type ev,
      e_payload = re_payload ev, e_occurred_at = now\<rparr> #
     event_rows workspace_id run_id now (first + 1) evs"

text \<open>The numbers are reserved by one statement; a number that is already taken is the unique
  constraint's \<open>IntegrityError\<close>.\<close>

definition append_events ::
  "datetime \<Rightarrow> nat \<Rightarrow> nat \<Rightarrow> ReservedEvent list \<Rightarrow> Store \<Rightarrow> (StoreError, Store) result" where
  "append_events now workspace_id run_id events st =
     (if events = [] then Inr st
      else case lock_run workspace_id run_id st of
        None \<Rightarrow> Inl UnknownSession
      | Some run \<Rightarrow>
          let first = r_next_event_sequence run;
              rows = event_rows workspace_id run_id now first events
          in if list_ex (\<lambda>e. e_run e = run_id \<and> first \<le> e_sequence e \<and>
                            e_sequence e < first + length events) (st_events st)
             then Inl EventSequenceConflict
             else Inr ((update_run run_id (\<lambda>r. r\<lparr>r_next_event_sequence := first + length events\<rparr>) st)
                    \<lparr>st_events := st_events st @ rows\<rparr>))"

fun message_rows ::
  "nat \<Rightarrow> nat \<Rightarrow> nat \<Rightarrow> datetime \<Rightarrow> nat \<Rightarrow> CanonicalMessage list \<Rightarrow> SessionMessageRow list" where
  "message_rows workspace_id session_id run_id now first [] = []"
| "message_rows workspace_id session_id run_id now first (m # ms) =
     \<lparr>sm_session = session_id, sm_workspace = workspace_id, sm_sequence = first, sm_message = m,
      sm_source_run = Some run_id, sm_redacted = False, sm_withdrawn_at = None,
      sm_created_at = now\<rparr> #
     message_rows workspace_id session_id run_id now (first + 1) ms"

definition append_messages ::
  "datetime \<Rightarrow> nat \<Rightarrow> nat \<Rightarrow> SessionRow \<Rightarrow> CanonicalMessage list \<Rightarrow> Store \<Rightarrow> Store" where
  "append_messages now workspace_id run_id session messages st =
     (update_session (ss_id session)
        (\<lambda>s. s\<lparr>ss_next_message_sequence := ss_next_message_sequence session + length messages\<rparr>) st)
     \<lparr>st_messages := st_messages st @
        message_rows workspace_id (ss_id session) run_id now (ss_next_message_sequence session) messages\<rparr>"

section \<open>One signal into rows\<close>

definition child_result_for :: "RunRow \<Rightarrow> Store \<Rightarrow> jobject" where
  "child_result_for run st =
     (let said = first_row (\<lambda>m. sm_session m = r_session run \<and> m_role (sm_message m) = RAssistant \<and>
                    \<not> sm_redacted m \<and> sm_withdrawn_at m = None)
                  (\<lambda>m. - int (sm_sequence m)) (st_messages st);
          summary = (case said of None \<Rightarrow> [] | Some m \<Rightarrow> message_text (sm_message m));
          produced = map ar_id (sort_key (\<lambda>a. (ar_created_at a, ar_id a))
                       (filter (\<lambda>a. ar_run a = r_id run) (st_artifacts st)))
      in [(py ''status'', JStr (RunState_value (r_status run))),
          (py ''summary'', JStr (take MAX_CHILD_SUMMARY summary)),
          (py ''summary_truncated'', JBool (length summary > MAX_CHILD_SUMMARY)),
          (py ''summary_length'', JInt (int (length summary))),
          (py ''failure_reason'', optional_str (failure_reason (r_checkpoint run))),
          (py ''artifacts'', JList (map (\<lambda>a. JStr (uuid_str a)) produced))])"

text \<open>The end of \<open>_terminalize\<close>: the Session is handed to the next Run in sequence, and
  whoever waited for the finished Run waits for the new head.\<close>

definition hand_over :: "datetime \<Rightarrow> nat \<Rightarrow> nat \<Rightarrow> Store \<Rightarrow> Store" where
  "hand_over now session_id run_id st =
     (let successor = map_option r_id (successor_candidates session_id run_id st);
          st1 = update_session session_id (\<lambda>s. s\<lparr>ss_head := successor\<rparr>) st;
          st2 = (case successor of
                   None \<Rightarrow> st1
                 | Some sid \<Rightarrow> update_run sid (\<lambda>r. r\<lparr>r_blocked_by := None, r_updated_at := now\<rparr>) st1);
          spared = (case successor of None \<Rightarrow> run_id | Some sid \<Rightarrow> sid)
      in st2\<lparr>st_runs := update_where
              (\<lambda>r. r_session r = session_id \<and> r_blocked_by r = Some run_id \<and> r_id r \<noteq> spared)
              (\<lambda>r. r\<lparr>r_blocked_by := successor, r_updated_at := now\<rparr>) (st_runs st2)\<rparr>)"

definition terminalize :: "datetime \<Rightarrow> RunRow \<Rightarrow> SessionRow \<Rightarrow> Store \<Rightarrow> Store" where
  "terminalize now run session st =
     (let st1 = (if r_parent run \<noteq> None \<and> r_delegation_result run = None
                 then update_run (r_id run)
                        (\<lambda>r. r\<lparr>r_delegation_result := Some (child_result_for run st)\<rparr>) st
                 else st);
          st2 = st1\<lparr>st_idempotency := update_where (\<lambda>k. k_run k = Some (r_id run))
                  (\<lambda>k. k\<lparr>k_expires_at := Some (now + IDEMPOTENCY_RETENTION)\<rparr>) (st_idempotency st1)\<rparr>
      in if ss_head session \<noteq> Some (r_id run) then st2
         else hand_over now (ss_id session) (r_id run) st2)"

definition write_decision :: "StateDecision \<Rightarrow> datetime \<Rightarrow> WaitPolicy option \<Rightarrow> RunRow \<Rightarrow> RunRow" where
  "write_decision d now policy run =
     (apply_decision d now run)
     \<lparr>r_wait_policy := (if d_wait_kind d = None then None else policy),
      r_state_version := r_state_version run + 1,
      r_updated_at := now\<rparr>"

text \<open>What the callers of \<open>_decide_and_write\<close> name.\<close>

record SignalWrite =
  sw_signal :: RunSignal
  sw_pause_reason :: "PauseReason option"
  sw_wait_kind :: "pystr option"
  sw_wait_deadline_at :: "datetime option"
  sw_request :: pystr
  sw_payload :: jobject
  sw_extra_events :: "ReservedEvent list"
  sw_wait_policy :: "WaitPolicy option"

definition signal_write :: "RunSignal \<Rightarrow> pystr \<Rightarrow> jobject \<Rightarrow> SignalWrite" where
  "signal_write signal request_id payload =
     \<lparr>sw_signal = signal, sw_pause_reason = None, sw_wait_kind = None, sw_wait_deadline_at = None,
      sw_request = request_id, sw_payload = payload, sw_extra_events = [], sw_wait_policy = None\<rparr>"

definition decide_and_write ::
  "datetime \<Rightarrow> nat \<Rightarrow> SignalWrite \<Rightarrow> Store \<Rightarrow> (StoreError, Store) result" where
  "decide_and_write now run_id w st =
     (case lookup_run run_id st of
        None \<Rightarrow> Inl UnknownRun
      | Some run \<Rightarrow>
     (case lookup_session (r_session run) st of
        None \<Rightarrow> Inl UnknownSession
      | Some session \<Rightarrow>
     (case lookup_budget (r_budget_root run) st of
        None \<Rightarrow> Inl UnknownRun
      | Some budget \<Rightarrow>
     (case decide (state_view run budget now) (sw_signal w) (sw_pause_reason w) (sw_wait_kind w)
             (sw_wait_deadline_at w) of
        Inl e \<Rightarrow> Inl (StateError e)
      | Inr d \<Rightarrow>
     (case event_type_for (sw_signal w) of
        Inl e \<Rightarrow> Inl (PyError e)
      | Inr ev \<Rightarrow>
          let run' = write_decision d now (sw_wait_policy w) run;
              st1 = update_run run_id (write_decision d now (sw_wait_policy w)) st;
              st2 = (if is_terminal d then terminalize now run' session st1 else st1)
          in bind_res
               (append_events now (r_workspace run) run_id
                  (\<lparr>re_type = ev, re_payload = sw_payload w\<rparr> # sw_extra_events w) st2)
               (\<lambda>st3. Inr (audit_run (r_workspace run) None
                  (py ''run.'' @ RunSignal_value (sw_signal w)) run_id (sw_request w) st3)))))))"

text \<open>The snapshot an operation returns, of the row as it left it.\<close>

definition returning ::
  "datetime \<Rightarrow> RunCapabilities \<Rightarrow> nat \<Rightarrow> Store \<Rightarrow> (StoreError, RunSnapshot \<times> Store) result" where
  "returning now caps run_id st =
     (case lookup_run run_id st of
        None \<Rightarrow> Inl UnknownRun
      | Some run \<Rightarrow> map_sum id (\<lambda>sn. (sn, st)) (snapshot now caps run st))"

section \<open>Signals from outside\<close>

record ApplySignalCommand =
  as_workspace :: nat
  as_run :: nat
  as_signal :: RunSignal
  as_request :: pystr
  as_expected_version :: "nat option"
  as_pause_reason :: "PauseReason option"
  as_wait_kind :: "pystr option"
  as_wait_deadline_at :: "datetime option"
  as_payload :: jobject
  as_confirmed_sandbox :: "nat option"

text \<open>The two doors that open only for a recorded cleanup intent.\<close>

definition cleanup_intent_matches :: "ApplySignalCommand \<Rightarrow> RunRow \<Rightarrow> bool" where
  "cleanup_intent_matches c run \<longleftrightarrow>
     (as_signal c = LIMIT_CLEANUP_CONFIRMED \<longrightarrow>
        r_cleanup_target run = Some PAUSED_LIMIT \<and> r_cleanup_sandbox run \<noteq> None \<and>
        r_cleanup_sandbox run = as_confirmed_sandbox c) \<and>
     (as_signal c = RECOVERY_FAILED \<and> as_confirmed_sandbox c \<noteq> None \<longrightarrow>
        r_cleanup_target run = Some FAILED_CONFLICT \<and>
        r_cleanup_sandbox run = as_confirmed_sandbox c)"

definition confirms_cleanup :: "ApplySignalCommand \<Rightarrow> bool" where
  "confirms_cleanup c \<longleftrightarrow>
     as_signal c = LIMIT_CLEANUP_CONFIRMED \<or>
     as_signal c = RECOVERY_FAILED \<and> as_confirmed_sandbox c \<noteq> None"

definition command_signal :: "ApplySignalCommand \<Rightarrow> SignalWrite" where
  "command_signal c =
     \<lparr>sw_signal = as_signal c, sw_pause_reason = as_pause_reason c, sw_wait_kind = as_wait_kind c,
      sw_wait_deadline_at = as_wait_deadline_at c, sw_request = as_request c,
      sw_payload = as_payload c, sw_extra_events = [], sw_wait_policy = None\<rparr>"

definition run_status :: "nat \<Rightarrow> Store \<Rightarrow> RunState option" where
  "run_status run_id st = map_option r_status (lookup_run run_id st)"

definition apply_signal_rows ::
  "datetime \<Rightarrow> ApplySignalCommand \<Rightarrow> Store \<Rightarrow> (StoreError, Store) result" where
  "apply_signal_rows now c st =
     (case lock_run (as_workspace c) (as_run c) st of
        None \<Rightarrow> Inl UnknownRun
      | Some run \<Rightarrow>
          if as_expected_version c \<noteq> None \<and> as_expected_version c \<noteq> Some (r_state_version run)
          then Inl StateVersionConflict
          else if lock_session (as_workspace c) (r_session run) st = None then Inl UnknownSession
          else if \<not> cleanup_intent_matches c run then Inl (StateError InvalidStateMetadata)
          else
            bind_res
              (decide_and_write now (as_run c) (command_signal c) st)
              (\<lambda>st1.
                 let st2 = (if confirms_cleanup c
                            then update_run (as_run c)
                                   (\<lambda>r. r\<lparr>r_cleanup_target := None, r_cleanup_sandbox := None\<rparr>) st1
                            else st1)
                 in Inr (if run_status (as_run c) st2 \<noteq> Some RUNNING
                         then release_lease now (as_run c) st2 else st2)))"

definition apply_signal ::
  "datetime \<Rightarrow> RunCapabilities \<Rightarrow> ApplySignalCommand \<Rightarrow> Store \<Rightarrow>
   (StoreError, RunSnapshot \<times> Store) result" where
  "apply_signal now caps c st =
     bind_res (apply_signal_rows now c st) (returning now caps (as_run c))"

record ControlRunCommand =
  cr_workspace :: nat
  cr_run :: nat
  cr_caller :: CallerIdentity
  cr_capabilities :: RunCapabilities
  cr_signal :: RunSignal
  cr_expected_version :: nat
  cr_request :: pystr

text \<open>A control that the state machine refuses is an \<open>AuditedDenial\<close>: its audit row is
  committed, so the refusal carries the store it left.\<close>

definition control_run ::
  "datetime \<Rightarrow> ControlRunCommand \<Rightarrow> Store \<Rightarrow> (StoreError \<times> Store, RunSnapshot \<times> Store) result" where
  "control_run now c st =
     (if \<not> can_control (cr_capabilities c) then Inl (ForbiddenRunAction, st)
      else case apply_signal now (cr_capabilities c)
               \<lparr>as_workspace = cr_workspace c, as_run = cr_run c, as_signal = cr_signal c,
                as_request = cr_request c, as_expected_version = Some (cr_expected_version c),
                as_pause_reason = None, as_wait_kind = None, as_wait_deadline_at = None,
                as_payload = [(py ''requested_by'', JStr (uuid_str (ca_id (cr_caller c))))],
                as_confirmed_sandbox = None\<rparr> st of
        Inl (StateError e) \<Rightarrow>
          Inl (DeniedRunControl (denial_code e),
               audit (cr_workspace c) (Some (ca_id (cr_caller c))) (py ''run.control_denied'')
                 (py ''run'') (cr_run c) (cr_request c) (py ''denied'')
                 [(py ''signal'', JStr (RunSignal_value (cr_signal c)))]
                 (Some (CallerType_value (ca_type (cr_caller c)))) st)
      | Inl e \<Rightarrow> Inl (e, st)
      | Inr answer \<Rightarrow> Inr answer)"

record WidenBudgetCommand =
  wb_workspace :: nat
  wb_run :: nat
  wb_caller :: CallerIdentity
  wb_capabilities :: RunCapabilities
  wb_expected_version :: nat
  wb_max_model_calls :: int
  wb_request :: pystr

text \<open>The refusal's audit row does not outlive it: \<open>BudgetNotWidened\<close> is no
  \<open>AuditedDenial\<close>, and the transaction is rolled back.\<close>

definition widen_budget ::
  "datetime \<Rightarrow> WidenBudgetCommand \<Rightarrow> Store \<Rightarrow> (StoreError, RunSnapshot \<times> Store) result" where
  "widen_budget now c st =
     (if \<not> can_control (wb_capabilities c) then Inl ForbiddenRunAction
      else case lock_run (wb_workspace c) (wb_run c) st of
        None \<Rightarrow> Inl UnknownRun
      | Some run \<Rightarrow>
          if r_state_version run \<noteq> wb_expected_version c then Inl StateVersionConflict
          else case lookup_budget (r_budget_root run) st of
            None \<Rightarrow> Inl UnknownRun
          | Some budget \<Rightarrow>
              (case widen (wb_max_model_calls c) budget of
                 None \<Rightarrow> Inl BudgetNotWidened
               | Some budget' \<Rightarrow>
                   returning now (wb_capabilities c) (wb_run c)
                     (audit (wb_workspace c) (Some (ca_id (wb_caller c))) (py ''run.budget_widened'')
                        (py ''run'') (wb_run c) (wb_request c) (py ''succeeded'')
                        [(py ''max_model_calls'', JDict
                            [(py ''from'', JInt (b_max_model_calls budget)),
                             (py ''to'', JInt (wb_max_model_calls c))]),
                         (py ''consumed_model_calls'', JInt (b_consumed_model_calls budget))]
                        (Some (CallerType_value (ca_type (wb_caller c))))
                        (update_budget (r_budget_root run) (\<lambda>_. budget') st))))"

section \<open>The Worker's writes\<close>

definition renew_lease ::
  "datetime \<Rightarrow> nat \<Rightarrow> nat \<Rightarrow> nat \<Rightarrow> nat \<Rightarrow> int \<Rightarrow> Store \<Rightarrow> (nat \<times> datetime) option \<times> Store" where
  "renew_lease now workspace_id run_id lease_id expected_version lease_seconds st =
     (let held = (\<lambda>l. l_id l = lease_id \<and> l_run l = run_id \<and> l_version l = expected_version \<and>
                      l_released_at l = None);
          until = now + timedelta_seconds lease_seconds
      in if lock_run workspace_id run_id st = None then (None, st)
         else if \<not> list_ex held (st_leases st) then (None, st)
         else (Some (expected_version + 1, until),
               st\<lparr>st_leases := update_where held
                     (\<lambda>l. l\<lparr>l_expires_at := until, l_version := l_version l + 1\<rparr>) (st_leases st),
                  st_runs := update_where (\<lambda>r. r_id r = run_id \<and> r_workspace r = workspace_id)
                     (\<lambda>r. r\<lparr>r_last_heartbeat_at := Some now\<rparr>) (st_runs st)\<rparr>))"

definition charge_tool_call ::
  "datetime \<Rightarrow> nat \<Rightarrow> nat \<Rightarrow> nat \<Rightarrow> Store \<Rightarrow> (StoreError, RunRow option \<times> Store) result" where
  "charge_tool_call now workspace_id run_id lease_id st =
     (case lock_run workspace_id run_id st of
        None \<Rightarrow> Inl UnknownRun
      | Some run \<Rightarrow>
          (case lock_lease lease_id run_id st of
             None \<Rightarrow> Inl LeaseLost
           | Some lease \<Rightarrow>
               if l_released_at lease \<noteq> None \<or> l_expires_at lease \<le> now then Inl LeaseLost
               else case Option.bind (lookup_budget (r_budget_root run) st) (reserve_call now) of
                 None \<Rightarrow> Inr (None, st)
               | Some budget' \<Rightarrow> Inr (Some run, update_budget (r_budget_root run) (\<lambda>_. budget') st)))"

definition reserve_tool_call ::
  "datetime \<Rightarrow> nat \<Rightarrow> nat \<Rightarrow> nat \<Rightarrow> Store \<Rightarrow> (StoreError, bool \<times> Store) result" where
  "reserve_tool_call now workspace_id run_id lease_id st =
     map_sum id (\<lambda>(charged, st'). (charged \<noteq> None, st')) (charge_tool_call now workspace_id run_id lease_id st)"

text \<open>The key a write goes out with, and the waiting writes that are left: an exact repeat of
  an interrupted write takes its key, once.\<close>

definition outside_key ::
  "pystr \<Rightarrow> pystr option \<Rightarrow> (pystr \<times> pystr) list option \<Rightarrow> pystr option \<times> (pystr \<times> pystr) list option" where
  "outside_key fresh_key fingerprint waiting =
     (case fingerprint of
        None \<Rightarrow> (None, waiting)
      | Some f \<Rightarrow>
          let entries = (case waiting of None \<Rightarrow> [] | Some ws \<Rightarrow> ws)
          in case find (\<lambda>entry. fst entry = f) entries of
               None \<Rightarrow> (Some fresh_key, waiting)
             | Some entry \<Rightarrow>
                 let left = remove1 entry entries
                 in (Some (snd entry), if left = [] then None else Some left))"

definition reserve_outside_call ::
  "datetime \<Rightarrow> pystr \<Rightarrow> nat \<Rightarrow> nat \<Rightarrow> nat \<Rightarrow> InFlightRound \<Rightarrow> Store \<Rightarrow>
   (StoreError, InFlightRound option \<times> Store) result" where
  "reserve_outside_call now fresh_key workspace_id run_id lease_id sending st =
     bind_res (charge_tool_call now workspace_id run_id lease_id st)
       (\<lambda>(charged, st1).
          case charged of
            None \<Rightarrow> Inr (None, st1)
          | Some run \<Rightarrow>
              let (key, waiting) = outside_key fresh_key (if_fingerprint sending) (r_interrupted_writes run);
                  recorded = sending\<lparr>if_idempotency_key := key\<rparr>
              in Inr (Some recorded,
                   update_run run_id
                     (\<lambda>r. r\<lparr>r_checkpoint_effect := CheckpointEffectStatus.UNKNOWN,
                           r_interrupted_writes := waiting,
                           r_inflight_round := Some (inflight_document recorded)\<rparr>) st1))"

record RecordSliceCommand =
  rs_workspace :: nat
  rs_run :: nat
  rs_lease :: nat
  rs_expected_version :: nat
  rs_signal :: "RunSignal option"
  rs_pause_reason :: "PauseReason option"
  rs_limit_reached :: bool
  rs_limit_valve :: pystr
  rs_checkpoint :: jobject
  rs_checkpoint_replay_safe :: bool
  rs_checkpoint_effect :: CheckpointEffectStatus
  rs_executed_ms :: int
  rs_model_calls :: int
  rs_tokens :: int
  rs_request :: pystr
  rs_appended :: "CanonicalMessage list"
  rs_cleanup_target :: "WorkspaceCleanupTarget option"
  rs_cleanup_sandbox :: "nat option"
  rs_events :: "ReservedEvent list"
  rs_wait_kind :: "pystr option"
  rs_wait_seconds :: "int option"
  rs_wait_policy :: "WaitPolicy option"
  rs_retry_after :: "int option"
  rs_cost :: "Cost option"

definition write_checkpoint :: "datetime \<Rightarrow> RecordSliceCommand \<Rightarrow> RunRow \<Rightarrow> RunRow" where
  "write_checkpoint now c r =
     r\<lparr>r_checkpoint := Some (rs_checkpoint c), r_checkpoint_replay_safe := rs_checkpoint_replay_safe c,
       r_checkpoint_effect := rs_checkpoint_effect c, r_inflight_round := None, r_updated_at := now,
       r_cleanup_target := (case rs_cleanup_target c of None \<Rightarrow> r_cleanup_target r | Some t \<Rightarrow> Some t),
       r_cleanup_sandbox := (case rs_cleanup_target c of None \<Rightarrow> r_cleanup_sandbox r
                             | Some _ \<Rightarrow> rs_cleanup_sandbox c)\<rparr>"

definition slice_signal :: "datetime \<Rightarrow> RecordSliceCommand \<Rightarrow> RunSignal \<Rightarrow> SignalWrite" where
  "slice_signal now c signal =
     \<lparr>sw_signal = signal, sw_pause_reason = rs_pause_reason c, sw_wait_kind = rs_wait_kind c,
      sw_wait_deadline_at = map_option (\<lambda>s. now + timedelta_seconds s) (rs_wait_seconds c),
      sw_request = rs_request c,
      sw_payload = slice_payload (rs_executed_ms c) (Some (rs_checkpoint c)),
      sw_extra_events =
        (if rs_limit_reached c
         then [\<lparr>re_type = RUN_LIMIT_REACHED, re_payload = [(py ''reason'', JStr (rs_limit_valve c))]\<rparr>]
         else []) @ rs_events c,
      sw_wait_policy = rs_wait_policy c\<rparr>"

text \<open>What a slice leaves before its signal: the checkpoint, the turns and the accounting.\<close>

definition record_work ::
  "datetime \<Rightarrow> RecordSliceCommand \<Rightarrow> RunRow \<Rightarrow> SessionRow \<Rightarrow> Store \<Rightarrow> (StoreError, Store) result" where
  "record_work now c run session st =
     (let st1 = update_run (rs_run c) (write_checkpoint now c) st;
          st2 = append_messages now (r_workspace run) (rs_run c) session (rs_appended c) st1
      in if lookup_budget (r_budget_root run) st2 = None then Inl UnknownRun
         else Inr (update_budget (r_budget_root run)
                (consume_budget (rs_executed_ms c) (rs_model_calls c) (rs_tokens c) (rs_cost c)) st2))"

text \<open>The end of a slice that left the Run: the hold-off of a Run sent back, and the lease.\<close>

definition release_slice :: "datetime \<Rightarrow> RecordSliceCommand \<Rightarrow> Store \<Rightarrow> Store" where
  "release_slice now c st =
     (let st1 = (case rs_retry_after c of
                   None \<Rightarrow> st
                 | Some seconds \<Rightarrow>
                     if run_status (rs_run c) st = Some RunState.QUEUED
                     then update_run (rs_run c)
                            (\<lambda>r. r\<lparr>r_claimable_after := Some (now + timedelta_seconds seconds)\<rparr>) st
                     else st)
      in st1\<lparr>st_leases := update_where (\<lambda>l. l_id l = rs_lease c \<and> l_run l = rs_run c)
             (\<lambda>l. l\<lparr>l_released_at := Some now\<rparr>) (st_leases st1)\<rparr>)"

definition slice_transition ::
  "datetime \<Rightarrow> RecordSliceCommand \<Rightarrow> Store \<Rightarrow> (StoreError, Store) result" where
  "slice_transition now c st =
     (case rs_signal c of
        None \<Rightarrow> append_events now (rs_workspace c) (rs_run c) (rs_events c) st
      | Some signal \<Rightarrow>
          map_sum id (release_slice now c) (decide_and_write now (rs_run c) (slice_signal now c signal) st))"

definition record_slice_rows ::
  "datetime \<Rightarrow> RecordSliceCommand \<Rightarrow> Store \<Rightarrow> (StoreError, Store) result" where
  "record_slice_rows now c st =
     (case lock_run (rs_workspace c) (rs_run c) st of
        None \<Rightarrow> Inl UnknownRun
      | Some run \<Rightarrow>
     (case lock_lease (rs_lease c) (rs_run c) st of
        None \<Rightarrow> Inl LeaseLost
      | Some lease \<Rightarrow>
          if l_released_at lease \<noteq> None then Inl LeaseLost
          else if r_state_version run \<noteq> rs_expected_version c then Inl StateVersionConflict
          else case lock_session (rs_workspace c) (r_session run) st of
            None \<Rightarrow> Inl UnknownSession
          | Some session \<Rightarrow>
              bind_res (record_work now c run session st) (slice_transition now c)))"

definition record_slice ::
  "datetime \<Rightarrow> RunCapabilities \<Rightarrow> RecordSliceCommand \<Rightarrow> Store \<Rightarrow>
   (StoreError, RunSnapshot \<times> Store) result" where
  "record_slice now caps c st =
     bind_res (record_slice_rows now c st) (returning now caps (rs_run c))"

end
