(* ===== verification/Run_Claims.thy ===== *)
theory Run_Claims
  imports Run_Transitions
begin

text \<open>
  How a Worker takes a Run and how a Session's head is repaired: \<open>_claimable\<close>,
  \<open>_select_claimable\<close>, \<open>_claimable_within_limits\<close>, \<open>claim_head\<close>,
  \<open>sessions_needing_repair\<close> and \<open>repair_session_head\<close> of
  \<^verbatim>\<open>sql_store.py\<close>. One transaction is one function, so the row locks and the
  advisory locks that serialize concurrent claimers have no counterpart; the recount taken
  under them is kept as the code has it.
\<close>

section \<open>Claiming\<close>

definition lease_held :: "datetime \<Rightarrow> nat \<Rightarrow> Store \<Rightarrow> bool" where
  "lease_held now run_id st =
     list_ex (\<lambda>l. l_run l = run_id \<and> l_released_at l = None \<and> l_expires_at l > now) (st_leases st)"

definition claimable :: "datetime \<Rightarrow> SessionRow \<Rightarrow> RunRow \<Rightarrow> Store \<Rightarrow> bool" where
  "claimable now session run st \<longleftrightarrow>
     r_status run = RunState.QUEUED \<and> ss_head session = Some (r_id run) \<and>
     r_blocked_by run = None \<and> \<not> lease_held now (r_id run) st \<and>
     (case r_claimable_after run of None \<Rightarrow> True | Some t \<Rightarrow> t \<le> now)"

definition claimable_since :: "RunRow \<Rightarrow> datetime" where
  "claimable_since run =
     max (r_queued_at run) (case r_claimable_after run of None \<Rightarrow> r_queued_at run | Some t \<Rightarrow> t)"

record ClaimRunCommand =
  cl_workspace :: "nat option"
  cl_worker :: pystr
  cl_lease_seconds :: int
  cl_request :: pystr
  cl_per_caller_default :: nat
  cl_promote_after :: int
  cl_session :: "nat option"
  cl_capabilities :: RunCapabilities

definition workspace_running :: "nat \<Rightarrow> Store \<Rightarrow> nat" where
  "workspace_running workspace_id st =
     length (filter (\<lambda>r. r_workspace r = workspace_id \<and> r_status r = RUNNING) (st_runs st))"

definition caller_running :: "nat \<Rightarrow> CallerType \<Rightarrow> nat \<Rightarrow> Store \<Rightarrow> nat" where
  "caller_running workspace_id caller_type caller_id st =
     length (filter (\<lambda>r. r_workspace r = workspace_id \<and> r_status r = RUNNING \<and>
       (case lookup_session (r_session r) st of
          None \<Rightarrow> False
        | Some s \<Rightarrow> ss_caller_type s = caller_type \<and> ss_caller_id s = caller_id)) (st_runs st))"

definition interactive :: "SessionRow \<Rightarrow> RunRow \<Rightarrow> bool" where
  "interactive session run \<longleftrightarrow>
     r_parent run = None \<and>
     (r_delivery_mode run = Some CHAT_COMPLETIONS \<or> ss_caller_type session = END_USER)"

text \<open>The columns one row of the claim query carries.\<close>

type_synonym claim_row = "RunRow \<times> SessionRow \<times> WorkspaceRow"

definition claim_rows :: "Store \<Rightarrow> claim_row list" where
  "claim_rows st =
     filter_map (\<lambda>run.
       case (lookup_session (r_session run) st, lookup w_id (r_workspace run) (st_workspaces st)) of
         (Some session, Some workspace) \<Rightarrow> Some (run, session, workspace)
       | _ \<Rightarrow> None) (st_runs st)"

fun may_claim ::
  "datetime \<Rightarrow> ClaimRunCommand \<Rightarrow> (CallerType \<times> nat) set \<Rightarrow> nat set \<Rightarrow> Store \<Rightarrow> claim_row \<Rightarrow> bool" where
  "may_claim now c callers_full workspaces_full st (run, session, workspace) \<longleftrightarrow>
     claimable now session run st \<and>
     (ss_caller_type session = SERVICE_ACCOUNT \<or>
      caller_running (r_workspace run) (ss_caller_type session) (ss_caller_id session) st <
        (case w_max_running_per_caller workspace of None \<Rightarrow> cl_per_caller_default c | Some n \<Rightarrow> n)) \<and>
     (case w_max_running workspace of
        None \<Rightarrow> True | Some n \<Rightarrow> workspace_running (r_workspace run) st < n) \<and>
     r_workspace run \<notin> workspaces_full \<and>
     (ss_caller_type session, ss_caller_id session) \<notin> callers_full \<and>
     (case cl_workspace c of None \<Rightarrow> True | Some w \<Rightarrow> r_workspace run = w) \<and>
     (case cl_session c of None \<Rightarrow> True | Some s \<Rightarrow> r_session run = s)"

fun claim_order :: "datetime \<Rightarrow> ClaimRunCommand \<Rightarrow> claim_row \<Rightarrow> nat \<times> datetime \<times> nat" where
  "claim_order now c (run, session, workspace) =
     (if interactive session run \<or>
         claimable_since run \<le> now - timedelta_seconds (cl_promote_after c) then 0 else 1,
      r_queued_at run, r_id run)"

definition select_claimable ::
  "datetime \<Rightarrow> ClaimRunCommand \<Rightarrow> (CallerType \<times> nat) set \<Rightarrow> nat set \<Rightarrow> Store \<Rightarrow> claim_row option" where
  "select_claimable now c callers_full workspaces_full st =
     first_row (may_claim now c callers_full workspaces_full st) (claim_order now c) (claim_rows st)"

text \<open>\<open>caller_limit or command.per_caller_default\<close>: a limit of zero reads as none.\<close>

definition caller_limit :: "ClaimRunCommand \<Rightarrow> WorkspaceRow \<Rightarrow> nat" where
  "caller_limit c workspace =
     (case w_max_running_per_caller workspace of
        None \<Rightarrow> cl_per_caller_default c
      | Some n \<Rightarrow> if n = 0 then cl_per_caller_default c else n)"

fun claimable_attempts ::
  "nat \<Rightarrow> datetime \<Rightarrow> ClaimRunCommand \<Rightarrow> (CallerType \<times> nat) set \<Rightarrow> nat set \<Rightarrow> Store \<Rightarrow> RunRow option" where
  "claimable_attempts 0 now c callers workspaces st = None"
| "claimable_attempts (Suc n) now c callers workspaces st =
     (case select_claimable now c callers workspaces st of
        None \<Rightarrow> None
      | Some (run, session, workspace) \<Rightarrow>
          if (case w_max_running workspace of
                None \<Rightarrow> False | Some limit \<Rightarrow> workspace_running (r_workspace run) st \<ge> limit)
          then claimable_attempts n now c callers (insert (r_workspace run) workspaces) st
          else if ss_caller_type session \<noteq> SERVICE_ACCOUNT \<and>
                  caller_running (r_workspace run) (ss_caller_type session) (ss_caller_id session) st
                    \<ge> caller_limit c workspace
          then claimable_attempts n now c
                 (insert (ss_caller_type session, ss_caller_id session) callers) workspaces st
          else Some run)"

definition claimable_within_limits :: "datetime \<Rightarrow> ClaimRunCommand \<Rightarrow> Store \<Rightarrow> RunRow option" where
  "claimable_within_limits now c st = claimable_attempts CLAIM_ATTEMPTS now c {} {} st"

text \<open>One lease row per Run: the insert of a second is an update that counts its version on.\<close>

definition upsert_lease ::
  "datetime \<Rightarrow> nat \<Rightarrow> nat \<Rightarrow> pystr \<Rightarrow> datetime \<Rightarrow> WorkerLeaseRow list \<Rightarrow> nat \<times> WorkerLeaseRow list" where
  "upsert_lease now lease_id run_id worker expiry leases =
     (case find (\<lambda>l. l_run l = run_id) leases of
        None \<Rightarrow> (1, leases @ [\<lparr>l_id = lease_id, l_run = run_id, l_worker = worker, l_acquired_at = now,
                              l_expires_at = expiry, l_released_at = None, l_version = 1\<rparr>])
      | Some old \<Rightarrow>
          (l_version old + 1,
           update_where (\<lambda>l. l_run l = run_id)
             (\<lambda>l. l\<lparr>l_id := lease_id, l_worker := worker, l_acquired_at := now,
                   l_expires_at := expiry, l_released_at := None, l_version := l_version l + 1\<rparr>)
             leases))"

record ClaimedRun =
  cm_run :: RunSnapshot
  cm_lease :: nat
  cm_lease_version :: nat
  cm_expires_at :: datetime
  cm_waited :: timedelta

text \<open>The rows a claim writes: the Run as running, with no round in flight, and its lease.\<close>

definition take_run ::
  "datetime \<Rightarrow> nat \<Rightarrow> ClaimRunCommand \<Rightarrow> RunRow \<Rightarrow> StateDecision \<Rightarrow> Store \<Rightarrow> nat \<times> Store" where
  "take_run now lease_id c run d st =
     (let st1 = update_run (r_id run)
            (\<lambda>r. (apply_decision d now r)
               \<lparr>r_state_version := r_state_version r + 1, r_updated_at := now,
                r_inflight_round := None\<rparr>) st;
          leased = upsert_lease now lease_id (r_id run) (cl_worker c)
            (now + timedelta_seconds (cl_lease_seconds c)) (st_leases st1)
      in (fst leased, st1\<lparr>st_leases := snd leased\<rparr>))"

definition announce_claim ::
  "datetime \<Rightarrow> nat \<Rightarrow> ClaimRunCommand \<Rightarrow> RunRow \<Rightarrow> nat \<times> Store \<Rightarrow> (StoreError, ClaimedRun option \<times> Store) result" where
  "announce_claim now lease_id c run taken =
     bind_res
       (append_events now (r_workspace run) (r_id run)
          [\<lparr>re_type = RUN_LEASE_ACQUIRED, re_payload = [(py ''worker_id'', JStr (cl_worker c))]\<rparr>]
          (snd taken))
       (\<lambda>st2. map_sum id
          (\<lambda>(sn, st3). (Some \<lparr>cm_run = sn, cm_lease = lease_id, cm_lease_version = fst taken,
             cm_expires_at = now + timedelta_seconds (cl_lease_seconds c),
             cm_waited = max 0 (now - claimable_since run)\<rparr>, st3))
          (returning now (cl_capabilities c) (r_id run)
             (audit_run (r_workspace run) None (py ''run.lease_acquired'') (r_id run) (cl_request c) st2)))"

definition claim_view :: "RunRow \<Rightarrow> BudgetRow \<Rightarrow> datetime \<Rightarrow> RunStateView" where
  "claim_view run budget now =
     \<lparr>v_state = r_status run, v_pause_reason = None, v_wait_kind = None, v_wait_deadline_at = None,
      v_pause_requested = False, v_cancel_requested = False,
      v_budget_allows_execution = allows_execution budget now\<rparr>"

definition claim_head ::
  "datetime \<Rightarrow> nat \<Rightarrow> ClaimRunCommand \<Rightarrow> Store \<Rightarrow> (StoreError, ClaimedRun option \<times> Store) result" where
  "claim_head now lease_id c st =
     (case claimable_within_limits now c st of
        None \<Rightarrow> Inr (None, st)
      | Some run \<Rightarrow>
     (case lock_session (r_workspace run) (r_session run) st of
        None \<Rightarrow> Inr (None, st)
      | Some session \<Rightarrow>
          if ss_head session \<noteq> Some (r_id run) then Inr (None, st)
          else
     (case lookup_budget (r_budget_root run) st of
        None \<Rightarrow> Inl UnknownRun
      | Some budget \<Rightarrow>
     (case decide (claim_view run budget now) LEASE_ACQUIRED None None None of
        Inl e \<Rightarrow> Inl (StateError e)
      | Inr d \<Rightarrow> announce_claim now lease_id c run (take_run now lease_id c run d st)))))"

definition queue_snapshot ::
  "datetime \<Rightarrow> Store \<Rightarrow> (RunState \<Rightarrow> nat) \<times> datetime option" where
  "queue_snapshot now st =
     (\<lambda>state. if state \<in> TERMINAL_STATES then 0
              else length (filter (\<lambda>r. r_status r = state) (st_runs st)),
      case filter_map (\<lambda>run. case lookup_session (r_session run) st of
               None \<Rightarrow> None
             | Some session \<Rightarrow>
                 if claimable now session run st then Some (claimable_since run) else None) (st_runs st) of
        [] \<Rightarrow> None | t # ts \<Rightarrow> Some (fold min ts t))"

section \<open>Repairing a head\<close>

definition smallest_live :: "nat \<Rightarrow> Store \<Rightarrow> nat option" where
  "smallest_live session_id st =
     map_option r_session_sequence
       (first_row (\<lambda>r. r_session r = session_id \<and> live r) r_session_sequence (st_runs st))"

text \<open>\<open>RunRow.id != owner.head_run_id\<close> is null, and so no match, where there is no head.\<close>

definition misblocked :: "SessionRow \<Rightarrow> Store \<Rightarrow> bool" where
  "misblocked session st =
     (case ss_head session of
        None \<Rightarrow> False
      | Some head \<Rightarrow>
          list_ex (\<lambda>r. r_session r = ss_id session \<and> live r \<and> r_id r \<noteq> head \<and>
                       r_blocked_by r \<noteq> Some head) (st_runs st))"

definition needs_repair :: "Store \<Rightarrow> SessionRow \<Rightarrow> bool" where
  "needs_repair st session =
     (let smallest = smallest_live (ss_id session) st;
          head = Option.bind (ss_head session) (\<lambda>h. lookup_run h st)
      in (ss_head session = None \<and> smallest \<noteq> None) \<or>
         (ss_head session \<noteq> None \<and> smallest = None) \<or>
         misblocked session st \<or>
         (case (head, smallest) of
            (Some h, Some n) \<Rightarrow> r_session h = ss_id session \<and> r_session_sequence h > n
          | _ \<Rightarrow> False) \<or>
         (case head of None \<Rightarrow> False | Some h \<Rightarrow> \<not> live h))"

definition sessions_needing_repair :: "nat \<Rightarrow> Store \<Rightarrow> nat list" where
  "sessions_needing_repair limit st =
     take limit (map ss_id (filter (\<lambda>s. (ss_head s \<noteq> None \<or> smallest_live (ss_id s) st \<noteq> None) \<and>
       needs_repair st s) (st_sessions st)))"

definition repair_blockers :: "datetime \<Rightarrow> nat \<Rightarrow> nat option \<Rightarrow> Store \<Rightarrow> Store" where
  "repair_blockers now session_id head st =
     st\<lparr>st_runs := update_where
          (\<lambda>r. r_session r = session_id \<and> live r \<and>
               r_blocked_by r \<noteq> (if Some (r_id r) = head then None else head))
          (\<lambda>r. r\<lparr>r_blocked_by := (if Some (r_id r) = head then None else head), r_updated_at := now\<rparr>)
          (st_runs st)\<rparr>"

definition blockers_wrong :: "nat \<Rightarrow> nat option \<Rightarrow> Store \<Rightarrow> bool" where
  "blockers_wrong session_id head st =
     list_ex (\<lambda>r. r_session r = session_id \<and> live r \<and>
       r_blocked_by r \<noteq> (if Some (r_id r) = head then None else head)) (st_runs st)"

definition repair_session_head ::
  "datetime \<Rightarrow> nat \<Rightarrow> pystr \<Rightarrow> Store \<Rightarrow> (StoreError, (bool \<times> nat option) \<times> Store) result" where
  "repair_session_head now session_id request_id st =
     (case lookup_session session_id st of
        None \<Rightarrow> Inl UnknownSession
      | Some session \<Rightarrow>
          let expected = (case pending_runs session_id st of [] \<Rightarrow> None | r # _ \<Rightarrow> Some (r_id r));
              st1 = update_session session_id (\<lambda>s. s\<lparr>ss_head := expected\<rparr>)
                      (repair_blockers now session_id expected st)
          in if ss_head session = expected \<and> \<not> blockers_wrong session_id expected st
             then Inr ((False, None), st)
             else
               bind_res
                 (case expected of
                    None \<Rightarrow> Inr st1
                  | Some head \<Rightarrow> append_events now (ss_workspace session) head
                      [\<lparr>re_type = SESSION_HEAD_REPAIRED, re_payload = []\<rparr>] st1)
                 (\<lambda>st2. Inr ((True, expected),
                    audit (ss_workspace session) None (py ''session.head_repaired'') (py ''session'')
                      session_id request_id (py ''succeeded'') [] None st2)))"

end
