(* ===== verification/Run_Intake.thy ===== *)
theory Run_Intake
  imports Run_Transitions
begin

text \<open>
  How Runs come to exist: a Session and its Runs (\<open>create_session\<close>,
  \<open>accept_run\<close>), a retry derived from a failed Run (\<open>derive_retry\<close>) and the
  children a Run delegates to (\<open>delegate_children\<close>), with the idempotency records that
  make the first two answer a repeated request with the first answer. The identifiers
  \<open>uuid4\<close> draws are arguments.
\<close>

section \<open>Idempotency\<close>

record IdempotencyScope =
  is_workspace :: nat
  is_caller :: CallerIdentity
  is_endpoint :: pystr
  is_key :: pystr

definition same_scope :: "IdempotencyScope \<Rightarrow> IdempotencyRecordRow \<Rightarrow> bool" where
  "same_scope scope k \<longleftrightarrow>
     k_workspace k = is_workspace scope \<and> k_caller_type k = ca_type (is_caller scope) \<and>
     k_caller_id k = ca_id (is_caller scope) \<and> k_endpoint k = is_endpoint scope \<and>
     k_key k = is_key scope"

definition read_record :: "IdempotencyScope \<Rightarrow> Store \<Rightarrow> IdempotencyRecordRow option" where
  "read_record scope st = find (same_scope scope) (st_idempotency st)"

record AcceptedRun =
  ac_run :: nat
  ac_document :: RunSnapshot
  ac_replayed :: bool

text \<open>\<open>INSERT ... ON CONFLICT DO NOTHING\<close>: the key is claimed, or the answer it was first
  given is replayed.\<close>

definition claim_idempotency ::
  "IdempotencyScope \<Rightarrow> pystr \<Rightarrow> Store \<Rightarrow> (StoreError, AcceptedRun option \<times> Store) result" where
  "claim_idempotency scope fingerprint st =
     (case read_record scope st of
        None \<Rightarrow>
          Inr (None, st\<lparr>st_idempotency := st_idempotency st @
            [\<lparr>k_workspace = is_workspace scope, k_caller_type = ca_type (is_caller scope),
              k_caller_id = ca_id (is_caller scope), k_endpoint = is_endpoint scope,
              k_key = is_key scope, k_fingerprint = fingerprint, k_run = None, k_response = None,
              k_expires_at = None\<rparr>]\<rparr>)
      | Some existing \<Rightarrow>
          (case (k_run existing, k_response existing) of
             (Some run_id, Some document) \<Rightarrow>
               if k_fingerprint existing \<noteq> fingerprint then Inl IdempotencyKeyReused
               else Inr (Some \<lparr>ac_run = run_id, ac_document = document, ac_replayed = True\<rparr>, st)
           | _ \<Rightarrow> Inl IdempotencyKeyReused))"

definition store_response ::
  "IdempotencyScope \<Rightarrow> nat \<Rightarrow> RunSnapshot \<Rightarrow> Store \<Rightarrow> (StoreError, Store) result" where
  "store_response scope run_id document st =
     (if read_record scope st = None then Inl IdempotencyKeyReused
      else Inr (st\<lparr>st_idempotency := update_where (same_scope scope)
             (\<lambda>k. k\<lparr>k_run := Some run_id, k_response := Some document\<rparr>) (st_idempotency st)\<rparr>))"

section \<open>Sessions and Runs\<close>

definition new_session :: "nat \<Rightarrow> nat \<Rightarrow> nat \<Rightarrow> SessionMode \<Rightarrow> CallerIdentity \<Rightarrow> SessionRow" where
  "new_session session_id workspace_id agent_id mode caller =
     \<lparr>ss_id = session_id, ss_workspace = workspace_id, ss_agent = agent_id, ss_mode = mode,
      ss_caller_type = ca_type caller, ss_caller_id = ca_id caller, ss_head = None,
      ss_next_run_sequence = 1, ss_next_message_sequence = 1, ss_revision = None,
      ss_compaction_requested_at = None\<rparr>"

definition create_session ::
  "nat \<Rightarrow> nat \<Rightarrow> nat \<Rightarrow> CallerIdentity \<Rightarrow> SessionMode \<Rightarrow> pystr \<Rightarrow> Store \<Rightarrow>
   (StoreError, SessionRow \<times> Store) result" where
  "create_session session_id workspace_id agent_id caller mode request_id st =
     (if \<not> list_ex (\<lambda>a. ag_id a = agent_id \<and> ag_workspace a = workspace_id) (st_agents st)
      then Inl SessionAgentNotFound
      else
        let row = new_session session_id workspace_id agent_id mode caller
        in Inr (row, audit workspace_id (Some (ca_id caller)) (py ''session.created'') (py ''session'')
                 session_id request_id (py ''succeeded'') [] (Some (CallerType_value (ca_type caller)))
                 (st\<lparr>st_sessions := st_sessions st @ [row]\<rparr>)))"

definition published_version :: "SessionRow \<Rightarrow> Store \<Rightarrow> (StoreError, nat \<times> AgentLimits) result" where
  "published_version session st =
     (case Option.bind (find (\<lambda>a. ag_id a = ss_agent session \<and> ag_workspace a = ss_workspace session)
              (st_agents st)) ag_current_version of
        None \<Rightarrow> Inl AgentNotPublished
      | Some version_id \<Rightarrow>
          (case lookup av_id version_id (st_versions st) of
             None \<Rightarrow> Inl AgentNotPublished
           | Some version \<Rightarrow> Inr (av_id version, sp_limits (av_spec version))))"

text \<open>The latest price in force, the last version of it where two share a date.\<close>

definition current_pricing :: "datetime \<Rightarrow> nat \<Rightarrow> Store \<Rightarrow> nat option" where
  "current_pricing now version_id st =
     (case Option.bind (lookup av_id version_id (st_versions st)) (\<lambda>v. sp_endpoint (av_spec v)) of
        None \<Rightarrow> None
      | Some endpoint \<Rightarrow>
          map_option pv_id
            (first_row (\<lambda>p. pv_endpoint p = endpoint \<and> pv_effective_at p \<le> now)
               (\<lambda>p. (- pv_effective_at p, - int (pv_version_number p))) (st_prices st)))"

definition cost_ceiling :: "nat \<Rightarrow> Store \<Rightarrow> rat option \<times> pystr option" where
  "cost_ceiling workspace_id st =
     (case lookup w_id workspace_id (st_workspaces st) of
        None \<Rightarrow> (None, None) | Some w \<Rightarrow> (w_max_run_cost w, w_cost_currency w))"

text \<open>The columns every new Run shares.\<close>

definition new_run :: "nat \<Rightarrow> datetime \<Rightarrow> SessionRow \<Rightarrow> nat \<Rightarrow> RunRow" where
  "new_run run_id now session version_id =
     \<lparr>r_id = run_id, r_workspace = ss_workspace session, r_session = ss_id session,
      r_agent_version = version_id, r_status = RunState.QUEUED, r_purpose = ANSWER,
      r_state_version = 1, r_next_event_sequence = 1,
      r_session_sequence = ss_next_run_sequence session, r_blocked_by = ss_head session,
      r_pause_reason = None, r_pause_requested_at = None, r_cancel_requested_at = None,
      r_wait_kind = None, r_wait_policy = None, r_wait_deadline_at = None, r_retry_of = None,
      r_budget_root = run_id, r_checkpoint = None, r_checkpoint_replay_safe = True,
      r_checkpoint_effect = NONE, r_checkpoint_revision = ss_revision session,
      r_inflight_round = None, r_interrupted_writes = None, r_started_at = None,
      r_finished_at = None, r_queued_at = now, r_claimable_after = None, r_updated_at = now,
      r_recovery_attempts = 0, r_last_heartbeat_at = None, r_cleanup_target = None,
      r_cleanup_sandbox = None, r_delivery_mode = None, r_end_user = None,
      r_pricing_version = None, r_parent = None, r_depth = 0, r_delegation_scope = None,
      r_delegation_result = None, r_result_delivered_at = None, r_created_at = now\<rparr>"

text \<open>A new Run joins its Session: the row, the next sequence number, and the head where the
  Session has none.\<close>

definition enqueue_run :: "RunRow \<Rightarrow> SessionRow \<Rightarrow> Store \<Rightarrow> Store" where
  "enqueue_run run session st =
     update_session (ss_id session)
       (\<lambda>s. s\<lparr>ss_next_run_sequence := ss_next_run_sequence session + 1,
             ss_head := (case ss_head session of None \<Rightarrow> Some (r_id run) | Some h \<Rightarrow> Some h)\<rparr>)
       (st\<lparr>st_runs := st_runs st @ [run]\<rparr>)"

record AcceptRunCommand =
  ar_workspace_id :: nat
  ar_session_id :: nat
  ar_caller :: CallerIdentity
  ar_capabilities :: RunCapabilities
  ar_endpoint :: pystr
  ar_idempotency_key :: pystr
  ar_fingerprint :: pystr
  ar_message :: "CanonicalMessage option"
  ar_request :: pystr
  ar_delivery_mode :: "pystr option"
  ar_purpose :: RunPurpose

text \<open>\<open>__post_init__\<close>: only a compaction Run may be accepted with no message.\<close>

definition accept_command_ok :: "AcceptRunCommand \<Rightarrow> bool" where
  "accept_command_ok c \<longleftrightarrow> \<not> (ar_message c = None \<and> ar_purpose c \<noteq> COMPACTION)"

definition accept_scope :: "AcceptRunCommand \<Rightarrow> IdempotencyScope" where
  "accept_scope c =
     \<lparr>is_workspace = ar_workspace_id c, is_caller = ar_caller c, is_endpoint = ar_endpoint c,
      is_key = ar_idempotency_key c\<rparr>"

definition accepted_row ::
  "nat \<Rightarrow> datetime \<Rightarrow> AcceptRunCommand \<Rightarrow> SessionRow \<Rightarrow> nat \<Rightarrow> nat option \<Rightarrow> RunRow" where
  "accepted_row run_id now c session version_id pricing =
     (new_run run_id now session version_id)
     \<lparr>r_delivery_mode := ar_delivery_mode c, r_purpose := ar_purpose c,
      r_end_user := (if ca_type (ar_caller c) \<in> {USER, END_USER} then Some (ca_id (ar_caller c)) else None),
      r_pricing_version := pricing\<rparr>"

text \<open>The events, the audit row and the response a created Run ends with.\<close>

definition finish_accept ::
  "datetime \<Rightarrow> RunCapabilities \<Rightarrow> CallerIdentity \<Rightarrow> IdempotencyScope \<Rightarrow> nat \<Rightarrow> pystr \<Rightarrow> pystr \<Rightarrow> jobject \<Rightarrow>
   Store \<Rightarrow> (StoreError, AcceptedRun \<times> Store) result" where
  "finish_accept now caps caller scope run_id action request_id payload st =
     bind_res
       (append_events now (is_workspace scope) run_id
          [\<lparr>re_type = RUN_CREATED, re_payload = payload\<rparr>] st)
       (\<lambda>st1.
          bind_res
            (returning now caps run_id
               (audit (is_workspace scope) (Some (ca_id caller)) action (py ''run'') run_id request_id
                  (py ''succeeded'') [] (Some (CallerType_value (ca_type caller))) st1))
            (\<lambda>(document, st2).
               map_sum id (\<lambda>st3. (\<lparr>ac_run = run_id, ac_document = document, ac_replayed = False\<rparr>, st3))
                 (store_response scope run_id document st2)))"

text \<open>The rows of an accepted Run: the Run in its Session, its message and its budget.\<close>

definition accept_rows ::
  "datetime \<Rightarrow> nat \<Rightarrow> AcceptRunCommand \<Rightarrow> SessionRow \<Rightarrow> nat \<Rightarrow> AgentLimits \<Rightarrow> Store \<Rightarrow> Store" where
  "accept_rows now run_id c session version_id limits st =
     (let run = accepted_row run_id now c session version_id (current_pricing now version_id st);
          st1 = enqueue_run run session st;
          st2 = append_messages now (ar_workspace_id c) run_id session
                  (case ar_message c of None \<Rightarrow> [] | Some m \<Rightarrow> [m]) st1
      in st2\<lparr>st_budgets := st_budgets st2 @
            [new_budget run_id limits now (cost_ceiling (ar_workspace_id c) st2)]\<rparr>)"

definition create_run ::
  "datetime \<Rightarrow> nat \<Rightarrow> AcceptRunCommand \<Rightarrow> Store \<Rightarrow> (StoreError, AcceptedRun \<times> Store) result" where
  "create_run now run_id c st =
     (case lock_session (ar_workspace_id c) (ar_session_id c) st of
        None \<Rightarrow> Inl UnknownSession
      | Some session \<Rightarrow>
          bind_res (published_version session st)
            (\<lambda>version.
               finish_accept now (ar_capabilities c) (ar_caller c) (accept_scope c) run_id
                 (py ''run.created'') (ar_request c)
                 [(py ''session_sequence'', JInt (int (ss_next_run_sequence session)))]
                 (accept_rows now run_id c session (fst version) (snd version) st)))"

definition accept_run ::
  "datetime \<Rightarrow> nat \<Rightarrow> AcceptRunCommand \<Rightarrow> Store \<Rightarrow> (StoreError, AcceptedRun \<times> Store) result" where
  "accept_run now run_id c st =
     (if \<not> accept_command_ok c then Inl (PyError ValueError)
      else
     bind_res (claim_idempotency (accept_scope c) (ar_fingerprint c) st)
       (\<lambda>claimed.
          case fst claimed of
            Some answer \<Rightarrow> Inr (answer, snd claimed)
          | None \<Rightarrow> create_run now run_id c (snd claimed)))"

record RetryRunCommand =
  rt_workspace :: nat
  rt_source :: nat
  rt_caller :: CallerIdentity
  rt_capabilities :: RunCapabilities
  rt_endpoint :: pystr
  rt_idempotency_key :: pystr
  rt_fingerprint :: pystr
  rt_request :: pystr

definition retry_scope :: "RetryRunCommand \<Rightarrow> IdempotencyScope" where
  "retry_scope c =
     \<lparr>is_workspace = rt_workspace c, is_caller = rt_caller c, is_endpoint = rt_endpoint c,
      is_key = rt_idempotency_key c\<rparr>"

definition retry_row :: "nat \<Rightarrow> datetime \<Rightarrow> RunRow \<Rightarrow> SessionRow \<Rightarrow> RunRow" where
  "retry_row run_id now source session =
     (new_run run_id now session (r_agent_version source))
     \<lparr>r_retry_of := Some (r_id source), r_budget_root := r_budget_root source,
      r_checkpoint := r_checkpoint source, r_delivery_mode := r_delivery_mode source,
      r_end_user := r_end_user source, r_pricing_version := r_pricing_version source\<rparr>"

definition checkpoint_messages :: "nat \<Rightarrow> nat \<Rightarrow> Store \<Rightarrow> CanonicalMessage list" where
  "checkpoint_messages session_id source_id st =
     map sm_message (sort_key sm_sequence
       (filter (\<lambda>m. sm_session m = session_id \<and> sm_source_run m = Some source_id \<and>
                    \<not> sm_redacted m \<and> sm_withdrawn_at m = None) (st_messages st)))"

definition copy_checkpoint_messages :: "datetime \<Rightarrow> SessionRow \<Rightarrow> nat \<Rightarrow> nat \<Rightarrow> Store \<Rightarrow> Store" where
  "copy_checkpoint_messages now session source_id run_id st =
     append_messages now (ss_workspace session) run_id session
       (checkpoint_messages (ss_id session) source_id st) st"

definition retry_rows ::
  "datetime \<Rightarrow> nat \<Rightarrow> RunRow \<Rightarrow> SessionRow \<Rightarrow> BudgetRow \<Rightarrow> Store \<Rightarrow> Store" where
  "retry_rows now run_id source session budget st =
     copy_checkpoint_messages now session (r_id source) run_id
       (enqueue_run (retry_row run_id now source session) session
          (update_budget (r_budget_root source) (\<lambda>_. budget) st))"

definition create_retry ::
  "datetime \<Rightarrow> nat \<Rightarrow> RetryRunCommand \<Rightarrow> Store \<Rightarrow> (StoreError, AcceptedRun \<times> Store) result" where
  "create_retry now run_id c st =
     (case lock_run (rt_workspace c) (rt_source c) st of
        None \<Rightarrow> Inl UnknownRun
      | Some source \<Rightarrow>
     (case lock_session (rt_workspace c) (r_session source) st of
        None \<Rightarrow> Inl UnknownSession
      | Some session \<Rightarrow>
     (case lookup_budget (r_budget_root source) st of
        None \<Rightarrow> Inl UnknownRun
      | Some budget \<Rightarrow>
     (case retry_blocker now source session budget st of
        Some e \<Rightarrow> Inl e
      | None \<Rightarrow>
     (case reserve_retry budget of
        None \<Rightarrow> Inl RetryLimitReached
      | Some budget' \<Rightarrow>
          bind_res
            (append_events now (rt_workspace c) (r_id source)
               [\<lparr>re_type = RUN_RETRY_DERIVED,
                 re_payload = [(py ''derived_run_id'', JStr (uuid_str run_id))]\<rparr>]
               (retry_rows now run_id source session budget' st))
            (finish_accept now (rt_capabilities c) (rt_caller c) (retry_scope c) run_id
               (py ''run.retry_derived'') (rt_request c)
               [(py ''retry_of_run_id'', JStr (uuid_str (r_id source)))]))))))"

definition derive_retry ::
  "datetime \<Rightarrow> nat \<Rightarrow> RetryRunCommand \<Rightarrow> Store \<Rightarrow> (StoreError, AcceptedRun \<times> Store) result" where
  "derive_retry now run_id c st =
     (if \<not> can_retry (rt_capabilities c) then Inl ForbiddenRunAction
      else
     bind_res (claim_idempotency (retry_scope c) (rt_fingerprint c) st)
       (\<lambda>claimed.
          case fst claimed of
            Some answer \<Rightarrow> Inr (answer, snd claimed)
          | None \<Rightarrow> create_retry now run_id c (snd claimed)))"

end
