(* ===== verification/Run_Children.thy ===== *)
theory Run_Children
  imports Run_Intake
begin

text \<open>
  Delegation in the store: the children a Run asks for, all or none of them
  (\<open>delegate_children\<close>), the handover of what they report and the wake of the parent
  (\<open>settle_child_wait\<close>), and the cancelling of children nobody waits for any more
  (\<open>cascade_cancel_children\<close>).
\<close>

section \<open>Creating children\<close>

record DelegationRequest =
  dr_alias :: pystr
  dr_instruction :: pystr
  dr_artifacts :: "pystr list"

record DelegatedChild =
  dc_run :: nat
  dc_session :: nat
  dc_alias :: pystr

text \<open>\<open>DelegationResult\<close>: the children, or the sentence that refuses.\<close>

type_synonym DelegationResult = "pystr + DelegatedChild list"

definition names :: "pystr set \<Rightarrow> pystr" where
  "names s = py_join (py '', '') (sorted_list_of_set s)"

definition policy_bindings :: "DelegationPolicy \<Rightarrow> pystr \<Rightarrow> ChildBinding option" where
  "policy_bindings policy = map_of (rev (map (\<lambda>b. (cb_alias b, b)) (dp_children policy)))"

text \<open>The published version behind an alias, in this workspace only.\<close>

definition child_agents :: "nat \<Rightarrow> Store \<Rightarrow> pystr \<Rightarrow> nat option" where
  "child_agents workspace_id st =
     map_of (rev (filter_map (\<lambda>a. if ag_workspace a = workspace_id
                                  then map_option (Pair (ag_alias a)) (ag_current_version a) else None)
       (st_agents st)))"

text \<open>Which of the named artifacts the Run may read: its own, or one it was granted. (The code
  reads all names in one query keyed by UUID, so of two spellings of one UUID in a single
  delegation it keeps one; here each spelling is read by itself.)\<close>

definition readable_artifact :: "RunRow \<Rightarrow> Store \<Rightarrow> pystr \<Rightarrow> nat option" where
  "readable_artifact run st name =
     (case uuid_of_str name of
        Inl _ \<Rightarrow> None
      | Inr u \<Rightarrow>
          if list_ex (\<lambda>a. ar_id a = u \<and> ar_workspace a = r_workspace run \<and>
               (ar_run a = r_id run \<or>
                list_ex (\<lambda>g. gr_artifact g = u \<and> gr_run g = r_id run) (st_grants st))) (st_artifacts st)
          then Some u else None)"

definition grant_artifact :: "nat \<Rightarrow> nat \<Rightarrow> nat \<Rightarrow> pystr \<Rightarrow> Store \<Rightarrow> Store" where
  "grant_artifact workspace_id artifact_id run_id reason st =
     (if list_ex (\<lambda>g. gr_artifact g = artifact_id \<and> gr_run g = run_id) (st_grants st) then st
      else st\<lparr>st_grants := st_grants st @
        [\<lparr>gr_workspace = workspace_id, gr_artifact = artifact_id, gr_run = run_id, gr_reason = reason\<rparr>]\<rparr>)"

definition platform_message :: "pystr \<Rightarrow> CanonicalMessage" where
  "platform_message body =
     \<lparr>m_role = RUser, m_blocks = [TextBlock body], m_author = Some APlatform\<rparr>"

definition scope_json :: "scope_document \<Rightarrow> json" where
  "scope_json document = JDict (map (\<lambda>(name, xs). (name, JList (map JStr xs))) document)"

definition child_scope ::
  "AgentSpec \<Rightarrow> ChildBinding \<Rightarrow> RunRow \<Rightarrow> Store \<Rightarrow> pystr list \<Rightarrow> scope_document" where
  "child_scope spec binding parent st artifacts =
     scope_to_document ((granted spec binding)
       \<lparr>ds_files := set (filter_map (\<lambda>n. map_option uuid_str (readable_artifact parent st n)) artifacts)\<rparr>)"

definition child_row ::
  "nat \<Rightarrow> datetime \<Rightarrow> RunRow \<Rightarrow> SessionRow \<Rightarrow> nat \<Rightarrow> scope_document \<Rightarrow> nat option \<Rightarrow> RunRow" where
  "child_row child_id now parent session version_id scope pricing =
     (new_run child_id now session version_id)
     \<lparr>r_parent := Some (r_id parent), r_depth := r_depth parent + 1,
      r_delegation_scope := Some scope, r_budget_root := r_budget_root parent,
      r_end_user := r_end_user parent, r_pricing_version := pricing\<rparr>"

text \<open>One child: its own Session, its Run, the files passed down and the turn that asks.\<close>

definition delegate_one ::
  "datetime \<Rightarrow> RunRow \<Rightarrow> SessionRow \<Rightarrow> scope_document \<Rightarrow> nat \<Rightarrow> nat list \<Rightarrow> DelegationRequest \<Rightarrow>
   nat \<times> nat \<Rightarrow> Store \<Rightarrow> (StoreError, Store) result" where
  "delegate_one now parent owning scope version_id files item ids st =
     (case lookup av_id version_id (st_versions st) of
        None \<Rightarrow> Inl UnknownRun
      | Some version \<Rightarrow>
          let (session_id, child_id) = ids;
              session = new_session session_id (r_workspace parent) (av_agent version) EPHEMERAL
                \<lparr>ca_type = ss_caller_type owning, ca_id = ss_caller_id owning\<rparr>;
              child = child_row child_id now parent session version_id scope
                        (current_pricing now version_id st);
              st1 = enqueue_run child session (st\<lparr>st_sessions := st_sessions st @ [session]\<rparr>);
              st2 = fold (\<lambda>u. grant_artifact (r_workspace parent) u child_id (py ''delegated_down'')) files st1;
              st3 = append_messages now (r_workspace parent) child_id session
                      [platform_message (dr_instruction item)] st2
          in bind_res
               (append_events now (r_workspace parent) child_id
                  [\<lparr>re_type = RUN_CREATED,
                    re_payload = [(py ''parent_run_id'', JStr (uuid_str (r_id parent))),
                                  (py ''depth'', JInt (int (r_depth child))),
                                  (py ''delegation_scope'', scope_json scope)]\<rparr>] st3)
               (\<lambda>st4. Inr (audit (r_workspace parent) (Some (ss_caller_id owning)) (py ''run.delegated'')
                  (py ''run'') child_id (py ''delegate-'' @ uuid_str (r_id parent)) (py ''succeeded'') []
                  (Some (CallerType_value (ss_caller_type owning))) st4)))"

fun delegate_all ::
  "datetime \<Rightarrow> RunRow \<Rightarrow> SessionRow \<Rightarrow> (DelegationRequest \<times> scope_document \<times> nat \<times> nat list) list \<Rightarrow>
   (nat \<times> nat) list \<Rightarrow> Store \<Rightarrow> (StoreError, DelegatedChild list \<times> Store) result" where
  "delegate_all now parent owning ((item, scope, version_id, files) # items) (ids # more_ids) st =
     bind_res (delegate_one now parent owning scope version_id files item ids st)
       (\<lambda>st1. map_sum id
          (\<lambda>(children, st2).
             (\<lparr>dc_run = snd ids, dc_session = fst ids, dc_alias = dr_alias item\<rparr> # children, st2))
          (delegate_all now parent owning items more_ids st1))"
| "delegate_all now parent owning _ _ st = Inr ([], st)"

text \<open>The refusals, in the order they are decided: none of them writes a row.\<close>

definition delegation_refusal ::
  "RunRow \<Rightarrow> AgentSpec \<Rightarrow> DelegationRequest list \<Rightarrow> Store \<Rightarrow> pystr option" where
  "delegation_refusal parent spec requests st =
     (case sp_delegation spec of
        None \<Rightarrow> Some (py ''you are not configured to delegate to anybody'')
      | Some policy \<Rightarrow>
          let bindings = policy_bindings policy;
              bound = set (map cb_alias (dp_children policy));
              asked = set (map dr_alias requests);
              unbound = asked - bound;
              agents = child_agents (r_workspace parent) st;
              missing = {a \<in> asked. agents a = None};
              wanted = set (concat (map dr_artifacts requests));
              unreadable = {n \<in> wanted. readable_artifact parent st n = None}
          in if unbound \<noteq> {}
             then Some (py ''you may not delegate to '' @ names unbound @ py ''. You may delegate to '' @ names bound)
             else if length requests > dp_max_parallel policy
             then Some (py ''you asked for '' @ py_int (int (length requests)) @ py '' at once and may run '' @
                        py_int (int (dp_max_parallel policy)))
             else if missing \<noteq> {} then Some (names missing @ py '' is not published in this workspace'')
             else if unreadable \<noteq> {}
             then Some (py ''you cannot read '' @ names unreadable @ py '', so you cannot pass it on'')
             else None)"

definition delegation_items ::
  "RunRow \<Rightarrow> AgentSpec \<Rightarrow> DelegationRequest list \<Rightarrow> Store \<Rightarrow>
   (DelegationRequest \<times> scope_document \<times> nat \<times> nat list) list" where
  "delegation_items parent spec requests st =
     (case sp_delegation spec of
        None \<Rightarrow> []
      | Some policy \<Rightarrow>
          filter_map (\<lambda>item.
            case (policy_bindings policy (dr_alias item), child_agents (r_workspace parent) st (dr_alias item)) of
              (Some binding, Some version_id) \<Rightarrow>
                Some (item, child_scope spec binding parent st (dr_artifacts item), version_id,
                      filter_map (readable_artifact parent st) (dr_artifacts item))
            | _ \<Rightarrow> None) requests)"

definition delegate_children ::
  "datetime \<Rightarrow> nat \<Rightarrow> DelegationRequest list \<Rightarrow> (nat \<times> nat) list \<Rightarrow> Store \<Rightarrow>
   (StoreError, DelegationResult \<times> Store) result" where
  "delegate_children now parent_id requests ids st =
     (case lookup_run parent_id st of
        None \<Rightarrow> Inr (Inl (py ''this Run is not on record''), st)
      | Some parent \<Rightarrow>
          if r_depth parent \<ge> MAX_DELEGATION_DEPTH
          then Inr (Inl (py (''you were delegated this work yourself, and an Agent working '' @
                             ''on somebody else's behalf cannot delegate further'')), st)
          else
     (case (lookup av_id (r_agent_version parent) (st_versions st), lookup_session (r_session parent) st) of
        (Some version, Some owning) \<Rightarrow>
          (case delegation_refusal parent (av_spec version) requests st of
             Some refusal \<Rightarrow> Inr (Inl refusal, st)
           | None \<Rightarrow>
               map_sum id (\<lambda>(children, st'). (Inr children, st'))
                 (delegate_all now parent owning (delegation_items parent (av_spec version) requests st) ids st))
      | _ \<Rightarrow> Inr (Inl (py ''this Run is not on record''), st)))"

section \<open>What children report\<close>

text \<open>\<open>for item in value\<close> over a stored value.\<close>

fun json_items :: "json \<Rightarrow> (py_error, json list) result" where
  "json_items (JList xs) = Inr xs"
| "json_items (JDict kvs) = Inr (map (\<lambda>kv. JStr (fst kv)) kvs)"
| "json_items (JStr s) = Inr (map (\<lambda>c. JStr [c]) s)"
| "json_items _ = Inl TypeError"

definition cut_note :: "json \<Rightarrow> pystr" where
  "cut_note n =
     (let first_part = py '' ['' @ [8230] @ py ''the report was cut: only its first '' @ py_int (int MAX_CHILD_SUMMARY);
          shown = py '' characters are shown]''
      in case n of
           JInt i \<Rightarrow> first_part @ py '' of '' @ py_int i @ shown
         | JBool b \<Rightarrow> first_part @ py '' of '' @ (if b then py ''True'' else py ''False'') @ shown
         | _ \<Rightarrow> first_part @ shown)"

definition child_report_line ::
  "(nat \<Rightarrow> bool) \<Rightarrow> nat \<Rightarrow> jobject \<Rightarrow> pystr \<Rightarrow> (py_error, pystr) result" where
  "child_report_line prn child_id report fallback_status =
     (let status = py_str prn (jget_or report (py ''status'') (JStr fallback_status));
          summary = py_strip (py_str prn (jget_or report (py ''summary'') (JStr [])));
          said = (if summary = [] then py ''It reported nothing.'' else summary);
          cut = (if py_bool (jget_or report (py ''summary_truncated'') JNull)
                 then said @ cut_note (jget_or report (py ''summary_length'') JNull) else said);
          reason = jget_or report (py ''failure_reason'') JNull;
          told = (if status \<noteq> RunState_value RunState.COMPLETED \<and> py_bool reason
                  then cut @ py '' (reason: '' @ py_str prn reason @ py '')'' else cut)
      in map_sum id
           (\<lambda>items.
              let handed = map (py_str prn) items;
                  full = (if handed = [] then told
                          else told @ py '' Files: '' @ py_join (py '', '') handed @ py ''.'')
              in py ''- '' @ uuid_str child_id @ py '' ['' @ status @ py '']: '' @ full)
           (json_items (jget_or report (py ''artifacts'') (JList []))))"

fun grant_all ::
  "(nat \<Rightarrow> bool) \<Rightarrow> nat \<Rightarrow> nat \<Rightarrow> json list \<Rightarrow> Store \<Rightarrow> (StoreError, Store) result" where
  "grant_all prn workspace_id run_id [] st = Inr st"
| "grant_all prn workspace_id run_id (a # rest) st =
     (case uuid_of_str (py_str prn a) of
        Inl e \<Rightarrow> Inl (PyError e)
      | Inr u \<Rightarrow> grant_all prn workspace_id run_id rest
                   (grant_artifact workspace_id u run_id (py ''delivered_up'') st))"

text \<open>One child's turn in the loop of \<open>_deliver_child_results\<close>: its files are granted, its
  line written, its result stamped as delivered.\<close>

definition deliver_one ::
  "(nat \<Rightarrow> bool) \<Rightarrow> datetime \<Rightarrow> RunRow \<Rightarrow> RunRow \<Rightarrow> Store \<Rightarrow> (StoreError, pystr \<times> Store) result" where
  "deliver_one prn now parent child st =
     (let report = (case r_delegation_result child of None \<Rightarrow> [] | Some d \<Rightarrow> d)
      in case json_items (jget_or report (py ''artifacts'') (JList [])) of
           Inl e \<Rightarrow> Inl (PyError e)
         | Inr items \<Rightarrow>
             bind_res (grant_all prn (r_workspace parent) (r_id parent) items st)
               (\<lambda>st1.
                  case child_report_line prn (r_id child) report (RunState_value (r_status child)) of
                    Inl e \<Rightarrow> Inl (PyError e)
                  | Inr line \<Rightarrow>
                      Inr (line, update_run (r_id child) (\<lambda>r. r\<lparr>r_result_delivered_at := Some now\<rparr>) st1)))"

fun deliver_lines ::
  "(nat \<Rightarrow> bool) \<Rightarrow> datetime \<Rightarrow> RunRow \<Rightarrow> RunRow list \<Rightarrow> Store \<Rightarrow> (StoreError, pystr list \<times> Store) result" where
  "deliver_lines prn now parent [] st = Inr ([], st)"
| "deliver_lines prn now parent (child # rest) st =
     bind_res (deliver_one prn now parent child st)
       (\<lambda>(line, st1). map_sum id (\<lambda>(lines, st2). (line # lines, st2)) (deliver_lines prn now parent rest st1))"

definition deliver_child_results ::
  "(nat \<Rightarrow> bool) \<Rightarrow> datetime \<Rightarrow> RunRow \<Rightarrow> SessionRow \<Rightarrow> RunRow list \<Rightarrow> Store \<Rightarrow> (StoreError, Store) result" where
  "deliver_child_results prn now parent session children st =
     map_sum id
       (\<lambda>(lines, st1).
          append_messages now (r_workspace parent) (r_id parent) session
            [platform_message
               (py (''The Agents you delegated to have finished. This is everything they '' @
                    ''reported; you cannot see how they worked.'') @ [10] @ py_join [10] lines)] st1)
       (deliver_lines prn now parent children st)"

definition cancel_child :: "datetime \<Rightarrow> nat \<Rightarrow> pystr \<Rightarrow> pystr \<Rightarrow> Store \<Rightarrow> (StoreError, Store) result" where
  "cancel_child now child_id request_id reason st =
     (case lookup_run child_id st of
        None \<Rightarrow> Inl UnknownRun
      | Some child \<Rightarrow>
          if \<not> live child then Inr st
          else if lock_session (r_workspace child) (r_session child) st = None then Inr st
          else decide_and_write now child_id
                 (signal_write CANCEL_REQUESTED request_id [(py ''reason'', JStr reason)]) st)"

fun cancel_children ::
  "datetime \<Rightarrow> pystr \<Rightarrow> pystr \<Rightarrow> nat list \<Rightarrow> Store \<Rightarrow> (StoreError, Store) result" where
  "cancel_children now request_id reason [] st = Inr st"
| "cancel_children now request_id reason (c # cs) st =
     bind_res (cancel_child now c request_id reason st) (cancel_children now request_id reason cs)"

definition undelivered_children :: "nat \<Rightarrow> Store \<Rightarrow> RunRow list" where
  "undelivered_children parent_id st =
     sort_key (\<lambda>r. (r_created_at r, r_id r))
       (filter (\<lambda>r. r_parent r = Some parent_id \<and> r_result_delivered_at r = None) (st_runs st))"

definition WaitPolicy_value :: "WaitPolicy \<Rightarrow> pystr" where
  "WaitPolicy_value p = (case p of WaitPolicy.ALL \<Rightarrow> py ''all'' | ANY \<Rightarrow> py ''any'')"

text \<open>The delivery and the wake, once the wait is over.\<close>

definition wake_parent ::
  "(nat \<Rightarrow> bool) \<Rightarrow> datetime \<Rightarrow> RunRow \<Rightarrow> WaitPolicy \<Rightarrow> nat \<Rightarrow> pystr \<Rightarrow> nat list \<Rightarrow> Store \<Rightarrow>
   (StoreError, bool \<times> Store) result" where
  "wake_parent prn now parent policy succeeded request_id children st =
     (let finished = filter (\<lambda>r. \<not> live r) (filter_map (\<lambda>i. lookup_run i st) children)
      in case lock_session (r_workspace parent) (r_session parent) st of
           None \<Rightarrow> Inr (False, st)
         | Some session \<Rightarrow>
             bind_res (deliver_child_results prn now parent session finished st)
               (\<lambda>st1. map_sum id (Pair True)
                  (decide_and_write now (r_id parent)
                     (signal_write EXTERNAL_READY request_id
                        [(py ''reason'', JStr (py ''children_settled'')),
                         (py ''wait'', JStr (WaitPolicy_value policy)),
                         (py ''children'', JInt (int (length finished))),
                         (py ''succeeded'', JInt (int succeeded))]) st1)))"

definition settle_child_wait ::
  "(nat \<Rightarrow> bool) \<Rightarrow> datetime \<Rightarrow> nat \<Rightarrow> pystr \<Rightarrow> Store \<Rightarrow> (StoreError, bool \<times> Store) result" where
  "settle_child_wait prn now parent_id request_id st =
     (case lookup_run parent_id st of
        None \<Rightarrow> Inr (False, st)
      | Some parent \<Rightarrow>
          if r_status parent \<noteq> WAITING_EXTERNAL then Inr (False, st)
          else if r_wait_kind parent \<noteq> Some WAIT_CHILD_RUNS then Inr (False, st)
          else
            let children = undelivered_children parent_id st;
                ids = map r_id children;
                policy = (case r_wait_policy parent of None \<Rightarrow> WaitPolicy.ALL | Some p \<Rightarrow> p);
                finished = filter (\<lambda>r. \<not> live r) children;
                succeeded = filter (\<lambda>r. r_status r = RunState.COMPLETED) finished
            in if children = [] then Inr (False, st)
               else if policy = ANY \<and> succeeded \<noteq> []
               then bind_res (cancel_children now request_id (py ''sibling_succeeded'')
                                (map r_id (filter live children)) st)
                      (wake_parent prn now parent policy (length succeeded) request_id ids)
               else if length finished \<noteq> length children then Inr (False, st)
               else wake_parent prn now parent policy (length succeeded) request_id ids st)"

definition cascade_cancel_children ::
  "datetime \<Rightarrow> nat \<Rightarrow> pystr \<Rightarrow> Store \<Rightarrow> (StoreError, nat \<times> Store) result" where
  "cascade_cancel_children now parent_id request_id st =
     (case lookup_run parent_id st of
        None \<Rightarrow> Inr (0, st)
      | Some parent \<Rightarrow>
          if live parent then Inr (0, st)
          else
            let children = map r_id (filter (\<lambda>r. r_parent r = Some parent_id \<and> live r) (st_runs st))
            in map_sum id (Pair (length children))
                 (cancel_children now request_id (py ''parent_terminated'') children st))"

end
