(* ===== verification/Run_Sweeps.thy ===== *)
theory Run_Sweeps
  imports Run_Claims Run_Children
begin

text \<open>
  The transitions nobody asks for, each started by the Scheduler, and the Scheduler's passes
  over them (\<^verbatim>\<open>runs/application/scheduler.py\<close>). A pass is one transaction: it
  lists the rows a scan found and handles them in order, and an exception leaves everything
  it did undone. The passes that destroy sandboxes and collect object storage are not here.
\<close>

section \<open>Single repairs\<close>

definition reclaim_expired_lease :: "datetime \<Rightarrow> nat \<Rightarrow> pystr \<Rightarrow> Store \<Rightarrow> (StoreError, Store) result" where
  "reclaim_expired_lease now run_id request_id st =
     (case lookup_run run_id st of
        None \<Rightarrow> Inr st
      | Some run \<Rightarrow>
          if \<not> live run then Inr st
          else if lock_session (r_workspace run) (r_session run) st = None then Inr st
          else decide_and_write now run_id
                 (signal_write RunSignal.INTERRUPTED request_id
                    [(py ''reason'', JStr (py ''lease_expired''))])
                 (release_lease now run_id st))"

definition revision_agrees :: "RunRow \<Rightarrow> SessionRow \<Rightarrow> bool" where
  "revision_agrees run session \<longleftrightarrow>
     r_checkpoint_revision run = None \<or> r_checkpoint_revision run = ss_revision session"

text \<open>The call that was going out and the store with the interrupted round told, or nothing to
  tell.\<close>

definition tell_interrupted_round ::
  "(nat \<Rightarrow> bool) \<Rightarrow> datetime \<Rightarrow> RunRow \<Rightarrow> SessionRow \<Rightarrow> Store \<Rightarrow> (StoreError, pystr option \<times> Store) result" where
  "tell_interrupted_round prn now run session st =
     (case r_inflight_round run of
        None \<Rightarrow> Inr (None, st)
      | Some document \<Rightarrow>
     (case inflight_from_document prn document of
        Inl e \<Rightarrow> Inl (PyError e)
      | Inr sending \<Rightarrow>
     (case told_after_interruption sending of
        Inl e \<Rightarrow> Inl (PyError e)
      | Inr (assistant, answers) \<Rightarrow>
          let st1 = append_messages now (r_workspace run) (r_id run) session [assistant, answers] st;
              writes = (case (if_idempotency_key sending, if_fingerprint sending) of
                          (Some key, Some fingerprint) \<Rightarrow>
                            Some ((case r_interrupted_writes run of None \<Rightarrow> [] | Some ws \<Rightarrow> ws) @ [(fingerprint, key)])
                        | _ \<Rightarrow> r_interrupted_writes run)
          in Inr (Some (if_call_id sending),
               update_run (r_id run)
                 (\<lambda>r. r\<lparr>r_interrupted_writes := writes, r_inflight_round := None,
                       r_checkpoint_effect := NONE\<rparr>) st1))))"

text \<open>What makes it safe to put the Run back, read after the round was told.\<close>

definition recovery_safe :: "datetime \<Rightarrow> nat \<Rightarrow> RunRow \<Rightarrow> SessionRow \<Rightarrow> BudgetRow \<Rightarrow> bool" where
  "recovery_safe now max_attempts run session budget \<longleftrightarrow>
     r_checkpoint_replay_safe run \<and> revision_agrees run session \<and>
     r_checkpoint_effect run \<noteq> CheckpointEffectStatus.UNKNOWN \<and>
     allows_execution budget now \<and> r_recovery_attempts run < max_attempts"

definition settle_recovery ::
  "datetime \<Rightarrow> nat \<Rightarrow> pystr \<Rightarrow> SessionRow \<Rightarrow> BudgetRow \<Rightarrow> RunRow \<Rightarrow> pystr option \<Rightarrow> Store \<Rightarrow> (StoreError, Store) result" where
  "settle_recovery now max_attempts request_id session budget run told st =
     (let safe = recovery_safe now max_attempts run session budget;
          st1 = (if safe then update_run (r_id run) (\<lambda>r. r\<lparr>r_recovery_attempts := r_recovery_attempts r + 1\<rparr>) st
                 else st)
      in decide_and_write now (r_id run)
           (signal_write (if safe then RECOVERY_APPROVED else RECOVERY_FAILED) request_id
              ((py ''replay_safe'', JBool (r_checkpoint_replay_safe run)) #
               (case told of None \<Rightarrow> [] | Some call \<Rightarrow> [(py ''interrupted_call_id'', JStr call)]))) st1)"

definition recover_interrupted ::
  "(nat \<Rightarrow> bool) \<Rightarrow> datetime \<Rightarrow> nat \<Rightarrow> nat \<Rightarrow> pystr \<Rightarrow> Store \<Rightarrow> (StoreError, RunState option \<times> Store) result" where
  "recover_interrupted prn now run_id max_attempts request_id st =
     (case lookup_run run_id st of
        None \<Rightarrow> Inr (None, st)
      | Some run \<Rightarrow>
          if r_status run \<noteq> RunState.INTERRUPTED then Inr (None, st)
          else if r_cleanup_target run \<noteq> None then Inr (None, st)
          else
     (case (lock_session (r_workspace run) (r_session run) st, lookup_budget (r_budget_root run) st) of
        (Some session, Some budget) \<Rightarrow>
          bind_res (if revision_agrees run session then tell_interrupted_round prn now run session st
                    else Inr (None, st))
            (\<lambda>(told, st1).
               case lookup_run run_id st1 of
                 None \<Rightarrow> Inl UnknownRun
               | Some run1 \<Rightarrow>
                   map_sum id (\<lambda>st2. (run_status run_id st2, st2))
                     (settle_recovery now max_attempts request_id session budget run1 told st1))
      | _ \<Rightarrow> Inr (None, st)))"

text \<open>The three repairs that move a Run only out of the state it is expected in.\<close>

definition wake_external_wait :: "datetime \<Rightarrow> nat \<Rightarrow> pystr \<Rightarrow> Store \<Rightarrow> (StoreError, bool \<times> Store) result" where
  "wake_external_wait now run_id request_id st =
     (case lookup_run run_id st of
        None \<Rightarrow> Inr (False, st)
      | Some run \<Rightarrow>
          if r_status run \<noteq> WAITING_EXTERNAL then Inr (False, st)
          else if lock_session (r_workspace run) (r_session run) st = None then Inr (False, st)
          else map_sum id (Pair True)
                 (decide_and_write now run_id
                    (signal_write EXTERNAL_READY request_id
                       [(py ''reason'', JStr (py ''wait_timer_elapsed''))]) st))"

definition time_out_external_wait :: "datetime \<Rightarrow> nat \<Rightarrow> pystr \<Rightarrow> Store \<Rightarrow> (StoreError, Store) result" where
  "time_out_external_wait now run_id request_id st =
     (case lookup_run run_id st of
        None \<Rightarrow> Inr st
      | Some run \<Rightarrow>
          if r_status run \<noteq> WAITING_EXTERNAL then Inr st
          else if lock_session (r_workspace run) (r_session run) st = None then Inr st
          else decide_and_write now run_id
                 ((signal_write EXTERNAL_PAUSED request_id
                     [(py ''reason'', JStr (py ''wait_deadline_passed''))])
                  \<lparr>sw_pause_reason := Some EXTERNAL_TIMEOUT\<rparr>) st)"

definition expire_approval ::
  "datetime \<Rightarrow> nat \<Rightarrow> nat \<Rightarrow> pystr \<Rightarrow> Store \<Rightarrow> (StoreError, Store) result" where
  "expire_approval now approval_id run_id request_id st =
     (case lookup ap_id approval_id (st_approvals st) of
        None \<Rightarrow> Inr st
      | Some approval \<Rightarrow>
          if ap_status approval \<noteq> ApprovalStatus.PENDING then Inr st
          else
            let st1 = st\<lparr>st_approvals := update_where (\<lambda>a. ap_id a = approval_id)
                        (\<lambda>a. a\<lparr>ap_status := EXPIRED, ap_decided_at := Some now\<rparr>) (st_approvals st)\<rparr>
            in case lookup_run run_id st1 of
                 None \<Rightarrow> Inr st1
               | Some run \<Rightarrow>
                   if r_status run \<noteq> WAITING_APPROVAL then Inr st1
                   else if lock_session (r_workspace run) (r_session run) st1 = None then Inr st1
                   else decide_and_write now run_id
                          ((signal_write APPROVAL_PAUSED request_id
                              [(py ''approval_id'', JStr (uuid_str approval_id))])
                           \<lparr>sw_pause_reason := Some APPROVAL_EXPIRED\<rparr>) st1)"

definition cancel_aged_compat_timeout :: "datetime \<Rightarrow> nat \<Rightarrow> pystr \<Rightarrow> Store \<Rightarrow> (StoreError, Store) result" where
  "cancel_aged_compat_timeout now run_id request_id st =
     (case lookup_run run_id st of
        None \<Rightarrow> Inr st
      | Some run \<Rightarrow>
          if r_status run \<noteq> PAUSED then Inr st
          else if r_pause_reason run \<noteq> Some COMPAT_TIMEOUT then Inr st
          else if lock_session (r_workspace run) (r_session run) st = None then Inr st
          else decide_and_write now run_id
                 (signal_write CANCEL_REQUESTED request_id
                    [(py ''reason'', JStr (py ''compat_timeout_aged_out''))]) st)"

text \<open>\<open>DELETE ... LIMIT\<close> without an order: the rows in the table's order stand for the
  ones the database happens to pick.\<close>

fun delete_first :: "nat \<Rightarrow> ('r \<Rightarrow> bool) \<Rightarrow> 'r list \<Rightarrow> nat \<times> 'r list" where
  "delete_first limit doomed [] = (0, [])"
| "delete_first limit doomed (r # rows) =
     (if 0 < limit \<and> doomed r
      then (let (n, kept) = delete_first (limit - 1) doomed rows in (n + 1, kept))
      else (let (n, kept) = delete_first limit doomed rows in (n, r # kept)))"

definition delete_expired_idempotency_records :: "datetime \<Rightarrow> nat \<Rightarrow> Store \<Rightarrow> nat \<times> Store" where
  "delete_expired_idempotency_records now limit st =
     (let (n, kept) = delete_first limit
            (\<lambda>k. case k_expires_at k of None \<Rightarrow> False | Some t \<Rightarrow> t \<le> now) (st_idempotency st)
      in (n, st\<lparr>st_idempotency := kept\<rparr>))"

definition prune_terminal_run_events :: "datetime \<Rightarrow> nat \<Rightarrow> Store \<Rightarrow> nat \<times> Store" where
  "prune_terminal_run_events before limit st =
     (let (n, kept) = delete_first limit
            (\<lambda>e. (case lookup_run (e_run e) st of None \<Rightarrow> False | Some r \<Rightarrow> \<not> live r) \<and>
                 e_occurred_at e < before) (st_events st)
      in (n, st\<lparr>st_events := kept\<rparr>))"

text \<open>\<open>confirm_cleanup_intent\<close>: the destination a rollback recorded, once its sandbox is gone.
  An exception is logged and the intent stays.\<close>

definition cleanup_destination :: "WorkspaceCleanupTarget \<Rightarrow> (RunSignal \<times> PauseReason option) option" where
  "cleanup_destination target =
     (case target of
        PAUSED_LIMIT \<Rightarrow> Some (LIMIT_CLEANUP_CONFIRMED, Some LIMIT)
      | FAILED_CONFLICT \<Rightarrow> Some (RECOVERY_FAILED, None)
      | WorkspaceCleanupTarget.QUEUED \<Rightarrow> None)"

definition confirm_cleanup_intent :: "datetime \<Rightarrow> nat \<Rightarrow> nat \<Rightarrow> Store \<Rightarrow> Store" where
  "confirm_cleanup_intent now run_id sandbox_id st =
     (case lookup_run run_id st of
        None \<Rightarrow> st
      | Some run \<Rightarrow>
     (case r_cleanup_target run of
        None \<Rightarrow> st
      | Some target \<Rightarrow>
          if r_cleanup_sandbox run \<noteq> Some sandbox_id then st
          else case cleanup_destination target of
            None \<Rightarrow> st
          | Some (signal, reason) \<Rightarrow>
              (case apply_signal now \<lparr>can_control = True, can_retry = True, can_hold_budget = False\<rparr>
                      \<lparr>as_workspace = r_workspace run, as_run = run_id, as_signal = signal,
                       as_request = py ''scheduler-cleanup-'' @ uuid_str run_id,
                       as_expected_version = None, as_pause_reason = reason, as_wait_kind = None,
                       as_wait_deadline_at = None, as_payload = [],
                       as_confirmed_sandbox = Some sandbox_id\<rparr> st of
                 Inl _ \<Rightarrow> st
               | Inr (_, st') \<Rightarrow> st')))"

section \<open>Scans\<close>

definition expired_lease_runs :: "datetime \<Rightarrow> nat \<Rightarrow> Store \<Rightarrow> nat list" where
  "expired_lease_runs now limit st =
     take limit (map r_id (sort_key r_updated_at
       (filter (\<lambda>r. r_status r \<in> {RUNNING, CANCELLING} \<and>
            list_ex (\<lambda>l. l_run l = r_id r \<and> l_released_at l = None \<and> l_expires_at l \<le> now) (st_leases st))
          (st_runs st))))"

definition interrupted_runs :: "nat \<Rightarrow> Store \<Rightarrow> nat list" where
  "interrupted_runs limit st =
     take limit (map r_id (sort_key r_updated_at
       (filter (\<lambda>r. r_status r = RunState.INTERRUPTED) (st_runs st))))"

text \<open>Kept with what each waits for; a row without a deadline is not in it.\<close>

definition expired_wait_runs :: "datetime \<Rightarrow> nat \<Rightarrow> Store \<Rightarrow> (nat \<times> pystr option) list" where
  "expired_wait_runs now limit st =
     take limit (map (\<lambda>r. (r_id r, r_wait_kind r))
       (sort_key (\<lambda>r. case r_wait_deadline_at r of None \<Rightarrow> 0 | Some t \<Rightarrow> t)
          (filter (\<lambda>r. r_status r = WAITING_EXTERNAL \<and>
               (case r_wait_deadline_at r of None \<Rightarrow> False | Some t \<Rightarrow> t \<le> now)) (st_runs st))))"

definition expired_approvals :: "datetime \<Rightarrow> nat \<Rightarrow> Store \<Rightarrow> (nat \<times> nat) list" where
  "expired_approvals now limit st =
     take limit (map (\<lambda>a. (ap_id a, ap_run_id a))
       (sort_key ap_expires_at
          (filter (\<lambda>a. ap_status a = ApprovalStatus.PENDING \<and> ap_expires_at a \<le> now) (st_approvals st))))"

definition aged_compat_timeout_runs :: "datetime \<Rightarrow> nat \<Rightarrow> Store \<Rightarrow> nat list" where
  "aged_compat_timeout_runs now limit st =
     take limit (map r_id (sort_key r_updated_at
       (filter (\<lambda>r. r_status r = PAUSED \<and> r_pause_reason r = Some COMPAT_TIMEOUT \<and>
            r_updated_at r \<le> now - timedelta_seconds (24 * 3600)) (st_runs st))))"

definition parents_awaiting_children :: "nat \<Rightarrow> Store \<Rightarrow> nat list" where
  "parents_awaiting_children limit st =
     take limit (map r_id (sort_key r_updated_at
       (filter (\<lambda>r. r_status r = WAITING_EXTERNAL \<and> r_wait_kind r = Some WAIT_CHILD_RUNS) (st_runs st))))"

definition cancelled_parents_with_children :: "nat \<Rightarrow> Store \<Rightarrow> nat list" where
  "cancelled_parents_with_children limit st =
     take limit (map r_id (filter (\<lambda>r. \<not> live r \<and>
       list_ex (\<lambda>c. r_parent c = Some (r_id r) \<and> live c) (st_runs st)) (st_runs st)))"

text \<open>One transaction over a list: the first exception undoes it all.\<close>

fun each :: "('a \<Rightarrow> Store \<Rightarrow> (StoreError, Store) result) \<Rightarrow> 'a list \<Rightarrow> Store \<Rightarrow> (StoreError, Store) result" where
  "each op [] st = Inr st"
| "each op (x # xs) st = bind_res (op x st) (each op xs)"

definition settle_due_wait :: "datetime \<Rightarrow> nat \<times> pystr option \<Rightarrow> Store \<Rightarrow> (StoreError, Store) result" where
  "settle_due_wait now due st =
     (if snd due = Some WAIT_TIMER
      then map_sum id snd (wake_external_wait now (fst due) (py ''scheduler-wait-wake'') st)
      else time_out_external_wait now (fst due) (py ''scheduler-wait-timeout'') st)"

definition settle_due_waits :: "datetime \<Rightarrow> nat \<Rightarrow> Store \<Rightarrow> (StoreError, Store) result" where
  "settle_due_waits now batch st = each (settle_due_wait now) (expired_wait_runs now batch st) st"

definition settle_child_waits :: "(nat \<Rightarrow> bool) \<Rightarrow> datetime \<Rightarrow> nat \<Rightarrow> Store \<Rightarrow> (StoreError, Store) result" where
  "settle_child_waits prn now batch st =
     each (\<lambda>i s. map_sum id snd (settle_child_wait prn now i (py ''scheduler-child-settle'') s))
       (parents_awaiting_children batch st) st"

definition cascade_children :: "datetime \<Rightarrow> nat \<Rightarrow> Store \<Rightarrow> (StoreError, Store) result" where
  "cascade_children now batch st =
     each (\<lambda>i s. map_sum id snd (cascade_cancel_children now i (py ''scheduler-child-cascade'') s))
       (cancelled_parents_with_children batch st) st"

definition expire_approvals :: "datetime \<Rightarrow> nat \<Rightarrow> Store \<Rightarrow> (StoreError, Store) result" where
  "expire_approvals now batch st =
     each (\<lambda>(a, r). expire_approval now a r (py ''scheduler-approval-expiry''))
       (expired_approvals now batch st) st"

definition cancel_aged_compat_timeouts :: "datetime \<Rightarrow> nat \<Rightarrow> Store \<Rightarrow> (StoreError, Store) result" where
  "cancel_aged_compat_timeouts now batch st =
     each (\<lambda>i. cancel_aged_compat_timeout now i (py ''scheduler-compat-timeout''))
       (aged_compat_timeout_runs now batch st) st"

definition repair_session_heads :: "datetime \<Rightarrow> nat \<Rightarrow> Store \<Rightarrow> (StoreError, Store) result" where
  "repair_session_heads now batch st =
     each (\<lambda>i s. map_sum id snd (repair_session_head now i (py ''scheduler-head-repair'') s))
       (sessions_needing_repair batch st) st"

end
