(* ===== verification/Store_Queue.thy ===== *)
theory Store_Queue
  imports Session_Queue Run_Sweeps
begin

text \<open>
  The store implements the queue: \<open>qview\<close> reads a Session's queue off the rows, and every
  operation of the store makes only moves of \<^verbatim>\<open>Session_Queue\<close>. The contract an
  operation meets is the locale \<open>queue_op\<close>; what follows from it (the invariant is kept,
  nobody overtakes) is proved there once.
\<close>

section \<open>The queue in the rows\<close>

definition qrun :: "RunRow \<Rightarrow> QRun" where
  "qrun r = \<lparr>qr_id = r_id r, qr_session = r_session r, qr_workspace = r_workspace r,
             qr_status = r_status r, qr_sequence = r_session_sequence r, qr_blocked_by = r_blocked_by r\<rparr>"

definition qsession :: "SessionRow \<Rightarrow> QSession" where
  "qsession s = \<lparr>qs_id = ss_id s, qs_workspace = ss_workspace s, qs_head = ss_head s,
                 qs_next = ss_next_run_sequence s\<rparr>"

definition qview :: "Store \<Rightarrow> qstate" where
  "qview st = (map qrun (st_runs st), map qsession (st_sessions st))"

definition store_inv :: "Store \<Rightarrow> bool" where
  "store_inv st \<longleftrightarrow> queue_inv (qview st)"

definition qsteps :: "Store \<Rightarrow> Store \<Rightarrow> bool" where
  "qsteps st st' \<longleftrightarrow> q_step\<^sup>*\<^sup>* (qview st) (qview st')"

lemma qrun_simps [simp]:
  "qr_id (qrun r) = r_id r" "qr_session (qrun r) = r_session r" "qr_workspace (qrun r) = r_workspace r"
  "qr_status (qrun r) = r_status r" "qr_sequence (qrun r) = r_session_sequence r"
  "qr_blocked_by (qrun r) = r_blocked_by r"
  by (simp_all add: qrun_def)

lemma qsession_simps [simp]:
  "qs_id (qsession s) = ss_id s" "qs_workspace (qsession s) = ss_workspace s"
  "qs_head (qsession s) = ss_head s" "qs_next (qsession s) = ss_next_run_sequence s"
  by (simp_all add: qsession_def)

lemma q_live_qrun [simp]: "q_live (qrun r) = live r"
  by (simp add: q_live_def live_def)

lemma qsteps_refl: "qview st' = qview st \<Longrightarrow> qsteps st st'"
  by (simp add: qsteps_def)

lemma qsteps_trans: "qsteps a b \<Longrightarrow> qsteps b c \<Longrightarrow> qsteps a c"
  by (simp add: qsteps_def)

lemma qsteps_step: "q_step (qview st) (qview st') \<Longrightarrow> qsteps st st'"
  by (simp add: qsteps_def)

lemma qsteps_cong: "qsteps a b \<Longrightarrow> qview a' = qview a \<Longrightarrow> qview b' = qview b \<Longrightarrow> qsteps a' b'"
  by (simp add: qsteps_def)

lemma qsteps_inv: "qsteps st st' \<Longrightarrow> store_inv st \<Longrightarrow> store_inv st'"
  unfolding qsteps_def store_inv_def by (rule session_queue.moves_inv)

subsection \<open>Writes that leave the queue alone\<close>

lemma map_qrun_update:
  "(\<And>r. qrun (f r) = qrun r) \<Longrightarrow> map qrun (update_where p f rows) = map qrun rows"
  by (simp add: map_update_where)

lemma qview_update_run:
  "(\<And>r. qrun (f r) = qrun r) \<Longrightarrow> qview (update_run i f st) = qview st"
  by (simp add: qview_def update_run_def map_qrun_update)

lemma qview_update_session:
  "(\<And>s. qsession (f s) = qsession s) \<Longrightarrow> qview (update_session i f st) = qview st"
  by (simp add: qview_def update_session_def map_update_where)

lemma qview_frame [simp]:
  "qview (st\<lparr>st_budgets := a\<rparr>) = qview st" "qview (st\<lparr>st_leases := b\<rparr>) = qview st"
  "qview (st\<lparr>st_messages := c\<rparr>) = qview st" "qview (st\<lparr>st_events := d\<rparr>) = qview st"
  "qview (st\<lparr>st_idempotency := e\<rparr>) = qview st" "qview (st\<lparr>st_approvals := f\<rparr>) = qview st"
  "qview (st\<lparr>st_grants := g\<rparr>) = qview st" "qview (st\<lparr>st_audit := h\<rparr>) = qview st"
  by (simp_all add: qview_def)

lemma qview_writes [simp]:
  "qview (update_budget i u st) = qview st" "qview (release_lease now i st) = qview st"
  "qview (audit w a ac rt rs rq res cx aty st) = qview st" "qview (audit_run w a ac i rq st) = qview st"
  "qview (append_messages now w i s ms st) = qview st"
  "qview (grant_artifact w artifact i rn st) = qview st"
  by (simp_all add: update_budget_def release_lease_def audit_def audit_run_def append_messages_def
      grant_artifact_def qview_update_session qsession_def)

lemma append_events_qview: "append_events now w i evs st = Inr st' \<Longrightarrow> qview st' = qview st"
  by (auto simp: append_events_def Let_def qview_update_run qrun_def split: if_splits option.splits)

lemma returning_same: "returning now caps i st = Inr (sn, st') \<Longrightarrow> st' = st"
  by (auto simp: returning_def split: option.splits)

subsection \<open>One signal\<close>

lemma lookup_run_qrun: "lookup_run i st = Some run \<Longrightarrow> qrun run \<in> set (fst (qview st)) \<and> r_id run = i"
  by (auto simp: qview_def dest!: lookup_run_SomeD)

lemma q_head_qview: "lookup_session sid st = Some s \<Longrightarrow> q_head sid (qview st) = ss_head s"
  by (simp add: q_head_def qview_def lookup_map lookup_session_def)

lemma qrun_write_decision:
  "qrun (write_decision d now p r) =
   (qrun r)\<lparr>qr_status := d_state d,
     qr_blocked_by := (if d_state d \<in> TERMINAL_STATES then None else qr_blocked_by (qrun r))\<rparr>"
  by (simp add: write_decision_def apply_decision_def qrun_def is_terminal_def)

lemma qview_write_decision:
  "qview (update_run i (write_decision d now p) st) =
   (q_set i (d_state d) (fst (qview st)), snd (qview st))"
proof -
  have "q_set i (d_state d) (map qrun (st_runs st)) =
      map qrun (update_where (\<lambda>r. r_id r = i) (write_decision d now p) (st_runs st))"
    unfolding q_set_def by (rule update_where_map) (simp_all add: qrun_write_decision)
  then show ?thesis by (simp add: qview_def update_run_def)
qed

lemma hand_over_qview: "qview (hand_over now sid i st) = q_hand_over sid i (qview st)"
proof -
  let ?c = "map_option r_id (successor_candidates sid i st)"
  have c: "map_option qr_id (first_row (\<lambda>r. qr_session r = sid \<and> qr_id r \<noteq> i \<and> q_live r) qr_sequence
      (map qrun (st_runs st))) = ?c"
    by (simp add: first_row_map successor_candidates_def option.map_comp comp_def)
  have sessions: "update_where (\<lambda>s. qs_id s = sid) (\<lambda>s. s\<lparr>qs_head := c\<rparr>) (map qsession (st_sessions st)) =
      map qsession (update_where (\<lambda>s. ss_id s = sid) (\<lambda>s. s\<lparr>ss_head := c\<rparr>) (st_sessions st))" for c
    by (rule update_where_map) (simp_all add: qsession_def)
  have free: "update_where (\<lambda>r. qr_id r = s) (\<lambda>r. r\<lparr>qr_blocked_by := None\<rparr>) (map qrun rows) =
      map qrun (update_where (\<lambda>r. r_id r = s) (\<lambda>r. r\<lparr>r_blocked_by := None, r_updated_at := now\<rparr>) rows)" for s rows
    by (rule update_where_map) (simp_all add: qrun_def)
  have rest: "update_where (\<lambda>r. qr_session r = sid \<and> qr_blocked_by r = Some i \<and> qr_id r \<noteq> spared)
        (\<lambda>r. r\<lparr>qr_blocked_by := c\<rparr>) (map qrun rows) =
      map qrun (update_where (\<lambda>r. r_session r = sid \<and> r_blocked_by r = Some i \<and> r_id r \<noteq> spared)
        (\<lambda>r. r\<lparr>r_blocked_by := c, r_updated_at := now\<rparr>) rows)" for spared c rows
    by (rule update_where_map) (simp_all add: qrun_def)
  show ?thesis
    unfolding q_hand_over_def Let_def qview_def fst_conv snd_conv c
    by (cases "successor_candidates sid i st")
      (simp_all add: hand_over_def Let_def update_session_def update_run_def sessions free rest
        del: option.map_disc_iff)
qed

lemma terminalize_qview:
  "qview (terminalize now run session st) =
   (if ss_head session = Some (r_id run) then q_hand_over (ss_id session) (r_id run) (qview st) else qview st)"
  by (simp add: terminalize_def Let_def hand_over_qview qview_update_run qrun_def)

lemma decide_from_live: "decide view sig r wk dl = Inr d \<Longrightarrow> v_state view \<notin> TERMINAL_STATES"
  by (erule decide_Inr_cases)
    (auto dest: request_only_SomeD(1) simp: TRANSITIONS_from_terminal)

lemma decide_running:
  "decide view sig r wk dl = Inr d \<Longrightarrow> d_state d = RUNNING \<Longrightarrow> v_state view = RUNNING \<or> sig = LEASE_ACQUIRED"
  by (erule decide_Inr_cases) (auto dest: request_only_SomeD(1) simp: TRANSITIONS_to_running)

lemma running_is_head:
  assumes "queue_inv q" "r \<in> set (fst q)" "qr_status r = RUNNING"
  shows "q_head (qr_session r) q = Some (qr_id r)"
proof -
  obtain runs sessions where q: "q = (runs, sessions)" by (cases q)
  note inv = queue_invD[OF assms(1)[unfolded q]]
  obtain s where s: "s \<in> set sessions" "qs_id s = qr_session r" using inv(4)[of r] assms(2) q by auto
  then show ?thesis
    using head_lookup[OF inv(2) s(1)] session_ok_row(4)[OF inv(5)[OF s(1)], of r] assms q by simp
qed

text \<open>What an accepted signal found and left.\<close>

lemma decide_and_write_Inr:
  assumes w: "decide_and_write now i w st = Inr st'"
  obtains run session budget d ev st3 where "lookup_run i st = Some run"
    "lookup_session (r_session run) st = Some session" "lookup_budget (r_budget_root run) st = Some budget"
    "decide (state_view run budget now) (sw_signal w) (sw_pause_reason w) (sw_wait_kind w)
       (sw_wait_deadline_at w) = Inr d"
    "append_events now (r_workspace run) i (\<lparr>re_type = ev, re_payload = sw_payload w\<rparr> # sw_extra_events w)
       (if is_terminal d
        then terminalize now (write_decision d now (sw_wait_policy w) run) session
               (update_run i (write_decision d now (sw_wait_policy w)) st)
        else update_run i (write_decision d now (sw_wait_policy w)) st) = Inr st3"
    "st' = audit_run (r_workspace run) None (py ''run.'' @ RunSignal_value (sw_signal w)) i (sw_request w) st3"
proof -
  obtain run where run: "lookup_run i st = Some run"
    using w by (cases "lookup_run i st") (simp_all add: decide_and_write_def)
  obtain session where session: "lookup_session (r_session run) st = Some session"
    using w run by (cases "lookup_session (r_session run) st") (simp_all add: decide_and_write_def)
  obtain budget where budget: "lookup_budget (r_budget_root run) st = Some budget"
    using w run session by (cases "lookup_budget (r_budget_root run) st") (simp_all add: decide_and_write_def)
  obtain d where d: "decide (state_view run budget now) (sw_signal w) (sw_pause_reason w) (sw_wait_kind w)
       (sw_wait_deadline_at w) = Inr d"
    using w run session budget
    by (cases "decide (state_view run budget now) (sw_signal w) (sw_pause_reason w) (sw_wait_kind w)
       (sw_wait_deadline_at w)") (simp_all add: decide_and_write_def)
  obtain ev where ev: "event_type_for (sw_signal w) = Inr ev"
    using w run session budget d by (cases "event_type_for (sw_signal w)") (simp_all add: decide_and_write_def)
  show ?thesis
    using w run session budget d ev that by (auto simp: decide_and_write_def Let_def)
qed

lemma decide_and_write_qview:
  assumes w: "decide_and_write now i w st = Inr st'"
  obtains run d budget where "lookup_run i st = Some run"
    "decide (state_view run budget now) (sw_signal w) (sw_pause_reason w) (sw_wait_kind w)
       (sw_wait_deadline_at w) = Inr d"
    "qview st' = q_write (r_session run) i (d_state d) (qview st)"
proof -
  from w obtain run session budget d ev st3 where rows: "lookup_run i st = Some run"
    "lookup_session (r_session run) st = Some session"
    "decide (state_view run budget now) (sw_signal w) (sw_pause_reason w) (sw_wait_kind w)
       (sw_wait_deadline_at w) = Inr d"
    and app: "append_events now (r_workspace run) i (\<lparr>re_type = ev, re_payload = sw_payload w\<rparr> # sw_extra_events w)
       (if is_terminal d
        then terminalize now (write_decision d now (sw_wait_policy w) run) session
               (update_run i (write_decision d now (sw_wait_policy w)) st)
        else update_run i (write_decision d now (sw_wait_policy w)) st) = Inr st3"
    and st': "st' = audit_run (r_workspace run) None (py ''run.'' @ RunSignal_value (sw_signal w)) i (sw_request w) st3"
    by (rule decide_and_write_Inr)
  have id: "r_id (write_decision d now (sw_wait_policy w) run) = i" using lookup_run_SomeD[OF rows(1)]
    by (simp add: write_decision_def apply_decision_def)
  have sid: "ss_id session = r_session run" using lookup_session_SomeD[OF rows(2)] by simp
  have "qview st' = q_write (r_session run) i (d_state d) (qview st)"
    using append_events_qview[OF app] st' id sid q_head_qview[OF rows(2)]
    by (auto simp: terminalize_qview qview_write_decision q_write_def Let_def is_terminal_def)
  with rows that show ?thesis by blast
qed

lemma decide_and_write_step:
  assumes w: "decide_and_write now i w st = Inr st'" and inv: "store_inv st"
    and lease: "sw_signal w \<noteq> LEASE_ACQUIRED"
  shows "qsteps st st'"
proof -
  obtain run d budget where rows: "lookup_run i st = Some run"
      "decide (state_view run budget now) (sw_signal w) (sw_pause_reason w) (sw_wait_kind w)
         (sw_wait_deadline_at w) = Inr d"
      "qview st' = q_write (r_session run) i (d_state d) (qview st)"
    using decide_and_write_qview[OF w] by blast
  have id: "qrun run \<in> set (fst (qview st))" "r_id run = i" using lookup_run_qrun[OF rows(1)] by auto
  have "live run" using decide_from_live[OF rows(2)] by (simp add: live_def state_view_def)
  moreover have "q_head (r_session run) (qview st) = Some i" if "d_state d = RUNNING"
    using running_is_head[OF inv[unfolded store_inv_def] id(1)] decide_running[OF rows(2) that] lease id
    by (simp add: state_view_def)
  ultimately show ?thesis
    using q_step.moved[OF id(1), of "d_state d"] id(2) rows(3) by (intro qsteps_step) simp
qed

section \<open>The operations\<close>

lemma store_inv_sessions: "store_inv st \<Longrightarrow> distinct (map ss_id (st_sessions st))"
  by (simp add: store_inv_def queue_inv_def qview_def comp_def)

lemma store_inv_runs: "store_inv st \<Longrightarrow> distinct (map r_id (st_runs st))"
  by (simp add: store_inv_def queue_inv_def qview_def comp_def)

lemma signal_write_signal [simp]: "sw_signal (signal_write sig rq pl) = sig"
  by (simp add: signal_write_def)

lemma qview_run_frame [simp]:
  "qview (update_run i (\<lambda>r. r\<lparr>r_cleanup_target := t, r_cleanup_sandbox := b\<rparr>) st) = qview st"
  "qview (update_run i (\<lambda>r. r\<lparr>r_claimable_after := c\<rparr>) st) = qview st"
  "qview (update_run i (\<lambda>r. r\<lparr>r_result_delivered_at := d\<rparr>) st) = qview st"
  "qview (update_run i (\<lambda>r. r\<lparr>r_recovery_attempts := r_recovery_attempts r + 1\<rparr>) st) = qview st"
  "qview (update_run i (\<lambda>r. r\<lparr>r_interrupted_writes := ws, r_inflight_round := rd, r_checkpoint_effect := ef\<rparr>) st) = qview st"
  "qview (update_run i (\<lambda>r. r\<lparr>r_checkpoint_effect := ef, r_interrupted_writes := ws, r_inflight_round := rd\<rparr>) st) = qview st"
  "qview (update_run i (write_checkpoint now cmd) st) = qview st"
  by (simp_all add: qview_update_run qrun_def write_checkpoint_def)

lemma apply_signal_rows_steps:
  assumes "apply_signal_rows now c st = Inr st'" "store_inv st" "as_signal c \<noteq> LEASE_ACQUIRED"
  shows "qsteps st st'"
proof -
  obtain st1 where st1: "decide_and_write now (as_run c) (command_signal c) st = Inr st1" "qview st' = qview st1"
    using assms(1) by (auto simp: apply_signal_rows_def Let_def split: option.splits if_splits)
  have "qsteps st st1"
    by (rule decide_and_write_step[OF st1(1) assms(2)]) (simp add: command_signal_def assms(3))
  then show ?thesis using st1(2) by (simp add: qsteps_def)
qed

lemma apply_signal_steps:
  "apply_signal now caps c st = Inr (sn, st') \<Longrightarrow> store_inv st \<Longrightarrow> as_signal c \<noteq> LEASE_ACQUIRED \<Longrightarrow> qsteps st st'"
  by (auto simp: apply_signal_def dest!: returning_same intro: apply_signal_rows_steps)

lemma release_slice_qview: "qview (release_slice now c st) = qview st"
  by (simp add: release_slice_def Let_def split: option.splits)

lemma record_slice_rows_steps:
  assumes r: "record_slice_rows now c st = Inr st'" and inv: "store_inv st"
    and lease: "rs_signal c \<noteq> Some LEASE_ACQUIRED"
  shows "qsteps st st'"
proof -
  obtain run session st1 where w: "record_work now c run session st = Inr st1"
    and rest: "slice_transition now c st1 = Inr st'"
    using r unfolding record_slice_rows_def by (auto split: option.splits if_splits)
  have v1: "qview st1 = qview st"
    using w by (auto simp: record_work_def Let_def split: if_splits)
  then have inv1: "store_inv st1" using inv by (simp add: store_inv_def)
  have "qsteps st1 st'"
  proof (cases "rs_signal c")
    case None
    then show ?thesis using rest append_events_qview qsteps_refl by (auto simp: slice_transition_def)
  next
    case (Some sig)
    with rest obtain st2 where st2: "decide_and_write now (rs_run c) (slice_signal now c sig) st1 = Inr st2"
      "st' = release_slice now c st2"
      by (auto simp: slice_transition_def)
    have "sw_signal (slice_signal now c sig) \<noteq> LEASE_ACQUIRED"
      using lease Some by (simp add: slice_signal_def)
    from decide_and_write_step[OF st2(1) inv1 this] show ?thesis
      using st2(2) by (simp add: qsteps_def release_slice_qview)
  qed
  then show ?thesis using v1 by (simp add: qsteps_def)
qed

lemma record_slice_steps:
  "record_slice now caps c st = Inr (sn, st') \<Longrightarrow> store_inv st \<Longrightarrow> rs_signal c \<noteq> Some LEASE_ACQUIRED \<Longrightarrow>
   qsteps st st'"
  by (auto simp: record_slice_def dest!: returning_same intro: record_slice_rows_steps)

lemma renew_lease_qview: "qview (snd (renew_lease now w i l v secs st)) = qview st"
  by (simp add: renew_lease_def Let_def qview_def map_qrun_update qrun_def)

lemma charge_tool_call_qview: "charge_tool_call now w i l st = Inr (r, st') \<Longrightarrow> qview st' = qview st"
  by (auto simp: charge_tool_call_def split: option.splits if_splits)

lemma reserve_tool_call_qview: "reserve_tool_call now w i l st = Inr (b, st') \<Longrightarrow> qview st' = qview st"
  by (auto simp: reserve_tool_call_def split: prod.splits dest: charge_tool_call_qview)

lemma reserve_outside_call_qview:
  "reserve_outside_call now k w i l sending st = Inr (r, st') \<Longrightarrow> qview st' = qview st"
  by (cases "outside_key k (if_fingerprint sending) (r_interrupted_writes (the (fst (projr
        (charge_tool_call now w i l st)))))")
    (auto simp: reserve_outside_call_def Let_def split: option.splits dest!: charge_tool_call_qview)

lemma widen_budget_qview: "widen_budget now c st = Inr (sn, st') \<Longrightarrow> qview st' = qview st"
  by (auto simp: widen_budget_def split: option.splits if_splits dest!: returning_same)

subsection \<open>Claims and repairs\<close>

lemma claimable_attempts_may_claim:
  assumes "claimable_attempts n now c cs ws st = Some run"
  shows "\<exists>session. run \<in> set (st_runs st) \<and> lookup_session (r_session run) st = Some session \<and>
    claimable now session run st"
  using assms
proof (induction n arbitrary: cs ws)
  case (Suc n)
  then obtain run' session workspace where sel: "select_claimable now c cs ws st = Some (run', session, workspace)"
    by (auto split: option.splits)
  have "(run', session, workspace) \<in> set (claim_rows st)" "claimable now session run' st"
    using first_row_SomeD[OF sel[unfolded select_claimable_def]] by auto
  then have "run' \<in> set (st_runs st) \<and> lookup_session (r_session run') st = Some session \<and>
      claimable now session run' st"
    by (auto simp: claim_rows_def set_filter_map split: option.splits)
  then show ?case using Suc sel by (auto split: if_splits)
qed simp

lemma take_run_qview:
  assumes "d_state d = RUNNING"
  shows "qview (snd (take_run now l c run d st)) = (q_set (r_id run) RUNNING (fst (qview st)), snd (qview st))"
proof -
  have "q_set (r_id run) RUNNING (map qrun (st_runs st)) =
      map qrun (update_where (\<lambda>r. r_id r = r_id run) (\<lambda>r. (apply_decision d now r)
         \<lparr>r_state_version := r_state_version r + 1, r_updated_at := now, r_inflight_round := None\<rparr>) (st_runs st))"
    unfolding q_set_def
    by (rule update_where_map) (simp_all add: qrun_def apply_decision_def is_terminal_def assms)
  then show ?thesis by (simp add: take_run_def Let_def qview_def update_run_def)
qed

lemma announce_claim_qview:
  "announce_claim now l c run taken = Inr (cm, st') \<Longrightarrow> qview st' = qview (snd taken)"
  by (auto simp: announce_claim_def split: prod.splits dest!: returning_same append_events_qview)

lemma claim_head_steps:
  assumes r: "claim_head now l c st = Inr (cm, st')" and inv: "store_inv st"
  shows "qsteps st st'"
proof (cases "claimable_within_limits now c st")
  case None
  then show ?thesis using r by (simp add: claim_head_def qsteps_refl)
next
  case (Some run)
  then obtain session where row: "run \<in> set (st_runs st)" "lookup_session (r_session run) st = Some session"
      "claimable now session run st"
    using claimable_attempts_may_claim unfolding claimable_within_limits_def by blast
  consider "st' = st" | budget d where "decide (claim_view run budget now) LEASE_ACQUIRED None None None = Inr d"
      "announce_claim now l c run (take_run now l c run d st) = Inr (cm, st')"
    using r Some by (auto simp: claim_head_def split: option.splits if_splits sum.splits)
  then show ?thesis
  proof cases
    case 1
    then show ?thesis by (simp add: qsteps_refl)
  next
    case 2
    have q: "r_status run = RunState.QUEUED" using row(3) by (simp add: claimable_def)
    have "d_state d = RUNNING"
      using 2(1) q by (auto elim!: decide_Inr_cases
          simp: claim_view_def request_only_def TRANSITIONS_def)
    then have "qview st' = (q_set (r_id run) RUNNING (fst (qview st)), snd (qview st))"
      using announce_claim_qview[OF 2(2)] by (simp add: take_run_qview)
    then have "qview st' = q_write (r_session run) (r_id run) RUNNING (qview st)"
      by (simp add: q_write_def)
    moreover have "q_head (r_session run) (qview st) = Some (r_id run)"
      using q_head_qview[OF row(2)] row(3) by (simp add: claimable_def)
    moreover have "qrun run \<in> set (fst (qview st))" using row(1) by (simp add: qview_def)
    moreover have "live run" using q by (simp add: live_def)
    ultimately show ?thesis
      using q_step.moved[of "qrun run" "qview st" RUNNING] by (intro qsteps_step) simp
  qed
qed

text \<open>In a store whose invariant holds there is nothing to repair.\<close>

lemma pending_runs_q: "map qrun (pending_runs sid st) = q_pending sid (fst (qview st))"
  by (simp add: pending_runs_def q_pending_def qview_def List.filter_map comp_def sort_key_map)

lemma repair_noop:
  assumes inv: "store_inv st" and s: "lookup_session sid st = Some session"
  shows "repair_session_head now sid rq st = Inr ((False, None), st)"
proof -
  let ?expected = "case pending_runs sid st of [] \<Rightarrow> None | r # _ \<Rightarrow> Some (r_id r)"
  have mem: "session \<in> set (st_sessions st)" "ss_id session = sid" using lookup_session_SomeD[OF s] by auto
  then have "sid \<in> qs_id ` set (snd (qview st))" by (force simp: qview_def)
  then have "q_head sid (qview st) = (case q_ids (qview st) sid of [] \<Rightarrow> None | i # _ \<Rightarrow> Some i)"
    using q_head_first[OF inv[unfolded store_inv_def]] by blast
  moreover have "q_ids (qview st) sid = map r_id (pending_runs sid st)"
    using arg_cong[OF pending_runs_q[of sid st], of "map qr_id"] by (simp add: q_ids_def comp_def)
  ultimately have head: "ss_head session = ?expected"
    using q_head_qview[OF s] by (simp split: list.splits)
  have ok: "session_ok (fst (qview st)) (qsession session)"
    using inv mem by (auto simp: store_inv_def queue_inv_def qview_def)
  have "\<not> blockers_wrong sid ?expected st"
  proof -
    have "r_blocked_by r = (if Some (r_id r) = ss_head session then None else ss_head session)"
      if "r \<in> set (st_runs st)" "r_session r = sid" "live r" for r
      using session_ok_row(3)[OF ok, of "qrun r"] that mem by (auto simp: qview_def waits_right_def)
    then show ?thesis unfolding blockers_wrong_def head[symmetric] by (auto simp: list_ex_iff)
  qed
  with head s show ?thesis by (simp add: repair_session_head_def Let_def)
qed

lemma repair_steps:
  "repair_session_head now sid rq st = Inr (a, st') \<Longrightarrow> store_inv st \<Longrightarrow> qsteps st st'"
  by (cases "lookup_session sid st") (auto simp: repair_noop qsteps_refl, simp add: repair_session_head_def)

end
