(* ===== verification/Store_Moves.thy ===== *)
theory Store_Moves
  imports Store_Queue
begin

text \<open>
  Every transaction of the store as moves of the Session queue: the intake of Runs, delegation,
  and the passes of the Scheduler. The locale \<open>queue_op\<close> is the contract of one
  operation of a pass, and what a pass over a list does follows from it. The last part puts all
  transactions into one step relation: \<open>exec\<close> runs one of them and
  \<open>reachable_store\<close> holds the stores they lead to.
\<close>

section \<open>Frames\<close>

lemma store_inv_qview: "qview st' = qview st \<Longrightarrow> store_inv st' = store_inv st"
  by (simp add: store_inv_def)

lemma claim_idempotency_qview: "claim_idempotency scope f st = Inr (a, st') \<Longrightarrow> qview st' = qview st"
  by (auto simp: claim_idempotency_def split: option.splits if_splits)

lemma claim_idempotency_sessions:
  "claim_idempotency scope f st = Inr (a, st') \<Longrightarrow> st_sessions st' = st_sessions st \<and> st_runs st' = st_runs st"
  by (auto simp: claim_idempotency_def split: option.splits if_splits)

lemma store_response_qview: "store_response scope i d st = Inr st' \<Longrightarrow> qview st' = qview st"
  by (auto simp: store_response_def split: if_splits)

lemma finish_accept_qview:
  "finish_accept now caps caller scope i action rq payload st = Inr (a, st') \<Longrightarrow> qview st' = qview st"
  by (auto simp: finish_accept_def dest!: returning_same store_response_qview append_events_qview)

lemma fold_grants_qview: "qview (fold (\<lambda>u. grant_artifact w u i rn) files st) = qview st"
  by (induction files arbitrary: st) auto

section \<open>Intake\<close>

lemma create_session_steps:
  assumes "create_session sid w agent caller mode rq st = Inr (row, st')"
    and fresh: "sid \<notin> ss_id ` set (st_sessions st)"
  shows "qsteps st st'"
proof -
  have "qview st' = q_open (qsession (new_session sid w agent mode caller)) (qview st)"
    using assms(1) by (auto simp: create_session_def Let_def qview_def q_open_def audit_def split: if_splits)
  moreover have "q_step (qview st) (q_open (qsession (new_session sid w agent mode caller)) (qview st))"
    using fresh by (intro q_step.opened) (auto simp: qview_def new_session_def)
  ultimately show ?thesis by (intro qsteps_step) simp
qed

text \<open>A new Run in a Session whose row was read under its lock.\<close>

lemma enqueue_run_qview:
  assumes "distinct (map ss_id (st_sessions st))" "session \<in> set (st_sessions st)"
    and "r_session run = ss_id session"
  shows "qview (enqueue_run run session st) = q_enqueue (qrun run) (qview st)"
proof -
  let ?head = "\<lambda>h. case h of None \<Rightarrow> Some (r_id run) | Some x \<Rightarrow> Some x"
  let ?g = "\<lambda>s. s\<lparr>ss_next_run_sequence := ss_next_run_sequence session + 1, ss_head := ?head (ss_head session)\<rparr>"
  let ?h = "\<lambda>s. s\<lparr>ss_next_run_sequence := ss_next_run_sequence s + 1, ss_head := ?head (ss_head s)\<rparr>"
  have same: "s = session" if "s \<in> set (st_sessions st)" "ss_id s = ss_id session" for s
    using that assms(1,2) by (metis lookup_distinct option.inject)
  have "update_where (\<lambda>s. ss_id s = ss_id session) ?g (st_sessions st) =
      update_where (\<lambda>s. ss_id s = ss_id session) ?h (st_sessions st)"
    unfolding update_where_def using same by (intro map_cong[OF refl]) (metis (full_types))
  moreover have "map qsession (update_where (\<lambda>s. ss_id s = ss_id session) ?h (st_sessions st)) =
      update_where (\<lambda>s. qs_id s = ss_id session) (\<lambda>s. s\<lparr>qs_next := qs_next s + 1, qs_head := ?head (qs_head s)\<rparr>)
        (map qsession (st_sessions st))"
    by (rule update_where_map[symmetric]) (simp_all add: qsession_def)
  ultimately have "map qsession (update_where (\<lambda>s. ss_id s = ss_id session) ?g (st_sessions st)) =
      update_where (\<lambda>s. qs_id s = ss_id session) (\<lambda>s. s\<lparr>qs_next := qs_next s + 1, qs_head := ?head (qs_head s)\<rparr>)
        (map qsession (st_sessions st))"
    by simp
  then show ?thesis
    unfolding q_enqueue_def qrun_simps
    using assms(3) by (simp add: enqueue_run_def update_session_def qview_def)
qed

lemma new_run_qrun:
  "qrun (new_run i now session v) =
   \<lparr>qr_id = i, qr_session = ss_id session, qr_workspace = ss_workspace session, qr_status = RunState.QUEUED,
    qr_sequence = ss_next_run_sequence session, qr_blocked_by = ss_head session\<rparr>"
  by (simp add: qrun_def new_run_def)

lemma enqueue_run_step:
  assumes inv: "store_inv st" and s: "session \<in> set (st_sessions st)"
    and fresh: "i \<notin> r_id ` set (st_runs st)" and run: "qrun run = qrun (new_run i now session v)"
  shows "q_step (qview st) (qview (enqueue_run run session st))"
proof -
  have "qr_session (qrun run) = ss_id session" using run by (simp only: new_run_qrun) simp
  then have "r_session run = ss_id session" by simp
  then have v: "qview (enqueue_run run session st) = q_enqueue (qrun run) (qview st)"
    by (intro enqueue_run_qview store_inv_sessions inv s)
  have "q_step (qview st) (q_enqueue (qrun run) (qview st))"
    by (rule q_step.joined[of "qsession session"])
      (use s fresh in \<open>simp_all add: run new_run_qrun qview_def image_image del: qrun_simps, simp_all\<close>)
  then show ?thesis using v by simp
qed

lemma accept_rows_step:
  assumes "store_inv st" "session \<in> set (st_sessions st)" "i \<notin> r_id ` set (st_runs st)"
  shows "qsteps st (accept_rows now i c session v limits st)"
  using enqueue_run_step[OF assms, of "accepted_row i now c session v p" for p]
  by (intro qsteps_step) (simp add: accept_rows_def Let_def accepted_row_def qrun_def)

lemma accept_run_steps:
  assumes r: "accept_run now i c st = Inr (a, st')" and inv: "store_inv st"
    and fresh: "i \<notin> r_id ` set (st_runs st)"
  shows "qsteps st st'"
proof -
  obtain answer st1 where k: "claim_idempotency (accept_scope c) (ar_fingerprint c) st = Inr (answer, st1)"
    and rest: "case answer of Some x \<Rightarrow> (a, st') = (x, st1) | None \<Rightarrow> create_run now i c st1 = Inr (a, st')"
    using r by (auto simp: accept_run_def split: if_splits option.splits)
  note v1 = claim_idempotency_qview[OF k] and rows1 = claim_idempotency_sessions[OF k]
  show ?thesis
  proof (cases answer)
    case (Some x)
    then show ?thesis using rest v1 by (intro qsteps_refl) simp
  next
    case None
    then obtain session version where s: "lock_session (ar_workspace_id c) (ar_session_id c) st1 = Some session"
      and f: "finish_accept now (ar_capabilities c) (ar_caller c) (accept_scope c) i (py ''run.created'')
          (ar_request c) [(py ''session_sequence'', JInt (int (ss_next_run_sequence session)))]
          (accept_rows now i c session (fst version) (snd version) st1) = Inr (a, st')"
      using rest by (auto simp: create_run_def split: option.splits)
    have "qsteps st1 (accept_rows now i c session (fst version) (snd version) st1)"
      using lock_session_SomeD[OF s] inv v1 rows1 fresh by (intro accept_rows_step) (simp_all add: store_inv_def)
    then show ?thesis using finish_accept_qview[OF f] v1 by (simp add: qsteps_def)
  qed
qed

lemma retry_rows_step:
  assumes "store_inv st" "session \<in> set (st_sessions st)" "i \<notin> r_id ` set (st_runs st)"
  shows "qsteps st (retry_rows now i source session budget st)"
proof -
  let ?st = "update_budget (r_budget_root source) (\<lambda>_. budget) st"
  have "q_step (qview ?st) (qview (enqueue_run (retry_row i now source session) session ?st))"
    using assms by (intro enqueue_run_step[where now = now and v = "r_agent_version source"])
      (simp_all add: store_inv_def update_budget_def retry_row_def qrun_def)
  then show ?thesis
    by (intro qsteps_step) (simp add: retry_rows_def copy_checkpoint_messages_def)
qed

lemma create_retry_Inr:
  assumes "create_retry now i c st = Inr (a, st')"
  obtains source session budget budget' st1 where "lock_run (rt_workspace c) (rt_source c) st = Some source"
    "lock_session (rt_workspace c) (r_session source) st = Some session"
    "lookup_budget (r_budget_root source) st = Some budget" "retry_blocker now source session budget st = None"
    "reserve_retry budget = Some budget'"
    "append_events now (rt_workspace c) (r_id source)
       [\<lparr>re_type = RUN_RETRY_DERIVED, re_payload = [(py ''derived_run_id'', JStr (uuid_str i))]\<rparr>]
       (retry_rows now i source session budget' st) = Inr st1"
    "finish_accept now (rt_capabilities c) (rt_caller c) (retry_scope c) i (py ''run.retry_derived'')
       (rt_request c) [(py ''retry_of_run_id'', JStr (uuid_str (r_id source)))] st1 = Inr (a, st')"
  using assms by (auto simp: create_retry_def split: option.splits)

lemma derive_retry_steps:
  assumes r: "derive_retry now i c st = Inr (a, st')" and inv: "store_inv st"
    and fresh: "i \<notin> r_id ` set (st_runs st)"
  shows "qsteps st st'"
proof -
  obtain answer st1 where k: "claim_idempotency (retry_scope c) (rt_fingerprint c) st = Inr (answer, st1)"
    and rest: "case answer of Some x \<Rightarrow> (a, st') = (x, st1) | None \<Rightarrow> create_retry now i c st1 = Inr (a, st')"
    using r by (auto simp: derive_retry_def split: if_splits option.splits)
  note v1 = claim_idempotency_qview[OF k] and rows1 = claim_idempotency_sessions[OF k]
  show ?thesis
  proof (cases answer)
    case (Some x)
    then show ?thesis using rest v1 by (intro qsteps_refl) simp
  next
    case None
    with rest have "create_retry now i c st1 = Inr (a, st')" by simp
    then obtain source session budget budget' st2 where
      s: "lock_session (rt_workspace c) (r_session source) st1 = Some session"
      and e: "append_events now (rt_workspace c) (r_id source)
       [\<lparr>re_type = RUN_RETRY_DERIVED, re_payload = [(py ''derived_run_id'', JStr (uuid_str i))]\<rparr>]
       (retry_rows now i source session budget' st1) = Inr st2"
      and f: "finish_accept now (rt_capabilities c) (rt_caller c) (retry_scope c) i (py ''run.retry_derived'')
       (rt_request c) [(py ''retry_of_run_id'', JStr (uuid_str (r_id source)))] st2 = Inr (a, st')"
      by (rule create_retry_Inr)
    have "qsteps st1 (retry_rows now i source session budget' st1)"
      using lock_session_SomeD[OF s] inv v1 rows1 fresh by (intro retry_rows_step) (simp_all add: store_inv_def)
    then show ?thesis
      using append_events_qview[OF e] finish_accept_qview[OF f] v1 by (simp add: qsteps_def)
  qed
qed

section \<open>Delegation\<close>

text \<open>The identifiers drawn for Sessions and Runs are new.\<close>

definition fresh_ids :: "(nat \<times> nat) list \<Rightarrow> Store \<Rightarrow> bool" where
  "fresh_ids ids st \<longleftrightarrow>
     distinct (map fst ids) \<and> distinct (map snd ids) \<and>
     fst ` set ids \<inter> ss_id ` set (st_sessions st) = {} \<and> snd ` set ids \<inter> r_id ` set (st_runs st) = {}"

lemma fresh_ids_qview:
  "fresh_ids ids st \<longleftrightarrow>
     distinct (map fst ids) \<and> distinct (map snd ids) \<and>
     fst ` set ids \<inter> qs_id ` set (snd (qview st)) = {} \<and> snd ` set ids \<inter> qr_id ` set (fst (qview st)) = {}"
  by (simp add: fresh_ids_def qview_def image_image)

lemma qs_ids_enqueue: "qs_id ` set (snd (q_enqueue r q)) = qs_id ` set (snd q)"
proof -
  have "map qs_id (snd (q_enqueue r q)) = map qs_id (snd q)"
    by (simp add: q_enqueue_def map_update_where)
  then show ?thesis by (metis set_map)
qed

lemma delegate_one_qview:
  assumes r: "delegate_one now parent owning scope v files item (sid, i) st = Inr st'" and inv: "store_inv st"
    and fresh: "fresh_ids ((sid, i) # rest) st"
  shows "qsteps st st' \<and> fresh_ids rest st'"
proof -
  obtain version where v: "lookup av_id v (st_versions st) = Some version"
    using r by (auto simp: delegate_one_def split: option.splits)
  define session where "session = new_session sid (r_workspace parent) (av_agent version) EPHEMERAL
      \<lparr>ca_type = ss_caller_type owning, ca_id = ss_caller_id owning\<rparr>"
  define child where "child = child_row i now parent session v scope (current_pricing now v st)"
  define st0 where "st0 = st\<lparr>st_sessions := st_sessions st @ [session]\<rparr>"
  have v': "qview st' = qview (enqueue_run child session st0)"
    using r v by (auto simp: delegate_one_def Let_def session_def child_def st0_def fold_grants_qview
        dest!: append_events_qview)
  have open_eq: "qview st0 = q_open (qsession session) (qview st)"
    by (simp add: st0_def qview_def q_open_def)
  have opened: "q_step (qview st) (qview st0)"
    unfolding open_eq using fresh
    by (intro q_step.opened) (auto simp: fresh_ids_qview session_def new_session_def)
  then have inv0: "store_inv st0" using q_step_inv inv by (simp add: store_inv_def)
  have s0: "session \<in> set (st_sessions st0)" by (simp add: st0_def)
  have i0: "i \<notin> r_id ` set (st_runs st0)" using fresh by (auto simp: fresh_ids_def st0_def)
  have child: "qrun child = qrun (new_run i now session v)" by (simp add: child_def child_row_def qrun_def)
  then have joined: "q_step (qview st0) (qview (enqueue_run child session st0))"
    by (intro enqueue_run_step[OF inv0 s0 i0])
  have sid: "r_session child = ss_id session" "r_id child = i"
    by (simp_all add: child_def child_row_def new_run_def)
  have "qview st' = q_enqueue (qrun child) (q_open (qsession session) (qview st))"
    using v' enqueue_run_qview[OF store_inv_sessions[OF inv0] s0 sid(1)] open_eq by simp
  then have "qs_id ` set (snd (qview st')) = insert sid (qs_id ` set (snd (qview st)))"
    "qr_id ` set (fst (qview st')) = insert i (qr_id ` set (fst (qview st)))"
    by (simp_all add: qs_ids_enqueue sid(2)) (simp_all add: q_open_def q_enqueue_def session_def new_session_def sid(2))
  then have "fresh_ids rest st'" using fresh by (auto simp: fresh_ids_qview)
  moreover have "qsteps st st'"
    using opened joined v' by (simp add: qsteps_def converse_rtranclp_into_rtranclp)
  ultimately show ?thesis by simp
qed

lemma delegate_all_steps:
  "delegate_all now parent owning items ids st = Inr (cs, st') \<Longrightarrow> store_inv st \<Longrightarrow> fresh_ids ids st \<Longrightarrow>
   qsteps st st'"
proof (induction now parent owning items ids st arbitrary: cs rule: delegate_all.induct)
  case (1 now parent owning item scope v files items ids more_ids st)
  obtain st1 cs' where one: "delegate_one now parent owning scope v files item ids st = Inr st1"
    and rest: "delegate_all now parent owning items more_ids st1 = Inr (cs', st')"
    using 1(2) by auto
  have first: "qsteps st st1" "fresh_ids more_ids st1"
    using delegate_one_qview[of now parent owning scope v files item "fst ids" "snd ids" st st1 more_ids]
      one 1(3,4) by simp_all
  then have "qsteps st1 st'" using 1(1)[OF rest qsteps_inv[OF first(1) 1(3)]] by simp
  with first(1) show ?case by (rule qsteps_trans)
qed (simp_all add: qsteps_refl)

lemma delegate_children_steps:
  "delegate_children now i reqs ids st = Inr (r, st') \<Longrightarrow> store_inv st \<Longrightarrow> fresh_ids ids st \<Longrightarrow> qsteps st st'"
  by (auto simp: delegate_children_def split: option.splits if_splits intro: qsteps_refl delegate_all_steps)

section \<open>The passes of the Scheduler\<close>

text \<open>The contract of one operation of a pass, and what a pass over a list of rows then does.\<close>

locale queue_op =
  fixes op :: "'a \<Rightarrow> Store \<Rightarrow> (StoreError, Store) result"
  assumes simulates: "op x st = Inr st' \<Longrightarrow> store_inv st \<Longrightarrow> qsteps st st'"
begin

lemma each_simulates: "each op xs st = Inr st' \<Longrightarrow> store_inv st \<Longrightarrow> qsteps st st'"
proof (induction xs arbitrary: st)
  case (Cons x xs)
  then obtain st1 where one: "op x st = Inr st1" and rest: "each op xs st1 = Inr st'" by auto
  have "qsteps st st1" using simulates[OF one Cons.prems(2)] .
  moreover have "qsteps st1 st'" using Cons.IH[OF rest qsteps_inv[OF calculation Cons.prems(2)]] .
  ultimately show ?case by (rule qsteps_trans)
qed (simp add: qsteps_refl)

end

text \<open>Every such operation ends in one signal, or writes nothing.\<close>

lemma signal_steps:
  "decide_and_write now i w st1 = Inr st' \<Longrightarrow> store_inv st \<Longrightarrow> qview st1 = qview st \<Longrightarrow>
   sw_signal w \<noteq> LEASE_ACQUIRED \<Longrightarrow> qsteps st st'"
  using decide_and_write_step[of now i w st1 st'] by (simp add: store_inv_def qsteps_def)

lemma reclaim_steps:
  "reclaim_expired_lease now i rq st = Inr st' \<Longrightarrow> store_inv st \<Longrightarrow> qsteps st st'"
  by (auto simp: reclaim_expired_lease_def split: option.splits if_splits intro: qsteps_refl signal_steps)

lemma tell_interrupted_round_qview:
  "tell_interrupted_round prn now run session st = Inr (told, st') \<Longrightarrow> qview st' = qview st"
  by (auto simp: tell_interrupted_round_def Let_def split: option.splits sum.splits prod.splits)

lemma settle_recovery_steps:
  assumes "settle_recovery now n rq session budget run told st1 = Inr st'" "store_inv st" "qview st1 = qview st"
  shows "qsteps st st'"
  by (rule signal_steps[OF assms(1)[unfolded settle_recovery_def Let_def] assms(2)])
    (simp_all add: assms(3) qview_update_run qrun_def)

lemma recover_steps:
  assumes "recover_interrupted prn now i n rq st = Inr (s, st')" "store_inv st"
  shows "qsteps st st'"
  using assms
  by (auto simp: recover_interrupted_def split: option.splits if_splits
      intro: qsteps_refl settle_recovery_steps dest!: tell_interrupted_round_qview)

lemma wake_steps:
  "wake_external_wait now i rq st = Inr (b, st') \<Longrightarrow> store_inv st \<Longrightarrow> qsteps st st'"
  by (auto simp: wake_external_wait_def split: option.splits if_splits intro: qsteps_refl signal_steps)

lemma time_out_steps:
  "time_out_external_wait now i rq st = Inr st' \<Longrightarrow> store_inv st \<Longrightarrow> qsteps st st'"
  by (auto simp: time_out_external_wait_def split: option.splits if_splits intro: qsteps_refl signal_steps)

lemma expire_approval_steps:
  assumes "expire_approval now a i rq st = Inr st'" "store_inv st"
  shows "qsteps st st'"
  using assms
  by (auto simp: expire_approval_def Let_def split: option.splits if_splits intro: qsteps_refl signal_steps)

lemma cancel_aged_steps:
  "cancel_aged_compat_timeout now i rq st = Inr st' \<Longrightarrow> store_inv st \<Longrightarrow> qsteps st st'"
  by (auto simp: cancel_aged_compat_timeout_def split: option.splits if_splits intro: qsteps_refl signal_steps)

lemma cancel_child_steps:
  "cancel_child now i rq reason st = Inr st' \<Longrightarrow> store_inv st \<Longrightarrow> qsteps st st'"
  by (auto simp: cancel_child_def split: option.splits if_splits intro: qsteps_refl signal_steps)

interpretation child_cancel: queue_op "\<lambda>i. cancel_child now i rq reason" for now rq reason
  by unfold_locales (rule cancel_child_steps)

lemma cancel_children_each: "cancel_children now rq reason cs st = each (\<lambda>i. cancel_child now i rq reason) cs st"
  by (induction cs arbitrary: st) (auto simp: bind_res_def split: sum.splits)

lemma cancel_children_steps:
  "cancel_children now rq reason cs st = Inr st' \<Longrightarrow> store_inv st \<Longrightarrow> qsteps st st'"
  unfolding cancel_children_each by (rule child_cancel.each_simulates)

lemma grant_all_qview: "grant_all prn w i xs st = Inr st' \<Longrightarrow> qview st' = qview st"
  by (induction xs arbitrary: st) (fastforce split: sum.splits)+

lemma deliver_one_qview: "deliver_one prn now parent child st = Inr (line, st') \<Longrightarrow> qview st' = qview st"
  by (cases "child_report_line prn (r_id child) (case r_delegation_result child of None \<Rightarrow> [] | Some d \<Rightarrow> d)
        (RunState_value (r_status child))")
    (auto simp: deliver_one_def Let_def split: sum.splits dest!: grant_all_qview)

lemma deliver_lines_qview: "deliver_lines prn now parent cs st = Inr (ls, st') \<Longrightarrow> qview st' = qview st"
  by (induction cs arbitrary: st ls) (fastforce dest: deliver_one_qview)+

lemma deliver_child_results_qview:
  "deliver_child_results prn now parent session cs st = Inr st' \<Longrightarrow> qview st' = qview st"
  by (auto simp: deliver_child_results_def dest!: deliver_lines_qview)

lemma wake_parent_steps:
  "wake_parent prn now parent policy n rq cs st = Inr (b, st') \<Longrightarrow> store_inv st \<Longrightarrow> qsteps st st'"
  by (auto simp: wake_parent_def Let_def split: option.splits
      intro: qsteps_refl signal_steps dest!: deliver_child_results_qview)

lemma settle_child_wait_steps:
  assumes r: "settle_child_wait prn now i rq st = Inr (b, st')" and inv: "store_inv st"
  shows "qsteps st st'"
proof -
  consider "st' = st"
    | parent policy n cs where "wake_parent prn now parent policy n rq cs st = Inr (b, st')"
    | parent policy n cs ds st1 where "cancel_children now rq (py ''sibling_succeeded'') ds st = Inr st1"
        "wake_parent prn now parent policy n rq cs st1 = Inr (b, st')"
    using r by (auto simp: settle_child_wait_def Let_def split: option.splits if_splits)
  then show ?thesis
  proof cases
    case 1
    then show ?thesis by (simp add: qsteps_refl)
  next
    case 2
    then show ?thesis using inv by (rule wake_parent_steps)
  next
    case 3
    have "qsteps st st1" using 3(1) inv by (rule cancel_children_steps)
    moreover have "qsteps st1 st'" using 3(2) qsteps_inv[OF calculation inv] by (rule wake_parent_steps)
    ultimately show ?thesis by (rule qsteps_trans)
  qed
qed

lemma cascade_steps:
  "cascade_cancel_children now i rq st = Inr (n, st') \<Longrightarrow> store_inv st \<Longrightarrow> qsteps st st'"
  by (auto simp: cascade_cancel_children_def Let_def split: option.splits if_splits
      intro: qsteps_refl cancel_children_steps)

interpretation due_waits: queue_op "settle_due_wait now" for now
  by unfold_locales (auto simp: settle_due_wait_def split: if_splits intro: wake_steps time_out_steps)

interpretation child_waits: queue_op "\<lambda>i s. map_sum id snd (settle_child_wait prn now i rq s)" for prn now rq
  by unfold_locales (auto intro: settle_child_wait_steps)

interpretation cascades: queue_op "\<lambda>i s. map_sum id snd (cascade_cancel_children now i rq s)" for now rq
  by unfold_locales (auto intro: cascade_steps)

interpretation approval_expiry: queue_op "\<lambda>(a, r). expire_approval now a r rq" for now rq
  by unfold_locales (auto intro: expire_approval_steps)

interpretation aged_timeouts: queue_op "\<lambda>i. cancel_aged_compat_timeout now i rq" for now rq
  by unfold_locales (rule cancel_aged_steps)

interpretation head_repairs: queue_op "\<lambda>i s. map_sum id snd (repair_session_head now i rq s)" for now rq
  by unfold_locales (auto intro: repair_steps)

lemma confirm_cleanup_steps:
  assumes "store_inv st"
  shows "qsteps st (confirm_cleanup_intent now i sandbox st)"
proof -
  have "signal \<noteq> LEASE_ACQUIRED" if "cleanup_destination target = Some (signal, reason)" for target signal reason
    using that by (auto simp: cleanup_destination_def split: WorkspaceCleanupTarget.splits)
  then show ?thesis
    using assms by (auto simp: confirm_cleanup_intent_def qsteps_refl split: option.splits sum.splits
        intro!: apply_signal_steps)
qed

lemma retention_qview:
  "qview (snd (delete_expired_idempotency_records now n st)) = qview st"
  "qview (snd (prune_terminal_run_events now n st)) = qview st"
  by (simp_all add: delete_expired_idempotency_records_def prune_terminal_run_events_def split: prod.splits)

lemma control_run_steps:
  "control_run now c st = Inr (sn, st') \<Longrightarrow> store_inv st \<Longrightarrow> cr_signal c \<noteq> LEASE_ACQUIRED \<Longrightarrow> qsteps st st'"
  by (auto simp: control_run_def split: if_splits sum.splits StoreError.splits intro!: apply_signal_steps)

lemma control_run_refused_qview: "control_run now c st = Inl (e, st') \<Longrightarrow> qview st' = qview st"
  by (auto simp: control_run_def split: if_splits sum.splits StoreError.splits)

section \<open>All transactions\<close>

text \<open>One transaction of the program: a request that reached the store, a write of a Worker, or a
  step of the Scheduler. The identifiers are the ones \<open>uuid4\<close> draws in it.\<close>

datatype StoreOp =
    CreateSession nat nat nat CallerIdentity SessionMode pystr
  | AcceptRun nat AcceptRunCommand
  | DeriveRetry nat RetryRunCommand
  | ControlRun ControlRunCommand
  | WidenBudget WidenBudgetCommand
  | ApplySignal RunCapabilities ApplySignalCommand
  | ClaimHead nat ClaimRunCommand
  | RenewLease nat nat nat nat int
  | ReserveToolCall nat nat nat
  | ReserveOutsideCall pystr nat nat nat InFlightRound
  | RecordSlice RunCapabilities RecordSliceCommand
  | DelegateChildren nat "DelegationRequest list" "(nat \<times> nat) list"
  | ReclaimLease nat pystr
  | RecoverRun nat nat pystr
  | SettleDueWaits nat
  | SettleChildWaits nat
  | CascadeChildren nat
  | ExpireApprovals nat
  | CancelAgedTimeouts nat
  | RepairHeads nat
  | ConfirmCleanup nat nat
  | DeleteIdempotencyRecords nat
  | PruneEvents datetime nat

text \<open>What a transaction leaves: an exception rolls it back.\<close>

definition committed :: "Store \<Rightarrow> (StoreError, Store) result \<Rightarrow> Store" where
  "committed st r = (case r of Inl _ \<Rightarrow> st | Inr st' \<Rightarrow> st')"

definition committed_snd :: "Store \<Rightarrow> (StoreError, 'a \<times> Store) result \<Rightarrow> Store" where
  "committed_snd st r = (case r of Inl _ \<Rightarrow> st | Inr (_, st') \<Rightarrow> st')"

fun exec :: "(nat \<Rightarrow> bool) \<Rightarrow> datetime \<Rightarrow> StoreOp \<Rightarrow> Store \<Rightarrow> Store" where
  "exec prn now (CreateSession sid w agent caller mode rq) st =
     committed_snd st (create_session sid w agent caller mode rq st)"
| "exec prn now (AcceptRun i c) st = committed_snd st (accept_run now i c st)"
| "exec prn now (DeriveRetry i c) st = committed_snd st (derive_retry now i c st)"
| "exec prn now (ControlRun c) st = (case control_run now c st of Inl (_, st') \<Rightarrow> st' | Inr (_, st') \<Rightarrow> st')"
| "exec prn now (WidenBudget c) st = committed_snd st (widen_budget now c st)"
| "exec prn now (ApplySignal caps c) st = committed_snd st (apply_signal now caps c st)"
| "exec prn now (ClaimHead l c) st = committed_snd st (claim_head now l c st)"
| "exec prn now (RenewLease w i l v secs) st = snd (renew_lease now w i l v secs st)"
| "exec prn now (ReserveToolCall w i l) st = committed_snd st (reserve_tool_call now w i l st)"
| "exec prn now (ReserveOutsideCall key w i l sending) st =
     committed_snd st (reserve_outside_call now key w i l sending st)"
| "exec prn now (RecordSlice caps c) st = committed_snd st (record_slice now caps c st)"
| "exec prn now (DelegateChildren i reqs ids) st = committed_snd st (delegate_children now i reqs ids st)"
| "exec prn now (ReclaimLease i rq) st = committed st (reclaim_expired_lease now i rq st)"
| "exec prn now (RecoverRun i n rq) st = committed_snd st (recover_interrupted prn now i n rq st)"
| "exec prn now (SettleDueWaits n) st = committed st (settle_due_waits now n st)"
| "exec prn now (SettleChildWaits n) st = committed st (settle_child_waits prn now n st)"
| "exec prn now (CascadeChildren n) st = committed st (cascade_children now n st)"
| "exec prn now (ExpireApprovals n) st = committed st (expire_approvals now n st)"
| "exec prn now (CancelAgedTimeouts n) st = committed st (cancel_aged_compat_timeouts now n st)"
| "exec prn now (RepairHeads n) st = committed st (repair_session_heads now n st)"
| "exec prn now (ConfirmCleanup i sandbox) st = confirm_cleanup_intent now i sandbox st"
| "exec prn now (DeleteIdempotencyRecords n) st = snd (delete_expired_idempotency_records now n st)"
| "exec prn now (PruneEvents before n) st = snd (prune_terminal_run_events before n st)"

text \<open>What the callers keep to: new identifiers are new, and only a claim acquires a lease.\<close>

fun op_ok :: "StoreOp \<Rightarrow> Store \<Rightarrow> bool" where
  "op_ok (CreateSession sid _ _ _ _ _) st \<longleftrightarrow> sid \<notin> ss_id ` set (st_sessions st)"
| "op_ok (AcceptRun i _) st \<longleftrightarrow> i \<notin> r_id ` set (st_runs st)"
| "op_ok (DeriveRetry i _) st \<longleftrightarrow> i \<notin> r_id ` set (st_runs st)"
| "op_ok (ControlRun c) st \<longleftrightarrow> cr_signal c \<noteq> LEASE_ACQUIRED"
| "op_ok (ApplySignal _ c) st \<longleftrightarrow> as_signal c \<noteq> LEASE_ACQUIRED"
| "op_ok (RecordSlice _ c) st \<longleftrightarrow> rs_signal c \<noteq> Some LEASE_ACQUIRED"
| "op_ok (DelegateChildren _ _ ids) st \<longleftrightarrow> fresh_ids ids st"
| "op_ok _ st \<longleftrightarrow> True"

inductive store_step :: "(nat \<Rightarrow> bool) \<Rightarrow> Store \<Rightarrow> Store \<Rightarrow> bool" for prn where
  transaction: "op_ok op st \<Longrightarrow> store_step prn st (exec prn now op st)"

inductive reachable_store :: "(nat \<Rightarrow> bool) \<Rightarrow> Store \<Rightarrow> bool" for prn where
  empty_store: "st_runs st = [] \<Longrightarrow> st_sessions st = [] \<Longrightarrow> reachable_store prn st"
| next_store: "reachable_store prn st \<Longrightarrow> store_step prn st st' \<Longrightarrow> reachable_store prn st'"

inductive_cases store_stepE: "store_step prn st st'"

lemma qsteps_committed:
  "(\<And>st'. r = Inr st' \<Longrightarrow> qsteps st st') \<Longrightarrow> qsteps st (committed st r)"
  by (cases r) (auto simp: committed_def qsteps_refl)

lemma qsteps_committed_snd:
  "(\<And>a st'. r = Inr (a, st') \<Longrightarrow> qsteps st st') \<Longrightarrow> qsteps st (committed_snd st r)"
  by (cases r) (auto simp: committed_snd_def qsteps_refl)

lemmas transaction_steps =
  create_session_steps accept_run_steps derive_retry_steps apply_signal_steps claim_head_steps
  record_slice_steps delegate_children_steps reclaim_steps recover_steps

lemmas pass_steps =
  due_waits.each_simulates child_waits.each_simulates cascades.each_simulates
  approval_expiry.each_simulates aged_timeouts.each_simulates head_repairs.each_simulates

lemmas pass_defs =
  settle_due_waits_def settle_child_waits_def cascade_children_def expire_approvals_def
  cancel_aged_compat_timeouts_def repair_session_heads_def

lemma control_run_exec_steps:
  assumes "store_inv st" "cr_signal c \<noteq> LEASE_ACQUIRED"
  shows "qsteps st (case control_run now c st of Inl (_, st') \<Rightarrow> st' | Inr (_, st') \<Rightarrow> st')"
  using assms control_run_steps control_run_refused_qview
  by (auto split: sum.splits intro: qsteps_refl)

theorem exec_steps: "op_ok op st \<Longrightarrow> store_inv st \<Longrightarrow> qsteps st (exec prn now op st)"
  by (cases op)
    (auto intro!: qsteps_committed qsteps_committed_snd confirm_cleanup_steps control_run_exec_steps
      intro: transaction_steps pass_steps qsteps_refl renew_lease_qview reserve_tool_call_qview
        reserve_outside_call_qview widen_budget_qview
      simp: pass_defs retention_qview)

lemma store_step_steps: "store_step prn st st' \<Longrightarrow> store_inv st \<Longrightarrow> qsteps st st'"
  by (auto elim!: store_stepE intro: exec_steps)

end
