(* ===== verification/Store_Invariants.thy ===== *)
theory Store_Invariants
  imports Store_Moves
begin

text \<open>
  What holds of every store the program can reach: the queue of each Session is right after any
  sequence of transactions, and no Run overtakes another. A small store, built by running
  transactions from empty tables, is the concrete input of the witnesses.
\<close>

lemma reachable_store_inv: "reachable_store prn st \<Longrightarrow> store_inv st"
proof (induction rule: reachable_store.induct)
  case (empty_store st)
  then show ?case by (simp add: store_inv_def queue_inv_def qview_def)
next
  case (next_store st st')
  then show ?case using store_step_steps qsteps_inv by blast
qed

lemma reachable_steps:
  assumes "(store_step prn)\<^sup>*\<^sup>* st st'" "reachable_store prn st"
  shows "qsteps st st' \<and> reachable_store prn st'"
  using assms(1)
proof (induction rule: rtranclp_induct)
  case base
  then show ?case using assms(2) by (simp add: qsteps_refl)
next
  case (step y z)
  then have "qsteps y z" using store_step_steps reachable_store_inv by blast
  with step show ?case using next_store qsteps_trans by blast
qed

lemma pending_ids: "map r_id (pending_runs sid st) = q_ids (qview st) sid"
  using arg_cong[OF pending_runs_q[of sid st], of "map qr_id"] by (simp add: q_ids_def comp_def)

lemma seen_ids: "q_seen (qview st) = r_id ` set (st_runs st)"
  by (simp add: q_seen_def qview_def image_image qrun_def)

lemma pending_head:
  assumes "store_inv st" "s \<in> set (st_sessions st)"
  shows "ss_head s = (case pending_runs (ss_id s) st of [] \<Rightarrow> None | r # _ \<Rightarrow> Some (r_id r))"
proof -
  have s: "lookup_session (ss_id s) st = Some s"
    unfolding lookup_session_def by (rule lookup_distinct[OF store_inv_sessions[OF assms(1)] assms(2)])
  have "ss_id s \<in> qs_id ` set (snd (qview st))" using assms(2) by (force simp: qview_def)
  from q_head_first[OF assms(1)[unfolded store_inv_def] this] show ?thesis
    using q_head_qview[OF s] by (simp add: pending_ids[symmetric] split: list.splits)
qed

lemma session_rows:
  assumes "store_inv st" "s \<in> set (st_sessions st)" "r \<in> set (st_runs st)" "r_session r = ss_id s"
  shows "r_session_sequence r < ss_next_run_sequence s" "r_workspace r = ss_workspace s"
    "live r \<Longrightarrow> r_blocked_by r = (if Some (r_id r) = ss_head s then None else ss_head s)"
    "r_status r = RUNNING \<Longrightarrow> ss_head s = Some (r_id r)"
proof -
  have "session_ok (fst (qview st)) (qsession s)"
    using assms(1,2) by (auto simp: store_inv_def queue_inv_def qview_def)
  from session_ok_row[OF this, of "qrun r"] assms(3,4)
  show "r_session_sequence r < ss_next_run_sequence s" "r_workspace r = ss_workspace s"
    "live r \<Longrightarrow> r_blocked_by r = (if Some (r_id r) = ss_head s then None else ss_head s)"
    "r_status r = RUNNING \<Longrightarrow> ss_head s = Some (r_id r)"
    by (auto simp: qview_def waits_right_def)
qed

lemma same_run: "store_inv st \<Longrightarrow> a \<in> set (st_runs st) \<Longrightarrow> b \<in> set (st_runs st) \<Longrightarrow> r_id a = r_id b \<Longrightarrow> a = b"
  using store_inv_runs by (metis lookup_distinct option.inject)

lemma at_most_one: "distinct xs \<Longrightarrow> (\<And>a b. a \<in> set xs \<Longrightarrow> b \<in> set xs \<Longrightarrow> a = b) \<Longrightarrow> length xs \<le> 1"
proof (cases xs)
  case (Cons a ys)
  assume xs: "distinct xs" "\<And>a b. a \<in> set xs \<Longrightarrow> b \<in> set xs \<Longrightarrow> a = b"
  have "y = a" if "y \<in> set ys" for y using xs(2)[of y a] that Cons by simp
  then have "set ys = {}" using xs(1) Cons by (metis distinct.simps(2) equals0I)
  then show ?thesis using Cons by simp
qed simp

section \<open>A small store\<close>

fun ops_ok :: "(nat \<Rightarrow> bool) \<Rightarrow> datetime \<Rightarrow> StoreOp list \<Rightarrow> Store \<Rightarrow> bool" where
  "ops_ok prn now [] st \<longleftrightarrow> True"
| "ops_ok prn now (op # ops) st \<longleftrightarrow> op_ok op st \<and> ops_ok prn now ops (exec prn now op st)"

lemma ops_ok_reachable:
  "ops_ok prn now ops st \<Longrightarrow> reachable_store prn st \<Longrightarrow> reachable_store prn (fold (exec prn now) ops st)"
  by (induction ops arbitrary: st) (auto intro: next_store transaction)

lemma ops_ok_steps: "ops_ok prn now ops st \<Longrightarrow> (store_step prn)\<^sup>*\<^sup>* st (fold (exec prn now) ops st)"
proof (induction ops arbitrary: st)
  case (Cons op ops)
  then have "store_step prn st (exec prn now op st)" "(store_step prn)\<^sup>*\<^sup>* (exec prn now op st)
      (fold (exec prn now) ops (exec prn now op st))"
    by (auto intro: transaction)
  then show ?case by (simp add: converse_rtranclp_into_rtranclp)
qed simp

definition sample_spec :: AgentSpec where
  "sample_spec =
     \<lparr>sp_tools = [], sp_limits = \<lparr>al_max_execution_seconds = 600, al_max_elapsed_seconds = 3600,
        al_max_model_calls = 20, al_max_tool_calls = 40, al_max_derived_retries = 2\<rparr>,
      sp_endpoint = None, sp_network_allow = None, sp_skills = [], sp_delegation = None\<rparr>"

definition sample_tables :: Store where
  "sample_tables =
     \<lparr>st_workspaces = [\<lparr>w_id = 1, w_max_running = Some 1, w_max_running_per_caller = None,
        w_max_run_cost = None, w_cost_currency = None\<rparr>],
      st_agents = [\<lparr>ag_id = 2, ag_workspace = 1, ag_alias = [], ag_current_version = Some 3\<rparr>],
      st_versions = [\<lparr>av_id = 3, av_agent = 2, av_spec = sample_spec\<rparr>],
      st_prices = [], st_sessions = [], st_runs = [], st_budgets = [], st_leases = [], st_messages = [],
      st_events = [], st_idempotency = [], st_approvals = [], st_artifacts = [], st_grants = [], st_audit = []\<rparr>"

definition sample_caller :: CallerIdentity where "sample_caller = \<lparr>ca_type = USER, ca_id = 9\<rparr>"

definition sample_caps :: RunCapabilities where
  "sample_caps = \<lparr>can_control = True, can_retry = True, can_hold_budget = False\<rparr>"

definition sample_accept :: "pystr \<Rightarrow> AcceptRunCommand" where
  "sample_accept key =
     \<lparr>ar_workspace_id = 1, ar_session_id = 4, ar_caller = sample_caller, ar_capabilities = sample_caps,
      ar_endpoint = [], ar_idempotency_key = key, ar_fingerprint = [], ar_message = None, ar_request = [],
      ar_delivery_mode = None, ar_purpose = COMPACTION\<rparr>"

definition sample_claim :: ClaimRunCommand where
  "sample_claim =
     \<lparr>cl_workspace = None, cl_worker = [], cl_lease_seconds = 20, cl_request = [],
      cl_per_caller_default = 3, cl_promote_after = 60, cl_session = None, cl_capabilities = sample_caps\<rparr>"

text \<open>A Session with two Runs in its queue, and the first of them claimed.\<close>

definition sample_intake :: "StoreOp list" where
  "sample_intake = [CreateSession 4 1 2 sample_caller PERSISTENT [], AcceptRun 5 (sample_accept [1]),
     AcceptRun 6 (sample_accept [2])]"

definition sample_queued :: Store where
  "sample_queued = fold (exec (\<lambda>_. False) 1000) sample_intake sample_tables"

definition sample_running :: Store where
  "sample_running = fold (exec (\<lambda>_. False) 2000) [ClaimHead 7 sample_claim] sample_queued"

lemma sample_ok:
  "ops_ok (\<lambda>_. False) 1000 sample_intake sample_tables \<and>
   ops_ok (\<lambda>_. False) 2000 [ClaimHead 7 sample_claim] sample_queued"
  by code_simp

lemma sample_reachable:
  "reachable_store (\<lambda>_. False) sample_queued" "reachable_store (\<lambda>_. False) sample_running"
  "(store_step (\<lambda>_. False))\<^sup>*\<^sup>* sample_queued sample_running"
proof -
  have tables: "reachable_store (\<lambda>_. False) sample_tables"
    by (rule empty_store) (simp_all add: sample_tables_def)
  show queued: "reachable_store (\<lambda>_. False) sample_queued"
    unfolding sample_queued_def by (rule ops_ok_reachable[OF conjunct1[OF sample_ok] tables])
  show "reachable_store (\<lambda>_. False) sample_running"
    unfolding sample_running_def by (rule ops_ok_reachable[OF conjunct2[OF sample_ok] queued])
  show "(store_step (\<lambda>_. False))\<^sup>*\<^sup>* sample_queued sample_running"
    unfolding sample_running_def by (rule ops_ok_steps[OF conjunct2[OF sample_ok]])
qed

lemma sample_rows:
  "map (\<lambda>s. (ss_id s, ss_head s)) (st_sessions sample_running) = [(4, Some 5)] \<and>
   map (\<lambda>r. (r_id r, r_status r, r_session r, r_blocked_by r)) (st_runs sample_running) =
     [(5, RUNNING, 4, None), (6, RunState.QUEUED, 4, Some 5)]"
  by code_simp

section \<open>Properties\<close>

text \<open>C1. After any sequence of transactions of the program (requests, claims, slices, retries,
  delegations, sweeps and repairs, each committed or rolled back), the queue of every Session is
  right: its head is its earliest unfinished Run, every other unfinished Run is blocked by exactly
  that head and the head by nobody, and at most one Run of the Session is running, which is the
  head. Runs carry their Session's workspace and sequence numbers are below the Session's next.\<close>

theorem session_queue_holds:
  assumes "reachable_store prn st" "s \<in> set (st_sessions st)"
  shows "ss_head s = (case pending_runs (ss_id s) st of [] \<Rightarrow> None | r # _ \<Rightarrow> Some (r_id r)) \<and>
    (\<forall>r \<in> set (pending_runs (ss_id s) st).
       r_blocked_by r = (if Some (r_id r) = ss_head s then None else ss_head s)) \<and>
    (\<forall>r \<in> set (st_runs st). r_session r = ss_id s \<longrightarrow>
       r_session_sequence r < ss_next_run_sequence s \<and> r_workspace r = ss_workspace s \<and>
       (r_status r = RUNNING \<longrightarrow> ss_head s = Some (r_id r))) \<and>
    length (filter (\<lambda>r. r_session r = ss_id s \<and> r_status r = RUNNING) (st_runs st)) \<le> 1"
proof (intro conjI ballI impI)
  note inv = reachable_store_inv[OF assms(1)]
  note rows = session_rows[OF inv assms(2)]
  show "ss_head s = (case pending_runs (ss_id s) st of [] \<Rightarrow> None | r # _ \<Rightarrow> Some (r_id r))"
    by (rule pending_head[OF inv assms(2)])
  show "r_blocked_by r = (if Some (r_id r) = ss_head s then None else ss_head s)"
    if "r \<in> set (pending_runs (ss_id s) st)" for r
    using that rows(3)[of r] by (simp add: set_pending_runs)
  show "length (filter (\<lambda>r. r_session r = ss_id s \<and> r_status r = RUNNING) (st_runs st)) \<le> 1"
    using store_inv_runs[OF inv] rows(4) same_run[OF inv]
    by (intro at_most_one) (auto simp: distinct_map intro: distinct_filter, metis option.inject)
qed (use session_rows[OF reachable_store_inv[OF assms(1)] assms(2)] in blast)+

theorem session_queue_holds_witness:
  "\<exists>s \<in> set (st_sessions sample_running). ss_head s = Some 5 \<and>
     ss_head s = (case pending_runs (ss_id s) sample_running of [] \<Rightarrow> None | r # _ \<Rightarrow> Some (r_id r))"
proof -
  obtain s where s: "s \<in> set (st_sessions sample_running)" "ss_head s = Some 5"
    using sample_rows by (cases "st_sessions sample_running") auto
  from session_queue_holds[OF sample_reachable(2) s(1)] s show ?thesis by blast
qed

text \<open>C2. No Run overtakes another: whatever transactions happen, the Runs that wait in a Session
  later are some of those that waited before, in the same order, and behind them Runs that did
  not exist before.\<close>

theorem session_queue_fifo:
  assumes "reachable_store prn st" "(store_step prn)\<^sup>*\<^sup>* st st'"
  shows "\<exists>stayed came. map r_id (pending_runs sid st') = stayed @ came \<and>
    subseq stayed (map r_id (pending_runs sid st)) \<and> set came \<inter> r_id ` set (st_runs st) = {}"
  using session_queue.no_overtaking[of "qview st" "qview st'" sid] reachable_steps[OF assms(2,1)]
    reachable_store_inv[OF assms(1)]
  unfolding pending_ids qsteps_def store_inv_def seen_ids by blast

theorem session_queue_fifo_witness:
  "\<exists>stayed came. map r_id (pending_runs 4 sample_running) = stayed @ came \<and>
    subseq stayed (map r_id (pending_runs 4 sample_queued)) \<and> set came \<inter> r_id ` set (st_runs sample_queued) = {}"
  by (rule session_queue_fifo[OF sample_reachable(1,3)])

end
