(* ===== verification/Store_Leases.thy ===== *)
theory Store_Leases
  imports Store_Invariants
begin

text \<open>
  Who may write for a Run. A Worker's writes present the lease it was given; once the Scheduler
  took the Run back, or another Worker claimed it, every one of them is refused. A claim takes the
  first Run in the claim order and keeps the running limits of the workspace and of the caller.
\<close>

section \<open>What leaves the leases alone\<close>

lemma leases_writes [simp]:
  "st_leases (update_run i f st) = st_leases st" "st_leases (update_session i g st) = st_leases st"
  "st_leases (update_budget i h st) = st_leases st" "st_leases (audit w a ac rt rs rq res cx aty st) = st_leases st"
  "st_leases (audit_run w a ac i rq st) = st_leases st" "st_leases (append_messages now w i s ms st) = st_leases st"
  by (simp_all add: update_run_def update_session_def update_budget_def audit_def audit_run_def append_messages_def)

lemma leases_hand_over [simp]: "st_leases (hand_over now sid i st) = st_leases st"
  by (simp add: hand_over_def Let_def split: option.splits)

lemma leases_terminalize [simp]: "st_leases (terminalize now run session st) = st_leases st"
  by (simp add: terminalize_def Let_def)

lemma append_events_leases: "append_events now w i evs st = Inr st' \<Longrightarrow> st_leases st' = st_leases st"
  by (auto simp: append_events_def Let_def split: if_splits option.splits)

lemma decide_and_write_leases: "decide_and_write now i w st = Inr st' \<Longrightarrow> st_leases st' = st_leases st"
  by (erule decide_and_write_Inr) (auto dest: append_events_leases split: if_splits)

section \<open>Fencing\<close>

text \<open>The lease is not an open lease of the Run any more.\<close>

definition lease_gone :: "nat \<Rightarrow> nat \<Rightarrow> Store \<Rightarrow> bool" where
  "lease_gone i l st \<longleftrightarrow> (\<forall>x \<in> set (st_leases st). l_run x = i \<longrightarrow> l_id x = l \<longrightarrow> l_released_at x \<noteq> None)"

lemma lock_lease_gone:
  "lease_gone i l st \<Longrightarrow> lock_lease l i st = Some x \<Longrightarrow> l_released_at x \<noteq> None"
  by (auto simp: lease_gone_def lock_lease_def find_Some_iff)

lemma charge_tool_call_fenced:
  "lease_gone i l st \<Longrightarrow> charge_tool_call now w i l st \<in> {Inl UnknownRun, Inl LeaseLost}"
  by (auto simp: charge_tool_call_def split: option.splits dest: lock_lease_gone)

lemma record_slice_fenced:
  "lease_gone (rs_run c) (rs_lease c) st \<Longrightarrow> record_slice now caps c st \<in> {Inl UnknownRun, Inl LeaseLost}"
  by (auto simp: record_slice_def record_slice_rows_def split: option.splits dest: lock_lease_gone)

lemma renew_lease_fenced: "lease_gone i l st \<Longrightarrow> renew_lease now w i l v secs st = (None, st)"
  by (auto simp: renew_lease_def Let_def lease_gone_def list_ex_iff)

lemma reclaim_ends_leases:
  assumes "reclaim_expired_lease now i rq st = Inr st'" "lookup_run i st = Some run" "live run"
    "lock_session (r_workspace run) (r_session run) st \<noteq> None"
  shows "lease_gone i l st'"
proof -
  have "decide_and_write now i (signal_write RunSignal.INTERRUPTED rq [(py ''reason'', JStr (py ''lease_expired''))])
      (release_lease now i st) = Inr st'"
    using assms unfolding reclaim_expired_lease_def by simp
  then have "st_leases st' = st_leases (release_lease now i st)" by (rule decide_and_write_leases)
  then have "st_leases st' = update_where (\<lambda>l. l_run l = i \<and> l_released_at l = None)
      (\<lambda>l. l\<lparr>l_released_at := Some now\<rparr>) (st_leases st)"
    by (simp add: release_lease_def)
  note leases = this
  show ?thesis unfolding lease_gone_def leases set_update_where ball_simps by (simp split: if_splits)
qed

lemma claim_head_Inr:
  assumes "claim_head now l c st = Inr (Some cm, st')"
  obtains run session budget d where "claimable_within_limits now c st = Some run"
    "lock_session (r_workspace run) (r_session run) st = Some session" "ss_head session = Some (r_id run)"
    "lookup_budget (r_budget_root run) st = Some budget"
    "decide (claim_view run budget now) LEASE_ACQUIRED None None None = Inr d"
    "announce_claim now l c run (take_run now l c run d st) = Inr (Some cm, st')"
  using assms by (auto simp: claim_head_def split: option.splits if_splits sum.splits)

lemma upsert_lease_row:
  "set (snd (upsert_lease now l i w until ls)) \<subseteq>
   {x. l_run x \<noteq> i} \<union> {x. l_run x = i \<and> l_id x = l \<and> l_released_at x = None \<and> l_expires_at x = until}"
  by (auto simp: upsert_lease_def set_update_where find_None_iff split: option.splits)

lemma announce_claim_leases:
  "announce_claim now l c run taken = Inr (cm, st') \<Longrightarrow> st_leases st' = st_leases (snd taken)"
  by (auto simp: announce_claim_def split: prod.splits dest!: returning_same append_events_leases)

lemma claim_leases:
  assumes "claim_head now l c st = Inr (Some cm, st')" "claimable_within_limits now c st = Some run"
  shows "st_leases st' = snd (upsert_lease now l (r_id run) (cl_worker c)
    (now + timedelta_seconds (cl_lease_seconds c)) (st_leases st))"
  using assms(1) by (rule claim_head_Inr)
    (use assms(2) in \<open>auto dest!: announce_claim_leases simp: take_run_def Let_def\<close>)

lemma claim_ends_leases:
  assumes "claim_head now l c st = Inr (Some cm, st')" "claimable_within_limits now c st = Some run" "old \<noteq> l"
  shows "lease_gone (r_id run) old st'"
  unfolding lease_gone_def claim_leases[OF assms(1,2)]
  using upsert_lease_row[of now l "r_id run"] assms(3) by blast

text \<open>C5. A Worker that lost its Run writes nothing for it. Once the Scheduler reclaimed an expired
  lease, and equally once another Worker claimed the Run under a new lease, a tool call charged
  with the old lease, a slice recorded with it and its renewal are all refused, whatever they
  carry, and leave the store as it is.\<close>

theorem lost_lease_is_fenced:
  assumes "(\<exists>now rq run st. reclaim_expired_lease now i rq st = Inr st' \<and> lookup_run i st = Some run \<and>
        live run \<and> lock_session (r_workspace run) (r_session run) st \<noteq> None) \<or>
      (\<exists>now new c cm run st. claim_head now new c st = Inr (Some cm, st') \<and>
        claimable_within_limits now c st = Some run \<and> r_id run = i \<and> new \<noteq> old)"
    and "rs_run c = i" "rs_lease c = old"
  shows "charge_tool_call now' w i old st' \<in> {Inl UnknownRun, Inl LeaseLost} \<and>
    record_slice now' caps c st' \<in> {Inl UnknownRun, Inl LeaseLost} \<and>
    renew_lease now' w i old v secs st' = (None, st')"
proof -
  have "lease_gone i old st'"
    using assms(1) reclaim_ends_leases claim_ends_leases by metis
  then show ?thesis
    using charge_tool_call_fenced record_slice_fenced[of c] renew_lease_fenced assms(2,3) by simp
qed

text \<open>A lease the Scheduler took back and a lease another Worker replaced, in the small store.\<close>

definition sample_slice :: RecordSliceCommand where
  "sample_slice =
     \<lparr>rs_workspace = 1, rs_run = 5, rs_lease = 7, rs_expected_version = 2, rs_signal = Some RunSignal.COMPLETED,
      rs_pause_reason = None, rs_limit_reached = False, rs_limit_valve = [], rs_checkpoint = [],
      rs_checkpoint_replay_safe = True, rs_checkpoint_effect = NONE, rs_executed_ms = 10, rs_model_calls = 1,
      rs_tokens = 5, rs_request = [], rs_appended = [], rs_cleanup_target = None, rs_cleanup_sandbox = None,
      rs_events = [], rs_wait_kind = None, rs_wait_seconds = None, rs_wait_policy = None,
      rs_retry_after = None, rs_cost = None\<rparr>"

definition sample_reclaimed :: "(StoreError, Store) result" where
  "sample_reclaimed = reclaim_expired_lease (10 ^ 9) 5 [] sample_running"

lemma sample_reclaim:
  "let st = sample_running in
   \<not> isl (reclaim_expired_lease (10 ^ 9) 5 [] st) \<and>
   (case lookup_run 5 st of
      None \<Rightarrow> False
    | Some run \<Rightarrow> live run \<and> lock_session (r_workspace run) (r_session run) st \<noteq> None)"
  by code_simp

theorem lost_lease_is_fenced_witness:
  "\<exists>st'. sample_reclaimed = Inr st' \<and>
     record_slice (10 ^ 9 + 1) sample_caps sample_slice st' \<in> {Inl UnknownRun, Inl LeaseLost}"
proof -
  obtain st' where st': "sample_reclaimed = Inr st'"
    using sample_reclaim unfolding Let_def sample_reclaimed_def by (metis sum.collapse(2))
  obtain run where "lookup_run 5 sample_running = Some run" "live run"
    "lock_session (r_workspace run) (r_session run) sample_running \<noteq> None"
    using sample_reclaim by (auto simp: Let_def split: option.splits)
  with st' have lost: "(\<exists>now rq run st. reclaim_expired_lease now 5 rq st = Inr st' \<and> lookup_run 5 st = Some run \<and>
        live run \<and> lock_session (r_workspace run) (r_session run) st \<noteq> None)"
    unfolding sample_reclaimed_def by blast
  have "rs_run sample_slice = 5" "rs_lease sample_slice = 7" by (simp_all add: sample_slice_def)
  from lost_lease_is_fenced[OF disjI1[OF lost] this] st' show ?thesis by blast
qed

section \<open>Claims\<close>

lemma claim_rows_SomeD:
  "(run, session, workspace) \<in> set (claim_rows st) \<Longrightarrow>
   run \<in> set (st_runs st) \<and> lookup_session (r_session run) st = Some session \<and>
   lookup w_id (r_workspace run) (st_workspaces st) = Some workspace"
  by (auto simp: claim_rows_def set_filter_map split: option.splits)

text \<open>In one transaction the recount finds what the query counted, so the first candidate is the
  one that is taken.\<close>

lemma first_candidate_passes:
  assumes "select_claimable now c {} {} st = Some (run, session, workspace)"
  shows "claimable_attempts (Suc n) now c {} {} st = Some run"
proof -
  have m: "may_claim now c {} {} st (run, session, workspace)"
    using first_row_SomeD(2)[OF assms[unfolded select_claimable_def]] .
  then have "\<not> (case w_max_running workspace of
                None \<Rightarrow> False | Some limit \<Rightarrow> workspace_running (r_workspace run) st \<ge> limit)"
    by (auto split: option.splits)
  moreover have "ss_caller_type session \<noteq> SERVICE_ACCOUNT \<Longrightarrow>
      caller_running (r_workspace run) (ss_caller_type session) (ss_caller_id session) st < caller_limit c workspace"
    using m by (auto simp: caller_limit_def split: option.splits)
  ultimately show ?thesis using assms by (auto simp: not_le)
qed

lemma claimable_within_limits_select:
  "claimable_within_limits now c st = map_option fst (select_claimable now c {} {} st)"
proof -
  have n: "CLAIM_ATTEMPTS = Suc (CLAIM_ATTEMPTS - 1)" by (simp add: CLAIM_ATTEMPTS_def)
  show ?thesis
  proof (cases "select_claimable now c {} {} st")
    case None
    then show ?thesis unfolding claimable_within_limits_def by (subst n) simp
  next
    case (Some row)
    obtain run session workspace where "row = (run, session, workspace)" by (cases row)
    with Some show ?thesis
      unfolding claimable_within_limits_def by (subst n) (simp add: first_candidate_passes del: claimable_attempts.simps)
  qed
qed

lemma count_update_where:
  "length (filter q (update_where p f rows)) \<le> length (filter q rows) + length (filter p rows)"
  by (induction rows) auto

lemma count_one_run:
  assumes "store_inv st"
  shows "length (filter (\<lambda>r. r_id r = i) (st_runs st)) \<le> 1"
  using store_inv_runs[OF assms] same_run[OF assms]
  by (intro at_most_one) (auto simp: distinct_map intro: distinct_filter)

lemma append_events_rows:
  "append_events now w i evs st = Inr st' \<Longrightarrow>
   st_sessions st' = st_sessions st \<and> (\<forall>P. (\<forall>r n. P (r\<lparr>r_next_event_sequence := n\<rparr>) = P r) \<longrightarrow>
     length (filter P (st_runs st')) = length (filter P (st_runs st)))"
  by (auto simp: append_events_def Let_def update_run_def filter_update_where split: if_splits option.splits)

lemma claim_rows_after:
  assumes "announce_claim now l c run (take_run now l c run d st) = Inr (cm, st')" "store_inv st"
  shows "st_sessions st' = st_sessions st"
    and "(\<And>r n. P (r\<lparr>r_next_event_sequence := n\<rparr>) = P r) \<Longrightarrow>
      length (filter P (st_runs st')) \<le> length (filter P (st_runs st)) + 1"
proof -
  obtain st2 where e: "append_events now (r_workspace run) (r_id run)
      [\<lparr>re_type = RUN_LEASE_ACQUIRED, re_payload = [(py ''worker_id'', JStr (cl_worker c))]\<rparr>]
      (snd (take_run now l c run d st)) = Inr st2"
    and st': "st_runs st' = st_runs st2" "st_sessions st' = st_sessions st2"
    using assms(1) by (auto simp: announce_claim_def audit_run_def audit_def dest!: returning_same)
  show "st_sessions st' = st_sessions st"
    using append_events_rows[OF e] st'(2) by (simp add: take_run_def Let_def update_run_def)
  assume "\<And>r n. P (r\<lparr>r_next_event_sequence := n\<rparr>) = P r"
  then have "length (filter P (st_runs st')) = length (filter P (st_runs (snd (take_run now l c run d st))))"
    using append_events_rows[OF e] st'(1) by simp
  also have "\<dots> \<le> length (filter P (st_runs st)) + length (filter (\<lambda>r. r_id r = r_id run) (st_runs st))"
    unfolding take_run_def Let_def update_run_def by (simp add: count_update_where)
  also have "\<dots> \<le> length (filter P (st_runs st)) + 1" using count_one_run[OF assms(2)] by simp
  finally show "length (filter P (st_runs st')) \<le> length (filter P (st_runs st)) + 1" .
qed

lemma claim_taken:
  assumes "claim_head now l c st = Inr (Some cm, st')"
  obtains run session workspace d where "select_claimable now c {} {} st = Some (run, session, workspace)"
    "announce_claim now l c run (take_run now l c run d st) = Inr (Some cm, st')"
  using assms
proof (rule claim_head_Inr)
  fix run session budget d
  assume "claimable_within_limits now c st = Some run"
    and "announce_claim now l c run (take_run now l c run d st) = Inr (Some cm, st')"
  then show thesis using that unfolding claimable_within_limits_select by auto
qed


lemma sample_claimed:
  "case claim_head 2000 7 sample_claim sample_queued of Inr (Some _, _) \<Rightarrow> True | _ \<Rightarrow> False"
  by code_simp


text \<open>When the first Run in the claim order has spent its budget (its deadline passes while it
  waits, or the tree it shares a budget with used it up), every claim raises
  \<open>RunLimitReached\<close> and changes nothing: no Worker is given any other Run, however many
  may be claimed.\<close>

theorem spent_head_stops_claims:
  assumes "reachable_store prn st" "claimable_within_limits now c st = Some run"
    "lookup_budget (r_budget_root run) st = Some budget" "\<not> allows_execution budget now"
  shows "claim_head now l c st = Inl (StateError RunLimitReached) \<and> exec prn now (ClaimHead l c) st = st"
proof -
  note inv = reachable_store_inv[OF assms(1)]
  obtain session where row: "run \<in> set (st_runs st)" "lookup_session (r_session run) st = Some session"
      "claimable now session run st"
    using claimable_attempts_may_claim assms(2) unfolding claimable_within_limits_def by blast
  have s: "session \<in> set (st_sessions st)" "ss_id session = r_session run"
    using lookup_session_SomeD[OF row(2)] by auto
  have w: "r_workspace run = ss_workspace session" using session_rows(2)[OF inv s(1) row(1)] s(2) by simp
  have "lock_session (r_workspace run) (r_session run) st = Some session"
  proof -
    have "lock_session (r_workspace run) (r_session run) st \<noteq> None"
      using s w by (auto simp: lock_session_def find_None_iff)
    then obtain s' where s': "lock_session (r_workspace run) (r_session run) st = Some s'" by blast
    then have "s' = session"
      using lock_session_SomeD[OF s'] s store_inv_sessions[OF inv] by (metis lookup_distinct option.inject)
    with s' show ?thesis by simp
  qed
  moreover have "decide (claim_view run budget now) LEASE_ACQUIRED None None None = Inl RunLimitReached"
    using assms(4) row(3) by (simp add: claimable_def claim_view_def decide_def request_only_def TRANSITIONS_def)
  ultimately have "claim_head now l c st = Inl (StateError RunLimitReached)"
    using assms(2,3) row(3) by (simp add: claim_head_def claimable_def)
  then show ?thesis by (simp add: committed_snd_def)
qed

text \<open>Two Sessions: the first Run of the first one waited past its deadline, the Run of the second
  has just come and may be claimed.\<close>

definition sample_late :: "StoreOp list" where
  "sample_late = [CreateSession 8 1 2 sample_caller PERSISTENT [],
     AcceptRun 10 ((sample_accept [3])\<lparr>ar_session_id := 8\<rparr>)]"

definition sample_starved :: Store where
  "sample_starved = fold (exec (\<lambda>_. False) (10 ^ 11)) sample_late sample_queued"

lemma sample_starved_facts:
  "ops_ok (\<lambda>_. False) (10 ^ 11) sample_late sample_queued"
  "let st = sample_starved in
   (case claimable_within_limits (10 ^ 11) sample_claim st of
      None \<Rightarrow> False
    | Some run \<Rightarrow> (case lookup_budget (r_budget_root run) st of
                     None \<Rightarrow> False | Some b \<Rightarrow> \<not> allows_execution b (10 ^ 11))) \<and>
   list_ex (\<lambda>row. r_id (fst row) = 10 \<and> may_claim (10 ^ 11) sample_claim {} {} st row) (claim_rows st)"
  by code_simp+

theorem spent_head_stops_claims_witness:
  "claim_head (10 ^ 11) 7 sample_claim sample_starved = Inl (StateError RunLimitReached) \<and>
   (\<exists>row \<in> set (claim_rows sample_starved). r_id (fst row) = 10 \<and>
      may_claim (10 ^ 11) sample_claim {} {} sample_starved row)"
proof -
  have "reachable_store (\<lambda>_. False) sample_starved"
    unfolding sample_starved_def by (rule ops_ok_reachable[OF sample_starved_facts(1) sample_reachable(1)])
  moreover obtain run budget where "claimable_within_limits (10 ^ 11) sample_claim sample_starved = Some run"
    "lookup_budget (r_budget_root run) sample_starved = Some budget" "\<not> allows_execution budget (10 ^ 11)"
    using sample_starved_facts(2) by (auto simp: Let_def split: option.splits)
  ultimately have "claim_head (10 ^ 11) 7 sample_claim sample_starved = Inl (StateError RunLimitReached)"
    using spent_head_stops_claims by blast
  then show ?thesis using sample_starved_facts(2) by (simp add: Let_def list_ex_iff)
qed

end
