(* ===== verification/Store_Requests.thy ===== *)
theory Store_Requests
  imports Store_Leases
begin

text \<open>
  What a request to the store promises: a repeated request is answered with the first answer
  (\<open>keyed_create\<close> is the contract of what is created under a key, met by
  \<open>accept_run\<close> and \<open>derive_retry\<close>), and a retry is derived only from a Run that
  may be retried. The writes of single columns keep the key of their table, so a read by key sees
  them row by row: the interpretations of \<open>table_key\<close>.
\<close>

section \<open>Reads after writes\<close>

interpretation event_counter: table_key r_id "\<lambda>r. r\<lparr>r_next_event_sequence := n\<rparr>" for n
  by unfold_locales simp

interpretation decided_row: table_key r_id "write_decision d now p" for d now p
  by unfold_locales (simp add: write_decision_def apply_decision_def)

interpretation told_row: table_key r_id
  "\<lambda>r. r\<lparr>r_interrupted_writes := ws, r_inflight_round := rd, r_checkpoint_effect := ef\<rparr>" for ws rd ef
  by unfold_locales simp

interpretation recovery_counter: table_key r_id "\<lambda>r. r\<lparr>r_recovery_attempts := Suc (r_recovery_attempts r)\<rparr>"
  by unfold_locales simp

interpretation message_counter: table_key ss_id "\<lambda>s. s\<lparr>ss_next_message_sequence := n\<rparr>" for n
  by unfold_locales simp

interpretation budget_write: table_key b_root_run_id "\<lambda>b. b\<lparr>b_derived_retry_count := n, b_version := v\<rparr>" for n v
  by unfold_locales simp

lemma append_events_lookup:
  assumes "append_events now w i (ev # evs) st = Inr st'"
  shows "\<exists>n. lookup_run j st' = map_option (\<lambda>r. if r_id r = i then r\<lparr>r_next_event_sequence := n\<rparr> else r) (lookup_run j st)"
proof -
  obtain n where "st_runs st' = update_where (\<lambda>r. r_id r = i) (\<lambda>r. r\<lparr>r_next_event_sequence := n\<rparr>) (st_runs st)"
    using assms by (auto simp: append_events_def Let_def update_run_def split: option.splits if_splits)
  then show ?thesis unfolding lookup_run_def by (auto simp: event_counter.lookup_update)
qed

lemma append_events_frame:
  "append_events now w i evs st = Inr st' \<Longrightarrow>
   st_idempotency st' = st_idempotency st \<and> st_budgets st' = st_budgets st \<and> st_sessions st' = st_sessions st"
  by (auto simp: append_events_def Let_def update_run_def split: if_splits option.splits)

lemma idempotency_writes [simp]:
  "st_idempotency (update_run i f st) = st_idempotency st"
  "st_idempotency (update_session j g st) = st_idempotency st"
  "st_idempotency (update_budget k h st) = st_idempotency st"
  "st_idempotency (audit w a ac rt rs rq res cx aty st) = st_idempotency st"
  "st_idempotency (append_messages now w i s ms st) = st_idempotency st"
  "st_idempotency (enqueue_run run s st) = st_idempotency st"
  by (simp_all add: update_run_def update_session_def update_budget_def audit_def append_messages_def enqueue_run_def)

lemma find_update_where:
  "(\<And>r. p (f r) = p r) \<Longrightarrow> find p (update_where p f rows) = map_option f (find p rows)"
  by (induction rows) auto

lemma find_append_None: "find p xs = None \<Longrightarrow> find p (xs @ ys) = find p ys"
  by (induction xs) (auto split: if_splits)

section \<open>One answer per key\<close>

text \<open>A creation behind an idempotency key.\<close>

definition once ::
  "IdempotencyScope \<Rightarrow> pystr \<Rightarrow> (Store \<Rightarrow> (StoreError, AcceptedRun \<times> Store) result) \<Rightarrow> Store \<Rightarrow>
   (StoreError, AcceptedRun \<times> Store) result" where
  "once scope fingerprint create st =
     bind_res (claim_idempotency scope fingerprint st)
       (\<lambda>claimed. case fst claimed of Some answer \<Rightarrow> Inr (answer, snd claimed) | None \<Rightarrow> create (snd claimed))"

locale keyed_create =
  fixes scope :: IdempotencyScope
    and create :: "datetime \<Rightarrow> nat \<Rightarrow> Store \<Rightarrow> (StoreError, AcceptedRun \<times> Store) result"
  assumes recorded: "create now i st = Inr (a, st') \<Longrightarrow> read_record scope st = Some k \<Longrightarrow>
    \<not> ac_replayed a \<and>
    read_record scope st' = Some (k\<lparr>k_run := Some (ac_run a), k_response := Some (ac_document a)\<rparr>)"
begin

lemma once_records:
  assumes "once scope f (create now i) st = Inr (a, st')"
  shows "\<exists>k. read_record scope st' = Some k \<and> k_fingerprint k = f \<and> k_run k = Some (ac_run a) \<and>
    k_response k = Some (ac_document a)"
proof (cases "read_record scope st")
  case None
  then have new: "read_record scope (st\<lparr>st_idempotency := st_idempotency st @ [k]\<rparr>) = Some k"
    if "same_scope scope k" for k
    using that by (simp add: read_record_def find_append_None)
  let ?k = "\<lparr>k_workspace = is_workspace scope, k_caller_type = ca_type (is_caller scope),
    k_caller_id = ca_id (is_caller scope), k_endpoint = is_endpoint scope, k_key = is_key scope,
    k_fingerprint = f, k_run = None, k_response = None, k_expires_at = None\<rparr>"
  have "create now i (st\<lparr>st_idempotency := st_idempotency st @ [?k]\<rparr>) = Inr (a, st')"
    using None assms by (simp add: once_def claim_idempotency_def)
  from recorded[OF this new] show ?thesis by (simp add: same_scope_def)
next
  case (Some k)
  then show ?thesis
    using assms by (cases "k_run k"; cases "k_response k")
      (auto simp: once_def claim_idempotency_def split: if_splits)
qed

lemma once_replays:
  assumes "once scope f (create now i) st = Inr (a, st')"
  shows "once scope f' (create now' j) st' =
    (if f' = f then Inr (a\<lparr>ac_replayed := True\<rparr>, st') else Inl IdempotencyKeyReused)"
  using once_records[OF assms] by (auto simp: once_def claim_idempotency_def)

end

lemma store_response_records:
  assumes "store_response scope i d st = Inr st'" "read_record scope st = Some k"
  shows "read_record scope st' = Some (k\<lparr>k_run := Some i, k_response := Some d\<rparr>)"
  using assms by (auto simp: store_response_def read_record_def same_scope_def find_update_where split: if_splits)

lemma finish_accept_records:
  assumes "finish_accept now caps caller scope i action rq payload st = Inr (a, st')"
    "read_record scope st = Some k"
  shows "ac_run a = i \<and> \<not> ac_replayed a \<and>
    read_record scope st' = Some (k\<lparr>k_run := Some (ac_run a), k_response := Some (ac_document a)\<rparr>)"
  using assms by (auto simp: finish_accept_def read_record_def
      dest!: returning_same append_events_frame store_response_records[unfolded read_record_def])

interpretation accepts: keyed_create "accept_scope c" "\<lambda>now i. create_run now i c" for c
proof
  fix now i st a st' k
  assume r: "create_run now i c st = Inr (a, st')" "read_record (accept_scope c) st = Some k"
  then obtain session version where f: "finish_accept now (ar_capabilities c) (ar_caller c) (accept_scope c) i
      (py ''run.created'') (ar_request c)
      [(py ''session_sequence'', JInt (int (ss_next_run_sequence session)))]
      (accept_rows now i c session (fst version) (snd version) st) = Inr (a, st')"
    by (auto simp: create_run_def split: option.splits)
  have "read_record (accept_scope c) (accept_rows now i c session (fst version) (snd version) st) = Some k"
    using r(2) by (simp add: read_record_def accept_rows_def Let_def)
  from finish_accept_records[OF f this]
  show "\<not> ac_replayed a \<and> read_record (accept_scope c) st' =
      Some (k\<lparr>k_run := Some (ac_run a), k_response := Some (ac_document a)\<rparr>)" by simp
qed

interpretation retries: keyed_create "retry_scope c" "\<lambda>now i. create_retry now i c" for c
proof
  fix now i st a st' k
  assume r: "create_retry now i c st = Inr (a, st')" "read_record (retry_scope c) st = Some k"
  from r(1) obtain source session budget' st1 where
    e: "append_events now (rt_workspace c) (r_id source)
       [\<lparr>re_type = RUN_RETRY_DERIVED, re_payload = [(py ''derived_run_id'', JStr (uuid_str i))]\<rparr>]
       (retry_rows now i source session budget' st) = Inr st1"
    and f: "finish_accept now (rt_capabilities c) (rt_caller c) (retry_scope c) i (py ''run.retry_derived'')
       (rt_request c) [(py ''retry_of_run_id'', JStr (uuid_str (r_id source)))] st1 = Inr (a, st')"
    by (rule create_retry_Inr)
  have "read_record (retry_scope c) st1 = Some k"
    using append_events_frame[OF e] r(2)
    by (simp add: read_record_def retry_rows_def copy_checkpoint_messages_def)
  from finish_accept_records[OF f this]
  show "\<not> ac_replayed a \<and> read_record (retry_scope c) st' =
      Some (k\<lparr>k_run := Some (ac_run a), k_response := Some (ac_document a)\<rparr>)" by simp
qed

lemma accept_run_once:
  "accept_command_ok c \<Longrightarrow>
   accept_run now i c st = once (accept_scope c) (ar_fingerprint c) (create_run now i c) st"
  by (simp add: accept_run_def once_def)

lemma derive_retry_once:
  "can_retry (rt_capabilities c) \<Longrightarrow>
   derive_retry now i c st = once (retry_scope c) (rt_fingerprint c) (create_retry now i c) st"
  by (simp add: derive_retry_def once_def)

lemma claimed_key_once:
  "read_record scope st = Some k \<Longrightarrow> once scope f create st = once scope f create' st"
  by (auto simp: once_def claim_idempotency_def split: option.splits)

text \<open>C8. A message sent again under its idempotency key creates nothing: once it was accepted, the
  same request gives the same Run and the same document, marked as replayed, and leaves the store
  as it is; a different request under the key is refused.\<close>

theorem accept_is_idempotent:
  assumes "accept_run now i c st = Inr (a, st')" "accept_scope c' = accept_scope c" "accept_command_ok c'"
  shows "accept_run now' j c' st' =
    (if ar_fingerprint c' = ar_fingerprint c then Inr (a\<lparr>ac_replayed := True\<rparr>, st') else Inl IdempotencyKeyReused)"
proof -
  have ok: "accept_command_ok c" using assms(1) by (simp add: accept_run_def split: if_splits)
  have a: "once (accept_scope c) (ar_fingerprint c) (create_run now i c) st = Inr (a, st')"
    using assms(1) accept_run_once[OF ok] by simp
  obtain k where "read_record (accept_scope c) st' = Some k" using accepts.once_records[OF a] by blast
  then show ?thesis
    using accepts.once_replays[OF a] claimed_key_once accept_run_once[OF assms(3)] assms(2) by metis
qed

definition sample_opened :: Store where
  "sample_opened = exec (\<lambda>_. False) 1000 (CreateSession 4 1 2 sample_caller PERSISTENT []) sample_tables"

lemma sample_accepts: "\<not> isl (accept_run 1000 5 (sample_accept [1]) sample_opened)"
  by code_simp

theorem accept_is_idempotent_witness:
  "\<exists>a st'. accept_run 1000 5 (sample_accept [1]) sample_opened = Inr (a, st') \<and>
     accept_run 2000 6 (sample_accept [1]) st' = Inr (a\<lparr>ac_replayed := True\<rparr>, st')"
proof -
  obtain a st' where a: "accept_run 1000 5 (sample_accept [1]) sample_opened = Inr (a, st')"
    using sample_accepts by (metis sum.collapse(2) surj_pair)
  have "accept_command_ok (sample_accept [1])" by (simp add: accept_command_ok_def sample_accept_def)
  with accept_is_idempotent[OF a refl] a show ?thesis by auto
qed

section \<open>Retries\<close>

lemma latest_sequence_max:
  assumes "r \<in> set (st_runs st)" "r_session r = sid"
  shows "\<exists>n. latest_sequence sid st = Some n \<and> r_session_sequence r \<le> n"
proof -
  let ?ns = "map r_session_sequence (filter (\<lambda>r. r_session r = sid) (st_runs st))"
  have mem: "r_session_sequence r \<in> set ?ns" using assms by auto
  then obtain n ns where ns: "?ns = n # ns" by (cases ?ns) auto
  have "fold max ns n = Max (set (n # ns))" by (simp only: Max.set_eq_fold)
  then have "r_session_sequence r \<le> fold max ns n" using mem ns by (metis List.finite_set Max_ge)
  then show ?thesis using ns by (simp add: latest_sequence_def)
qed

lemma retry_blocker_None:
  assumes "retry_blocker now source session budget st = None"
  shows "r_status source = RunState.FAILED" "r_checkpoint_replay_safe source"
    "r_checkpoint_effect source \<noteq> CheckpointEffectStatus.UNKNOWN" "allows_execution budget now"
    "b_derived_retry_count budget < b_max_derived_retries budget"
    "b_consumed_tool_calls budget < b_max_tool_calls budget"
    "latest_sequence (r_session source) st \<in> {None, Some (r_session_sequence source)}"
    "ss_revision session = r_checkpoint_revision source"
  using assms by (auto simp: retry_blocker_def not_le split: if_splits option.splits)

lemma finish_accept_lookup:
  assumes "finish_accept now caps caller scope i action rq payload st = Inr (a, st')"
  shows "\<exists>n. lookup_run j st' = map_option (\<lambda>r. if r_id r = i then r\<lparr>r_next_event_sequence := n\<rparr> else r) (lookup_run j st)"
proof -
  obtain st1 where e: "append_events now (is_workspace scope) i [\<lparr>re_type = RUN_CREATED, re_payload = payload\<rparr>] st = Inr st1"
    and "st_runs st' = st_runs st1"
    using assms by (auto simp: finish_accept_def store_response_def audit_def dest!: returning_same split: if_splits)
  then show ?thesis using append_events_lookup[OF e, of j] by (simp add: lookup_run_def)
qed

lemma retry_rows_runs:
  "st_runs (retry_rows now i source session budget st) = st_runs st @ [retry_row i now source session]"
  by (simp add: retry_rows_def copy_checkpoint_messages_def append_messages_def enqueue_run_def update_session_def
      update_budget_def)

lemma create_retry_row:
  assumes "create_retry now i c st = Inr (a, st')" "i \<notin> r_id ` set (st_runs st)"
  obtains source session budget n where "lock_run (rt_workspace c) (rt_source c) st = Some source"
    "lock_session (rt_workspace c) (r_session source) st = Some session"
    "lookup_budget (r_budget_root source) st = Some budget" "retry_blocker now source session budget st = None"
    "lookup_run i st' = Some ((retry_row i now source session)\<lparr>r_next_event_sequence := n\<rparr>)"
proof -
  from assms(1) obtain source session budget budget' st1 where rows:
    "lock_run (rt_workspace c) (rt_source c) st = Some source"
    "lock_session (rt_workspace c) (r_session source) st = Some session"
    "lookup_budget (r_budget_root source) st = Some budget" "retry_blocker now source session budget st = None"
    and e: "append_events now (rt_workspace c) (r_id source)
       [\<lparr>re_type = RUN_RETRY_DERIVED, re_payload = [(py ''derived_run_id'', JStr (uuid_str i))]\<rparr>]
       (retry_rows now i source session budget' st) = Inr st1"
    and f: "finish_accept now (rt_capabilities c) (rt_caller c) (retry_scope c) i (py ''run.retry_derived'')
       (rt_request c) [(py ''retry_of_run_id'', JStr (uuid_str (r_id source)))] st1 = Inr (a, st')"
    by (rule create_retry_Inr)
  have "lookup_run i st = None" using assms(2) by (simp add: lookup_run_def lookup_None_iff)
  then have new: "lookup_run i (retry_rows now i source session budget' st) = Some (retry_row i now source session)"
    by (simp add: lookup_run_def retry_rows_runs lookup_append retry_row_def new_run_def)
  have "i \<noteq> r_id source" using lock_run_SomeD[OF rows(1)] assms(2) by (metis image_eqI)
  then have "lookup_run i st1 = Some (retry_row i now source session)"
    using append_events_lookup[OF e, of i] new by (auto simp: retry_row_def new_run_def)
  then obtain n where "lookup_run i st' = Some ((retry_row i now source session)\<lparr>r_next_event_sequence := n\<rparr>)"
    using finish_accept_lookup[OF f, of i] by (auto simp: retry_row_def new_run_def)
  with rows that show ?thesis by blast
qed

lemma derive_retry_created:
  assumes "derive_retry now i c st = Inr (a, st')" "\<not> ac_replayed a"
  obtains st1 where "create_retry now i c st1 = Inr (a, st')" "st_runs st1 = st_runs st"
    "st_sessions st1 = st_sessions st" "st_budgets st1 = st_budgets st"
proof -
  obtain answer st1 where k: "claim_idempotency (retry_scope c) (rt_fingerprint c) st = Inr (answer, st1)"
    and rest: "case answer of Some x \<Rightarrow> (a, st') = (x, st1) | None \<Rightarrow> create_retry now i c st1 = Inr (a, st')"
    using assms(1) by (auto simp: derive_retry_def split: if_splits option.splits)
  have "answer = None" "st_runs st1 = st_runs st \<and> st_sessions st1 = st_sessions st \<and> st_budgets st1 = st_budgets st"
    using k rest assms(2) by (auto simp: claim_idempotency_def split: option.splits if_splits)
  then show ?thesis using that rest by simp
qed

text \<open>A Run that failed after its Worker was lost, once as it is and once as a delegated child.\<close>

definition sample_failed :: Store where
  "sample_failed = fold (exec (\<lambda>_. False) 1000)
     [AcceptRun 5 (sample_accept [1]), ClaimHead 7 sample_claim, ReclaimLease 5 [], RecoverRun 5 0 []] sample_opened"

definition sample_failed_child :: Store where
  "sample_failed_child = update_run 5
     (\<lambda>r. r\<lparr>r_parent := Some 99, r_depth := 1, r_delegation_scope := Some []\<rparr>) sample_failed"

definition sample_retry :: RetryRunCommand where
  "sample_retry = \<lparr>rt_workspace = 1, rt_source = 5, rt_caller = sample_caller, rt_capabilities = sample_caps,
     rt_endpoint = [], rt_idempotency_key = [4], rt_fingerprint = [], rt_request = []\<rparr>"

lemma sample_retries:
  "let st = sample_failed_child in
   (case derive_retry 2000 11 sample_retry st of Inl _ \<Rightarrow> False | Inr (a, _) \<Rightarrow> \<not> ac_replayed a) \<and>
   map (\<lambda>r. (r_id r, r_delegation_scope r)) (st_runs st) = [(5, Some [])]"
  by code_simp

lemma sample_retried:
  "\<exists>a st'. derive_retry 2000 11 sample_retry sample_failed_child = Inr (a, st') \<and> \<not> ac_replayed a"
  "11 \<notin> r_id ` set (st_runs sample_failed_child)"
proof -
  show "\<exists>a st'. derive_retry 2000 11 sample_retry sample_failed_child = Inr (a, st') \<and> \<not> ac_replayed a"
    using sample_retries unfolding Let_def by (auto split: sum.splits)
  have "r_id ` set (st_runs sample_failed_child) = fst ` set (map (\<lambda>r. (r_id r, r_delegation_scope r)) (st_runs sample_failed_child))"
    by (simp add: image_image)
  also have "\<dots> = {5}" using sample_retries unfolding Let_def by simp
  finally show "11 \<notin> r_id ` set (st_runs sample_failed_child)" by simp
qed



text \<open>A retry forgets that it was delegated: whatever the Run it retries was, the derived Run has
  no parent, depth zero, no delegation scope and the purpose of an answer. So its context offers
  every tool, skill and operation its Agent binds, where the child's was narrowed, and it may
  delegate again.\<close>

theorem retry_forgets_delegation:
  assumes "derive_retry now i c st = Inr (a, st')" "\<not> ac_replayed a" "i \<notin> r_id ` set (st_runs st)"
  shows "\<exists>run. lookup_run i st' = Some run \<and> r_parent run = None \<and> r_depth run = 0 \<and>
    r_delegation_scope run = None \<and> r_purpose run = ANSWER \<and>
    context_tools (map_option scope_from_document (r_delegation_scope run)) spec = sp_tools spec"
proof -
  obtain st1 where c: "create_retry now i c st1 = Inr (a, st')" and eq: "st_runs st1 = st_runs st"
    by (rule derive_retry_created[OF assms(1,2)])
  obtain source session n where
    "lookup_run i st' = Some ((retry_row i now source session)\<lparr>r_next_event_sequence := n\<rparr>)"
    using assms(3) by (rule create_retry_row[OF c, unfolded eq])
  then show ?thesis by (simp add: retry_row_def new_run_def context_tools_def)
qed

theorem retry_forgets_delegation_witness:
  "\<exists>a st' run. derive_retry 2000 11 sample_retry sample_failed_child = Inr (a, st') \<and>
     lookup_run 11 st' = Some run \<and> r_delegation_scope run = None"
proof -
  obtain a st' where r: "derive_retry 2000 11 sample_retry sample_failed_child = Inr (a, st')" "\<not> ac_replayed a"
    using sample_retried(1) by blast
  from retry_forgets_delegation[OF r sample_retried(2)] r(1) show ?thesis by blast
qed

end
