(* ===== verification/Store_Recovery.thy ===== *)
theory Store_Recovery
  imports Store_Requests
begin

text \<open>
  What the Scheduler's repairs promise: when an interrupted Run is put back, what a repaired head
  looks like, and which rows stop a whole pass. A signal rewrites one row of the Run table and, in
  the others, only links and stamps; \<open>linked\<close> is that relation between a row before and
  after. The locale \<open>stuck_op\<close> says how one row that always raises stops a pass.
\<close>

section \<open>Rows across a signal\<close>

text \<open>Equal but for the columns a handover, a report or an event writes.\<close>

definition linked :: "RunRow \<Rightarrow> RunRow \<Rightarrow> bool" where
  "linked r r' \<longleftrightarrow>
     (\<exists>blocker stamp result n. r' = r\<lparr>r_blocked_by := blocker, r_updated_at := stamp, r_delegation_result := result,
        r_next_event_sequence := n\<rparr>)"

lemma linked_refl [simp]: "linked r r"
proof -
  have "r = r\<lparr>r_blocked_by := r_blocked_by r, r_updated_at := r_updated_at r,
      r_delegation_result := r_delegation_result r, r_next_event_sequence := r_next_event_sequence r\<rparr>" by simp
  then show ?thesis unfolding linked_def by blast
qed

lemma linked_trans: "linked r r' \<Longrightarrow> linked r' r'' \<Longrightarrow> linked r r''"
  unfolding linked_def by (elim exE) (hypsubst, simp, blast)

lemma linked_writes [simp]:
  "linked r (r\<lparr>r_blocked_by := b, r_updated_at := t\<rparr>)" "linked r (r\<lparr>r_delegation_result := d\<rparr>)"
  "linked r (r\<lparr>r_next_event_sequence := n\<rparr>)"
proof -
  have "r\<lparr>r_blocked_by := b, r_updated_at := t\<rparr> = r\<lparr>r_blocked_by := b, r_updated_at := t,
      r_delegation_result := r_delegation_result r, r_next_event_sequence := r_next_event_sequence r\<rparr>"
    "r\<lparr>r_delegation_result := d\<rparr> = r\<lparr>r_blocked_by := r_blocked_by r, r_updated_at := r_updated_at r,
      r_delegation_result := d, r_next_event_sequence := r_next_event_sequence r\<rparr>"
    "r\<lparr>r_next_event_sequence := n\<rparr> = r\<lparr>r_blocked_by := r_blocked_by r, r_updated_at := r_updated_at r,
      r_delegation_result := r_delegation_result r, r_next_event_sequence := n\<rparr>" by simp_all
  then show "linked r (r\<lparr>r_blocked_by := b, r_updated_at := t\<rparr>)" "linked r (r\<lparr>r_delegation_result := d\<rparr>)"
    "linked r (r\<lparr>r_next_event_sequence := n\<rparr>)" unfolding linked_def by blast+
qed

lemma linked_columns:
  assumes "linked r r'"
  shows "r_id r' = r_id r" "r_workspace r' = r_workspace r" "r_session r' = r_session r" "r_status r' = r_status r"
    "r_parent r' = r_parent r" "r_budget_root r' = r_budget_root r" "r_recovery_attempts r' = r_recovery_attempts r"
    "r_inflight_round r' = r_inflight_round r" "r_checkpoint_effect r' = r_checkpoint_effect r"
    "r_wait_kind r' = r_wait_kind r" "live r' = live r" "r_session_sequence r' = r_session_sequence r"
  using assms by (auto simp: linked_def live_def)

text \<open>A read by key after an update that only links.\<close>

lemma lookup_linked:
  assumes "st_runs st' = update_where p f (st_runs st)" "lookup_run k st = Some r"
    and "\<And>r. linked r (f r)"
  shows "\<exists>r'. lookup_run k st' = Some r' \<and> linked r r'"
proof -
  have "r_id (f x) = r_id x" for x using linked_columns(1)[OF assms(3)] .
  then have "lookup r_id k (update_where p f rows) = map_option (\<lambda>r. if p r then f r else r) (lookup r_id k rows)" for rows
    by (induction rows) auto
  then show ?thesis using assms by (auto simp: lookup_run_def)
qed

lemma hand_over_linked:
  assumes "lookup_run k st = Some r"
  shows "\<exists>r'. lookup_run k (hand_over now sid i st) = Some r' \<and> linked r r'"
proof -
  define s where "s = map_option r_id (successor_candidates sid i st)"
  define st1 where "st1 = update_session sid (\<lambda>x. x\<lparr>ss_head := s\<rparr>) st"
  define st2 where "st2 = (case s of None \<Rightarrow> st1
    | Some j \<Rightarrow> update_run j (\<lambda>r. r\<lparr>r_blocked_by := None, r_updated_at := now\<rparr>) st1)"
  define waits where "waits r \<longleftrightarrow> r_session r = sid \<and> r_blocked_by r = Some i \<and>
    r_id r \<noteq> (case s of None \<Rightarrow> i | Some j \<Rightarrow> j)" for r :: RunRow
  have runs1: "st_runs st1 = st_runs st" by (simp add: st1_def update_session_def)
  have "\<exists>r'. lookup_run k st2 = Some r' \<and> linked r r'"
  proof (cases s)
    case None
    then have "lookup_run k st2 = Some r" using assms runs1 by (simp add: st2_def lookup_run_def)
    then show ?thesis by simp
  next
    case (Some j)
    then have "st_runs st2 = update_where (\<lambda>r. r_id r = j) (\<lambda>r. r\<lparr>r_blocked_by := None, r_updated_at := now\<rparr>) (st_runs st)"
      using runs1 by (simp add: st2_def update_run_def)
    then show ?thesis using assms by (rule lookup_linked) simp
  qed
  then obtain r1 where r1: "lookup_run k st2 = Some r1" "linked r r1" by blast
  have "hand_over now sid i st =
      st2\<lparr>st_runs := update_where waits (\<lambda>r. r\<lparr>r_blocked_by := s, r_updated_at := now\<rparr>) (st_runs st2)\<rparr>"
    unfolding hand_over_def Let_def s_def[symmetric] st1_def[symmetric] st2_def[symmetric] waits_def[abs_def] ..
  then have "st_runs (hand_over now sid i st) =
      update_where waits (\<lambda>r. r\<lparr>r_blocked_by := s, r_updated_at := now\<rparr>) (st_runs st2)" by simp
  then have "\<exists>r'. lookup_run k (hand_over now sid i st) = Some r' \<and> linked r1 r'"
    using r1(1) by (rule lookup_linked) simp
  then show ?thesis using r1(2) linked_trans by blast
qed

lemma terminalize_linked:
  assumes "lookup_run k st = Some r"
  shows "\<exists>r'. lookup_run k (terminalize now run session st) = Some r' \<and> linked r r'"
proof -
  define st1 where "st1 = (if r_parent run \<noteq> None \<and> r_delegation_result run = None
      then update_run (r_id run) (\<lambda>r. r\<lparr>r_delegation_result := Some (child_result_for run st)\<rparr>) st else st)"
  have "\<exists>r'. lookup_run k st1 = Some r' \<and> linked r r'"
  proof (cases "r_parent run \<noteq> None \<and> r_delegation_result run = None")
    case True
    then have "st_runs st1 = update_where (\<lambda>x. r_id x = r_id run)
        (\<lambda>r. r\<lparr>r_delegation_result := Some (child_result_for run st)\<rparr>) (st_runs st)"
      by (simp add: st1_def update_run_def)
    then show ?thesis using assms by (rule lookup_linked) simp
  next
    case False
    then have "st1 = st" unfolding st1_def by (rule if_not_P)
    then show ?thesis using assms by simp
  qed
  then obtain r1 where r1: "lookup_run k st1 = Some r1" "linked r r1" by blast
  define st2 where "st2 = st1\<lparr>st_idempotency := update_where (\<lambda>x. k_run x = Some (r_id run))
      (\<lambda>x. x\<lparr>k_expires_at := Some (now + IDEMPOTENCY_RETENTION)\<rparr>) (st_idempotency st1)\<rparr>"
  have r2: "lookup_run k st2 = Some r1" using r1(1) by (simp add: st2_def lookup_run_def)
  have "terminalize now run session st =
      (if ss_head session \<noteq> Some (r_id run) then st2 else hand_over now (ss_id session) (r_id run) st2)"
    unfolding terminalize_def Let_def st1_def[symmetric] st2_def[symmetric] ..
  moreover obtain r3 where "lookup_run k (hand_over now (ss_id session) (r_id run) st2) = Some r3" "linked r1 r3"
    using hand_over_linked[OF r2] by blast
  ultimately show ?thesis using r2 r1(2) linked_trans[OF r1(2)] by (cases "ss_head session = Some (r_id run)") auto
qed

text \<open>What a signal for Run \<open>i\<close> does to any row.\<close>

lemma decide_and_write_rows:
  assumes w: "decide_and_write now i w st = Inr st'" and run: "lookup_run i st = Some run"
    and budget: "lookup_budget (r_budget_root run) st = Some budget"
  obtains d where
    "decide (state_view run budget now) (sw_signal w) (sw_pause_reason w) (sw_wait_kind w) (sw_wait_deadline_at w) = Inr d"
    "\<forall>k r. lookup_run k st = Some r \<longrightarrow>
       (\<exists>r'. lookup_run k st' = Some r' \<and> linked (if k = i then write_decision d now (sw_wait_policy w) r else r) r')"
proof -
  from w obtain run0 session budget0 d ev st3 where rows: "lookup_run i st = Some run0"
      "lookup_budget (r_budget_root run0) st = Some budget0"
      "decide (state_view run0 budget0 now) (sw_signal w) (sw_pause_reason w) (sw_wait_kind w)
         (sw_wait_deadline_at w) = Inr d"
    and app: "append_events now (r_workspace run0) i (\<lparr>re_type = ev, re_payload = sw_payload w\<rparr> # sw_extra_events w)
       (if is_terminal d
        then terminalize now (write_decision d now (sw_wait_policy w) run0) session
               (update_run i (write_decision d now (sw_wait_policy w)) st)
        else update_run i (write_decision d now (sw_wait_policy w)) st) = Inr st3"
    and st': "st' = audit_run (r_workspace run0) None (py ''run.'' @ RunSignal_value (sw_signal w)) i (sw_request w) st3"
    by (rule decide_and_write_Inr)
  have "\<exists>r'. lookup_run k st' = Some r' \<and> linked (if k = i then write_decision d now (sw_wait_policy w) r else r) r'"
    if r: "lookup_run k st = Some r" for k r
  proof -
    let ?st1 = "update_run i (write_decision d now (sw_wait_policy w)) st"
    let ?st2 = "if is_terminal d
        then terminalize now (write_decision d now (sw_wait_policy w) run0) session ?st1 else ?st1"
    let ?r = "if k = i then write_decision d now (sw_wait_policy w) r else r"
    have id: "r_id r = k" using lookup_run_SomeD[OF r] by simp
    have "lookup_run k ?st1 = Some ?r"
      using r by (simp add: lookup_run_def update_run_def decided_row.lookup_update id[unfolded] lookup_run_def)
    then obtain r2 where r2: "lookup_run k ?st2 = Some r2" "linked ?r r2"
      using terminalize_linked[of k ?st1 ?r now "write_decision d now (sw_wait_policy w) run0" session]
      by (cases "is_terminal d") auto
    obtain n where "lookup_run k st3 = Some (if r_id r2 = i then r2\<lparr>r_next_event_sequence := n\<rparr> else r2)"
      using append_events_lookup[OF app, of k] r2(1) by auto
    moreover have "lookup_run k st' = lookup_run k st3" by (simp add: st' lookup_run_def audit_run_def audit_def)
    ultimately show ?thesis using r2(2) linked_trans[OF r2(2), of "r2\<lparr>r_next_event_sequence := n\<rparr>"] by auto
  qed
  then show ?thesis using rows run budget by (intro that[of d]) auto
qed

section \<open>Recovery\<close>

lemma tell_interrupted_round_row:
  assumes t: "tell_interrupted_round prn now run session st = Inr (told, st')" and run: "lookup_run (r_id run) st = Some run"
  shows "\<exists>run'. lookup_run (r_id run) st' = Some run' \<and> r_status run' = r_status run \<and>
    r_workspace run' = r_workspace run \<and> r_session run' = r_session run \<and> r_budget_root run' = r_budget_root run \<and>
    r_checkpoint_replay_safe run' = r_checkpoint_replay_safe run \<and> r_checkpoint_revision run' = r_checkpoint_revision run \<and>
    r_recovery_attempts run' = r_recovery_attempts run \<and> r_inflight_round run' = None \<and>
    r_checkpoint_effect run' = (if r_inflight_round run = None then r_checkpoint_effect run else NONE) \<and>
    st_budgets st' = st_budgets st"
proof (cases "r_inflight_round run")
  case None
  then show ?thesis using t run by (auto simp: tell_interrupted_round_def)
next
  case (Some document)
  then obtain ws st1 where "st' = update_run (r_id run)
      (\<lambda>r. r\<lparr>r_interrupted_writes := ws, r_inflight_round := None, r_checkpoint_effect := NONE\<rparr>) st1"
    and "st_runs st1 = st_runs st" "st_budgets st1 = st_budgets st"
    using t by (auto simp: tell_interrupted_round_def Let_def append_messages_def update_session_def
        split: sum.splits prod.splits)
  then show ?thesis using run Some
    by (auto simp: lookup_run_def update_run_def told_row.lookup_update)
qed

lemma settle_recovery_row:
  assumes r: "settle_recovery now n rq session budget run told st = Inr st'" and run: "lookup_run i st = Some run"
    and status: "r_status run = RunState.INTERRUPTED" and b: "lookup_budget (r_budget_root run) st = Some budget"
  shows "\<exists>r'. lookup_run i st' = Some r' \<and> r_inflight_round r' = r_inflight_round run \<and>
    r_status r' = (if recovery_safe now n run session budget then RunState.QUEUED else RunState.FAILED) \<and>
    r_recovery_attempts r' = r_recovery_attempts run + (if recovery_safe now n run session budget then 1 else 0)"
proof -
  have id: "r_id run = i" using lookup_run_SomeD[OF run] by simp
  define safe where "safe = recovery_safe now n run session budget"
  define st1 where "st1 = (if safe then update_run i (\<lambda>r. r\<lparr>r_recovery_attempts := r_recovery_attempts r + 1\<rparr>) st else st)"
  define sig where "sig = (if safe then RECOVERY_APPROVED else RECOVERY_FAILED)"
  define run1 where "run1 = (if safe then run\<lparr>r_recovery_attempts := r_recovery_attempts run + 1\<rparr> else run)"
  obtain w where w: "decide_and_write now i w st1 = Inr st'" "sw_signal w = sig" "sw_pause_reason w = None"
      "sw_wait_kind w = None" "sw_wait_deadline_at w = None"
    using r unfolding settle_recovery_def Let_def id safe_def[symmetric] st1_def[symmetric] sig_def[symmetric]
    by (rule that) (simp_all add: signal_write_def)
  have run1: "lookup_run i st1 = Some run1"
    using run id by (auto simp: st1_def run1_def update_run_def lookup_run_def recovery_counter.lookup_update)
  have b1: "lookup_budget (r_budget_root run1) st1 = Some budget"
    using b by (simp add: run1_def st1_def lookup_budget_def update_run_def)
  obtain d where d: "decide (state_view run1 budget now) sig None None None = Inr d"
    and rows: "\<forall>k r. lookup_run k st1 = Some r \<longrightarrow> (\<exists>r'. lookup_run k st' = Some r' \<and>
      linked (if k = i then write_decision d now (sw_wait_policy w) r else r) r')"
    by (rule decide_and_write_rows[OF w(1) run1 b1, unfolded w(2-)])
  obtain r' where r': "lookup_run i st' = Some r'" "linked (write_decision d now (sw_wait_policy w) run1) r'"
    using rows[rule_format, OF run1] by auto
  have "d_state d = (if safe then RunState.QUEUED else RunState.FAILED)"
    using d status by (auto simp: safe_def recovery_safe_def sig_def run1_def state_view_def decide_def request_only_def
        TRANSITIONS_def split: if_splits)
  then show ?thesis
    using r'(1) linked_columns(4,7,8)[OF r'(2)]
    by (auto simp: safe_def[symmetric] run1_def write_decision_def apply_decision_def)
qed

text \<open>C9. An interrupted Run is put back in the queue exactly when its checkpoint may be replayed, the
  checkpoint's files are the ones its Session has, no effect outside is in doubt (the call that was
  going out is told to the model instead, and then none is), its budget allows it and it has
  recoveries left; each uses one up. Otherwise it fails. Nothing stays in flight once the round
  was told.\<close>

theorem recovery_outcome:
  assumes "recover_interrupted prn now i n rq st = Inr (s, st')" "lookup_run i st = Some run"
    "r_status run = RunState.INTERRUPTED" "r_cleanup_target run = None"
    "lock_session (r_workspace run) (r_session run) st = Some session"
    "lookup_budget (r_budget_root run) st = Some budget"
  shows "let safe = r_checkpoint_replay_safe run \<and> revision_agrees run session \<and>
        (r_checkpoint_effect run \<noteq> CheckpointEffectStatus.UNKNOWN \<or> r_inflight_round run \<noteq> None) \<and>
        allows_execution budget now \<and> r_recovery_attempts run < n
    in s = Some (if safe then RunState.QUEUED else RunState.FAILED) \<and>
      (\<exists>run'. lookup_run i st' = Some run' \<and>
         r_recovery_attempts run' = r_recovery_attempts run + (if safe then 1 else 0) \<and>
         (revision_agrees run session \<longrightarrow> r_inflight_round run' = None))"
proof -
  have id: "r_id run = i" using lookup_run_SomeD[OF assms(2)] by simp
  obtain told st1 run1 st2 where tell: "(if revision_agrees run session then tell_interrupted_round prn now run session st
        else Inr (None, st)) = Inr (told, st1)"
    and run1: "lookup_run i st1 = Some run1"
    and settle: "settle_recovery now n rq session budget run1 told st1 = Inr st2"
    and st': "s = run_status i st2" "st' = st2"
    using assms by (auto simp: recover_interrupted_def split: option.splits)
  have row: "r_status run1 = RunState.INTERRUPTED" "r_budget_root run1 = r_budget_root run"
    "r_checkpoint_replay_safe run1 = r_checkpoint_replay_safe run" "revision_agrees run1 session = revision_agrees run session"
    "r_recovery_attempts run1 = r_recovery_attempts run" "st_budgets st1 = st_budgets st"
    "revision_agrees run session \<Longrightarrow> r_inflight_round run1 = None"
    "revision_agrees run session \<Longrightarrow> r_checkpoint_effect run1 =
       (if r_inflight_round run = None then r_checkpoint_effect run else NONE)"
    using tell run1 tell_interrupted_round_row[of prn now run session st told st1] assms(2,3) id
    by (auto simp: revision_agrees_def split: if_splits)
  then have "recovery_safe now n run1 session budget \<longleftrightarrow> r_checkpoint_replay_safe run \<and> revision_agrees run session \<and>
        (r_checkpoint_effect run \<noteq> CheckpointEffectStatus.UNKNOWN \<or> r_inflight_round run \<noteq> None) \<and>
        allows_execution budget now \<and> r_recovery_attempts run < n"
    by (cases "revision_agrees run session"; cases "r_inflight_round run = None") (auto simp: recovery_safe_def)
  moreover have "lookup_budget (r_budget_root run1) st1 = Some budget"
    using assms(6) row(2,6) by (simp add: lookup_budget_def)
  ultimately show ?thesis
    using settle_recovery_row[OF settle run1 row(1)] st' row(5,7) by (auto simp: run_status_def Let_def)
qed

text \<open>The Run of a small store, as its Worker's loss leaves it.\<close>

definition sample_interrupted :: Store where
  "sample_interrupted = update_run 5 (\<lambda>r. r\<lparr>r_status := RunState.INTERRUPTED\<rparr>)
     (exec (\<lambda>_. False) 1000 (AcceptRun 5 (sample_accept [1])) sample_opened)"

lemma sample_recovers:
  "let st = sample_interrupted in
   \<not> isl (recover_interrupted (\<lambda>_. False) (10 ^ 9) 5 3 [] st) \<and>
   (case lookup_run 5 st of
      None \<Rightarrow> False
    | Some run \<Rightarrow> r_status run = RunState.INTERRUPTED \<and> r_cleanup_target run = None \<and> r_recovery_attempts run = 0 \<and>
        r_checkpoint_replay_safe run \<and> r_checkpoint_effect run = NONE \<and> r_checkpoint_revision run = None \<and>
        lock_session (r_workspace run) (r_session run) st \<noteq> None \<and>
        (case lookup_budget (r_budget_root run) st of None \<Rightarrow> False | Some b \<Rightarrow> allows_execution b (10 ^ 9)))"
  by code_simp

theorem recovery_outcome_witness:
  "\<exists>s st'. recover_interrupted (\<lambda>_. False) (10 ^ 9) 5 3 [] sample_interrupted = Inr (s, st') \<and> s = Some RunState.QUEUED"
proof -
  obtain s st' where r: "recover_interrupted (\<lambda>_. False) (10 ^ 9) 5 3 [] sample_interrupted = Inr (s, st')"
    using sample_recovers unfolding Let_def by (metis sum.collapse(2) surj_pair)
  obtain run session budget where rows: "lookup_run 5 sample_interrupted = Some run"
    "r_status run = RunState.INTERRUPTED" "r_cleanup_target run = None"
    "lock_session (r_workspace run) (r_session run) sample_interrupted = Some session"
    "lookup_budget (r_budget_root run) sample_interrupted = Some budget"
    and safe: "r_checkpoint_replay_safe run" "r_checkpoint_effect run = NONE" "r_checkpoint_revision run = None"
      "allows_execution budget (10 ^ 9)" "r_recovery_attempts run < 3"
    using sample_recovers unfolding Let_def by (auto split: option.splits)
  from recovery_outcome[OF r rows] safe r show ?thesis by (simp add: Let_def revision_agrees_def)
qed

section \<open>Repaired heads\<close>

text \<open>The head a repair writes, and the Run rows it leaves: each live row of the Session blocked by
  that head, nothing else touched but stamps.\<close>

definition due_head :: "nat \<Rightarrow> Store \<Rightarrow> nat option" where
  "due_head sid st = (case pending_runs sid st of [] \<Rightarrow> None | r # _ \<Rightarrow> Some (r_id r))"

definition repaired_row :: "datetime \<Rightarrow> nat \<Rightarrow> nat option \<Rightarrow> RunRow \<Rightarrow> RunRow" where
  "repaired_row now sid head r =
     (if r_session r = sid \<and> live r \<and> r_blocked_by r \<noteq> (if Some (r_id r) = head then None else head)
      then r\<lparr>r_blocked_by := (if Some (r_id r) = head then None else head), r_updated_at := now\<rparr> else r)"

lemma repair_cases:
  assumes r: "repair_session_head now sid rq st = Inr ((changed, head), st')"
  obtains (same) session where "lookup_session sid st = Some session" "st' = st" "ss_head session = due_head sid st"
      "\<not> blockers_wrong sid (due_head sid st) st"
    | (repaired) session p n where "lookup_session sid st = Some session" changed
      "st_sessions st' = update_where (\<lambda>s. ss_id s = sid) (\<lambda>s. s\<lparr>ss_head := due_head sid st\<rparr>) (st_sessions st)"
      "st_runs st' = update_where p (\<lambda>r. r\<lparr>r_next_event_sequence := n\<rparr>)
         (map (repaired_row now sid (due_head sid st)) (st_runs st))"
proof -
  obtain session where s: "lookup_session sid st = Some session"
    using r by (auto simp: repair_session_head_def split: option.splits)
  define st1 where "st1 = update_session sid (\<lambda>s. s\<lparr>ss_head := due_head sid st\<rparr>) (repair_blockers now sid (due_head sid st) st)"
  have eq: "repair_session_head now sid rq st =
      (if ss_head session = due_head sid st \<and> \<not> blockers_wrong sid (due_head sid st) st then Inr ((False, None), st)
       else bind_res (case due_head sid st of None \<Rightarrow> Inr st1
          | Some h \<Rightarrow> append_events now (ss_workspace session) h [\<lparr>re_type = SESSION_HEAD_REPAIRED, re_payload = []\<rparr>] st1)
         (\<lambda>st2. Inr ((True, due_head sid st), audit (ss_workspace session) None (py ''session.head_repaired'')
            (py ''session'') sid rq (py ''succeeded'') [] None st2)))"
    unfolding repair_session_head_def Let_def s option.simps due_head_def[symmetric] st1_def[symmetric] ..
  have sessions1: "st_sessions st1 = update_where (\<lambda>s. ss_id s = sid) (\<lambda>s. s\<lparr>ss_head := due_head sid st\<rparr>) (st_sessions st)"
    by (simp add: st1_def update_session_def repair_blockers_def)
  have runs1: "st_runs st1 = map (repaired_row now sid (due_head sid st)) (st_runs st)"
    by (simp add: st1_def update_session_def repair_blockers_def update_where_def repaired_row_def)
  show ?thesis
  proof (cases "ss_head session = due_head sid st \<and> \<not> blockers_wrong sid (due_head sid st) st")
    case True
    have "(Inr ((False, None), st) :: (StoreError, (bool \<times> nat option) \<times> Store) result) = Inr ((changed, head), st')"
      using r unfolding eq if_P[OF True] .
    then show ?thesis using True by (intro same[OF s]) simp_all
  next
    case False
    have "bind_res (case due_head sid st of None \<Rightarrow> Inr st1
          | Some h \<Rightarrow> append_events now (ss_workspace session) h [\<lparr>re_type = SESSION_HEAD_REPAIRED, re_payload = []\<rparr>] st1)
         (\<lambda>st2. Inr ((True, due_head sid st), audit (ss_workspace session) None (py ''session.head_repaired'')
            (py ''session'') sid rq (py ''succeeded'') [] None st2)) = Inr ((changed, head), st')"
      using r unfolding eq if_not_P[OF False] .
    then obtain st2 where st2: "(case due_head sid st of None \<Rightarrow> Inr st1
          | Some h \<Rightarrow> append_events now (ss_workspace session) h [\<lparr>re_type = SESSION_HEAD_REPAIRED, re_payload = []\<rparr>] st1) = Inr st2"
      and e: "((True, due_head sid st), audit (ss_workspace session) None (py ''session.head_repaired'')
            (py ''session'') sid rq (py ''succeeded'') [] None st2) = ((changed, head), st')"
      unfolding bind_res_eq_Inr sum.inject by blast
    from e have st': "changed" "st_runs st' = st_runs st2" "st_sessions st' = st_sessions st2"
      by (auto simp: audit_def)
    show ?thesis
    proof (cases "due_head sid st")
      case None
      then have "st_runs st' = update_where (\<lambda>_. False) (\<lambda>r. r\<lparr>r_next_event_sequence := 0\<rparr>) (st_runs st1)"
        using st2 st'(2) by (simp add: update_where_def)
      then show ?thesis using repaired[OF s st'(1)] st2 st'(3) None sessions1 unfolding runs1 by simp
    next
      case (Some h)
      then obtain n where "st_runs st2 = update_where (\<lambda>r. r_id r = h) (\<lambda>r. r\<lparr>r_next_event_sequence := n\<rparr>) (st_runs st1)"
          "st_sessions st2 = st_sessions st1"
        using st2 by (auto simp: append_events_def Let_def update_run_def split: option.splits if_splits)
      then show ?thesis using repaired[OF s st'(1)] st'(2,3) sessions1 unfolding runs1 by simp
    qed
  qed
qed

lemma pending_runs_linked:
  assumes "st_runs st' = map g (st_runs st)" "\<And>r. linked r (g r)"
  shows "pending_runs sid st' = map g (pending_runs sid st)"
  unfolding pending_runs_def assms(1)
  by (simp add: List.filter_map comp_def sort_key_map linked_columns[OF assms(2)])

lemma repaired_linked: "linked r (if p (repaired_row now sid h r)
    then (repaired_row now sid h r)\<lparr>r_next_event_sequence := n\<rparr> else repaired_row now sid h r)"
  using linked_trans[OF linked_writes(1) linked_writes(3)] by (simp add: repaired_row_def)

interpretation head_write: table_key ss_id "\<lambda>s. s\<lparr>ss_head := h\<rparr>" for h
  by unfold_locales simp

text \<open>C23. A repair leaves the queue of its Session right, whatever state the rows were in: the head is
  the earliest unfinished Run, every other is blocked by it and it by nobody; which Runs wait and
  in which order is not changed; and a repair that reports no change wrote nothing.\<close>

theorem repair_restores_head:
  assumes r: "repair_session_head now sid rq st = Inr ((changed, head), st')"
  shows "\<exists>s. lookup_session sid st' = Some s \<and> ss_head s = due_head sid st' \<and>
    (\<forall>r \<in> set (pending_runs sid st').
       r_blocked_by r = (if Some (r_id r) = ss_head s then None else ss_head s)) \<and>
    map r_id (pending_runs sid st') = map r_id (pending_runs sid st) \<and> (\<not> changed \<longrightarrow> st' = st)"
  using r
proof (cases rule: repair_cases)
  case (same session)
  then show ?thesis by (auto simp: blockers_wrong_def set_pending_runs list_ex_iff)
next
  case (repaired session p n)
  define h where "h = due_head sid st"
  define g where "g r = (if p (repaired_row now sid h r) then (repaired_row now sid h r)\<lparr>r_next_event_sequence := n\<rparr>
      else repaired_row now sid h r)" for r
  have g: "linked r (g r)" for r unfolding g_def by (rule repaired_linked)
  have "st_runs st' = map g (st_runs st)" using repaired(4) by (simp add: update_where_def g_def h_def)
  then have pend: "pending_runs sid st' = map g (pending_runs sid st)" using g by (rule pending_runs_linked)
  have due: "due_head sid st' = h"
    by (simp add: due_head_def pend h_def linked_columns(1)[OF g] split: list.splits)
  have "lookup_session sid st' = Some (session\<lparr>ss_head := h\<rparr>)"
    using repaired(1,3) by (simp add: lookup_session_def head_write.lookup_update_same h_def)
  moreover have "r_blocked_by (g r) = (if Some (r_id (g r)) = h then None else h)" if "r \<in> set (pending_runs sid st)" for r
    using that by (simp add: set_pending_runs linked_columns(1)[OF g]) (simp add: g_def repaired_row_def)
  ultimately show ?thesis
    using repaired(2) due by (simp add: pend linked_columns(1)[OF g] comp_def)
qed

text \<open>A Session whose pointer was lost and whose second Run was left unblocked.\<close>

definition sample_broken :: Store where
  "sample_broken = update_run 6 (\<lambda>r. r\<lparr>r_blocked_by := None\<rparr>) (update_session 4 (\<lambda>s. s\<lparr>ss_head := None\<rparr>) sample_queued)"

lemma sample_repair: "\<not> isl (repair_session_head 3000 4 [] sample_broken)"
  by code_simp

theorem repair_restores_head_witness:
  "\<exists>changed head st' s. repair_session_head 3000 4 [] sample_broken = Inr ((changed, head), st') \<and>
     lookup_session 4 st' = Some s \<and> ss_head s = due_head 4 st'"
proof -
  obtain changed head st' where r: "repair_session_head 3000 4 [] sample_broken = Inr ((changed, head), st')"
    using sample_repair by (metis sum.collapse(2) surj_pair)
  from repair_restores_head[OF r] r show ?thesis by blast
qed

section \<open>Rows that stop a pass\<close>

text \<open>A pass handles its rows in one transaction. Where one row raises whatever happened before it,
  the pass never gets anything done.\<close>

locale stuck_op =
  fixes op :: "'a \<Rightarrow> Store \<Rightarrow> (StoreError, Store) result" and row :: 'a
    and stuck :: "Store \<Rightarrow> bool" and harmless :: "'a \<Rightarrow> bool"
  assumes raises: "stuck st \<Longrightarrow> isl (op row st)"
    and stays: "harmless x \<Longrightarrow> stuck st \<Longrightarrow> op x st = Inr st' \<Longrightarrow> stuck st'"
begin

lemma each_raises:
  "row \<in> set xs \<Longrightarrow> stuck st \<Longrightarrow> (\<And>x. x \<in> set xs \<Longrightarrow> x \<noteq> row \<Longrightarrow> harmless x) \<Longrightarrow> isl (each op xs st)"
proof (induction xs arbitrary: st)
  case (Cons x xs)
  show ?case
  proof (cases "op x st")
    case (Inr st1)
    then have "x \<noteq> row" using raises[OF Cons.prems(2)] by auto
    then show ?thesis using Cons Inr stays[of x st st1] by simp
  qed simp
qed simp

end

text \<open>A waiting Run whose timer is due and whose budget is spent cannot be woken.\<close>

definition spent_timer :: "datetime \<Rightarrow> nat \<Rightarrow> Store \<Rightarrow> bool" where
  "spent_timer now i st \<longleftrightarrow>
     (\<exists>run budget. lookup_run i st = Some run \<and> r_status run = WAITING_EXTERNAL \<and>
        lock_session (r_workspace run) (r_session run) st \<noteq> None \<and>
        lookup_budget (r_budget_root run) st = Some budget \<and> \<not> allows_execution budget now)"

lemma lock_session_iff:
  "lock_session w sid st \<noteq> None \<longleftrightarrow> (sid, w) \<in> (\<lambda>s. (qs_id s, qs_workspace s)) ` set (snd (qview st))"
  by (force simp: lock_session_def find_None_iff qview_def)

lemma q_write_sessions:
  "map (\<lambda>s. (qs_id s, qs_workspace s)) (snd (q_write sid i state q)) = map (\<lambda>s. (qs_id s, qs_workspace s)) (snd q)"
  by (simp add: q_write_def Let_def q_hand_over_def map_update_where)

lemma decide_and_write_locks:
  assumes "decide_and_write now i w st = Inr st'"
  shows "lock_session ws sid st' \<noteq> None \<longleftrightarrow> lock_session ws sid st \<noteq> None"
proof -
  obtain run d budget where "lookup_run i st = Some run"
    "decide (state_view run budget now) (sw_signal w) (sw_pause_reason w) (sw_wait_kind w) (sw_wait_deadline_at w) = Inr d"
    "qview st' = q_write (r_session run) i (d_state d) (qview st)"
    by (rule decide_and_write_qview[OF assms])
  then have "set (map (\<lambda>s. (qs_id s, qs_workspace s)) (snd (qview st'))) = set (map (\<lambda>s. (qs_id s, qs_workspace s)) (snd (qview st)))"
    by (simp only: q_write_sessions)
  then show ?thesis unfolding lock_session_iff by simp
qed

lemma budgets_writes [simp]:
  "st_budgets (update_run i f st) = st_budgets st" "st_budgets (update_session i g st) = st_budgets st"
  "st_budgets (audit_run w a ac i rq st) = st_budgets st"
  by (simp_all add: update_run_def update_session_def audit_run_def audit_def)

lemma budgets_terminalize [simp]: "st_budgets (terminalize now run session st) = st_budgets st"
  by (simp add: terminalize_def Let_def hand_over_def split: option.splits)

lemma decide_and_write_budgets: "decide_and_write now i w st = Inr st' \<Longrightarrow> st_budgets st' = st_budgets st"
  by (erule decide_and_write_Inr) (auto dest!: append_events_frame split: if_splits)

text \<open>What a signal for one Run leaves of another.\<close>

lemma decide_and_write_other:
  assumes w: "decide_and_write now j w st = Inr st'" and r: "lookup_run i st = Some r" and ne: "i \<noteq> j"
  shows "\<exists>r'. lookup_run i st' = Some r' \<and> linked r r'"
proof -
  obtain run budget where rows: "lookup_run j st = Some run" "lookup_budget (r_budget_root run) st = Some budget"
    by (rule decide_and_write_Inr[OF w])
  from w rows obtain d where "\<forall>k r. lookup_run k st = Some r \<longrightarrow>
       (\<exists>r'. lookup_run k st' = Some r' \<and> linked (if k = j then write_decision d now (sw_wait_policy w) r else r) r')"
    by (rule decide_and_write_rows)
  from this[rule_format, OF r] show ?thesis using ne by simp
qed

lemma spent_timer_stays:
  assumes "decide_and_write now' j w st = Inr st'" "spent_timer now i st" "j \<noteq> i"
  shows "spent_timer now i st'"
proof -
  obtain run budget where rows: "lookup_run i st = Some run" "r_status run = WAITING_EXTERNAL"
      "lock_session (r_workspace run) (r_session run) st \<noteq> None"
      "lookup_budget (r_budget_root run) st = Some budget" "\<not> allows_execution budget now"
    using assms(2) unfolding spent_timer_def by blast
  obtain run' where run': "lookup_run i st' = Some run'" "linked run run'"
    using decide_and_write_other[OF assms(1) rows(1)] assms(3) by blast
  then show ?thesis
    unfolding spent_timer_def using rows decide_and_write_locks[OF assms(1)] decide_and_write_budgets[OF assms(1)]
    by (auto simp: linked_columns[OF run'(2)] lookup_budget_def)
qed

interpretation timers: stuck_op "settle_due_wait now" "(i, Some WAIT_TIMER)" "spent_timer now i" "\<lambda>x. fst x \<noteq> i" for now i
proof
  show "isl (settle_due_wait now (i, Some WAIT_TIMER) st)" if "spent_timer now i st" for st
    using that by (auto simp: spent_timer_def settle_due_wait_def wake_external_wait_def decide_and_write_def
        state_view_def decide_def request_only_def TRANSITIONS_def signal_write_def split: option.splits)
  show "spent_timer now i st'" if "fst x \<noteq> i" "spent_timer now i st" "settle_due_wait now x st = Inr st'" for x st st'
    using that spent_timer_stays
    by (auto simp: settle_due_wait_def wake_external_wait_def time_out_external_wait_def split: if_splits option.splits)
qed

text \<open>One Run whose timer is due but whose budget is spent stops every due wait: waking it raises
  \<open>RunLimitReached\<close>, and the pass it is in is rolled back, whatever else was due, as long
  as it is among the first of the batch.\<close>

theorem spent_timer_stops_waits:
  assumes "distinct (map r_id (st_runs st))" "spent_timer now i st" "(i, Some WAIT_TIMER) \<in> set (expired_wait_runs now batch st)"
  shows "isl (settle_due_waits now batch st) \<and> exec prn now (SettleDueWaits batch) st = st"
proof -
  have "fst x \<noteq> i" if x: "x \<in> set (expired_wait_runs now batch st)" "x \<noteq> (i, Some WAIT_TIMER)" for x
  proof
    assume "fst x = i"
    have "\<exists>r \<in> set (st_runs st). y = (r_id r, r_wait_kind r)" if "y \<in> set (expired_wait_runs now batch st)" for y
      using in_set_takeD[OF that[unfolded expired_wait_runs_def]] by auto
    from this[OF x(1)] this[OF assms(3)] show False
      using \<open>fst x = i\<close> x(2) lookup_distinct[OF assms(1)] by (metis fst_conv option.inject prod.inject)
  qed
  then have "isl (each (settle_due_wait now) (expired_wait_runs now batch st) st)"
    using assms(2,3) by (intro timers.each_raises)
  then show ?thesis by (auto simp: settle_due_waits_def committed_def split: sum.splits)
qed

definition sample_timer :: Store where
  "sample_timer = update_run 5
     (\<lambda>r. r\<lparr>r_status := WAITING_EXTERNAL, r_wait_kind := Some WAIT_TIMER, r_wait_deadline_at := Some 2000\<rparr>)
     (exec (\<lambda>_. False) 1000 (AcceptRun 5 (sample_accept [1])) sample_opened)"

lemma sample_timer_facts:
  "let st = sample_timer in
   map r_id (st_runs st) = [5] \<and> expired_wait_runs (10 ^ 11) 10 st = [(5, Some WAIT_TIMER)] \<and>
   (case lookup_run 5 st of
      None \<Rightarrow> False
    | Some run \<Rightarrow> r_status run = WAITING_EXTERNAL \<and> lock_session (r_workspace run) (r_session run) st \<noteq> None \<and>
        (case lookup_budget (r_budget_root run) st of None \<Rightarrow> False | Some b \<Rightarrow> \<not> allows_execution b (10 ^ 11)))"
  by code_simp

theorem spent_timer_stops_waits_witness: "isl (settle_due_waits (10 ^ 11) 10 sample_timer)"
proof -
  have "distinct (map r_id (st_runs sample_timer))" using sample_timer_facts unfolding Let_def by simp
  moreover have "spent_timer (10 ^ 11) 5 sample_timer"
    using sample_timer_facts unfolding Let_def spent_timer_def by (auto split: option.splits)
  moreover have "(5, Some WAIT_TIMER) \<in> set (expired_wait_runs (10 ^ 11) 10 sample_timer)"
    using sample_timer_facts unfolding Let_def by simp
  ultimately show ?thesis using spent_timer_stops_waits by blast
qed

end
