(* ===== verification/Outbound_Scope.thy ===== *)
theory Outbound_Scope
  imports Py_Net
begin

text \<open>
  \<^verbatim>\<open>outbound/domain/scope.py\<close> and \<^verbatim>\<open>outbound/domain/address_policy.py\<close>: what
  a layer approves, what several layers approve together, and which addresses nobody may connect
  to. A rejection carries the text it is about; its prose is the constructor. Lower case outside
  ASCII is the argument \<open>low\<close>. The classes of addresses are the argument \<open>cls\<close>:
  Python's tables of them follow the registries of the Internet and change with its releases, and
  nothing here depends on where a class begins.
\<close>

section \<open>Scopes\<close>

record ScopeEntry =
  se_text :: pystr
  se_network :: "Network option"
  se_wildcard :: bool

datatype ScopeEntryInvalid =
    Blank
  | NotANetwork pystr
  | LooksLikeUrl pystr
  | NamesAPort pystr
  | TooWide pystr
  | NotAHost pystr

definition MINIMUM_WILDCARD_LABELS :: nat where "MINIMUM_WILDCARD_LABELS = 2"

definition alnum :: "nat \<Rightarrow> bool" where
  "alnum c \<longleftrightarrow> (97 \<le> c \<and> c \<le> 122) \<or> (48 \<le> c \<and> c \<le> 57)"

text \<open>\<open>[a-z0-9]([a-z0-9-]*[a-z0-9])?\<close>, and the same before the one line feed a final
  \<open>$\<close> lets pass.\<close>

definition label_core :: "pystr \<Rightarrow> bool" where
  "label_core l \<longleftrightarrow> l \<noteq> [] \<and> alnum (hd l) \<and> alnum (last l) \<and> list_all (\<lambda>c. alnum c \<or> c = 45) l"

definition label_match :: "pystr \<Rightarrow> bool" where
  "label_match l \<longleftrightarrow> label_core l \<or> (l \<noteq> [] \<and> last l = 10 \<and> label_core (butlast l))"

definition clean_host :: "(pystr \<Rightarrow> pystr) \<Rightarrow> pystr \<Rightarrow> pystr" where
  "clean_host low host = py_rstrip_of {46} (py_lower low (py_strip host))"

definition matches_host :: "(pystr \<Rightarrow> pystr) \<Rightarrow> ScopeEntry \<Rightarrow> pystr \<Rightarrow> bool" where
  "matches_host low e host =
     (if se_network e \<noteq> None then False
      else
        (let candidate = clean_host low host
         in if \<not> se_wildcard e then candidate = se_text e
            else
              (let suff = drop 1 (se_text e) in py_endswith candidate suff \<and> candidate \<noteq> drop 1 suff)))"

definition matches_address :: "ScopeEntry \<Rightarrow> Address \<Rightarrow> bool" where
  "matches_address e a = (case se_network e of None \<Rightarrow> False | Some n \<Rightarrow> in_network a n)"

definition contains :: "(pystr \<Rightarrow> pystr) \<Rightarrow> ScopeEntry \<Rightarrow> ScopeEntry \<Rightarrow> bool" where
  "contains low e other =
     (case (se_network e, se_network other) of
        (Some n, Some m) \<Rightarrow> subnet_of m n
      | (Some _, None) \<Rightarrow> False
      | (None, Some _) \<Rightarrow> False
      | (None, None) \<Rightarrow>
          (if se_wildcard e
           then se_text e = se_text other \<or> matches_host low e (py_lstrip_of {42, 46} (se_text other))
           else se_text e = se_text other \<and> \<not> se_wildcard other))"

definition parse_entry :: "(pystr \<Rightarrow> pystr) \<Rightarrow> pystr \<Rightarrow> (ScopeEntryInvalid, ScopeEntry) result" where
  "parse_entry low txt =
     (let cleaned = py_lower low (py_strip txt)
      in if cleaned = [] then Inl Blank
         else if 47 \<in> set cleaned \<and> \<not> py_startswith cleaned (py ''*'')
           then (case ip_network cleaned of
                   None \<Rightarrow> Inl (NotANetwork txt)
                 | Some n \<Rightarrow> Inr \<lparr>se_text = network_str n, se_network = Some n, se_wildcard = False\<rparr>)
         else if 47 \<in> set cleaned then Inl (LooksLikeUrl txt)
         else if 58 \<in> set cleaned then Inl (NamesAPort txt)
         else
           (let host = clean_host low cleaned;
                wildcard = py_startswith host (py ''*.'');
                labels = (if wildcard then drop 1 (py_split 46 host) else py_split 46 host)
            in if wildcard \<and> length labels < MINIMUM_WILDCARD_LABELS then Inl (TooWide txt)
               else if \<not> list_all label_match labels then Inl (NotAHost txt)
               else Inr \<lparr>se_text = host, se_network = None, se_wildcard = wildcard\<rparr>))"

type_synonym OutboundScope = "ScopeEntry list"

text \<open>\<open>seen.setdefault(entry.text, entry)\<close>: one of each, in the order they came.\<close>

fun deduplicated :: "pystr list \<Rightarrow> ScopeEntry list \<Rightarrow> ScopeEntry list" where
  "deduplicated seen [] = []"
| "deduplicated seen (e # es) =
     (if se_text e \<in> set seen then deduplicated seen es
      else e # deduplicated (se_text e # seen) es)"

definition scope_of :: "(pystr \<Rightarrow> pystr) \<Rightarrow> pystr list \<Rightarrow> (ScopeEntryInvalid, OutboundScope) result" where
  "scope_of low texts = map_sum id (deduplicated []) (map_res (parse_entry low) texts)"

definition allows_host :: "(pystr \<Rightarrow> pystr) \<Rightarrow> OutboundScope \<Rightarrow> pystr \<Rightarrow> bool" where
  "allows_host low sc host = list_ex (\<lambda>e. matches_host low e host) sc"

definition allows_address :: "OutboundScope \<Rightarrow> Address \<Rightarrow> bool" where
  "allows_address sc a = list_ex (\<lambda>e. matches_address e a) sc"

fun narrow_entry :: "(pystr \<Rightarrow> pystr) \<Rightarrow> ScopeEntry \<Rightarrow> ScopeEntry list \<Rightarrow> ScopeEntry list" where
  "narrow_entry low entry [] = []"
| "narrow_entry low entry (allowed # rest) =
     (if contains low allowed entry then [entry]
      else if contains low entry allowed then [allowed]
      else narrow_entry low entry rest)"

definition narrow :: "(pystr \<Rightarrow> pystr) \<Rightarrow> ScopeEntry list \<Rightarrow> ScopeEntry list \<Rightarrow> ScopeEntry list" where
  "narrow low current limit = concat (map (\<lambda>entry. narrow_entry low entry limit) current)"

fun narrow_layers :: "(pystr \<Rightarrow> pystr) \<Rightarrow> ScopeEntry list \<Rightarrow> OutboundScope list \<Rightarrow> ScopeEntry list" where
  "narrow_layers low surviving [] = surviving"
| "narrow_layers low surviving (layer # layers) =
     (let surviving' = narrow low surviving layer
      in if surviving' = [] then [] else narrow_layers low surviving' layers)"

definition intersect :: "(pystr \<Rightarrow> pystr) \<Rightarrow> OutboundScope list \<Rightarrow> OutboundScope" where
  "intersect low scopes =
     (case scopes of
        [] \<Rightarrow> []
      | first # layers \<Rightarrow> deduplicated [] (narrow_layers low first layers))"

section \<open>Addresses\<close>

datatype RefusalReason =
    SCHEME_NOT_ALLOWED | PLAINTEXT_NOT_APPROVED | EGRESS_NOT_CONFIGURED | EGRESS_UNAVAILABLE
  | UNKNOWN_CALLER | PORT_NOT_ALLOWED | TARGET_NOT_IN_SCOPE | SCOPE_EMPTY
  | UNRESOLVED | LOOPBACK | LINK_LOCAL | CARRIER_GRADE_NAT | PRIVATE | UNSPECIFIED | MULTICAST | RESERVED

text \<open>The properties of an address the policy asks for.\<close>

record AddressClasses =
  is_loopback :: "Address \<Rightarrow> bool"
  is_link_local :: "Address \<Rightarrow> bool"
  is_unspecified :: "Address \<Rightarrow> bool"
  is_multicast :: "Address \<Rightarrow> bool"
  is_reserved :: "Address \<Rightarrow> bool"
  is_private :: "Address \<Rightarrow> bool"

definition CARRIER_GRADE_NAT_NETWORK :: Network where
  "CARRIER_GRADE_NAT_NETWORK = Net4 0x64400000 10"

record AddressVerdict =
  av_allowed :: bool
  av_address :: "Address option"
  av_reason :: "RefusalReason option"

definition refusal :: "AddressClasses \<Rightarrow> Address \<Rightarrow> RefusalReason option" where
  "refusal cls a =
     (if is_loopback cls a then Some LOOPBACK
      else if is_link_local cls a then Some LINK_LOCAL
      else if is_unspecified cls a then Some UNSPECIFIED
      else if is_multicast cls a then Some MULTICAST
      else if is_reserved cls a then Some RESERVED
      else if in_network a CARRIER_GRADE_NAT_NETWORK then Some CARRIER_GRADE_NAT
      else if is_private cls a then Some PRIVATE
      else None)"

definition approved_address :: "Address \<Rightarrow> Network list \<Rightarrow> bool" where
  "approved_address a approved = list_ex (in_network a) approved"

fun first_refusal :: "AddressClasses \<Rightarrow> Network list \<Rightarrow> Address list \<Rightarrow> RefusalReason option" where
  "first_refusal cls approved [] = None"
| "first_refusal cls approved (a # as) =
     (case refusal cls a of
        None \<Rightarrow> first_refusal cls approved as
      | Some reason \<Rightarrow>
          (if (reason = PRIVATE \<or> reason = CARRIER_GRADE_NAT) \<and> approved_address a approved
           then first_refusal cls approved as
           else Some reason))"

definition verdict :: "AddressClasses \<Rightarrow> Address list \<Rightarrow> Network list \<Rightarrow> AddressVerdict" where
  "verdict cls addresses approved =
     (if addresses = [] then \<lparr>av_allowed = False, av_address = None, av_reason = Some UNRESOLVED\<rparr>
      else
        (case first_refusal cls approved addresses of
           Some reason \<Rightarrow> \<lparr>av_allowed = False, av_address = None, av_reason = Some reason\<rparr>
         | None \<Rightarrow> \<lparr>av_allowed = True, av_address = Some (hd addresses), av_reason = None\<rparr>))"

section \<open>What layers approve together\<close>

text \<open>Entries as \<open>parse_entry\<close> makes them, without the line feed its pattern lets
  pass.\<close>

definition host_text :: "pystr \<Rightarrow> bool" where
  "host_text t \<longleftrightarrow> list_all label_core (py_split 46 t)"

definition entry_tidy :: "ScopeEntry \<Rightarrow> bool" where
  "entry_tidy e \<longleftrightarrow>
     (case se_network e of
        Some n \<Rightarrow> wf_network n
      | None \<Rightarrow> (if se_wildcard e then \<exists>d. se_text e = [42, 46] @ d \<and> host_text d else host_text (se_text e)))"

lemma set_py_join: "set (py_join [c] ps) \<subseteq> {c} \<union> \<Union> (set ` set ps)"
  by (induction "[c]" ps rule: py_join.induct) auto

lemma hd_py_join: "p \<noteq> [] \<Longrightarrow> hd (py_join sep (p # ps)) = hd p"
  by (cases ps) auto

lemma last_py_join: "ps \<noteq> [] \<Longrightarrow> last ps \<noteq> [] \<Longrightarrow> last (py_join sep ps) = last (last ps)"
proof (induction sep ps rule: py_join.induct)
  case (3 sep x y ys)
  have "py_join sep qs \<noteq> []" if "qs \<noteq> []" "last qs \<noteq> []" for qs
    using that by (induction sep qs rule: py_join.induct) (auto split: if_splits)
  then have "py_join sep (y # ys) \<noteq> []" using 3 by simp
  then show ?case using 3 by simp
qed auto

lemma host_text_chars:
  assumes "host_text t"
  shows "t \<noteq> []" "alnum (hd t)" "alnum (last t)" "\<forall>c \<in> set t. alnum c \<or> c = 45 \<or> c = 46"
proof -
  obtain p ps where ps: "py_split 46 t = p # ps" using py_split_not_Nil by (metis neq_Nil_conv)
  have t: "t = py_join [46] (p # ps)" using py_join_split[of 46 t] ps by simp
  have core: "\<forall>l \<in> set (p # ps). label_core l" using assms ps by (simp add: host_text_def list_all_iff)
  then have p: "p \<noteq> []" "alnum (hd p)" and lst: "last (p # ps) \<noteq> []" "alnum (last (last (p # ps)))"
    by (auto simp: label_core_def split: if_splits)
  show "alnum (hd t)" using hd_py_join[OF p(1)] p(2) t by simp
  show "alnum (last t)" using last_py_join[OF _ lst(1)] lst(2) t by simp
  show "\<forall>c \<in> set t. alnum c \<or> c = 45 \<or> c = 46"
    using core set_py_join[of 46 "p # ps"] unfolding t[symmetric] by (fastforce simp: label_core_def list_all_iff)
  show "t \<noteq> []" using assms by (auto simp: host_text_def label_core_def)
qed

lemma alnum_plain: "alnum c \<Longrightarrow> \<not> is_space c \<and> c \<noteq> 46 \<and> c \<noteq> 42 \<and> lower_char c = c \<and> c < 128"
  by (auto simp: alnum_def is_space_def lower_char_def)

lemma py_rstrip_id: "s = [] \<or> last s \<notin> cs \<Longrightarrow> py_rstrip_of cs s = s"
  by (cases s rule: rev_cases) (auto simp: py_rstrip_of_def)

lemma clean_host_id:
  assumes "host_text t"
  shows "clean_host low t = t"
proof -
  note t = host_text_chars[OF assms]
  have "py_strip t = t" using t alnum_plain by (intro py_strip_id) blast
  moreover have "py_lower low t = t"
  proof -
    have "\<forall>c \<in> set t. c < 128 \<and> lower_char c = c" using t(4) by (auto simp: alnum_def lower_char_def)
    then show ?thesis by (simp add: py_lower_def is_ascii_def list_all_iff map_idI)
  qed
  ultimately show ?thesis using t(1,3) alnum_plain by (auto simp: clean_host_def intro!: py_rstrip_id)
qed

lemma lstrip_host: "host_text t \<Longrightarrow> py_lstrip_of {42, 46} t = t"
  using host_text_chars(1,2)[of t] alnum_plain by (cases t) (auto simp: py_lstrip_of_def)

lemma lstrip_wildcard: "host_text d \<Longrightarrow> py_lstrip_of {42, 46} (42 # 46 # d) = d"
  using lstrip_host[of d] by (simp add: py_lstrip_of_def)

text \<open>An entry that contains another approves every host and every address the other does.\<close>

lemma matches_wildcard:
  "se_network e = None \<Longrightarrow> se_wildcard e \<Longrightarrow> se_text e = [42, 46] @ d \<Longrightarrow>
   matches_host low e h \<longleftrightarrow> suffix (46 # d) (clean_host low h) \<and> clean_host low h \<noteq> d"
  by (simp add: matches_host_def py_endswith_suffix Let_def)

lemma contains_host:
  assumes tidy: "entry_tidy e" "entry_tidy other" and c: "contains low e other" and m: "matches_host low other h"
  shows "matches_host low e h"
proof -
  have no: "se_network other = None" using m by (auto simp: matches_host_def split: if_splits)
  then have ne: "se_network e = None" using c by (auto simp: contains_def split: option.splits)
  show ?thesis
  proof (cases "se_wildcard e")
    case False
    then show ?thesis using c m no ne by (auto simp: contains_def matches_host_def Let_def)
  next
    case True
    then obtain d where d: "se_text e = [42, 46] @ d" "host_text d"
      using tidy(1) ne by (auto simp: entry_tidy_def)
    note me = matches_wildcard[OF ne True d(1)]
    show ?thesis
    proof (cases "se_wildcard other")
      case o: True
      then obtain d' where d': "se_text other = [42, 46] @ d'" "host_text d'"
        using tidy(2) no by (auto simp: entry_tidy_def)
      note mo = matches_wildcard[OF no o d'(1)]
      have h: "suffix (46 # d') (clean_host low h)" using m mo by simp
      have "d = d' \<or> suffix (46 # d) d' \<and> d' \<noteq> d"
        using c ne no True d d' me[of low d'] by (auto simp: contains_def lstrip_wildcard clean_host_id)
      then show ?thesis
      proof
        assume "suffix (46 # d) d' \<and> d' \<noteq> d"
        then have "suffix (46 # d) (clean_host low h)" "length d < length d'"
          using h by (auto simp: suffix_def)
        moreover have "length d' < length (clean_host low h)" using suffix_length_le[OF h] by simp
        ultimately show ?thesis using me by auto
      qed (use m mo me in simp)
    next
      case False
      then have t: "clean_host low h = se_text other" "host_text (se_text other)"
        using m no tidy(2) by (auto simp: matches_host_def entry_tidy_def Let_def)
      have "se_text other \<noteq> se_text e" using d(1) host_text_chars(2)[OF t(2)] alnum_plain[of 42] by auto
      then have "matches_host low e (se_text other)"
        using c ne no True lstrip_host[OF t(2)] by (auto simp: contains_def)
      then show ?thesis using me t clean_host_id[OF t(2)] by simp
    qed
  qed
qed

lemma contains_address:
  "entry_tidy e \<Longrightarrow> entry_tidy other \<Longrightarrow> contains low e other \<Longrightarrow> matches_address other a \<Longrightarrow> matches_address e a"
  by (auto simp: contains_def matches_address_def entry_tidy_def intro: subnet_of_in split: option.splits)

text \<open>What approves something: hosts and addresses are two instances of it.\<close>

locale approval =
  fixes tidy :: "'e \<Rightarrow> bool" and covers :: "'e \<Rightarrow> 'e \<Rightarrow> bool" and approves :: "'e \<Rightarrow> 't \<Rightarrow> bool"
    and narrowed :: "'e list \<Rightarrow> 'e list \<Rightarrow> 'e list"
  assumes covers_approves: "tidy e \<Longrightarrow> tidy other \<Longrightarrow> covers e other \<Longrightarrow> approves other t \<Longrightarrow> approves e t"
    and narrowed_from: "k \<in> set (narrowed current limit) \<Longrightarrow>
      \<exists>e \<in> set current. \<exists>l \<in> set limit. (k = e \<and> covers l e) \<or> (k = l \<and> covers e l)"
begin

definition allowed :: "'e list \<Rightarrow> 't \<Rightarrow> bool" where
  "allowed sc t \<longleftrightarrow> (\<exists>e \<in> set sc. approves e t)"

fun layered :: "'e list \<Rightarrow> 'e list list \<Rightarrow> 'e list" where
  "layered surviving [] = surviving"
| "layered surviving (layer # layers) =
     (if narrowed surviving layer = [] then [] else layered (narrowed surviving layer) layers)"

lemma narrowed_tidy:
  "Ball (set current) tidy \<Longrightarrow> Ball (set limit) tidy \<Longrightarrow> Ball (set (narrowed current limit)) tidy"
  using narrowed_from by blast

lemma narrowed_allowed:
  assumes "Ball (set current) tidy" "Ball (set limit) tidy" "allowed (narrowed current limit) t"
  shows "allowed current t \<and> allowed limit t"
proof -
  obtain k where k: "k \<in> set (narrowed current limit)" "approves k t" using assms(3) by (auto simp: allowed_def)
  then obtain e l where el: "e \<in> set current" "l \<in> set limit" "(k = e \<and> covers l e) \<or> (k = l \<and> covers e l)"
    using narrowed_from by blast
  then have "approves e t \<and> approves l t" using assms(1,2) covers_approves k(2) by blast
  then show ?thesis using el by (auto simp: allowed_def)
qed

lemma layered_allowed:
  assumes "Ball (set surviving) tidy" "\<forall>layer \<in> set layers. Ball (set layer) tidy" "allowed (layered surviving layers) t"
  shows "allowed surviving t \<and> (\<forall>layer \<in> set layers. allowed layer t)"
  using assms
proof (induction layers arbitrary: surviving)
  case (Cons layer layers)
  let ?s = "narrowed surviving layer"
  have "?s \<noteq> []" "allowed (layered ?s layers) t" using Cons.prems(3) by (auto simp: allowed_def split: if_splits)
  moreover have "Ball (set ?s) tidy" using Cons.prems(1,2) by (intro narrowed_tidy) simp_all
  ultimately have "allowed ?s t \<and> (\<forall>l \<in> set layers. allowed l t)" using Cons.IH Cons.prems(2) by simp
  then show ?case using narrowed_allowed[of surviving layer t] Cons.prems(1,2) by simp
qed simp

end

lemma narrow_entry_from:
  "k \<in> set (narrow_entry low e limit) \<Longrightarrow>
   \<exists>l \<in> set limit. (k = e \<and> contains low l e) \<or> (k = l \<and> contains low e l)"
  by (induction low e limit rule: narrow_entry.induct) (auto split: if_splits)

lemma narrow_from:
  "k \<in> set (narrow low current limit) \<Longrightarrow>
   \<exists>e \<in> set current. \<exists>l \<in> set limit. (k = e \<and> contains low l e) \<or> (k = l \<and> contains low e l)"
  using narrow_entry_from by (fastforce simp: narrow_def)

interpretation hosts: approval entry_tidy "contains low" "matches_host low" "narrow low" for low
  by unfold_locales (fact contains_host, fact narrow_from)

interpretation addresses: approval entry_tidy "contains low" matches_address "narrow low" for low
  by unfold_locales (fact contains_address, fact narrow_from)

lemma layered_narrow: "hosts.layered low s ls = narrow_layers low s ls" "addresses.layered low s ls = narrow_layers low s ls"
  by (induction low s ls rule: narrow_layers.induct) (simp_all add: Let_def)

lemma deduplicated_from: "set (deduplicated seen es) \<subseteq> set es"
  by (induction seen es rule: deduplicated.induct) auto

definition scope_tidy :: "OutboundScope \<Rightarrow> bool" where
  "scope_tidy sc \<longleftrightarrow> Ball (set sc) entry_tidy"

lemma intersect_hosts:
  assumes "\<forall>sc \<in> set scopes. scope_tidy sc" "allows_host low (intersect low scopes) h"
  shows "scopes \<noteq> [] \<and> (\<forall>sc \<in> set scopes. allows_host low sc h)"
proof (cases scopes)
  case (Cons first layers)
  have "hosts.allowed low (hosts.layered low first layers) h"
    using assms(2) deduplicated_from Cons
    by (fastforce simp: intersect_def allows_host_def list_ex_iff hosts.allowed_def layered_narrow)
  then show ?thesis using hosts.layered_allowed[of first layers low h] assms(1) Cons
    by (auto simp: scope_tidy_def allows_host_def list_ex_iff hosts.allowed_def)
qed (use assms(2) in \<open>simp add: intersect_def allows_host_def\<close>)

lemma intersect_addresses:
  assumes "\<forall>sc \<in> set scopes. scope_tidy sc" "allows_address (intersect low scopes) a"
  shows "scopes \<noteq> [] \<and> (\<forall>sc \<in> set scopes. allows_address sc a)"
proof (cases scopes)
  case (Cons first layers)
  have "addresses.allowed (addresses.layered low first layers) a"
    using assms(2) deduplicated_from Cons
    by (fastforce simp: intersect_def allows_address_def list_ex_iff addresses.allowed_def layered_narrow)
  then show ?thesis using addresses.layered_allowed[of first layers low a] assms(1) Cons
    by (auto simp: scope_tidy_def allows_address_def list_ex_iff addresses.allowed_def)
qed (use assms(2) in \<open>simp add: intersect_def allows_address_def\<close>)

text \<open>What is stored is tidy, but for a line feed.\<close>

lemma split_chars: "l \<in> set (py_split c t) \<Longrightarrow> set l \<subseteq> set t"
proof (induction t arbitrary: l)
  case (Cons x xs)
  obtain q qs where "py_split c xs = q # qs" using py_split_not_Nil by (metis neq_Nil_conv)
  then show ?case using Cons by (fastforce split: if_splits)
qed simp

lemma parse_entry_tidy:
  assumes "parse_entry low txt = Inr e" "10 \<notin> set (se_text e)"
  shows "entry_tidy e"
proof (cases "se_network e")
  case (Some n)
  then show ?thesis using assms(1)
    by (auto simp: parse_entry_def Let_def entry_tidy_def split: if_splits option.splits dest: ip_network_wf)
next
  case None
  let ?h = "clean_host low (py_lower low (py_strip txt))"
  have e: "se_text e = ?h" "se_wildcard e = py_startswith ?h (py ''*.'')"
    and labels: "list_all label_match (if se_wildcard e then drop 1 (py_split 46 ?h) else py_split 46 ?h)"
    using assms(1) None by (auto simp: parse_entry_def Let_def split: if_splits option.splits)
  have core: "label_core l" if "label_match l" "10 \<notin> set l" for l
    using that last_in_set[of l] by (cases "label_core l") (auto simp: label_match_def)
  have parts: "10 \<notin> set l" if "l \<in> set (py_split 46 t)" "10 \<notin> set t" for l t
    using that split_chars by blast
  show ?thesis
  proof (cases "se_wildcard e")
    case False
    then show ?thesis using labels None core parts[of _ ?h] assms(2) e
      by (auto simp: entry_tidy_def host_text_def list_all_iff)
  next
    case True
    then obtain d where d: "?h = [42, 46] @ d" using e(2) by (auto simp: py_startswith_prefix prefix_def py_def)
    then have "py_split 46 ?h = [42] # py_split 46 d" by simp
    then have "host_text d" using labels True core parts[of _ d] assms(2) d e(1)
      by (auto simp: host_text_def list_all_iff)
    then show ?thesis using None True d e(1) by (auto simp: entry_tidy_def)
  qed
qed

text \<open>The other direction fails: an entry keeps only the first of the narrower ones beside it.\<close>

lemma narrow_keeps_first_only:
  fixes low and w a b
  defines "w \<equiv> \<lparr>se_text = [42, 46, 97, 46, 98], se_network = None, se_wildcard = True\<rparr>"
    and "a \<equiv> \<lparr>se_text = [120, 46, 97, 46, 98], se_network = None, se_wildcard = False\<rparr>"
    and "b \<equiv> \<lparr>se_text = [121, 46, 97, 46, 98], se_network = None, se_wildcard = False\<rparr>"
  shows "intersect low [[w], [a, b]] = [a]" "allows_host low [w] (se_text b)" "allows_host low [a, b] (se_text b)"
proof -
  have host: "host_text [120, 46, 97, 46, 98]" "host_text [121, 46, 97, 46, 98]"
    by (simp_all add: host_text_def label_core_def alnum_def)
  note clean = clean_host_id[OF host(1)] clean_host_id[OF host(2)] lstrip_host[OF host(1)] lstrip_host[OF host(2)]
  show "intersect low [[w], [a, b]] = [a]"
    by (simp add: w_def a_def b_def intersect_def narrow_def contains_def matches_host_def clean py_endswith_suffix suffix_def)
  show "allows_host low [w] (se_text b)" "allows_host low [a, b] (se_text b)"
    by (simp_all add: w_def a_def b_def allows_host_def matches_host_def clean py_endswith_suffix suffix_def)
qed

end
