(* ===== verification/Egress.thy ===== *)
theory Egress
  imports Outbound_Scope Py_Uuid
begin

text \<open>
  \<^verbatim>\<open>egress/domain/decision.py\<close>, \<^verbatim>\<open>egress/domain/request.py\<close>, the handler
  of \<^verbatim>\<open>egress/application/proxy.py\<close> and \<^verbatim>\<open>egress/infrastructure/memory_directory.py\<close>:
  the reading of a request head, who is asking, the decision, and what the proxy then does with
  the connection. What the handler is given is an argument: the head it read, the peer, the
  directory, and the resolver's answer; what it does is a value of \<open>Outcome\<close>. Bytes are
  numbers below 256 and decode to themselves (\<open>latin-1\<close>). Lower and upper case outside
  ASCII are the arguments \<open>low\<close> and \<open>up\<close>, NFKC is \<open>nfkc\<close>. Metrics
  and log lines are left out.
\<close>

section \<open>The decision\<close>

definition ALLOWED_SCHEMES :: "pystr list" where "ALLOWED_SCHEMES = [py ''http'', py ''https'']"

definition ALLOWED_PORTS :: "int list" where "ALLOWED_PORTS = [80, 443]"

datatype CallerKind = PLATFORM | SANDBOX

record CallerClaim =
  cc_kind :: CallerKind
  cc_workspace_id :: "nat option"
  cc_agent_version_id :: "nat option"
  cc_run_id :: "nat option"
  cc_discovery_id :: "nat option"

record ScopeLayers =
  ly_platform :: OutboundScope
  ly_workspace :: "OutboundScope option"
  ly_agent :: "OutboundScope option"
  ly_run :: "OutboundScope option"

definition present_layers :: "ScopeLayers \<Rightarrow> OutboundScope list" where
  "present_layers ly =
     concat (map (\<lambda>layer. case layer of None \<Rightarrow> [] | Some sc \<Rightarrow> [sc])
               [Some (ly_platform ly), ly_workspace ly, ly_agent ly, ly_run ly])"

definition effective :: "(pystr \<Rightarrow> pystr) \<Rightarrow> ScopeLayers \<Rightarrow> OutboundScope" where
  "effective low ly = intersect low (present_layers ly)"

record Target =
  tg_scheme :: pystr
  tg_host :: pystr
  tg_port :: int

datatype ProxyRefusal =
    UNKNOWN_CALLER | SCHEME_NOT_ALLOWED | PORT_NOT_ALLOWED | TARGET_NOT_IN_SCOPE | SCOPE_EMPTY | UNRESOLVED

fun ProxyRefusal_value :: "ProxyRefusal \<Rightarrow> pystr" where
  "ProxyRefusal_value ProxyRefusal.UNKNOWN_CALLER = py ''unknown_caller''"
| "ProxyRefusal_value ProxyRefusal.SCHEME_NOT_ALLOWED = py ''scheme_not_allowed''"
| "ProxyRefusal_value ProxyRefusal.PORT_NOT_ALLOWED = py ''port_not_allowed''"
| "ProxyRefusal_value ProxyRefusal.TARGET_NOT_IN_SCOPE = py ''target_not_in_scope''"
| "ProxyRefusal_value ProxyRefusal.SCOPE_EMPTY = py ''scope_empty''"
| "ProxyRefusal_value ProxyRefusal.UNRESOLVED = py ''unresolved''"

fun RefusalReason_value :: "RefusalReason \<Rightarrow> pystr" where
  "RefusalReason_value RefusalReason.SCHEME_NOT_ALLOWED = py ''scheme_not_allowed''"
| "RefusalReason_value PLAINTEXT_NOT_APPROVED = py ''plaintext_not_approved''"
| "RefusalReason_value EGRESS_NOT_CONFIGURED = py ''egress_not_configured''"
| "RefusalReason_value EGRESS_UNAVAILABLE = py ''egress_unavailable''"
| "RefusalReason_value RefusalReason.UNKNOWN_CALLER = py ''unknown_caller''"
| "RefusalReason_value RefusalReason.PORT_NOT_ALLOWED = py ''port_not_allowed''"
| "RefusalReason_value RefusalReason.TARGET_NOT_IN_SCOPE = py ''target_not_in_scope''"
| "RefusalReason_value RefusalReason.SCOPE_EMPTY = py ''scope_empty''"
| "RefusalReason_value RefusalReason.UNRESOLVED = py ''unresolved''"
| "RefusalReason_value LOOPBACK = py ''loopback''"
| "RefusalReason_value LINK_LOCAL = py ''link_local''"
| "RefusalReason_value CARRIER_GRADE_NAT = py ''carrier_grade_nat''"
| "RefusalReason_value PRIVATE = py ''private''"
| "RefusalReason_value UNSPECIFIED = py ''unspecified''"
| "RefusalReason_value MULTICAST = py ''multicast''"
| "RefusalReason_value RESERVED = py ''reserved''"

record ProxyVerdict =
  pv_allowed :: bool
  pv_address :: "Address option"
  pv_refusal :: "ProxyRefusal option"
  pv_address_reason :: "RefusalReason option"

definition reason_text :: "ProxyVerdict \<Rightarrow> pystr" where
  "reason_text v =
     (if pv_allowed v then py ''allowed''
      else
        (case pv_address_reason v of
           Some r \<Rightarrow> RefusalReason_value r
         | None \<Rightarrow> (case pv_refusal v of Some r \<Rightarrow> ProxyRefusal_value r | None \<Rightarrow> py ''refused'')))"

definition has_network_entry :: "OutboundScope \<Rightarrow> bool" where
  "has_network_entry sc = list_ex (\<lambda>e. se_network e \<noteq> None) sc"

definition check_request :: "(pystr \<Rightarrow> pystr) \<Rightarrow> Target \<Rightarrow> OutboundScope \<Rightarrow> int list \<Rightarrow> ProxyRefusal option" where
  "check_request low tg sc ports =
     (if sc = [] then Some ProxyRefusal.SCOPE_EMPTY
      else if tg_scheme tg \<notin> set ALLOWED_SCHEMES then Some ProxyRefusal.SCHEME_NOT_ALLOWED
      else if tg_port tg \<notin> set ports then Some ProxyRefusal.PORT_NOT_ALLOWED
      else if \<not> allows_host low sc (tg_host tg) \<and> \<not> has_network_entry sc
        then Some ProxyRefusal.TARGET_NOT_IN_SCOPE
      else None)"

definition refused :: "ProxyRefusal \<Rightarrow> ProxyVerdict" where
  "refused r = \<lparr>pv_allowed = False, pv_address = None, pv_refusal = Some r, pv_address_reason = None\<rparr>"

definition address_refused :: "RefusalReason option \<Rightarrow> ProxyVerdict" where
  "address_refused r = \<lparr>pv_allowed = False, pv_address = None, pv_refusal = None, pv_address_reason = r\<rparr>"

type_synonym AddressPolicy = "Address list \<Rightarrow> Network list \<Rightarrow> AddressVerdict"

definition inside :: "Address option \<Rightarrow> Network list \<Rightarrow> bool" where
  "inside a approved = (case a of None \<Rightarrow> False | Some x \<Rightarrow> list_ex (in_network x) approved)"

definition decide ::
  "(pystr \<Rightarrow> pystr) \<Rightarrow> Target \<Rightarrow> OutboundScope \<Rightarrow> Address list \<Rightarrow> Network list \<Rightarrow> AddressPolicy \<Rightarrow> int list \<Rightarrow> ProxyVerdict"
  where
  "decide low tg sc addresses approved policy ports =
     (case check_request low tg sc ports of
        Some early \<Rightarrow> refused early
      | None \<Rightarrow>
          (if addresses = [] then refused ProxyRefusal.UNRESOLVED
           else if \<not> allows_host low sc (tg_host tg) \<and> \<not> list_all (allows_address sc) addresses
             then refused ProxyRefusal.TARGET_NOT_IN_SCOPE
           else
             (let answer = policy addresses approved
              in if \<not> av_allowed answer then address_refused (av_reason answer)
                 else if tg_scheme tg = py ''http'' \<and> \<not> inside (av_address answer) approved
                   then address_refused (Some PLAINTEXT_NOT_APPROVED)
                 else \<lparr>pv_allowed = True, pv_address = av_address answer, pv_refusal = None,
                       pv_address_reason = None\<rparr>)))"

section \<open>Request heads\<close>

definition MAX_HEAD_BYTES :: nat where "MAX_HEAD_BYTES = 32 * 1024"

definition DEFAULT_PORTS :: "(pystr \<times> int) list" where
  "DEFAULT_PORTS = [(py ''http'', 80), (py ''https'', 443)]"

record ProxyRequest =
  rq_method :: pystr
  rq_scheme :: pystr
  rq_host :: pystr
  rq_port :: int
  rq_path :: pystr
  rq_version :: pystr
  rq_headers :: "(pystr \<times> pystr) list"

text \<open>\<open>ProxyRequestInvalid\<close>, by what is wrong, and the \<open>ValueError\<close> of
  \<open>urlsplit\<close> nothing catches.\<close>

datatype HeadError =
    EmptyHead
  | NotARequestLine pystr
  | NotAHeader pystr
  | NotAbsolute pystr
  | Userinfo
  | NotAnAuthority pystr
  | NoHost
  | NoPort pystr
  | NotAPort pystr
  | UrlValueError

definition upper_char :: "nat \<Rightarrow> nat" where
  "upper_char c = (if 97 \<le> c \<and> c \<le> 122 then c - 32 else c)"

definition py_upper :: "(pystr \<Rightarrow> pystr) \<Rightarrow> pystr \<Rightarrow> pystr" where
  "py_upper up s = (if is_ascii s then map upper_char s else up s)"

text \<open>\<open>text.split("\r\n")\<close>.\<close>

fun split_crlf :: "pystr \<Rightarrow> pystr list" where
  "split_crlf [] = [[]]"
| "split_crlf [c] = [[c]]"
| "split_crlf (c # d # cs) =
     (if c = 13 \<and> d = 10 then [] # split_crlf cs
      else (case split_crlf (d # cs) of [] \<Rightarrow> [[c]] | l # ls \<Rightarrow> (c # l) # ls))"

fun read_headers :: "pystr list \<Rightarrow> (HeadError, (pystr \<times> pystr) list) result" where
  "read_headers [] = Inr []"
| "read_headers (line # lines) =
     (if line = [] then Inr []
      else
        (case py_partition 58 line of
           (key, separator, v) \<Rightarrow>
             (if \<not> separator then Inl (NotAHeader line)
              else map_sum id ((#) (py_strip key, py_strip v)) (read_headers lines))))"

definition read_port :: "pystr \<Rightarrow> (HeadError, int) result" where
  "read_port raw =
     (case int_of_str raw of
        Inl _ \<Rightarrow> Inl (NotAPort raw)
      | Inr port \<Rightarrow> (if 1 \<le> port \<and> port \<le> 65535 then Inr port else Inl (NotAPort raw)))"

definition split_authority :: "pystr \<Rightarrow> int \<Rightarrow> (HeadError, pystr \<times> int) result" where
  "split_authority authority default_port =
     (if py_startswith authority (py ''['')
      then (case py_partition 93 (drop 1 authority) of
              (host, closing, remainder) \<Rightarrow>
                (if \<not> closing then Inl (NotAnAuthority authority)
                 else if py_startswith remainder (py '':'')
                   then map_sum id (\<lambda>port. (host, port)) (read_port (drop 1 remainder))
                 else Inr (host, default_port)))
      else if 58 \<in> set authority
        then (case py_partition 58 authority of
                (host, _, raw) \<Rightarrow> map_sum id (\<lambda>port. (host, port)) (read_port raw))
      else Inr (authority, default_port))"

definition read_authority :: "(pystr \<Rightarrow> pystr) \<Rightarrow> pystr \<Rightarrow> int \<Rightarrow> (HeadError, pystr \<times> int) result" where
  "read_authority low authority default_port =
     (if 64 \<in> set authority then Inl Userinfo
      else
        bind_res (split_authority authority default_port)
          (\<lambda>(raw, port).
             let host = clean_host low raw
             in if host = [] then Inl NoHost
                else if port \<le> 0 then Inl (NoPort authority)
                else Inr (host, port)))"

definition parse_head ::
  "(pystr \<Rightarrow> pystr) \<Rightarrow> (pystr \<Rightarrow> pystr) \<Rightarrow> (pystr \<Rightarrow> pystr) \<Rightarrow> nat list \<Rightarrow> (HeadError, ProxyRequest) result" where
  "parse_head low up nfkc head =
     (let lines = split_crlf head;
          first = hd lines;
          (method, _, rest) = py_partition 32 first;
          (tgt, _, version) = py_partition 32 rest
      in if first = [] then Inl EmptyHead
         else if method = [] \<or> tgt = [] \<or> \<not> py_startswith version (py ''HTTP/'') then Inl (NotARequestLine first)
         else
           bind_res (read_headers (tl lines))
             (\<lambda>headers.
                if py_upper up method = py ''CONNECT''
                then map_sum id
                       (\<lambda>(host, port).
                          \<lparr>rq_method = py ''CONNECT'', rq_scheme = py ''https'', rq_host = host, rq_port = port,
                           rq_path = [], rq_version = version, rq_headers = headers\<rparr>)
                       (read_authority low tgt 443)
                else
                  (case urlsplit nfkc tgt of
                     None \<Rightarrow> Inl UrlValueError
                   | Some sp \<Rightarrow>
                       (if url_scheme sp = [] \<or> url_netloc sp = [] then Inl (NotAbsolute tgt)
                        else
                          map_sum id
                            (\<lambda>(host, port).
                               \<lparr>rq_method = py_upper up method, rq_scheme = url_scheme sp, rq_host = host,
                                rq_port = port,
                                rq_path = (if url_path sp = [] then py ''/'' else url_path sp) @
                                          (if url_query sp = [] then [] else 63 # url_query sp),
                                rq_version = version, rq_headers = headers\<rparr>)
                            (read_authority low (url_netloc sp)
                               (case map_of DEFAULT_PORTS (url_scheme sp) of None \<Rightarrow> 0 | Some p \<Rightarrow> p))))))"

definition tunnel :: "ProxyRequest \<Rightarrow> bool" where
  "tunnel rq \<longleftrightarrow> rq_method rq = py ''CONNECT''"

definition header :: "(pystr \<Rightarrow> pystr) \<Rightarrow> ProxyRequest \<Rightarrow> pystr \<Rightarrow> pystr option" where
  "header low rq name =
     map_option snd (find (\<lambda>(key, _). py_lower low key = py_lower low name) (rq_headers rq))"

definition HOP_BY_HOP :: "pystr list" where
  "HOP_BY_HOP = map py
     [''proxy-authorization'', ''proxy-connection'', ''keep-alive'', ''te'', ''trailer'', ''transfer-encoding'',
      ''upgrade'']"

definition forwarded_headers :: "(pystr \<Rightarrow> pystr) \<Rightarrow> ProxyRequest \<Rightarrow> (pystr \<times> pystr) list" where
  "forwarded_headers low rq =
     filter (\<lambda>(key, _). \<not> (py_lower low key \<in> set HOP_BY_HOP \<or> py_lower low key = py ''connection'')) (rq_headers rq)"

text \<open>The head that is sent on; \<open>None\<close> when it does not fit \<open>latin-1\<close>.\<close>

definition forwarded_head :: "(pystr \<Rightarrow> pystr) \<Rightarrow> ProxyRequest \<Rightarrow> nat list option" where
  "forwarded_head low rq =
     (let lines = [rq_method rq @ [32] @ rq_path rq @ [32] @ rq_version rq] @
                  map (\<lambda>(key, v). key @ py '': '' @ v) (forwarded_headers low rq) @ [py ''Connection: close''];
          sent = py_join [13, 10] lines @ [13, 10, 13, 10]
      in if list_all (\<lambda>c. c < 256) sent then Some sent else None)"

section \<open>The handler\<close>

definition SCOPE_HEADER :: pystr where "SCOPE_HEADER = py ''X-Tiny-Hermes-Scope''"

text \<open>\<open>difference |= ord(a) ^ ord(b)\<close> over both texts.\<close>

fun difference :: "nat \<Rightarrow> pystr \<Rightarrow> pystr \<Rightarrow> nat" where
  "difference acc (a # as) (b # bs) = difference (or acc (xor a b)) as bs"
| "difference acc _ _ = acc"

definition same :: "pystr \<Rightarrow> pystr \<Rightarrow> bool" where
  "same left right \<longleftrightarrow> length left = length right \<and> difference 0 left right = 0"

fun found_ids :: "(pystr \<Rightarrow> pystr) \<Rightarrow> (pystr \<rightharpoonup> nat) \<Rightarrow> pystr list \<Rightarrow> pystr \<rightharpoonup> nat" where
  "found_ids low found [] = found"
| "found_ids low found (part # parts) =
     (case py_partition 61 part of
        (key, _, v) \<Rightarrow>
          (case uuid_of_str (py_strip v) of
             Inl _ \<Rightarrow> found_ids low found parts
           | Inr i \<Rightarrow> found_ids low (found(py_lower low (py_strip key) \<mapsto> i)) parts))"

definition claimed_layers :: "(pystr \<Rightarrow> pystr) \<Rightarrow> pystr option \<Rightarrow> CallerClaim" where
  "claimed_layers low given =
     (let found = (case given of
                     None \<Rightarrow> Map.empty
                   | Some h \<Rightarrow> (if h = [] then Map.empty else found_ids low Map.empty (py_split 59 h)))
      in \<lparr>cc_kind = PLATFORM, cc_workspace_id = found (py ''workspace''), cc_agent_version_id = found (py ''agent''),
          cc_run_id = found (py ''run''), cc_discovery_id = found (py ''discovery'')\<rparr>)"

record ProxySettings =
  ps_token :: pystr
  ps_approved_networks :: "Network list"
  ps_allowed_ports :: "int list"

definition identify ::
  "(pystr \<Rightarrow> pystr) \<Rightarrow> ProxySettings \<Rightarrow> (Address \<Rightarrow> CallerClaim option) \<Rightarrow> pystr option \<Rightarrow> ProxyRequest \<Rightarrow> CallerClaim option"
  where
  "identify low settings sandbox_claim peer rq =
     (case header low rq (py ''Proxy-Authorization'') of
        Some authorization \<Rightarrow>
          (case py_partition 32 authorization of
             (scheme, _, v) \<Rightarrow>
               (if py_lower low scheme \<noteq> py ''bearer'' \<or> \<not> same (py_strip v) (ps_token settings) then None
                else Some (claimed_layers low (header low rq SCOPE_HEADER))))
      | None \<Rightarrow> Option.bind (Option.bind peer ip_address) sandbox_claim)"

datatype Payload = Tunnel | Head "nat list" | HeadRaises

datatype Outcome =
    Answer int "pystr option"
  | Connect Address int Payload
  | Raised

definition connect :: "(pystr \<Rightarrow> pystr) \<Rightarrow> ProxyRequest \<Rightarrow> Address \<Rightarrow> Outcome" where
  "connect low rq a =
     Connect a (rq_port rq)
       (if tunnel rq then Tunnel
        else case forwarded_head low rq of None \<Rightarrow> HeadRaises | Some h \<Rightarrow> Head h)"

definition serve_one ::
  "(pystr \<Rightarrow> pystr) \<Rightarrow> (pystr \<Rightarrow> pystr) \<Rightarrow> (pystr \<Rightarrow> pystr) \<Rightarrow> AddressPolicy \<Rightarrow> ProxySettings \<Rightarrow>
   (CallerClaim \<Rightarrow> (ScopeEntryInvalid, ScopeLayers) result) \<Rightarrow> (Address \<Rightarrow> CallerClaim option) \<Rightarrow> (pystr \<Rightarrow> int \<Rightarrow> Address list) \<Rightarrow>
   pystr option \<Rightarrow> nat list \<Rightarrow> Outcome" where
  "serve_one low up nfkc policy settings layers_for sandbox_claim resolve peer head =
     (if length head > MAX_HEAD_BYTES then Answer 431 (Some (ProxyRefusal_value ProxyRefusal.UNKNOWN_CALLER))
      else
        (case parse_head low up nfkc head of
           Inl UrlValueError \<Rightarrow> Raised
         | Inl _ \<Rightarrow> Answer 400 None
         | Inr rq \<Rightarrow>
             (case identify low settings sandbox_claim peer rq of
                None \<Rightarrow> Answer 407 (Some (ProxyRefusal_value ProxyRefusal.UNKNOWN_CALLER))
              | Some claim \<Rightarrow>
                  (case layers_for claim of
                     Inl _ \<Rightarrow> Raised
                   | Inr layers \<Rightarrow>
                       (let tg = \<lparr>tg_scheme = rq_scheme rq, tg_host = rq_host rq, tg_port = rq_port rq\<rparr>;
                            sc = effective low layers;
                            answer = (\<lambda>addresses. decide low tg sc addresses (ps_approved_networks settings) policy
                                                    (ps_allowed_ports settings));
                            early = answer []
                        in if pv_refusal early \<noteq> Some ProxyRefusal.UNRESOLVED \<and> \<not> pv_allowed early
                           then Answer 403 (Some (reason_text early))
                           else
                             (let late = answer (resolve (rq_host rq) (rq_port rq))
                              in case pv_address late of
                                   None \<Rightarrow> Answer 403 (Some (reason_text late))
                                 | Some a \<Rightarrow>
                                     (if \<not> pv_allowed late then Answer 403 (Some (reason_text late))
                                      else connect low rq a)))))))"

section \<open>Facts\<close>

lemma or_xor_zero: "or acc (xor a b) = (0 :: nat) \<longleftrightarrow> acc = 0 \<and> a = b"
  by (auto simp: bit_eq_iff bit_or_iff bit_xor_iff)

lemma difference_zero: "length l = length r \<Longrightarrow> difference acc l r = 0 \<longleftrightarrow> acc = 0 \<and> l = r"
  by (induction acc l r rule: difference.induct) (auto simp: or_xor_zero)

text \<open>The comparison of tokens takes every character and decides equality.\<close>

lemma same_iff: "same l r \<longleftrightarrow> l = r"
  by (auto simp: same_def difference_zero)

definition may_reach :: "AddressClasses \<Rightarrow> Network list \<Rightarrow> Address \<Rightarrow> bool" where
  "may_reach cls approved a \<longleftrightarrow>
     (case refusal cls a of
        None \<Rightarrow> True
      | Some r \<Rightarrow> (r = PRIVATE \<or> r = CARRIER_GRADE_NAT) \<and> approved_address a approved)"

lemma first_refusal_None: "first_refusal cls approved as = None \<longleftrightarrow> (\<forall>a \<in> set as. may_reach cls approved a)"
  by (induction cls approved as rule: first_refusal.induct) (auto simp: may_reach_def split: option.splits)

lemma verdict_allowed:
  "av_allowed (verdict cls as approved) \<longleftrightarrow> as \<noteq> [] \<and> (\<forall>a \<in> set as. may_reach cls approved a)"
  by (auto simp: verdict_def first_refusal_None[symmetric] split: option.splits)

lemma verdict_address: "av_allowed (verdict cls as approved) \<Longrightarrow> av_address (verdict cls as approved) = Some (hd as)"
  by (auto simp: verdict_def split: if_splits option.splits)

lemma refused_not_allowed [simp]: "\<not> pv_allowed (refused r)" "\<not> pv_allowed (address_refused q)"
  by (simp_all add: refused_def address_refused_def)

text \<open>What an allowed verdict means.\<close>

lemma decide_allowed:
  assumes "pv_allowed (decide low tg sc as approved (verdict cls) ports)"
  shows "tg_scheme tg \<in> set ALLOWED_SCHEMES" "tg_port tg \<in> set ports" "as \<noteq> []"
    "allows_host low sc (tg_host tg) \<or> (\<forall>a \<in> set as. allows_address sc a)"
    "\<forall>a \<in> set as. may_reach cls approved a"
    "tg_scheme tg = py ''http'' \<Longrightarrow> approved_address (hd as) approved"
    "pv_address (decide low tg sc as approved (verdict cls) ports) = Some (hd as)"
proof -
  have early: "check_request low tg sc ports = None" and some: "as \<noteq> []"
    using assms by (auto simp: decide_def split: option.splits if_splits)
  show "tg_scheme tg \<in> set ALLOWED_SCHEMES" "tg_port tg \<in> set ports"
    using early by (auto simp: check_request_def split: if_splits)
  show "as \<noteq> []" by (rule some)
  show "allows_host low sc (tg_host tg) \<or> (\<forall>a \<in> set as. allows_address sc a)"
    using assms early some by (auto simp: decide_def list_all_iff split: if_splits)
  have v: "av_allowed (verdict cls as approved)"
    using assms early some by (auto simp: decide_def Let_def split: if_splits)
  then show "\<forall>a \<in> set as. may_reach cls approved a" by (simp add: verdict_allowed)
  show "approved_address (hd as) approved" if "tg_scheme tg = py ''http''"
    using assms early some v that verdict_address[OF v]
    by (auto simp: decide_def Let_def inside_def approved_address_def split: if_splits)
  show "pv_address (decide low tg sc as approved (verdict cls) ports) = Some (hd as)"
    using assms early some v verdict_address[OF v] by (auto simp: decide_def Let_def split: if_splits)
qed

lemma serve_one_connect:
  assumes "serve_one low up nfkc policy settings layers_for sandbox_claim resolve peer hd_bytes = Connect a port payload"
  shows "\<exists>rq claim layers. parse_head low up nfkc hd_bytes = Inr rq \<and>
    identify low settings sandbox_claim peer rq = Some claim \<and> layers_for claim = Inr layers \<and>
    (let v = decide low \<lparr>tg_scheme = rq_scheme rq, tg_host = rq_host rq, tg_port = rq_port rq\<rparr> (effective low layers)
               (resolve (rq_host rq) (rq_port rq)) (ps_approved_networks settings) policy (ps_allowed_ports settings)
     in pv_allowed v \<and> pv_address v = Some a) \<and> connect low rq a = Connect a port payload"
proof -
  obtain rq where rq: "parse_head low up nfkc hd_bytes = Inr rq"
    using assms by (auto simp: serve_one_def split: if_splits sum.splits HeadError.splits)
  obtain claim where claim: "identify low settings sandbox_claim peer rq = Some claim"
    using assms rq by (auto simp: serve_one_def split: if_splits option.splits)
  obtain layers where layers: "layers_for claim = Inr layers"
    using assms rq claim by (auto simp: serve_one_def split: if_splits sum.splits)
  show ?thesis using assms rq claim layers
    by (auto simp: serve_one_def connect_def Let_def split: if_splits option.splits)
qed

lemma set_present_layers:
  "set (present_layers ly) = {ly_platform ly} \<union> set_option (ly_workspace ly) \<union> set_option (ly_agent ly) \<union> set_option (ly_run ly)"
  by (auto simp: present_layers_def split: option.splits)

text \<open>Layers can only take away: what all of them together reach, each of them reaches.\<close>

lemma effective_hosts:
  "\<forall>sc \<in> set (present_layers ly). scope_tidy sc \<Longrightarrow> allows_host low (effective low ly) h \<Longrightarrow>
   sc \<in> set (present_layers ly) \<Longrightarrow> allows_host low sc h"
  using intersect_hosts by (simp add: effective_def)

lemma effective_addresses:
  "\<forall>sc \<in> set (present_layers ly). scope_tidy sc \<Longrightarrow> allows_address (effective low ly) a \<Longrightarrow>
   sc \<in> set (present_layers ly) \<Longrightarrow> allows_address sc a"
  using intersect_addresses by (simp add: effective_def)

section \<open>What is sent on\<close>

fun no_crlf :: "pystr \<Rightarrow> bool" where
  "no_crlf (c # d # cs) \<longleftrightarrow> \<not> (c = 13 \<and> d = 10) \<and> no_crlf (d # cs)"
| "no_crlf _ \<longleftrightarrow> True"

lemma no_crlf_append:
  "no_crlf (xs @ ys) \<longleftrightarrow> no_crlf xs \<and> no_crlf ys \<and> \<not> (xs \<noteq> [] \<and> ys \<noteq> [] \<and> last xs = 13 \<and> hd ys = 10)"
proof (induction xs rule: induct_list012)
  case (2 c)
  then show ?case by (cases ys) auto
qed auto

lemma no_crlf_Cons: "c \<noteq> 13 \<Longrightarrow> no_crlf (c # s) \<longleftrightarrow> no_crlf s"
  by (cases s) auto

lemma no_crlf_part: "no_crlf (xs @ ys @ zs) \<Longrightarrow> no_crlf ys"
  by (simp add: no_crlf_append)

lemma no_crlf_without: "10 \<notin> set s \<Longrightarrow> no_crlf s"
  by (induction s rule: no_crlf.induct) auto

lemma split_crlf_not_Nil [simp]: "split_crlf s \<noteq> []"
  by (induction s rule: split_crlf.induct) (auto split: list.splits)

lemma split_crlf_lines: "l \<in> set (split_crlf s) \<Longrightarrow> no_crlf l"
proof -
  have "(\<forall>l \<in> set (split_crlf s). no_crlf l) \<and> (s = [] \<or> hd (split_crlf s) = [] \<or> hd (hd (split_crlf s)) = hd s)"
  proof (induction s rule: split_crlf.induct)
    case (3 c d cs)
    show ?case
    proof (cases "c = 13 \<and> d = 10")
      case False
      obtain l ls where ls: "split_crlf (d # cs) = l # ls" using split_crlf_not_Nil by (metis neq_Nil_conv)
      have "no_crlf (c # l)" using 3 False ls by (cases l) auto
      then show ?thesis using 3 False ls by auto
    qed (use 3 in auto)
  qed auto
  then show "l \<in> set (split_crlf s) \<Longrightarrow> no_crlf l" by blast
qed

lemma split_crlf_line: "no_crlf l \<Longrightarrow> split_crlf (l @ 13 # 10 # rest) = l # split_crlf rest"
  by (induction l rule: no_crlf.induct) (auto split: list.splits)

lemma split_crlf_join:
  "ls \<noteq> [] \<Longrightarrow> \<forall>l \<in> set ls. no_crlf l \<Longrightarrow>
   split_crlf (py_join [13, 10] ls @ 13 # 10 # rest) = ls @ split_crlf rest"
  by (induction "[13, 10] :: pystr" ls rule: py_join.induct) (auto simp: split_crlf_line)

lemma py_strip_part: "\<exists>a b. s = a @ py_strip s @ b"
proof -
  obtain b where "dropWhile is_space s = py_strip s @ b"
    using rev_dropWhile_rev[of "dropWhile is_space s" is_space] by (auto simp: py_strip_def)
  then show ?thesis using takeWhile_dropWhile_id[of is_space s] by metis
qed

lemma no_crlf_strip: "no_crlf s \<Longrightarrow> no_crlf (py_strip s)"
  using py_strip_part[of s] no_crlf_part by metis

lemma py_strip_blank: "py_strip (32 # s) = py_strip s"
  by (simp add: py_strip_def is_space_def)

definition header_plain :: "pystr \<times> pystr \<Rightarrow> bool" where
  "header_plain h \<longleftrightarrow> no_crlf (fst h) \<and> no_crlf (snd h) \<and> 58 \<notin> set (fst h) \<and>
     py_strip (fst h) = fst h \<and> py_strip (snd h) = snd h"

lemma partition_plain: "py_partition c s = (a, found, b) \<Longrightarrow> c \<notin> set a"
  by (auto simp: py_partition_def dest: set_takeWhileD split: if_splits)

lemma read_headers_plain:
  "read_headers lines = Inr hs \<Longrightarrow> \<forall>l \<in> set lines. no_crlf l \<Longrightarrow> \<forall>h \<in> set hs. header_plain h"
proof (induction lines arbitrary: hs)
  case (Cons line lines)
  show ?case
  proof (cases "line = []")
    case False
    obtain key sep v where p: "py_partition 58 line = (key, sep, v)" by (metis prod_cases3)
    obtain rest where r: "sep" "read_headers lines = Inr rest" "hs = (py_strip key, py_strip v) # rest"
      using Cons.prems(1) False p by (auto split: if_splits)
    have "line = key @ 58 # v" using p r(1) py_partition_join by simp
    then have "no_crlf key" "no_crlf v" using Cons.prems(2) by (auto simp: no_crlf_append) (metis append_Cons append_Nil no_crlf_append)
    moreover have "58 \<notin> set (py_strip key)" using partition_plain[OF p] set_py_strip by blast
    ultimately have "header_plain (py_strip key, py_strip v)" by (simp add: header_plain_def no_crlf_strip)
    then show ?thesis using Cons r by simp
  qed (use Cons in simp)
qed simp

definition header_line :: "pystr \<times> pystr \<Rightarrow> pystr" where
  "header_line h = fst h @ py '': '' @ snd h"

lemma header_line_read:
  assumes "header_plain h"
  shows "no_crlf (header_line h)"
    "read_headers (header_line h # lines) = map_sum id ((#) h) (read_headers lines)"
proof -
  have colon: "py '': '' = [58, 32]" by (simp add: py_def)
  show "no_crlf (header_line h)" using assms
    by (cases h) (auto simp: header_plain_def header_line_def colon no_crlf_append no_crlf_Cons)
  have "py_partition 58 (header_line h) = (fst h, True, 32 # snd h)"
    using assms by (auto simp: header_plain_def header_line_def colon py_partition_def takeWhile_append dropWhile_append)
  then show "read_headers (header_line h # lines) = map_sum id ((#) h) (read_headers lines)"
    using assms by (simp add: header_line_def colon header_plain_def py_strip_blank)
qed

lemma read_header_lines:
  "\<forall>h \<in> set hs. header_plain h \<Longrightarrow> read_headers (map header_line hs @ lines) = map_sum id ((@) hs) (read_headers lines)"
proof (induction hs)
  case (Cons h hs)
  then show ?case using header_line_read(2)[of h] by (cases "read_headers lines") (auto simp del: read_headers.simps)
qed (cases "read_headers lines"; simp)

text \<open>Upper case makes no line break: \<open>str.upper\<close> maps characters one by one.\<close>

definition upper_ok :: "(pystr \<Rightarrow> pystr) \<Rightarrow> bool" where
  "upper_ok up \<longleftrightarrow> (\<forall>s. 10 \<notin> set s \<or> no_crlf s \<longrightarrow> no_crlf (up s))"

lemma no_crlf_upper: "upper_ok up \<Longrightarrow> no_crlf s \<Longrightarrow> no_crlf (py_upper up s)"
proof -
  have "no_crlf s \<Longrightarrow> no_crlf (map upper_char s)"
    by (induction s rule: no_crlf.induct) (auto simp: upper_char_def)
  then show "upper_ok up \<Longrightarrow> no_crlf s \<Longrightarrow> no_crlf (py_upper up s)" by (simp add: py_upper_def upper_ok_def)
qed

lemma split_netloc_chars: "split_netloc u = (a, b) \<Longrightarrow> set a \<subseteq> set u \<and> set b \<subseteq> set u"
  by (auto simp: split_netloc_def dest: set_takeWhileD set_dropWhileD in_set_dropD split: if_splits)

lemma split_scheme_chars: "split_scheme u = (a, b) \<Longrightarrow> set b \<subseteq> set u"
proof -
  have "py_partition 58 u = (x, True, y) \<Longrightarrow> set y \<subseteq> set u" for x y by (auto dest!: py_partition_join)
  then show "split_scheme u = (a, b) \<Longrightarrow> set b \<subseteq> set u"
    by (auto simp: split_scheme_def split: prod.splits if_splits)
qed

lemma partition_chars: "py_partition c s = (a, f, b) \<Longrightarrow> set a \<union> set b \<subseteq> set s"
proof (cases f)
  case True
  then show "py_partition c s = (a, f, b) \<Longrightarrow> set a \<union> set b \<subseteq> set s" by (auto dest!: py_partition_join)
qed (auto simp: py_partition_def split: if_splits)

lemma urlsplit_chars:
  assumes "urlsplit nfkc u = Some sp"
  shows "10 \<notin> set (url_path sp)" "10 \<notin> set (url_query sp)"
proof -
  define c where "c = filter (\<lambda>c. c \<notin> {9, 10, 13}) (dropWhile (\<lambda>c. c \<le> 32) u)"
  obtain s r where sr: "split_scheme c = (s, r)" by fastforce
  obtain n q where nq: "split_netloc r = (n, q)" by fastforce
  obtain pa f qu where pq: "py_partition 63 (takeWhile (\<lambda>c. c \<noteq> 35) q) = (pa, f, qu)" by (metis prod_cases3)
  have "sp = \<lparr>url_scheme = s, url_netloc = n, url_path = pa, url_query = qu\<rparr>"
    using assms unfolding urlsplit_def c_def[symmetric] Let_def sr nq pq prod.case by (simp split: if_splits)
  moreover have "10 \<notin> set q"
    using split_netloc_chars[OF nq] split_scheme_chars[OF sr] by (auto simp: c_def)
  then have "10 \<notin> set pa" "10 \<notin> set qu" using partition_chars[OF pq] by (auto dest: set_takeWhileD)
  ultimately show "10 \<notin> set (url_path sp)" "10 \<notin> set (url_query sp)" by simp_all
qed

definition request_plain :: "ProxyRequest \<Rightarrow> bool" where
  "request_plain rq \<longleftrightarrow> no_crlf (rq_method rq) \<and> 10 \<notin> set (rq_path rq) \<and> no_crlf (rq_version rq) \<and>
     (\<forall>h \<in> set (rq_headers rq). header_plain h)"

lemma partition_no_crlf: "no_crlf s \<Longrightarrow> py_partition c s = (a, f, b) \<Longrightarrow> no_crlf a \<and> no_crlf b"
proof (cases f)
  case True
  assume "no_crlf s" "py_partition c s = (a, f, b)"
  then have "no_crlf (a @ [c] @ b)" using True py_partition_join by simp
  then show ?thesis using no_crlf_append by blast
qed (auto simp: py_partition_def split: if_splits)

lemma parse_head_plain:
  assumes "upper_ok up" "parse_head low up nfkc bytes = Inr rq"
  shows "request_plain rq"
proof -
  let ?first = "hd (split_crlf bytes)"
  obtain m f r where m: "py_partition 32 ?first = (m, f, r)" by (metis prod_cases3)
  obtain t g v where t: "py_partition 32 r = (t, g, v)" by (metis prod_cases3)
  have lines: "\<forall>l \<in> set (split_crlf bytes). no_crlf l" using split_crlf_lines by blast
  then have "no_crlf ?first" by simp
  then have mv: "no_crlf m" "no_crlf v" using partition_no_crlf m t by blast+
  obtain hs where hs: "read_headers (tl (split_crlf bytes)) = Inr hs"
    using assms(2) m t by (auto simp: parse_head_def Let_def split: if_splits)
  have "\<forall>h \<in> set hs. header_plain h"
    using read_headers_plain[OF hs] lines by (meson list.set_sel(2) split_crlf_not_Nil)
  moreover have "rq_headers rq = hs" "rq_version rq = v" "rq_method rq = py ''CONNECT'' \<or> rq_method rq = py_upper up m"
    using assms(2) m t hs by (auto simp: parse_head_def Let_def split: if_splits option.splits)
  moreover have "10 \<notin> set (rq_path rq)"
    using assms(2) m t hs urlsplit_chars[of nfkc t]
    by (auto simp: parse_head_def Let_def py_def split: if_splits option.splits)
  moreover have "no_crlf (py ''CONNECT'')" by (simp add: py_def)
  ultimately show ?thesis using mv no_crlf_upper[OF assms(1)] by (auto simp: request_plain_def)
qed

text \<open>The head sent on reads back as the forwarded headers and the request to close.\<close>

lemma forwarded_head_reads:
  assumes "request_plain rq" "forwarded_head low rq = Some sent"
  shows "\<exists>line. split_crlf sent = line # map header_line (forwarded_headers low rq) @ [py ''Connection: close'', [], []]"
    "read_headers (tl (split_crlf sent)) = Inr (forwarded_headers low rq @ [(py ''Connection'', py ''close'')])"
proof -
  let ?line = "rq_method rq @ [32] @ rq_path rq @ [32] @ rq_version rq"
  let ?hs = "forwarded_headers low rq"
  have hs: "\<forall>h \<in> set ?hs. header_plain h" using assms(1) by (auto simp: request_plain_def forwarded_headers_def)
  have close: "header_plain (py ''Connection'', py ''close'')" "header_line (py ''Connection'', py ''close'') = py ''Connection: close''"
    by (simp_all add: header_plain_def header_line_def py_def py_strip_def is_space_def)
  have "no_crlf ?line" using assms(1) by (auto simp: request_plain_def no_crlf_append no_crlf_Cons no_crlf_without)
  then have lines: "\<forall>l \<in> set ([?line] @ map header_line ?hs @ [py ''Connection: close'']). no_crlf l"
    using hs header_line_read(1) close by force
  have shape: "map (\<lambda>(key, v). key @ py '': '' @ v) ?hs = map header_line ?hs"
    by (simp add: header_line_def case_prod_unfold)
  have "sent = py_join [13, 10] ([?line] @ map header_line ?hs @ [py ''Connection: close'']) @ 13 # 10 # [13, 10]"
    using assms(2) unfolding forwarded_head_def Let_def shape by (auto split: if_splits)
  then have s: "split_crlf sent = ([?line] @ map header_line ?hs @ [py ''Connection: close'']) @ [[], []]"
    using split_crlf_join[OF _ lines, of "[13, 10]"] by simp
  then show "\<exists>line. split_crlf sent = line # map header_line ?hs @ [py ''Connection: close'', [], []]" by simp
  have "read_headers (tl (split_crlf sent)) =
    read_headers (map header_line (?hs @ [(py ''Connection'', py ''close'')]) @ [[], []])"
    using s close(2) by simp
  also have "\<dots> = Inr (?hs @ [(py ''Connection'', py ''close'')])"
    using read_header_lines[of "?hs @ [(py ''Connection'', py ''close'')]" "[[], []]"] hs close(1) by simp
  finally show "read_headers (tl (split_crlf sent)) = Inr (?hs @ [(py ''Connection'', py ''close'')])" .
qed

end
