(* ===== verification/Scope_Directory.thy ===== *)
theory Scope_Directory
  imports Egress
begin

text \<open>
  Where the proxy learns what each layer approved: the port \<^verbatim>\<open>egress/ports/directory.py\<close> as
  two locales, and its two providers, \<^verbatim>\<open>egress/infrastructure/memory_directory.py\<close> and
  \<^verbatim>\<open>egress/infrastructure/sql_directory.py\<close>. The tables the second one reads are lists
  of rows; the time is an argument. What a connection of the proxy implies is proved once, over
  the port, and stated for the directory a deployment runs.
\<close>

section \<open>A directory in memory\<close>

record MemoryScopeDirectory =
  md_platform :: OutboundScope
  md_workspaces :: "nat \<rightharpoonup> OutboundScope"
  md_agents :: "nat \<rightharpoonup> OutboundScope"
  md_runs :: "nat \<rightharpoonup> OutboundScope"
  md_sandboxes :: "Address \<rightharpoonup> CallerClaim"

definition named :: "(nat \<rightharpoonup> OutboundScope) \<Rightarrow> nat option \<Rightarrow> OutboundScope option" where
  "named known wanted =
     (case wanted of None \<Rightarrow> None | Some i \<Rightarrow> Some (case known i of None \<Rightarrow> [] | Some sc \<Rightarrow> sc))"

definition memory_layers_for :: "MemoryScopeDirectory \<Rightarrow> CallerClaim \<Rightarrow> (ScopeEntryInvalid, ScopeLayers) result" where
  "memory_layers_for d claim =
     (if cc_discovery_id claim \<noteq> None
      then Inr \<lparr>ly_platform = [], ly_workspace = None, ly_agent = None, ly_run = None\<rparr>
      else Inr \<lparr>ly_platform = md_platform d,
                ly_workspace = named (md_workspaces d) (cc_workspace_id claim),
                ly_agent = named (md_agents d) (cc_agent_version_id claim),
                ly_run = named (md_runs d) (cc_run_id claim)\<rparr>)"

definition memory_sandbox_claim :: "MemoryScopeDirectory \<Rightarrow> Address \<Rightarrow> CallerClaim option" where
  "memory_sandbox_claim d a = md_sandboxes d a"

definition register_sandbox ::
  "Address \<Rightarrow> nat \<Rightarrow> nat option \<Rightarrow> nat option \<Rightarrow> MemoryScopeDirectory \<Rightarrow> MemoryScopeDirectory" where
  "register_sandbox a workspace agent run d =
     d\<lparr>md_sandboxes := (md_sandboxes d)(a \<mapsto>
         \<lparr>cc_kind = SANDBOX, cc_workspace_id = Some workspace, cc_agent_version_id = agent, cc_run_id = run,
          cc_discovery_id = None\<rparr>)\<rparr>"

section \<open>The directory in the database\<close>

record OutboundScopeRow =
  os_level :: pystr
  os_workspace :: "nat option"
  os_entry :: pystr

record EgressRunRow =
  er_id :: nat
  er_workspace :: nat
  er_agent_version :: nat
  er_delegation_scope :: json

record DiscoveryGrant =
  dg_id :: nat
  dg_host :: pystr
  dg_expires_at :: int

record EgressDb =
  db_scopes :: "OutboundScopeRow list"
  db_specs :: "(nat \<times> json) list"
  db_runs :: "EgressRunRow list"
  db_addresses :: "(pystr \<times> nat) list"
  db_grants :: "DiscoveryGrant list"

definition level_scope ::
  "(pystr \<Rightarrow> pystr) \<Rightarrow> EgressDb \<Rightarrow> pystr \<Rightarrow> nat option \<Rightarrow> (ScopeEntryInvalid, OutboundScope) result" where
  "level_scope low db level workspace =
     scope_of low (map os_entry (filter (\<lambda>r. os_level r = level \<and> os_workspace r = workspace) (db_scopes db)))"

definition agent_scope ::
  "(pystr \<Rightarrow> pystr) \<Rightarrow> (nat \<Rightarrow> bool) \<Rightarrow> EgressDb \<Rightarrow> nat \<Rightarrow> (ScopeEntryInvalid, OutboundScope) result" where
  "agent_scope low prn db version =
     (case map_of (db_specs db) version of
        Some (JDict document) \<Rightarrow>
          (case jget document (py ''network'') of
             Some (JDict network) \<Rightarrow>
               (case jget network (py ''allow'') of
                  Some (JList entries) \<Rightarrow> scope_of low (map (py_str prn) entries)
                | _ \<Rightarrow> Inr [])
           | _ \<Rightarrow> Inr [])
      | _ \<Rightarrow> Inr [])"

definition run_scope ::
  "(pystr \<Rightarrow> pystr) \<Rightarrow> (nat \<Rightarrow> bool) \<Rightarrow> EgressDb \<Rightarrow> nat \<Rightarrow> (ScopeEntryInvalid, OutboundScope option) result" where
  "run_scope low prn db run =
     (case find (\<lambda>r. er_id r = run) (db_runs db) of
        None \<Rightarrow> Inr None
      | Some r \<Rightarrow>
          (case er_delegation_scope r of
             JDict document \<Rightarrow>
               (case jget document (py ''network'') of
                  Some (JList entries) \<Rightarrow> map_sum id Some (scope_of low (map (py_str prn) entries))
                | _ \<Rightarrow> Inr (Some []))
           | _ \<Rightarrow> Inr None))"

definition discovery_scope ::
  "(pystr \<Rightarrow> pystr) \<Rightarrow> EgressDb \<Rightarrow> int \<Rightarrow> CallerClaim \<Rightarrow> nat \<Rightarrow> (ScopeEntryInvalid, OutboundScope) result" where
  "discovery_scope low db now claim grant =
     (if cc_kind claim = PLATFORM \<and> cc_workspace_id claim = None \<and> cc_agent_version_id claim = None \<and>
         cc_run_id claim = None
      then (case find (\<lambda>g. dg_id g = grant \<and> dg_expires_at g > now) (db_grants db) of
              None \<Rightarrow> Inr []
            | Some g \<Rightarrow> (if dg_host g = [] then Inr [] else scope_of low [dg_host g]))
      else Inr [])"

definition optional :: "('i \<Rightarrow> ('e, 'a option) result) \<Rightarrow> 'i option \<Rightarrow> ('e, 'a option) result" where
  "optional f wanted = (case wanted of None \<Rightarrow> Inr None | Some i \<Rightarrow> f i)"

definition sql_layers_for ::
  "(pystr \<Rightarrow> pystr) \<Rightarrow> (nat \<Rightarrow> bool) \<Rightarrow> EgressDb \<Rightarrow> int \<Rightarrow> CallerClaim \<Rightarrow> (ScopeEntryInvalid, ScopeLayers) result" where
  "sql_layers_for low prn db now claim =
     (case cc_discovery_id claim of
        Some grant \<Rightarrow>
          map_sum id (\<lambda>sc. \<lparr>ly_platform = sc, ly_workspace = None, ly_agent = None, ly_run = None\<rparr>)
            (discovery_scope low db now claim grant)
      | None \<Rightarrow>
          bind_res (level_scope low db (py ''platform'') None)
            (\<lambda>platform.
               bind_res (optional (\<lambda>w. map_sum id Some (level_scope low db (py ''workspace'') (Some w)))
                           (cc_workspace_id claim))
                 (\<lambda>workspace.
                    bind_res (optional (\<lambda>v. map_sum id Some (agent_scope low prn db v)) (cc_agent_version_id claim))
                      (\<lambda>agent.
                         bind_res (optional (run_scope low prn db) (cc_run_id claim))
                           (\<lambda>run. Inr \<lparr>ly_platform = platform, ly_workspace = workspace, ly_agent = agent,
                                       ly_run = run\<rparr>)))))"

fun address_str :: "Address \<Rightarrow> pystr" where
  "address_str (IPv4 w) = v4_string w"
| "address_str (IPv6 w scope) = v6_string w @ (case scope of None \<Rightarrow> [] | Some s \<Rightarrow> 37 # s)"

definition sql_sandbox_claim :: "EgressDb \<Rightarrow> Address \<Rightarrow> CallerClaim option" where
  "sql_sandbox_claim db a =
     map_option
       (\<lambda>r. \<lparr>cc_kind = SANDBOX, cc_workspace_id = Some (er_workspace r),
            cc_agent_version_id = Some (er_agent_version r), cc_run_id = Some (er_id r), cc_discovery_id = None\<rparr>)
       (find (\<lambda>r. (address_str a, er_id r) \<in> set (db_addresses db)) (db_runs db))"

section \<open>The port\<close>

text \<open>A layer the claim names is there, one it does not name is not. The layer of a Run is left
  open: most Runs were not delegated and have none.\<close>

locale scope_directory =
  fixes layers_for :: "CallerClaim \<Rightarrow> (ScopeEntryInvalid, ScopeLayers) result"
  assumes workspace_layer: "layers_for claim = Inr ly \<Longrightarrow> cc_discovery_id claim = None \<Longrightarrow>
      (ly_workspace ly = None \<longleftrightarrow> cc_workspace_id claim = None)"
    and agent_layer: "layers_for claim = Inr ly \<Longrightarrow> cc_discovery_id claim = None \<Longrightarrow>
      (ly_agent ly = None \<longleftrightarrow> cc_agent_version_id claim = None)"
    and run_layer: "layers_for claim = Inr ly \<Longrightarrow> cc_discovery_id claim = None \<Longrightarrow> cc_run_id claim = None \<Longrightarrow> ly_run ly = None"
begin

lemma named_layers:
  assumes "layers_for claim = Inr ly" "cc_discovery_id claim = None"
  shows "cc_workspace_id claim \<noteq> None \<longrightarrow> (\<exists>sc. ly_workspace ly = Some sc \<and> sc \<in> set (present_layers ly))"
    "cc_agent_version_id claim \<noteq> None \<longrightarrow> (\<exists>sc. ly_agent ly = Some sc \<and> sc \<in> set (present_layers ly))"
  using workspace_layer[OF assms] agent_layer[OF assms] by (auto simp: set_present_layers)

lemma unnamed_is_platform:
  assumes "layers_for claim = Inr ly" "cc_discovery_id claim = None" "cc_workspace_id claim = None"
    "cc_agent_version_id claim = None" "cc_run_id claim = None"
  shows "present_layers ly = [ly_platform ly]"
  using workspace_layer[OF assms(1,2)] agent_layer[OF assms(1,2)] run_layer[OF assms(1,2)] assms(3-5)
  by (simp add: present_layers_def)

end

text \<open>No entry carries the line feed the pattern of a label lets pass.\<close>

definition plain_layers :: "ScopeLayers \<Rightarrow> bool" where
  "plain_layers ly \<longleftrightarrow> (\<forall>sc \<in> set (present_layers ly). \<forall>e \<in> set sc. 10 \<notin> set (se_text e))"

text \<open>Every entry of a layer was read by \<open>parse_entry\<close>.\<close>

locale parsed_directory = scope_directory +
  fixes low :: "pystr \<Rightarrow> pystr"
  assumes parsed: "layers_for claim = Inr ly \<Longrightarrow> sc \<in> set (present_layers ly) \<Longrightarrow> e \<in> set sc \<Longrightarrow>
      \<exists>txt. parse_entry low txt = Inr e"
begin

lemma layers_tidy: "layers_for claim = Inr ly \<Longrightarrow> plain_layers ly \<Longrightarrow> \<forall>sc \<in> set (present_layers ly). scope_tidy sc"
  using parsed parse_entry_tidy unfolding scope_tidy_def plain_layers_def by blast

lemma connect_approved:
  assumes "serve_one low up nfkc (verdict cls) settings layers_for sandbox_claim resolve peer bytes = Connect a port payload"
    and plain: "\<And>claim ly. layers_for claim = Inr ly \<Longrightarrow> plain_layers ly"
  obtains rq claim ly where "parse_head low up nfkc bytes = Inr rq"
    "identify low settings sandbox_claim peer rq = Some claim" "layers_for claim = Inr ly"
    "\<forall>sc \<in> set (present_layers ly). allows_host low sc (rq_host rq) \<or>
       (\<forall>b \<in> set (resolve (rq_host rq) (rq_port rq)). allows_address sc b)"
    "a \<in> set (resolve (rq_host rq) (rq_port rq))" "port = rq_port rq" "port \<in> set (ps_allowed_ports settings)"
    "rq_scheme rq \<in> set ALLOWED_SCHEMES"
    "\<forall>b \<in> set (resolve (rq_host rq) (rq_port rq)). may_reach cls (ps_approved_networks settings) b"
    "rq_scheme rq = py ''http'' \<longrightarrow> approved_address a (ps_approved_networks settings)"
    "connect low rq a = Connect a port payload"
proof -
  obtain rq claim ly where *: "parse_head low up nfkc bytes = Inr rq"
    "identify low settings sandbox_claim peer rq = Some claim" "layers_for claim = Inr ly"
    and v: "pv_allowed (decide low \<lparr>tg_scheme = rq_scheme rq, tg_host = rq_host rq, tg_port = rq_port rq\<rparr> (effective low ly)
        (resolve (rq_host rq) (rq_port rq)) (ps_approved_networks settings) (verdict cls) (ps_allowed_ports settings))"
      "pv_address (decide low \<lparr>tg_scheme = rq_scheme rq, tg_host = rq_host rq, tg_port = rq_port rq\<rparr> (effective low ly)
        (resolve (rq_host rq) (rq_port rq)) (ps_approved_networks settings) (verdict cls) (ps_allowed_ports settings)) = Some a"
    and c: "connect low rq a = Connect a port payload"
    using serve_one_connect[OF assms(1)] by (auto simp: Let_def)
  note d = decide_allowed[OF v(1), simplified]
  have a: "a = hd (resolve (rq_host rq) (rq_port rq))" using d(7) v(2) by simp
  have port: "port = rq_port rq" using c by (simp add: connect_def)
  have tidy: "\<forall>sc \<in> set (present_layers ly). scope_tidy sc" using layers_tidy[OF *(3) plain[OF *(3)]] .
  have layers: "\<forall>sc \<in> set (present_layers ly). allows_host low sc (rq_host rq) \<or>
       (\<forall>b \<in> set (resolve (rq_host rq) (rq_port rq)). allows_address sc b)"
    using d(4) effective_hosts[OF tidy] effective_addresses[OF tidy] by blast
  show thesis using that[OF * layers] a port d c by simp
qed

end

lemma scope_of_parsed: "scope_of low texts = Inr sc \<Longrightarrow> e \<in> set sc \<Longrightarrow> \<exists>txt. parse_entry low txt = Inr e"
proof -
  assume "scope_of low texts = Inr sc" "e \<in> set sc"
  then obtain es where "map_res (parse_entry low) texts = Inr es" "e \<in> set es"
    using deduplicated_from by (auto simp: scope_of_def)
  then show ?thesis by (auto simp: map_res_Inr_iff in_set_conv_nth dest: list_all2_nthD2)
qed

interpretation memory: scope_directory "memory_layers_for d" for d
  by unfold_locales (auto simp: memory_layers_for_def named_def split: option.splits)

lemma discovery_parsed:
  "discovery_scope low db now claim grant = Inr sc \<Longrightarrow> e \<in> set sc \<Longrightarrow> \<exists>txt. parse_entry low txt = Inr e"
  by (auto simp: discovery_scope_def split: if_splits option.splits intro: scope_of_parsed)

lemma agent_parsed: "agent_scope low prn db v = Inr sc \<Longrightarrow> e \<in> set sc \<Longrightarrow> \<exists>txt. parse_entry low txt = Inr e"
  by (auto simp: agent_scope_def split: option.splits json.splits intro: scope_of_parsed)

lemma run_parsed: "run_scope low prn db r = Inr (Some sc) \<Longrightarrow> e \<in> set sc \<Longrightarrow> \<exists>txt. parse_entry low txt = Inr e"
  by (auto simp: run_scope_def split: option.splits json.splits intro: scope_of_parsed)

lemma optional_Inr:
  "optional f w = Inr (Some x) \<longleftrightarrow> (\<exists>i. w = Some i \<and> f i = Inr (Some x))"
  "optional f w = Inr None \<longleftrightarrow> w = None \<or> (\<exists>i. w = Some i \<and> f i = Inr None)"
  by (auto simp: optional_def split: option.splits)

lemma sql_layers_cases:
  assumes "sql_layers_for low prn db now claim = Inr ly" "cc_discovery_id claim = None"
  shows "level_scope low db (py ''platform'') None = Inr (ly_platform ly)"
    "optional (\<lambda>w. map_sum id Some (level_scope low db (py ''workspace'') (Some w))) (cc_workspace_id claim) = Inr (ly_workspace ly)"
    "optional (\<lambda>v. map_sum id Some (agent_scope low prn db v)) (cc_agent_version_id claim) = Inr (ly_agent ly)"
    "optional (run_scope low prn db) (cc_run_id claim) = Inr (ly_run ly)"
  using assms by (auto simp: sql_layers_for_def)

lemma sql_parsed:
  assumes "sql_layers_for low prn db now claim = Inr ly" "sc \<in> set (present_layers ly)" "e \<in> set sc"
  shows "\<exists>txt. parse_entry low txt = Inr e"
proof (cases "cc_discovery_id claim")
  case (Some grant)
  then show ?thesis using assms
    by (auto simp: sql_layers_for_def set_present_layers intro: discovery_parsed)
next
  case None
  note l = sql_layers_cases[OF assms(1) None]
  from assms(2) consider "sc = ly_platform ly" | "ly_workspace ly = Some sc" | "ly_agent ly = Some sc" | "ly_run ly = Some sc"
    by (auto simp: set_present_layers)
  then show ?thesis
    using l assms(3) agent_parsed run_parsed scope_of_parsed by cases (auto simp: optional_Inr level_scope_def)
qed

interpretation sql: parsed_directory "sql_layers_for low prn db now" low for low prn db now
proof
  fix claim ly
  assume *: "sql_layers_for low prn db now claim = Inr ly" "cc_discovery_id claim = None"
  note l = sql_layers_cases[OF *]
  show "ly_workspace ly = None \<longleftrightarrow> cc_workspace_id claim = None"
    using l(2) by (cases "ly_workspace ly") (auto simp: optional_Inr)
  show "ly_agent ly = None \<longleftrightarrow> cc_agent_version_id claim = None"
    using l(3) by (cases "ly_agent ly") (auto simp: optional_Inr)
  show "ly_run ly = None" if "cc_run_id claim = None"
    using l(4) that by (cases "ly_run ly") (auto simp: optional_Inr)
qed (rule sql_parsed)

section \<open>What a connection implies\<close>

text \<open>The holder of the token, or the sandbox registered at the peer's address.\<close>

definition known_caller :: "(pystr \<Rightarrow> pystr) \<Rightarrow> ProxySettings \<Rightarrow> EgressDb \<Rightarrow> pystr option \<Rightarrow> ProxyRequest \<Rightarrow> CallerClaim \<Rightarrow> bool" where
  "known_caller low settings db peer rq claim \<longleftrightarrow>
     (case header low rq (py ''Proxy-Authorization'') of
        Some auth \<Rightarrow> cc_kind claim = PLATFORM \<and> py_strip (snd (snd (py_partition 32 auth))) = ps_token settings
      | None \<Rightarrow> cc_kind claim = SANDBOX \<and> (\<exists>p b. peer = Some p \<and> ip_address p = Some b \<and> sql_sandbox_claim db b = Some claim))"

lemma identify_caller:
  "identify low settings (sql_sandbox_claim db) peer rq = Some claim \<Longrightarrow> known_caller low settings db peer rq claim"
  by (auto simp: identify_def known_caller_def same_iff claimed_layers_def Let_def sql_sandbox_claim_def bind_eq_Some_conv
      split: option.splits if_splits prod.splits)

text \<open>
  C12. The proxy opens a connection only for a caller it identified and only to a target every layer of
  that caller approves. When a request ends in a connection, the head was read, the caller is the
  platform process holding the token or the sandbox registered for the peer, and each layer the
  directory returns for the claim, the workspace's and the Agent's among them when the claim names
  them, approves the host by name or every address it resolved to. The connection goes to one of
  the resolved addresses, on the port asked for, which is an allowed one; no resolved address is
  loopback, link-local, unspecified, multicast or reserved, and a private or shared one lies in an
  approved range; plain HTTP stays inside approved ranges. A head that is sent on carries none of the hop-by-hop headers,
  the proxy's own credential among them, and ends with the request to close.
\<close>

theorem egress_connects_only_approved:
  assumes up: "upper_ok up"
    and plain: "\<forall>claim ly. sql_layers_for low prn db now claim = Inr ly \<longrightarrow> plain_layers ly"
    and served: "serve_one low up nfkc (verdict cls) settings (sql_layers_for low prn db now) (sql_sandbox_claim db) resolve
      peer bytes = Connect a port payload"
  shows "\<exists>rq claim ly. parse_head low up nfkc bytes = Inr rq \<and>
    identify low settings (sql_sandbox_claim db) peer rq = Some claim \<and> sql_layers_for low prn db now claim = Inr ly \<and>
    known_caller low settings db peer rq claim \<and>
    (\<forall>sc \<in> set (present_layers ly). allows_host low sc (rq_host rq) \<or>
       (\<forall>b \<in> set (resolve (rq_host rq) (rq_port rq)). allows_address sc b)) \<and>
    (cc_discovery_id claim = None \<longrightarrow> (cc_workspace_id claim \<noteq> None \<longrightarrow> ly_workspace ly \<noteq> None) \<and>
       (cc_agent_version_id claim \<noteq> None \<longrightarrow> ly_agent ly \<noteq> None)) \<and>
    a \<in> set (resolve (rq_host rq) (rq_port rq)) \<and> port = rq_port rq \<and> port \<in> set (ps_allowed_ports settings) \<and>
    rq_scheme rq \<in> set ALLOWED_SCHEMES \<and>
    (\<forall>b \<in> set (resolve (rq_host rq) (rq_port rq)). may_reach cls (ps_approved_networks settings) b) \<and>
    (rq_scheme rq = py ''http'' \<longrightarrow> approved_address a (ps_approved_networks settings)) \<and>
    (\<forall>sent. payload = Head sent \<longrightarrow> (\<exists>hs. read_headers (tl (split_crlf sent)) = Inr (hs @ [(py ''Connection'', py ''close'')]) \<and>
       set hs \<subseteq> set (rq_headers rq) \<and> (\<forall>h \<in> set hs. py_lower low (fst h) \<notin> set HOP_BY_HOP)))"
proof -
  obtain rq claim ly where *: "parse_head low up nfkc bytes = Inr rq"
    "identify low settings (sql_sandbox_claim db) peer rq = Some claim" "sql_layers_for low prn db now claim = Inr ly"
    "\<forall>sc \<in> set (present_layers ly). allows_host low sc (rq_host rq) \<or>
       (\<forall>b \<in> set (resolve (rq_host rq) (rq_port rq)). allows_address sc b)"
    "a \<in> set (resolve (rq_host rq) (rq_port rq))" "port = rq_port rq" "port \<in> set (ps_allowed_ports settings)"
    "rq_scheme rq \<in> set ALLOWED_SCHEMES"
    "\<forall>b \<in> set (resolve (rq_host rq) (rq_port rq)). may_reach cls (ps_approved_networks settings) b"
    "rq_scheme rq = py ''http'' \<longrightarrow> approved_address a (ps_approved_networks settings)"
    "connect low rq a = Connect a port payload"
    using sql.connect_approved[OF served] plain by blast
  have layers: "cc_discovery_id claim = None \<longrightarrow> (cc_workspace_id claim \<noteq> None \<longrightarrow> ly_workspace ly \<noteq> None) \<and>
       (cc_agent_version_id claim \<noteq> None \<longrightarrow> ly_agent ly \<noteq> None)"
    using sql.workspace_layer[OF *(3)] sql.agent_layer[OF *(3)] by simp
  have heads: "\<forall>sent. payload = Head sent \<longrightarrow> (\<exists>hs. read_headers (tl (split_crlf sent)) = Inr (hs @ [(py ''Connection'', py ''close'')]) \<and>
       set hs \<subseteq> set (rq_headers rq) \<and> (\<forall>h \<in> set hs. py_lower low (fst h) \<notin> set HOP_BY_HOP))"
  proof (intro allI impI)
    fix sent
    assume "payload = Head sent"
    then have "forwarded_head low rq = Some sent" using *(11) by (auto simp: connect_def split: if_splits option.splits)
    then show "\<exists>hs. read_headers (tl (split_crlf sent)) = Inr (hs @ [(py ''Connection'', py ''close'')]) \<and>
       set hs \<subseteq> set (rq_headers rq) \<and> (\<forall>h \<in> set hs. py_lower low (fst h) \<notin> set HOP_BY_HOP)"
      using forwarded_head_reads(2)[OF parse_head_plain[OF up *(1)]]
      by (intro exI[of _ "forwarded_headers low rq"]) (auto simp: forwarded_headers_def)
  qed
  show ?thesis
    by (intro exI[of _ rq] exI[of _ claim] exI[of _ ly] conjI *(1-10) layers heads identify_caller[OF *(2)])
qed

definition sample_db :: EgressDb where
  "sample_db =
     \<lparr>db_scopes = [\<lparr>os_level = py ''platform'', os_workspace = None, os_entry = py ''a.io''\<rparr>], db_specs = [],
      db_runs = [], db_addresses = [], db_grants = []\<rparr>"

definition sample_settings :: ProxySettings where
  "sample_settings = \<lparr>ps_token = py ''t'', ps_approved_networks = [], ps_allowed_ports = ALLOWED_PORTS\<rparr>"

definition no_classes :: AddressClasses where
  "no_classes = \<lparr>is_loopback = \<lambda>_. False, is_link_local = \<lambda>_. False, is_unspecified = \<lambda>_. False,
     is_multicast = \<lambda>_. False, is_reserved = \<lambda>_. False, is_private = \<lambda>_. False\<rparr>"

definition sample_head :: "nat list" where
  "sample_head = py ''CONNECT a.io:443 HTTP/1.1'' @ [13, 10] @ py ''Proxy-Authorization: Bearer t'' @ [13, 10, 13, 10]"

definition sample_request :: ProxyRequest where
  "sample_request =
     \<lparr>rq_method = py ''CONNECT'', rq_scheme = py ''https'', rq_host = py ''a.io'', rq_port = 443, rq_path = [],
      rq_version = py ''HTTP/1.1'', rq_headers = [(py ''Proxy-Authorization'', py ''Bearer t'')]\<rparr>"

lemma sample_parse: "parse_head (\<lambda>s. s) (\<lambda>s. s) (\<lambda>s. s) sample_head = Inr sample_request"
  by (simp add: parse_head_def sample_head_def sample_request_def py_def py_partition_def py_startswith_def
      py_upper_def is_ascii_def upper_char_def read_authority_def split_authority_def read_port_def int_of_str_def
      clean_host_def py_lower_def lower_char_def py_rstrip_of_def py_strip_def is_space_def)

lemma sample_sels:
  "rq_scheme sample_request = py ''https''" "rq_host sample_request = py ''a.io''" "rq_port sample_request = 443"
  "rq_method sample_request = py ''CONNECT''" "ps_allowed_ports sample_settings = [80, 443]"
  "ps_approved_networks sample_settings = []"
  by (simp_all add: sample_request_def sample_settings_def ALLOWED_PORTS_def)

lemma sample_identify:
  "identify (\<lambda>s. s) sample_settings (sql_sandbox_claim sample_db) None sample_request = Some (claimed_layers (\<lambda>s. s) None)"
  by (simp add: identify_def header_def sample_request_def sample_settings_def SCOPE_HEADER_def py_def py_partition_def
      py_lower_def is_ascii_def lower_char_def py_strip_def is_space_def same_def)

lemma sample_entry:
  "parse_entry (\<lambda>s. s) (py ''a.io'') = Inr \<lparr>se_text = py ''a.io'', se_network = None, se_wildcard = False\<rparr>"
  by (simp add: parse_entry_def py_def py_lower_def is_ascii_def lower_char_def py_strip_def is_space_def
      py_startswith_def clean_host_def py_rstrip_of_def label_match_def label_core_def alnum_def)

lemma sample_layers:
  "sql_layers_for (\<lambda>s. s) (\<lambda>_. True) sample_db 0 (claimed_layers (\<lambda>s. s) None) =
     Inr \<lparr>ly_platform = [\<lparr>se_text = py ''a.io'', se_network = None, se_wildcard = False\<rparr>], ly_workspace = None,
          ly_agent = None, ly_run = None\<rparr>"
  by (simp add: sql_layers_for_def claimed_layers_def level_scope_def scope_of_def sample_db_def optional_def sample_entry)

lemma sample_plain:
  assumes "sql_layers_for (\<lambda>s. s) (\<lambda>_. True) sample_db 0 claim = Inr ly"
  shows "plain_layers ly"
proof -
  have plain: "10 \<notin> set (py ''a.io'')" by (simp add: py_def)
  have scopes: "level_scope (\<lambda>s. s) sample_db l w = Inr sc \<Longrightarrow> \<forall>e \<in> set sc. 10 \<notin> set (se_text e)" for l w sc
    by (auto simp: level_scope_def scope_of_def sample_db_def sample_entry plain split: if_splits)
  have agents: "agent_scope (\<lambda>s. s) (\<lambda>_. True) sample_db v = Inr []" for v by (simp add: agent_scope_def sample_db_def)
  have runs: "run_scope (\<lambda>s. s) (\<lambda>_. True) sample_db r = Inr None" for r by (simp add: run_scope_def sample_db_def)
  show ?thesis
  proof (cases "cc_discovery_id claim")
    case (Some g)
    then show ?thesis using assms
      by (auto simp: sql_layers_for_def discovery_scope_def sample_db_def plain_layers_def set_present_layers split: if_splits)
  next
    case None
    note l = sql_layers_cases[OF assms None]
    have ws: "ly_workspace ly = Some sc \<Longrightarrow> \<forall>e \<in> set sc. 10 \<notin> set (se_text e)" for sc
      using l(2) scopes by (auto simp: optional_Inr)
    have ag: "ly_agent ly = Some sc \<Longrightarrow> sc = []" for sc using l(3) by (auto simp: optional_Inr agents)
    have ru: "ly_run ly = None" using l(4) by (cases "ly_run ly") (auto simp: optional_Inr runs)
    show ?thesis using scopes[OF l(1)] ws ag ru by (auto simp: plain_layers_def set_present_layers)
  qed
qed

theorem egress_connects_only_approved_witness:
  "serve_one (\<lambda>s. s) (\<lambda>s. s) (\<lambda>s. s) (verdict no_classes) sample_settings
     (sql_layers_for (\<lambda>s. s) (\<lambda>_. True) sample_db 0) (sql_sandbox_claim sample_db) (\<lambda>_ _. [IPv4 16843009]) None sample_head
   = Connect (IPv4 16843009) 443 Tunnel \<and>
   (\<exists>rq claim. parse_head (\<lambda>s. s) (\<lambda>s. s) (\<lambda>s. s) sample_head = Inr rq \<and>
      known_caller (\<lambda>s. s) sample_settings sample_db None rq claim \<and> (443 :: int) \<in> set (ps_allowed_ports sample_settings))"
proof -
  have up: "upper_ok (\<lambda>s. s)" by (auto simp: upper_ok_def no_crlf_without)
  have host: "allows_host (\<lambda>s. s) [\<lparr>se_text = py ''a.io'', se_network = None, se_wildcard = False\<rparr>] (py ''a.io'')"
    by (simp add: allows_host_def matches_host_def clean_host_def py_def py_lower_def is_ascii_def lower_char_def py_strip_def
        is_space_def py_rstrip_of_def)
  have cgn: "\<not> in_network (IPv4 16843009) CARRIER_GRADE_NAT_NETWORK"
    by (simp add: CARRIER_GRADE_NAT_NETWORK_def in_block_def netmask_def mask_eq_exp_minus_1)
  have len: "\<not> MAX_HEAD_BYTES < length sample_head" by (simp add: sample_head_def MAX_HEAD_BYTES_def py_def)
  have served: "serve_one (\<lambda>s. s) (\<lambda>s. s) (\<lambda>s. s) (verdict no_classes) sample_settings
     (sql_layers_for (\<lambda>s. s) (\<lambda>_. True) sample_db 0) (sql_sandbox_claim sample_db) (\<lambda>_ _. [IPv4 16843009]) None sample_head
   = Connect (IPv4 16843009) 443 Tunnel"
    using host cgn len
    by (simp add: serve_one_def sample_parse sample_identify sample_layers effective_def present_layers_def intersect_def
        decide_def check_request_def sample_sels ALLOWED_SCHEMES_def refused_def
        verdict_def refusal_def no_classes_def connect_def tunnel_def)
  show ?thesis using served egress_connects_only_approved[OF up _ served] sample_plain by blast
qed

section \<open>Layers that drop out\<close>

text \<open>A claim that loses its workspace is measured against fewer layers, which is more: the header
  below names a workspace that cannot be read, and the claim is the one of a request naming none.\<close>

lemma malformed_claim_is_unnamed:
  "claimed_layers low (Some (py ''workspace=x'')) = claimed_layers low None"
proof -
  have "\<exists>e. uuid_of_str (py_strip (py ''x'')) = Inl e"
    by (simp add: uuid_of_str_def py_def py_strip_def is_space_def strip_braces_def Let_def)
  then have "found_ids low Map.empty (py_split 59 (py ''workspace=x'')) = Map.empty"
    by (auto simp: py_def py_partition_def)
  then show ?thesis by (simp add: claimed_layers_def)
qed

lemma fewer_layers_reach_more:
  assumes "ly_platform ly = sc" "ly_workspace ly = Some []"
  shows "effective low ly = []" "effective low (ly\<lparr>ly_workspace := None, ly_agent := None, ly_run := None\<rparr>) = deduplicated [] sc"
  using assms by (simp_all add: effective_def present_layers_def intersect_def narrow_def)

text \<open>A Run nobody knows has no layer, where an unknown Agent Version has an empty one.\<close>

lemma unknown_run_is_absent:
  "find (\<lambda>r. er_id r = run) (db_runs db) = None \<Longrightarrow> run_scope low prn db run = Inr None"
  "map_of (db_specs db) v = None \<Longrightarrow> agent_scope low prn db v = Inr []"
  by (simp_all add: run_scope_def agent_scope_def)

end
