(* ===== verification/Http_Tools.thy ===== *)
theory Http_Tools
  imports Http_Calls Outbound_Scope Tables
begin

text \<open>
  The catalog of HTTP tools: \<^verbatim>\<open>http_tools/application/service.py\<close> over
  \<^verbatim>\<open>http_tools/infrastructure/sql_store.py\<close>, the stored form of an operation in
  \<^verbatim>\<open>http_tools/infrastructure/documents.py\<close>, and the assembly of the operations a Run may
  call, \<open>_bound_operations\<close> in \<^verbatim>\<open>runs/infrastructure/sql_store.py\<close>. An operation of
  the service that raises leaves the tables as they were, since its transaction is rolled back. A
  fresh identifier is an argument of what draws it; identifiers are numbers, and the columns with
  times are left out. Lower case and NFKC of text that is not ASCII are the arguments \<open>low\<close>
  and \<open>nfkc\<close>, SHA-256 is \<open>digest\<close>, and what \<open>parse_document\<close> asks of
  floats and of the Unicode table is \<open>fl\<close> and \<open>prn\<close>.
\<close>

section \<open>Vocabulary\<close>

definition NAME_MAX_LENGTH :: nat where "NAME_MAX_LENGTH = 48"

datatype HttpToolStatus = ACTIVE | WITHDRAWN

datatype WorkspaceRole = WORKSPACE_ADMIN | DEVELOPER | VIEWER

record Actor =
  ac_id :: nat
  ac_is_platform_admin :: bool
  ac_is_service_account :: bool
  ac_role :: "WorkspaceRole option"

record HttpToolRow =
  ht_id :: nat
  ht_workspace_id :: nat
  ht_name :: pystr
  ht_base_url :: pystr
  ht_credential_ref :: "pystr option"
  ht_current_version_id :: "nat option"
  ht_created_by :: nat

record HttpToolVersionRow =
  hv_id :: nat
  hv_http_tool_id :: nat
  hv_version_number :: nat
  hv_content_hash :: pystr
  hv_title :: pystr
  hv_document_version :: pystr
  hv_operations :: "jobject list"
  hv_document :: pystr
  hv_status :: HttpToolStatus
  hv_created_by :: nat

record AuditEventRow =
  au_workspace_id :: nat
  au_actor_id :: nat
  au_action :: pystr
  au_resource_id :: nat
  au_request_id :: pystr
  au_context :: "(pystr \<times> pystr) list"

record HttpToolDb =
  ct_members :: "((nat \<times> nat) \<times> WorkspaceRole) list"
  ct_tools :: "HttpToolRow list"
  ct_versions :: "HttpToolVersionRow list"
  ct_audit :: "AuditEventRow list"

definition bindable :: "HttpToolVersionRow \<Rightarrow> bool" where
  "bindable v \<longleftrightarrow> hv_status v = ACTIVE"

datatype HttpToolError =
    ForbiddenHttpToolAction
  | UnknownHttpTool
  | UnknownHttpToolVersion
  | HttpToolNameTaken
  | InvalidHttpToolName pystr
  | InvalidOpenApiDocument OpenApiError
  | InvalidBaseUrl pystr
  | InvalidBaseHost ScopeEntryInvalid
  | HostOutsideWorkspaceScope pystr
  | ParseNotCaught OpenApiError
  | SplitNotCaught

section \<open>The stored form of an operation\<close>

definition parameter_document :: "OperationParameter \<Rightarrow> jobject" where
  "parameter_document p =
     [(py ''name'', JStr (pa_name p)), (py ''in'', JStr (Location_value (pa_location p))),
      (py ''required'', JBool (pa_required p)), (py ''schema'', JDict (pa_schema p)),
      (py ''description'', opt_str (pa_description p))]"

definition operation_document :: "Operation \<Rightarrow> jobject" where
  "operation_document op =
     [(py ''operation_id'', JStr (op_operation_id op)), (py ''method'', JStr (op_method op)),
      (py ''path'', JStr (op_path op)), (py ''summary'', opt_str (op_summary op)),
      (py ''parameters'', JList (map (\<lambda>p. JDict (parameter_document p)) (op_parameters op))),
      (py ''body_schema'', case op_body_schema op of None \<Rightarrow> JNull | Some s \<Rightarrow> JDict s)]"

text \<open>Reading back. What no \<open>operation_document\<close> writes is \<open>None\<close>.\<close>

definition text_field :: "jobject \<Rightarrow> pystr \<Rightarrow> pystr option" where
  "text_field d k = (case jget d k of Some (JStr s) \<Rightarrow> Some s | _ \<Rightarrow> None)"

definition optional_text :: "jobject \<Rightarrow> pystr \<Rightarrow> pystr option option" where
  "optional_text d k =
     (case jget d k of Some (JStr s) \<Rightarrow> Some (Some s) | Some JNull \<Rightarrow> Some None | None \<Rightarrow> Some None | _ \<Rightarrow> None)"

definition location_from :: "pystr \<Rightarrow> Location option" where
  "location_from s =
     (if s = py ''path'' then Some PathLocation else if s = py ''query'' then Some QueryLocation else None)"

definition parameter_from_document :: "json \<Rightarrow> OperationParameter option" where
  "parameter_from_document v =
     (case v of
        JDict d \<Rightarrow>
          (case (text_field d (py ''name''), Option.bind (text_field d (py ''in'')) location_from,
                 jget d (py ''required''), optional_text d (py ''description'')) of
             (Some name, Some location, Some required, Some description) \<Rightarrow>
               Some \<lparr>pa_name = name, pa_location = location, pa_required = py_bool required,
                     pa_schema = (case jget d (py ''schema'') of
                                    Some (JDict s) \<Rightarrow> (if s = [] then [(py ''type'', JStr (py ''string''))] else s)
                                  | _ \<Rightarrow> [(py ''type'', JStr (py ''string''))]),
                     pa_description = description\<rparr>
           | _ \<Rightarrow> None)
      | _ \<Rightarrow> None)"

definition operation_from_document :: "jobject \<Rightarrow> Operation option" where
  "operation_from_document d =
     (case (text_field d (py ''operation_id''), text_field d (py ''method''), text_field d (py ''path''),
            optional_text d (py ''summary''),
            all_some (map parameter_from_document (case jget d (py ''parameters'') of Some (JList ps) \<Rightarrow> ps | _ \<Rightarrow> []))) of
        (Some i, Some method, Some path, Some summary, Some parameters) \<Rightarrow>
          Some \<lparr>op_operation_id = i, op_method = method, op_path = path, op_summary = summary,
                op_parameters = parameters,
                op_body_schema = (case jget d (py ''body_schema'') of Some (JDict s) \<Rightarrow> Some s | _ \<Rightarrow> None)\<rparr>
      | _ \<Rightarrow> None)"

section \<open>The store\<close>

definition user_role :: "HttpToolDb \<Rightarrow> nat \<Rightarrow> nat \<Rightarrow> WorkspaceRole option" where
  "user_role db ws user = map_of (ct_members db) (ws, user)"

definition get_tool :: "HttpToolDb \<Rightarrow> nat \<Rightarrow> HttpToolRow option" where
  "get_tool db i = lookup ht_id i (ct_tools db)"

definition get_version :: "HttpToolDb \<Rightarrow> nat \<Rightarrow> HttpToolVersionRow option" where
  "get_version db i = lookup hv_id i (ct_versions db)"

definition list_tools_of :: "HttpToolDb \<Rightarrow> nat \<Rightarrow> HttpToolRow list" where
  "list_tools_of db ws = sort_key ht_name (filter (\<lambda>t. ht_workspace_id t = ws) (ct_tools db))"

definition list_versions_of :: "HttpToolDb \<Rightarrow> nat \<Rightarrow> HttpToolVersionRow list" where
  "list_versions_of db tool = sort_key hv_version_number (filter (\<lambda>v. hv_http_tool_id v = tool) (ct_versions db))"

definition read_document :: "HttpToolDb \<Rightarrow> nat \<Rightarrow> pystr option" where
  "read_document db i = map_option hv_document (get_version db i)"

text \<open>\<open>None\<close> is the \<open>ValueError\<close> the unique name of a workspace raises.\<close>

definition create_tool ::
  "nat \<Rightarrow> nat \<Rightarrow> pystr \<Rightarrow> pystr \<Rightarrow> pystr option \<Rightarrow> nat \<Rightarrow> HttpToolDb \<Rightarrow> (HttpToolRow \<times> HttpToolDb) option" where
  "create_tool i ws name base_url credential_ref created_by db =
     (let row = \<lparr>ht_id = i, ht_workspace_id = ws, ht_name = name, ht_base_url = base_url,
                 ht_credential_ref = credential_ref, ht_current_version_id = None, ht_created_by = created_by\<rparr>
      in if (ws, name) \<in> (\<lambda>t. (ht_workspace_id t, ht_name t)) ` set (ct_tools db) then None
         else Some (row, db\<lparr>ct_tools := ct_tools db @ [row]\<rparr>))"

record VersionResult =
  vr_version :: HttpToolVersionRow
  vr_created :: bool

definition highest_number :: "HttpToolDb \<Rightarrow> nat \<Rightarrow> nat" where
  "highest_number db tool =
     foldr max (map hv_version_number (filter (\<lambda>v. hv_http_tool_id v = tool) (ct_versions db))) 0"

definition add_version_row ::
  "nat \<Rightarrow> nat \<Rightarrow> OpenApiDocument \<Rightarrow> pystr \<Rightarrow> nat \<Rightarrow> HttpToolDb \<Rightarrow> VersionResult \<times> HttpToolDb" where
  "add_version_row i tool parsed document created_by db =
     (case find (\<lambda>v. hv_http_tool_id v = tool \<and> hv_content_hash v = oa_content_hash parsed) (ct_versions db) of
        Some existing \<Rightarrow> (\<lparr>vr_version = existing, vr_created = False\<rparr>, db)
      | None \<Rightarrow>
          (let row = \<lparr>hv_id = i, hv_http_tool_id = tool, hv_version_number = highest_number db tool + 1,
                      hv_content_hash = oa_content_hash parsed, hv_title = oa_title parsed,
                      hv_document_version = oa_version parsed,
                      hv_operations = map operation_document (oa_operations parsed), hv_document = document,
                      hv_status = ACTIVE, hv_created_by = created_by\<rparr>
           in (\<lparr>vr_version = row, vr_created = True\<rparr>, db\<lparr>ct_versions := ct_versions db @ [row]\<rparr>)))"

definition set_version_status :: "nat \<Rightarrow> HttpToolStatus \<Rightarrow> HttpToolDb \<Rightarrow> HttpToolDb" where
  "set_version_status i status db =
     db\<lparr>ct_versions := update_where (\<lambda>v. hv_id v = i) (\<lambda>v. v\<lparr>hv_status := status\<rparr>) (ct_versions db)\<rparr>"

definition set_current_version :: "nat \<Rightarrow> nat option \<Rightarrow> HttpToolDb \<Rightarrow> HttpToolDb" where
  "set_current_version tool version db =
     db\<lparr>ct_tools := update_where (\<lambda>t. ht_id t = tool) (\<lambda>t. t\<lparr>ht_current_version_id := version\<rparr>) (ct_tools db)\<rparr>"

definition append_audit ::
  "nat \<Rightarrow> nat \<Rightarrow> pystr \<Rightarrow> nat \<Rightarrow> pystr \<Rightarrow> (pystr \<times> pystr) list \<Rightarrow> HttpToolDb \<Rightarrow> HttpToolDb" where
  "append_audit ws actor action resource request_id context db =
     db\<lparr>ct_audit := ct_audit db @
        [\<lparr>au_workspace_id = ws, au_actor_id = actor, au_action = action, au_resource_id = resource,
          au_request_id = request_id, au_context = context\<rparr>]\<rparr>"

section \<open>Who may act\<close>

definition WRITERS :: "WorkspaceRole list" where "WRITERS = [WORKSPACE_ADMIN, DEVELOPER]"
definition READERS :: "WorkspaceRole list" where "READERS = [WORKSPACE_ADMIN, DEVELOPER, VIEWER]"

definition require_role ::
  "Actor \<Rightarrow> nat \<Rightarrow> pystr \<Rightarrow> WorkspaceRole list \<Rightarrow> HttpToolDb \<Rightarrow> (HttpToolError, HttpToolDb) result" where
  "require_role actor ws request_id allowed_roles db =
     (case user_role db ws (ac_id actor) of
        Some role \<Rightarrow> (if role \<in> set allowed_roles then Inr db else Inl ForbiddenHttpToolAction)
      | None \<Rightarrow>
          (if ac_is_platform_admin actor
           then Inr (append_audit ws (ac_id actor) (py ''http_tool.write_by_platform_admin'') ws request_id [] db)
           else Inl ForbiddenHttpToolAction))"

definition require_writer :: "Actor \<Rightarrow> nat \<Rightarrow> pystr \<Rightarrow> HttpToolDb \<Rightarrow> (HttpToolError, HttpToolDb) result" where
  "require_writer actor ws request_id db =
     (if ac_is_service_account actor then Inl ForbiddenHttpToolAction else require_role actor ws request_id WRITERS db)"

definition require_reader :: "Actor \<Rightarrow> nat \<Rightarrow> pystr \<Rightarrow> HttpToolDb \<Rightarrow> (HttpToolError, HttpToolDb) result" where
  "require_reader actor ws request_id db =
     (if ac_is_service_account actor
      then (case ac_role actor of
              Some role \<Rightarrow> (if role \<in> set READERS then Inr db else Inl ForbiddenHttpToolAction)
            | None \<Rightarrow> Inl ForbiddenHttpToolAction)
      else require_role actor ws request_id READERS db)"

definition visible_tool :: "nat \<Rightarrow> nat \<Rightarrow> HttpToolDb \<Rightarrow> (HttpToolError, HttpToolRow) result" where
  "visible_tool ws tool db =
     (case get_tool db tool of
        Some t \<Rightarrow> (if ht_workspace_id t = ws then Inr t else Inl UnknownHttpTool)
      | None \<Rightarrow> Inl UnknownHttpTool)"

definition writable_tool ::
  "Actor \<Rightarrow> nat \<Rightarrow> nat \<Rightarrow> pystr \<Rightarrow> HttpToolDb \<Rightarrow> (HttpToolError, HttpToolRow \<times> HttpToolDb) result" where
  "writable_tool actor ws tool request_id db =
     bind_res (visible_tool ws tool db) (\<lambda>t. map_sum id (\<lambda>db'. (t, db')) (require_writer actor ws request_id db))"

section \<open>What may be registered\<close>

definition lower_alnum :: "nat \<Rightarrow> bool" where
  "lower_alnum c \<longleftrightarrow> (97 \<le> c \<and> c \<le> 122) \<or> (48 \<le> c \<and> c \<le> 57)"

definition tool_name_core :: "pystr \<Rightarrow> bool" where
  "tool_name_core s \<longleftrightarrow> list_all (\<lambda>p. p \<noteq> [] \<and> list_all lower_alnum p) (py_split 45 s)"

text \<open>\<open>^[a-z0-9]+(?:-[a-z0-9]+)*$\<close>: a final line feed passes.\<close>

definition tool_name_match :: "pystr \<Rightarrow> bool" where
  "tool_name_match s \<longleftrightarrow> tool_name_core s \<or> (s \<noteq> [] \<and> last s = 10 \<and> tool_name_core (butlast s))"

text \<open>The property \<open>hostname\<close> of what \<open>urlsplit\<close> answers, and its \<open>fragment\<close>.\<close>

definition hostname :: "(pystr \<Rightarrow> pystr) \<Rightarrow> SplitResult \<Rightarrow> pystr option" where
  "hostname low parts =
     (let info = py_after_last 64 (url_netloc parts);
          host = (case py_partition 91 info of
                    (_, bracket, rest) \<Rightarrow>
                      (if bracket then fst (py_partition 93 rest) else fst (py_partition 58 info)))
      in if host = [] then None
         else (case py_partition 37 host of
                 (h, found, zone) \<Rightarrow> Some (py_lower low h @ (if found then [37] else []) @ zone)))"

definition url_fragment :: "pystr \<Rightarrow> pystr" where
  "url_fragment url =
     snd (snd (py_partition 35 (filter (\<lambda>c. c \<notin> {9, 10, 13}) (dropWhile (\<lambda>c. c \<le> 32) url))))"

definition checked_host ::
  "(pystr \<Rightarrow> pystr) \<Rightarrow> (pystr \<Rightarrow> pystr) \<Rightarrow> OutboundScope option \<Rightarrow> pystr \<Rightarrow> (HttpToolError, pystr) result" where
  "checked_host nfkc low approved base_url =
     (case urlsplit nfkc base_url of
        None \<Rightarrow> Inl SplitNotCaught
      | Some parts \<Rightarrow>
          (case hostname low parts of
             None \<Rightarrow> Inl (InvalidBaseUrl base_url)
           | Some host \<Rightarrow>
               (if url_scheme parts \<notin> {py ''http'', py ''https''} then Inl (InvalidBaseUrl base_url)
                else if url_query parts \<noteq> [] \<or> url_fragment base_url \<noteq> [] then Inl (InvalidBaseUrl base_url)
                else
                  (case approved of
                     None \<Rightarrow> Inl (HostOutsideWorkspaceScope host)
                   | Some entries \<Rightarrow>
                       (case parse_entry low host of
                          Inl e \<Rightarrow> Inl (InvalidBaseHost e)
                        | Inr wanted \<Rightarrow>
                            (if list_ex (\<lambda>entry. contains low entry wanted) entries then Inr host
                             else Inl (HostOutsideWorkspaceScope host)))))))"

definition parsed_document ::
  "(pystr \<Rightarrow> pyfloat) \<Rightarrow> (nat \<Rightarrow> bool) \<Rightarrow> (nat list \<Rightarrow> pystr) \<Rightarrow> pystr \<Rightarrow> (HttpToolError, OpenApiDocument) result" where
  "parsed_document fl prn digest document =
     (case parse_document fl prn digest document of
        Inr d \<Rightarrow> Inr d
      | Inl e \<Rightarrow>
          (if e = DocumentEncodeError \<or> e = LocationTypeError then Inl (ParseNotCaught e)
           else Inl (InvalidOpenApiDocument e)))"

section \<open>The operations of the catalog\<close>

definition preview ::
  "(pystr \<Rightarrow> pyfloat) \<Rightarrow> (nat \<Rightarrow> bool) \<Rightarrow> (nat list \<Rightarrow> pystr) \<Rightarrow> Actor \<Rightarrow> nat \<Rightarrow> pystr \<Rightarrow> pystr \<Rightarrow> HttpToolDb
   \<Rightarrow> (HttpToolError, OpenApiDocument \<times> HttpToolDb) result" where
  "preview fl prn digest actor ws document request_id db =
     bind_res (require_writer actor ws request_id db)
       (\<lambda>db'. map_sum id (\<lambda>d. (d, db')) (parsed_document fl prn digest document))"

definition list_tools :: "Actor \<Rightarrow> nat \<Rightarrow> pystr \<Rightarrow> HttpToolDb \<Rightarrow> (HttpToolError, HttpToolRow list \<times> HttpToolDb) result" where
  "list_tools actor ws request_id db =
     map_sum id (\<lambda>db'. (list_tools_of db' ws, db')) (require_reader actor ws request_id db)"

definition list_versions ::
  "Actor \<Rightarrow> nat \<Rightarrow> nat \<Rightarrow> pystr \<Rightarrow> HttpToolDb \<Rightarrow> (HttpToolError, HttpToolVersionRow list \<times> HttpToolDb) result" where
  "list_versions actor ws tool request_id db =
     bind_res (require_reader actor ws request_id db)
       (\<lambda>db'. map_sum id (\<lambda>t. (list_versions_of db' (ht_id t), db')) (visible_tool ws tool db'))"

record Registration =
  rg_name :: pystr
  rg_base_url :: pystr
  rg_document :: pystr
  rg_credential_ref :: "pystr option"

definition register ::
  "(pystr \<Rightarrow> pyfloat) \<Rightarrow> (nat \<Rightarrow> bool) \<Rightarrow> (nat list \<Rightarrow> pystr) \<Rightarrow> (pystr \<Rightarrow> pystr) \<Rightarrow> (pystr \<Rightarrow> pystr) \<Rightarrow> (nat \<Rightarrow> OutboundScope) option
   \<Rightarrow> nat \<Rightarrow> nat \<Rightarrow> Actor \<Rightarrow> nat \<Rightarrow> Registration \<Rightarrow> pystr \<Rightarrow> HttpToolDb
   \<Rightarrow> (HttpToolError, (HttpToolRow \<times> HttpToolVersionRow) \<times> HttpToolDb) result" where
  "register fl prn digest nfkc low scopes tool_id version_id actor ws r request_id db =
     bind_res (require_writer actor ws request_id db)
       (\<lambda>db1. bind_res (guard_res (tool_name_match (rg_name r) \<and> length (rg_name r) \<le> NAME_MAX_LENGTH)
                          (InvalidHttpToolName (rg_name r)))
       (\<lambda>_. bind_res (checked_host nfkc low (map_option (\<lambda>s. s ws) scopes) (rg_base_url r))
       (\<lambda>host. bind_res (parsed_document fl prn digest (rg_document r))
       (\<lambda>parsed.
          case create_tool tool_id ws (rg_name r) (rg_base_url r) (rg_credential_ref r) (ac_id actor) db1 of
            None \<Rightarrow> Inl HttpToolNameTaken
          | Some (tool, db2) \<Rightarrow>
              (let (result, db3) = add_version_row version_id (ht_id tool) parsed (rg_document r) (ac_id actor) db2;
                   db4 = set_current_version (ht_id tool) (Some (hv_id (vr_version result))) db3
               in case get_tool db4 (ht_id tool) of
                    None \<Rightarrow> Inl UnknownHttpTool
                  | Some updated \<Rightarrow>
                      Inr ((updated, vr_version result),
                           append_audit ws (ac_id actor) (py ''http_tool.registered'') (ht_id tool) request_id
                             [(py ''name'', rg_name r), (py ''host'', host)] db4))))))"

definition add_version ::
  "(pystr \<Rightarrow> pyfloat) \<Rightarrow> (nat \<Rightarrow> bool) \<Rightarrow> (nat list \<Rightarrow> pystr) \<Rightarrow> nat \<Rightarrow> Actor \<Rightarrow> nat \<Rightarrow> nat \<Rightarrow> pystr \<Rightarrow> pystr \<Rightarrow> HttpToolDb
   \<Rightarrow> (HttpToolError, VersionResult \<times> HttpToolDb) result" where
  "add_version fl prn digest version_id actor ws tool document request_id db =
     bind_res (writable_tool actor ws tool request_id db)
       (\<lambda>(t, db1). bind_res (parsed_document fl prn digest document)
       (\<lambda>parsed.
          let (result, db2) = add_version_row version_id (ht_id t) parsed document (ac_id actor) db1
          in Inr (result,
               if vr_created result
               then append_audit ws (ac_id actor) (py ''http_tool.version_added'') (hv_id (vr_version result)) request_id
                      [(py ''version'', py_digits (hv_version_number (vr_version result)))] db2
               else db2)))"

definition withdraw_version ::
  "Actor \<Rightarrow> nat \<Rightarrow> nat \<Rightarrow> nat \<Rightarrow> pystr \<Rightarrow> HttpToolDb \<Rightarrow> (HttpToolError, HttpToolVersionRow \<times> HttpToolDb) result" where
  "withdraw_version actor ws tool version request_id db =
     bind_res (writable_tool actor ws tool request_id db)
       (\<lambda>(t, db1).
          case get_version db1 version of
            None \<Rightarrow> Inl UnknownHttpToolVersion
          | Some v \<Rightarrow>
              (if hv_http_tool_id v \<noteq> ht_id t then Inl UnknownHttpToolVersion
               else
                 (let db2 = set_version_status (hv_id v) WITHDRAWN db1
                  in case get_version db2 (hv_id v) of
                       None \<Rightarrow> Inl UnknownHttpToolVersion
                     | Some withdrawn \<Rightarrow>
                         (let db3 = (if ht_current_version_id t = Some (hv_id withdrawn)
                                     then set_current_version (ht_id t) None db2 else db2)
                          in Inr (withdrawn,
                               append_audit ws (ac_id actor) (py ''http_tool.version_withdrawn'') (hv_id withdrawn)
                                 request_id [] db3)))))"

section \<open>What a Run may call\<close>

record HttpToolBinding =
  hb_http_tool_version_id :: nat
  hb_operations :: "pystr list"

definition binding_row :: "HttpToolDb \<Rightarrow> nat \<Rightarrow> (HttpToolVersionRow \<times> HttpToolRow) option" where
  "binding_row db i =
     (case get_version db i of
        None \<Rightarrow> None
      | Some v \<Rightarrow> map_option (\<lambda>t. (v, t)) (get_tool db (hv_http_tool_id v)))"

text \<open>The dictionary of the stored operations by their id: the later of two would be the one kept.\<close>

definition declared_document :: "jobject list \<Rightarrow> pystr \<Rightarrow> jobject option" where
  "declared_document documents operation_id =
     find (\<lambda>d. text_field d (py ''operation_id'') = Some operation_id) (rev documents)"

definition bound_of_binding :: "HttpToolDb \<Rightarrow> HttpToolBinding \<Rightarrow> BoundOperation list" where
  "bound_of_binding db binding =
     (case binding_row db (hb_http_tool_version_id binding) of
        None \<Rightarrow> []
      | Some (v, t) \<Rightarrow>
          List.map_filter
            (\<lambda>operation_id.
               case declared_document (hv_operations v) operation_id of
                 None \<Rightarrow> None
               | Some d \<Rightarrow>
                   map_option
                     (\<lambda>op. \<lparr>bo_tool_name = ht_name t, bo_version_id = hb_http_tool_version_id binding,
                            bo_base_url = ht_base_url t, bo_credential_ref = ht_credential_ref t, bo_operation = op\<rparr>)
                     (operation_from_document d))
            (hb_operations binding))"

definition bound_operations :: "HttpToolDb \<Rightarrow> HttpToolBinding list \<Rightarrow> BoundOperation list" where
  "bound_operations db bindings = concat (map (bound_of_binding db) bindings)"

section \<open>Reading back\<close>

text \<open>An operation reads back as it was stored, but for a parameter whose schema is empty: the empty object is
  false, and the parameter comes back as a string.\<close>

definition typed :: "OperationParameter \<Rightarrow> OperationParameter" where
  "typed p = (if pa_schema p = [] then p\<lparr>pa_schema := [(py ''type'', JStr (py ''string''))]\<rparr> else p)"

lemma location_from_value [simp]: "location_from (Location_value l) = Some l"
  by (cases l) (simp_all add: location_from_def py_def)

lemma parameter_reads_back: "parameter_from_document (JDict (parameter_document p)) = Some (typed p)"
  by (cases "pa_description p")
     (simp_all add: parameter_from_document_def parameter_document_def text_field_def optional_text_def opt_str_def
      typed_def py_def)

lemma all_some_map_Some [simp]: "all_some (map (\<lambda>x. Some (f x)) xs) = Some (map f xs)"
  by (induction xs) auto

definition reread :: "Operation \<Rightarrow> Operation" where
  "reread op = op\<lparr>op_parameters := map typed (op_parameters op)\<rparr>"

lemma stored_operation_reads_back: "operation_from_document (operation_document op) = Some (reread op)"
  unfolding reread_def
  by (cases "op_summary op"; cases "op_body_schema op")
     (simp_all add: operation_from_document_def operation_document_def text_field_def optional_text_def opt_str_def
      py_def comp_def parameter_reads_back)

section \<open>The tables\<close>

definition ids_ok :: "HttpToolDb \<Rightarrow> bool" where
  "ids_ok db \<longleftrightarrow> distinct (map ht_id (ct_tools db)) \<and> distinct (map hv_id (ct_versions db)) \<and>
     (\<forall>v \<in> set (ct_versions db). hv_http_tool_id v \<in> ht_id ` set (ct_tools db))"

definition names_ok :: "HttpToolDb \<Rightarrow> bool" where
  "names_ok db \<longleftrightarrow> distinct (map (\<lambda>t. (ht_workspace_id t, ht_name t)) (ct_tools db)) \<and>
     list_all (\<lambda>t. tool_name_match (ht_name t)) (ct_tools db)"

definition versions_of :: "HttpToolDb \<Rightarrow> nat \<Rightarrow> HttpToolVersionRow list" where
  "versions_of db tool = filter (\<lambda>v. hv_http_tool_id v = tool) (ct_versions db)"

text \<open>The versions of a tool are numbered from one without a gap, and no two have one content.\<close>

definition numbers_ok :: "HttpToolDb \<Rightarrow> bool" where
  "numbers_ok db \<longleftrightarrow> (\<forall>tool. map hv_version_number (versions_of db tool) = [1..<Suc (length (versions_of db tool))] \<and>
     distinct (map hv_content_hash (versions_of db tool)))"

definition current_ok :: "HttpToolDb \<Rightarrow> bool" where
  "current_ok db \<longleftrightarrow> (\<forall>t \<in> set (ct_tools db). \<forall>i. ht_current_version_id t = Some i \<longrightarrow>
     (\<exists>v \<in> set (ct_versions db). hv_id v = i \<and> hv_http_tool_id v = ht_id t \<and> bindable v))"

definition base_ok :: "(pystr \<Rightarrow> pystr) \<Rightarrow> pystr \<Rightarrow> bool" where
  "base_ok nfkc base \<longleftrightarrow> (\<exists>b. urlsplit nfkc base = Some b \<and> url_scheme b \<in> {py ''http'', py ''https''} \<and> url_netloc b \<noteq> [])"

definition document_ok :: "jobject \<Rightarrow> bool" where
  "document_ok d \<longleftrightarrow> (\<exists>op. path_ok op \<and> d = operation_document op)"

definition contents_ok :: "(pystr \<Rightarrow> pystr) \<Rightarrow> HttpToolDb \<Rightarrow> bool" where
  "contents_ok nfkc db \<longleftrightarrow> list_all (\<lambda>t. base_ok nfkc (ht_base_url t)) (ct_tools db) \<and>
     list_all (\<lambda>v. list_all document_ok (hv_operations v)) (ct_versions db)"

definition catalog_ok :: "(pystr \<Rightarrow> pystr) \<Rightarrow> HttpToolDb \<Rightarrow> bool" where
  "catalog_ok nfkc db \<longleftrightarrow> ids_ok db \<and> names_ok db \<and> numbers_ok db \<and> current_ok db \<and> contents_ok nfkc db"

lemmas catalog_parts = ids_ok_def names_ok_def numbers_ok_def versions_of_def current_ok_def contents_ok_def

lemma append_audit_keeps [simp]: "catalog_ok nfkc (append_audit ws a act res req ctx db) = catalog_ok nfkc db"
  by (simp add: catalog_ok_def catalog_parts append_audit_def)

lemma create_tool_keeps:
  assumes "create_tool i ws name base cred by db = Some (t, db')" "catalog_ok nfkc db" "i \<notin> ht_id ` set (ct_tools db)"
    "tool_name_match name" "base_ok nfkc base"
  shows "catalog_ok nfkc db'"
proof -
  have new: "(ws, name) \<notin> (\<lambda>t. (ht_workspace_id t, ht_name t)) ` set (ct_tools db)" and
    db': "db' = db\<lparr>ct_tools := ct_tools db @ [t]\<rparr>" and
    t: "ht_id t = i" "ht_workspace_id t = ws" "ht_name t = name" "ht_base_url t = base" "ht_current_version_id t = None"
    using assms(1) by (auto simp: create_tool_def Let_def split: if_splits)
  have "ids_ok db'" "names_ok db'" "current_ok db'" "contents_ok nfkc db'"
    using assms(2-5) new t by (auto simp: db' catalog_ok_def ids_ok_def names_ok_def current_ok_def contents_ok_def)
  moreover have "numbers_ok db'" using assms(2) by (simp add: db' catalog_ok_def numbers_ok_def versions_of_def)
  ultimately show ?thesis by (simp add: catalog_ok_def)
qed

lemma foldr_max_upt: "foldr max [1..<Suc n] 0 = n"
proof -
  have "foldr max xs (0 :: nat) = Max (insert 0 (set xs))" for xs
    by (induction xs) (auto simp: insert_commute)
  moreover have "Max (insert 0 (set [1..<Suc n])) = n" by (rule Max_eqI) (cases n; auto)+
  ultimately show ?thesis by metis
qed

lemma add_version_row_keeps:
  assumes "add_version_row i tool parsed document by db = (r, db')" "catalog_ok nfkc db"
    "i \<notin> hv_id ` set (ct_versions db)" "tool \<in> ht_id ` set (ct_tools db)" "list_all path_ok (oa_operations parsed)"
  shows "catalog_ok nfkc db'"
proof (cases "find (\<lambda>v. hv_http_tool_id v = tool \<and> hv_content_hash v = oa_content_hash parsed) (ct_versions db)")
  case None
  define row where "row = vr_version r"
  have db': "db' = db\<lparr>ct_versions := ct_versions db @ [row]\<rparr>" and
    row: "hv_id row = i" "hv_http_tool_id row = tool" "hv_version_number row = highest_number db tool + 1"
      "hv_content_hash row = oa_content_hash parsed" "hv_operations row = map operation_document (oa_operations parsed)"
    using assms(1) None by (auto simp: add_version_row_def Let_def row_def)
  have fresh: "oa_content_hash parsed \<notin> hv_content_hash ` set (versions_of db tool)"
    using None by (auto simp: find_None_iff versions_of_def)
  have highest: "highest_number db tool = length (versions_of db tool)"
    using assms(2) unfolding highest_number_def catalog_ok_def numbers_ok_def versions_of_def by (metis foldr_max_upt)
  have "numbers_ok db'"
    unfolding numbers_ok_def
  proof
    fix other
    show "map hv_version_number (versions_of db' other) = [1..<Suc (length (versions_of db' other))] \<and>
      distinct (map hv_content_hash (versions_of db' other))"
      using assms(2) fresh row highest
      by (cases "other = tool") (auto simp: catalog_ok_def numbers_ok_def versions_of_def db')
  qed
  moreover have "list_all document_ok (hv_operations row)"
    using assms(5) by (auto simp: row list_all_iff document_ok_def)
  ultimately show ?thesis
    using assms(2-4) row
    by (auto simp: catalog_ok_def ids_ok_def names_ok_def current_ok_def contents_ok_def db')
qed (use assms in \<open>auto simp: add_version_row_def\<close>)

lemma checked_host_base_ok: "checked_host nfkc low approved base = Inr host \<Longrightarrow> base_ok nfkc base"
proof -
  assume ok: "checked_host nfkc low approved base = Inr host"
  then obtain parts h where p: "urlsplit nfkc base = Some parts" "hostname low parts = Some h"
    "url_scheme parts \<in> {py ''http'', py ''https''}"
    by (auto simp: checked_host_def split: option.splits if_splits)
  have "url_netloc parts \<noteq> []"
  proof
    assume "url_netloc parts = []"
    then have "hostname low parts = None" by (simp add: hostname_def py_after_last_def py_partition_def)
    with p(2) show False by simp
  qed
  with p show ?thesis by (auto simp: base_ok_def)
qed

lemma require_writer_tables:
  "require_writer actor ws req db = Inr db' \<Longrightarrow>
   ct_tools db' = ct_tools db \<and> ct_versions db' = ct_versions db \<and> catalog_ok nfkc db' = catalog_ok nfkc db"
  by (auto simp: require_writer_def require_role_def split: if_splits option.splits)
     (simp_all add: append_audit_def)

lemma require_reader_tables:
  "require_reader actor ws req db = Inr db' \<Longrightarrow>
   ct_tools db' = ct_tools db \<and> ct_versions db' = ct_versions db \<and> catalog_ok nfkc db' = catalog_ok nfkc db"
  by (auto simp: require_reader_def require_role_def split: if_splits option.splits)
     (simp_all add: append_audit_def)

interpretation current_version: table_key ht_id "\<lambda>t. t\<lparr>ht_current_version_id := version\<rparr>" for version
  by unfold_locales simp

interpretation version_status: table_key hv_id "\<lambda>v. v\<lparr>hv_status := status\<rparr>" for status
  by unfold_locales simp

lemma set_current_version_keeps:
  assumes ok: "catalog_ok nfkc db"
    and new: "\<And>i. version = Some i \<Longrightarrow> \<exists>v \<in> set (ct_versions db). hv_id v = i \<and> hv_http_tool_id v = tool \<and> bindable v"
  shows "catalog_ok nfkc (set_current_version tool version db)"
proof -
  let ?tools = "ct_tools (set_current_version tool version db)"
  have tools: "map ht_id ?tools = map ht_id (ct_tools db)"
    "map (\<lambda>t. (ht_workspace_id t, ht_name t)) ?tools = map (\<lambda>t. (ht_workspace_id t, ht_name t)) (ct_tools db)"
    by (simp_all add: set_current_version_def map_update_where)
  have all: "list_all (\<lambda>t. tool_name_match (ht_name t)) ?tools" "list_all (\<lambda>t. base_ok nfkc (ht_base_url t)) ?tools"
    using ok by (auto simp: catalog_ok_def names_ok_def contents_ok_def list_all_iff set_current_version_def set_update_where)
  have same: "ct_versions (set_current_version tool version db) = ct_versions db" by (simp add: set_current_version_def)
  have "current_ok (set_current_version tool version db)"
    using ok new by (auto simp: catalog_ok_def current_ok_def same) (auto simp: set_current_version_def set_update_where)
  moreover have "ids_ok (set_current_version tool version db)"
    using ok tools(1) unfolding catalog_ok_def ids_ok_def same by (metis list.set_map)
  ultimately show ?thesis
    using ok all tools(2) by (simp add: catalog_ok_def names_ok_def numbers_ok_def versions_of_def contents_ok_def same)
qed

text \<open>Withdrawing keeps everything but that the version may be a current one.\<close>

lemma set_version_status_rows:
  "versions_of (set_version_status i status db) tool =
     update_where (\<lambda>v. hv_id v = i) (\<lambda>v. v\<lparr>hv_status := status\<rparr>) (versions_of db tool)"
  by (simp add: versions_of_def set_version_status_def filter_update_where)

lemma set_version_status_keeps:
  assumes "catalog_ok nfkc db"
  shows "ids_ok (set_version_status i status db)" "names_ok (set_version_status i status db)"
    "numbers_ok (set_version_status i status db)" "contents_ok nfkc (set_version_status i status db)"
proof -
  show "numbers_ok (set_version_status i status db)"
    using assms by (simp add: catalog_ok_def numbers_ok_def set_version_status_rows map_update_where)
qed (use assms in \<open>auto simp: catalog_ok_def ids_ok_def names_ok_def contents_ok_def set_version_status_def
    version_status.keys_update set_update_where list_all_iff\<close>)

lemma current_row:
  assumes "catalog_ok nfkc db" "t \<in> set (ct_tools db)" "ht_current_version_id t = Some i"
  obtains v where "v \<in> set (ct_versions db)" "hv_id v = i" "hv_http_tool_id v = ht_id t" "bindable v"
  using assms unfolding catalog_ok_def current_ok_def by blast

lemma withdraw_other_keeps:
  assumes "catalog_ok nfkc db" "\<forall>t \<in> set (ct_tools db). ht_current_version_id t \<noteq> Some i"
  shows "catalog_ok nfkc (set_version_status i WITHDRAWN db)"
proof -
  have "current_ok (set_version_status i WITHDRAWN db)"
    unfolding current_ok_def
  proof (intro ballI allI impI)
    fix t j
    assume "t \<in> set (ct_tools (set_version_status i WITHDRAWN db))" and j: "ht_current_version_id t = Some j"
    then have t: "t \<in> set (ct_tools db)" by (simp add: set_version_status_def)
    obtain v where "v \<in> set (ct_versions db)" "hv_id v = j" "hv_http_tool_id v = ht_id t" "bindable v"
      using current_row[OF assms(1) t j] .
    moreover have "j \<noteq> i" using assms(2) t j by auto
    ultimately show "\<exists>v \<in> set (ct_versions (set_version_status i WITHDRAWN db)). hv_id v = j \<and> hv_http_tool_id v = ht_id t \<and> bindable v"
      by (auto simp: set_version_status_def set_update_where intro!: bexI[of _ v])
  qed
  with set_version_status_keeps[OF assms(1)] show ?thesis by (simp add: catalog_ok_def)
qed

lemma withdraw_keeps:
  assumes ok: "catalog_ok nfkc db" and v: "get_version db i = Some v" "hv_http_tool_id v = ht_id t"
    and t: "t \<in> set (ct_tools db)"
  shows "catalog_ok nfkc (if ht_current_version_id t = Some i
     then set_current_version (ht_id t) None (set_version_status i WITHDRAWN db) else set_version_status i WITHDRAWN db)"
    (is "catalog_ok nfkc ?after")
proof -
  define before where "before = (if ht_current_version_id t = Some i then set_current_version (ht_id t) None db else db)"
  have after: "?after = set_version_status i WITHDRAWN before"
    by (simp add: before_def set_version_status_def set_current_version_def)
  have ids: "distinct (map ht_id (ct_tools db))" "distinct (map hv_id (ct_versions db))"
    using ok by (auto simp: catalog_ok_def ids_ok_def)
  have mine: "v \<in> set (ct_versions db)" "hv_id v = i" using v(1) lookup_SomeD by (auto simp: get_version_def dest!: lookup_SomeD)
  have only: "t' = t" if cur: "t' \<in> set (ct_tools db)" "ht_current_version_id t' = Some i" for t'
  proof -
    obtain v' where "v' \<in> set (ct_versions db)" "hv_id v' = i" "hv_http_tool_id v' = ht_id t'"
      using current_row[OF ok cur] .
    then have "ht_id t' = ht_id t" using mine ids(2) v(2) by (metis distinct_map inj_onD)
    with cur(1) t ids(1) show ?thesis by (metis distinct_map inj_onD)
  qed
  have "catalog_ok nfkc before" using ok set_current_version_keeps[OF ok, of None "ht_id t"] by (auto simp: before_def)
  moreover have "\<forall>t' \<in> set (ct_tools before). ht_current_version_id t' \<noteq> Some i"
    by (cases "ht_current_version_id t = Some i")
       (auto simp: before_def set_current_version_def set_update_where dest: only)
  ultimately show ?thesis unfolding after by (rule withdraw_other_keeps)
qed

section \<open>Steps of the catalog\<close>

inductive catalog_step :: "(pystr \<Rightarrow> pystr) \<Rightarrow> HttpToolDb \<Rightarrow> HttpToolDb \<Rightarrow> bool" for nfkc where
  step_preview: "preview fl prn digest actor ws document req db = Inr (parsed, db') \<Longrightarrow> catalog_step nfkc db db'"
| step_list_tools: "list_tools actor ws req db = Inr (listed, db') \<Longrightarrow> catalog_step nfkc db db'"
| step_list_versions: "list_versions actor ws tool req db = Inr (rows, db') \<Longrightarrow> catalog_step nfkc db db'"
| step_register:
    "register fl prn digest nfkc low scopes tool_id version_id actor ws r req db = Inr (out, db') \<Longrightarrow>
     tool_id \<notin> ht_id ` set (ct_tools db) \<Longrightarrow> version_id \<notin> hv_id ` set (ct_versions db) \<Longrightarrow> catalog_step nfkc db db'"
| step_add_version:
    "add_version fl prn digest version_id actor ws tool document req db = Inr (result, db') \<Longrightarrow>
     version_id \<notin> hv_id ` set (ct_versions db) \<Longrightarrow> catalog_step nfkc db db'"
| step_withdraw: "withdraw_version actor ws tool version req db = Inr (row, db') \<Longrightarrow> catalog_step nfkc db db'"

inductive catalog_reachable :: "(pystr \<Rightarrow> pystr) \<Rightarrow> HttpToolDb \<Rightarrow> bool" for nfkc where
  reach_start: "ct_tools db = [] \<Longrightarrow> ct_versions db = [] \<Longrightarrow> catalog_reachable nfkc db"
| reach_step: "catalog_reachable nfkc db \<Longrightarrow> catalog_step nfkc db db' \<Longrightarrow> catalog_reachable nfkc db'"

lemma parsed_document_paths: "parsed_document fl prn digest document = Inr d \<Longrightarrow> list_all path_ok (oa_operations d)"
  by (auto simp: parsed_document_def dest: parsed_paths_ok split: sum.splits if_splits)

lemma writable_tool_inv:
  assumes "writable_tool actor ws tool req db = Inr (t, db')"
  shows "t \<in> set (ct_tools db)" "require_writer actor ws req db = Inr db'" "ht_id t = tool" "ht_workspace_id t = ws"
  using assms lookup_SomeD[of ht_id tool "ct_tools db"]
  by (auto simp: writable_tool_def visible_tool_def get_tool_def bind_res_eq_Inr split: option.splits if_splits)

lemma register_keeps:
  assumes "register fl prn digest nfkc low scopes tool_id version_id actor ws r req db = Inr (out, db')" "catalog_ok nfkc db"
    "tool_id \<notin> ht_id ` set (ct_tools db)" "version_id \<notin> hv_id ` set (ct_versions db)"
  shows "catalog_ok nfkc db'"
proof -
  obtain db1 host parsed tool db2 where s:
    "require_writer actor ws req db = Inr db1" "tool_name_match (rg_name r)"
    "checked_host nfkc low (map_option (\<lambda>s. s ws) scopes) (rg_base_url r) = Inr host"
    "parsed_document fl prn digest (rg_document r) = Inr parsed"
    "create_tool tool_id ws (rg_name r) (rg_base_url r) (rg_credential_ref r) (ac_id actor) db1 = Some (tool, db2)"
    using assms(1) by (auto simp: register_def bind_res_eq_Inr Let_def guard_res_eq_Inr split: option.splits)
  obtain result db3 where row: "add_version_row version_id (ht_id tool) parsed (rg_document r) (ac_id actor) db2 = (result, db3)"
    by fastforce
  have db': "db' = append_audit ws (ac_id actor) (py ''http_tool.registered'') (ht_id tool) req
       [(py ''name'', rg_name r), (py ''host'', host)] (set_current_version (ht_id tool) (Some (hv_id (vr_version result))) db3)"
    using assms(1) s row by (auto simp: register_def bind_res_eq_Inr Let_def guard_res_eq_Inr split: option.splits)
  note tables = require_writer_tables[OF s(1), of nfkc]
  have tool: "ht_id tool = tool_id" "tool_id \<in> ht_id ` set (ct_tools db2)" "ct_versions db2 = ct_versions db"
    using s(5) tables by (auto simp: create_tool_def Let_def split: if_splits)
  have ok2: "catalog_ok nfkc db2"
    using create_tool_keeps[OF s(5) _ _ s(2) checked_host_base_ok[OF s(3)]] tables assms(2,3) by simp
  have ok3: "catalog_ok nfkc db3"
    using add_version_row_keeps[OF row ok2 _ _ parsed_document_paths[OF s(4)]] assms(4) tool by simp
  have "\<forall>v \<in> set (ct_versions db2). hv_http_tool_id v \<noteq> tool_id"
    using assms(2,3) tool(3) by (auto simp: catalog_ok_def ids_ok_def)
  then have "vr_version result \<in> set (ct_versions db3) \<and> hv_http_tool_id (vr_version result) = tool_id \<and> bindable (vr_version result)"
    using row tool(1) by (auto simp: add_version_row_def Let_def bindable_def find_None_iff split: option.splits
        dest!: iffD1[OF find_Some_iff] in_set_conv_nth[THEN iffD2])
  then show ?thesis unfolding db' tool(1) append_audit_keeps by (intro set_current_version_keeps[OF ok3]) auto
qed

lemma add_version_keeps:
  assumes "add_version fl prn digest version_id actor ws tool document req db = Inr (result, db')" "catalog_ok nfkc db"
    "version_id \<notin> hv_id ` set (ct_versions db)"
  shows "catalog_ok nfkc db'"
proof -
  obtain t db1 parsed where s: "writable_tool actor ws tool req db = Inr (t, db1)" "parsed_document fl prn digest document = Inr parsed"
    using assms(1) by (auto simp: add_version_def bind_res_eq_Inr)
  obtain res db2 where row: "add_version_row version_id (ht_id t) parsed document (ac_id actor) db1 = (res, db2)" by fastforce
  have db': "catalog_ok nfkc db' = catalog_ok nfkc db2"
    using assms(1) s row by (auto simp: add_version_def bind_res_eq_Inr Let_def split: if_splits)
  note t = writable_tool_inv[OF s(1)] and tables = require_writer_tables[OF writable_tool_inv(2)[OF s(1)], of nfkc]
  show ?thesis
    unfolding db' using add_version_row_keeps[OF row _ _ _ parsed_document_paths[OF s(2)]] assms(2,3) tables t(1) by simp
qed

lemma withdraw_version_keeps:
  assumes "withdraw_version actor ws tool version req db = Inr (row, db')" "catalog_ok nfkc db"
  shows "catalog_ok nfkc db'"
proof -
  obtain t db1 v where s: "writable_tool actor ws tool req db = Inr (t, db1)" "get_version db1 version = Some v"
    "hv_http_tool_id v = ht_id t"
    using assms(1) by (auto simp: withdraw_version_def bind_res_eq_Inr split: option.splits if_splits)
  have id_v: "hv_id v = version" using s(2) by (auto simp: get_version_def dest!: lookup_SomeD)
  have again: "get_version (set_version_status version WITHDRAWN db1) version = Some (v\<lparr>hv_status := WITHDRAWN\<rparr>)"
    using s(2) by (simp add: get_version_def set_version_status_def version_status.lookup_update_same)
  have db': "catalog_ok nfkc db' = catalog_ok nfkc (if ht_current_version_id t = Some version
     then set_current_version (ht_id t) None (set_version_status version WITHDRAWN db1) else set_version_status version WITHDRAWN db1)"
    using assms(1) s id_v again by (auto simp: withdraw_version_def bind_res_eq_Inr Let_def split: if_splits)
  note t = writable_tool_inv[OF s(1)] and tables = require_writer_tables[OF writable_tool_inv(2)[OF s(1)], of nfkc]
  show ?thesis unfolding db' using withdraw_keeps[OF _ s(2,3)] assms(2) tables t(1) by simp
qed

lemma catalog_step_keeps: "catalog_step nfkc db db' \<Longrightarrow> catalog_ok nfkc db \<Longrightarrow> catalog_ok nfkc db'"
proof (induction rule: catalog_step.induct)
  case (step_preview fl prn digest actor ws document req db parsed db')
  then show ?case using require_writer_tables by (fastforce simp: preview_def bind_res_eq_Inr)
next
  case (step_list_tools actor ws req db listed db')
  then show ?case using require_reader_tables by (fastforce simp: list_tools_def)
next
  case (step_list_versions actor ws tool req db rows db')
  then show ?case using require_reader_tables by (fastforce simp: list_versions_def bind_res_eq_Inr)
qed (blast intro: register_keeps add_version_keeps withdraw_version_keeps)+

lemma reachable_ok: "catalog_reachable nfkc db \<Longrightarrow> catalog_ok nfkc db"
proof (induction rule: catalog_reachable.induct)
  case (reach_start db)
  then show ?case by (simp add: catalog_ok_def catalog_parts)
qed (blast intro: catalog_step_keeps)

lemma bound_operation_rows:
  assumes ok: "catalog_ok nfkc db" and entry: "entry \<in> set (bound_operations db bindings)"
  obtains t v op where "t \<in> set (ct_tools db)" "v \<in> set (ct_versions db)" "hv_http_tool_id v = ht_id t"
    "operation_document op \<in> set (hv_operations v)" "path_ok op"
    "entry = \<lparr>bo_tool_name = ht_name t, bo_version_id = hv_id v, bo_base_url = ht_base_url t,
              bo_credential_ref = ht_credential_ref t, bo_operation = reread op\<rparr>"
proof -
  obtain binding where in_b: "entry \<in> set (bound_of_binding db binding)"
    using entry by (auto simp: bound_operations_def)
  then obtain v t where row: "binding_row db (hb_http_tool_version_id binding) = Some (v, t)"
    by (cases "binding_row db (hb_http_tool_version_id binding)") (auto simp: bound_of_binding_def)
  then obtain operation_id d op' where b: "declared_document (hv_operations v) operation_id = Some d"
    "operation_from_document d = Some op'"
    "entry = \<lparr>bo_tool_name = ht_name t, bo_version_id = hb_http_tool_version_id binding, bo_base_url = ht_base_url t,
              bo_credential_ref = ht_credential_ref t, bo_operation = op'\<rparr>"
    using in_b by (auto simp: bound_of_binding_def map_filter_def split: option.splits if_splits)
  have rows: "v \<in> set (ct_versions db)" "hv_id v = hb_http_tool_version_id binding"
    "t \<in> set (ct_tools db)" "hv_http_tool_id v = ht_id t"
    using row by (auto simp: binding_row_def get_version_def get_tool_def split: option.splits dest!: lookup_SomeD)
  have d: "d \<in> set (hv_operations v)" using b(1) by (auto simp: declared_document_def find_Some_iff) (metis nth_mem set_rev length_rev)
  then obtain op where op: "path_ok op" "d = operation_document op"
    using ok rows(1) unfolding catalog_ok_def contents_ok_def list_all_iff document_ok_def by blast
  then have "op' = reread op" using b(2) stored_operation_reads_back by simp
  with that rows d op b(3) show ?thesis by auto
qed

lemma base_ok_url: "base_ok nfkc u \<Longrightarrow> \<exists>b. urlsplit nfkc u = Some b \<and> url_scheme b \<noteq> [] \<and> url_netloc b \<noteq> []"
  by (auto simp: base_ok_def py_def)

lemma reread_simps [simp]: "op_path (reread op) = op_path op" "op_method (reread op) = op_method op"
  "op_operation_id (reread op) = op_operation_id op" "op_body_schema (reread op) = op_body_schema op"
  "read_only (reread op) = read_only op" "path_ok (reread op) = path_ok op"
  by (simp_all add: reread_def read_only_def path_ok_def)

section \<open>A small catalog\<close>

definition sample_registration :: Registration where
  "sample_registration =
     \<lparr>rg_name = py ''crm'', rg_base_url = py ''https://api.x/v2/'', rg_document = witness_document, rg_credential_ref = None\<rparr>"

definition sample_actor :: Actor where
  "sample_actor = \<lparr>ac_id = 7, ac_is_platform_admin = False, ac_is_service_account = False, ac_role = None\<rparr>"

definition sample_start :: HttpToolDb where
  "sample_start = \<lparr>ct_members = [((5, 7), DEVELOPER)], ct_tools = [], ct_versions = [], ct_audit = []\<rparr>"

definition sample_scope :: "nat \<Rightarrow> OutboundScope" where
  "sample_scope ws = (case parse_entry (\<lambda>s. s) (py ''api.x'') of Inl _ \<Rightarrow> [] | Inr e \<Rightarrow> [e])"

definition sample_catalog :: HttpToolDb where
  "sample_catalog =
     \<lparr>ct_members = [((5, 7), DEVELOPER)],
      ct_tools = [\<lparr>ht_id = 3, ht_workspace_id = 5, ht_name = py ''crm'', ht_base_url = py ''https://api.x/v2/'',
                   ht_credential_ref = None, ht_current_version_id = Some 4, ht_created_by = 7\<rparr>],
      ct_versions = [\<lparr>hv_id = 4, hv_http_tool_id = 3, hv_version_number = 1, hv_content_hash = [], hv_title = [],
                      hv_document_version = [], hv_operations = [operation_document witness_operation],
                      hv_document = witness_document, hv_status = ACTIVE, hv_created_by = 7\<rparr>],
      ct_audit = [\<lparr>au_workspace_id = 5, au_actor_id = 7, au_action = py ''http_tool.registered'', au_resource_id = 3,
                   au_request_id = [], au_context = [(py ''name'', py ''crm''), (py ''host'', py ''api.x'')]\<rparr>]\<rparr>"

lemma sample_host: "checked_host (\<lambda>s. s) (\<lambda>s. s) (Some (sample_scope 5)) (py ''https://api.x/v2/'') = Inr (py ''api.x'')"
  by code_simp

lemma sample_registered:
  "\<exists>out. register fl (\<lambda>c. True) (\<lambda>b. []) (\<lambda>s. s) (\<lambda>s. s) (Some sample_scope) 3 4 sample_actor 5 sample_registration [] sample_start
     = Inr (out, sample_catalog)"
proof -
  have "require_writer sample_actor 5 [] sample_start = Inr sample_start"
    by (simp add: require_writer_def require_role_def sample_actor_def sample_start_def user_role_def WRITERS_def)
  moreover have "tool_name_match (py ''crm'') \<and> length (py ''crm'') \<le> NAME_MAX_LENGTH"
    by code_simp
  moreover have "parsed_document fl (\<lambda>c. True) (\<lambda>b. []) witness_document = Inr witness_parse"
    by (simp add: parsed_document_def witness_parsed)
  ultimately show ?thesis
    by (simp add: register_def sample_registration_def sample_host create_tool_def sample_start_def sample_actor_def
        add_version_row_def highest_number_def set_current_version_def get_tool_def append_audit_def sample_catalog_def
        witness_parse_def guard_res_def Let_def)
qed

lemma sample_catalog_reachable: "catalog_reachable (\<lambda>s. s) sample_catalog"
proof -
  have "catalog_reachable (\<lambda>s. s) sample_start" by (rule reach_start) (simp_all add: sample_start_def)
  moreover obtain out where "register (\<lambda>s. undefined) (\<lambda>c. True) (\<lambda>b. []) (\<lambda>s. s) (\<lambda>s. s) (Some sample_scope) 3 4 sample_actor 5
      sample_registration [] sample_start = Inr (out, sample_catalog)"
    using sample_registered by blast
  then have "catalog_step (\<lambda>s. s) sample_start sample_catalog"
    by (rule step_register) (simp_all add: sample_start_def)
  ultimately show ?thesis by (rule reach_step)
qed

definition sample_bindings :: "HttpToolBinding list" where
  "sample_bindings = [\<lparr>hb_http_tool_version_id = 4, hb_operations = [py ''g'', py ''gone'']\<rparr>]"

lemma sample_call:
  "map_sum id hp_url (http_call_of (\<lambda>s. s) (witness_call (py ''x/y'')) (bound_operations sample_catalog sample_bindings)) =
     Inr (py ''https://api.x/v2/a/x%2Fy'')"
  by code_simp

section \<open>Properties\<close>

text \<open>C14. Whatever people do with the catalog, in any order: the ids of its rows are unique and every version
  belongs to a tool, no two tools of a workspace have one name, the versions of a tool are numbered from
  one without a gap and no two have one content, the current version of a tool is one of its own and is
  not withdrawn, and every tool has an http or https address with a host and operations whose path was
  checked.\<close>

theorem catalog_invariant: "catalog_reachable nfkc db \<Longrightarrow> catalog_ok nfkc db"
  by (rule reachable_ok)

theorem catalog_invariant_witness:
  "catalog_ok (\<lambda>s. s) sample_catalog \<and> length (ct_tools sample_catalog) = 1 \<and> length (ct_versions sample_catalog) = 1"
  using catalog_invariant[OF sample_catalog_reachable] by (simp add: sample_catalog_def)

text \<open>C13. A request composed for a call of a Run is for an operation of a registered tool: the name that was
  called is that of the tool and of an operation its version stores, the request has that operation's
  method, is read back by \<open>urlsplit\<close> as going to the scheme and the host of that tool's address
  (the tool whose credential it will carry), and its path under that address is the operation's, in which
  the arguments filled braces only: the number of segments, every segment without a brace and the
  delimiters are those of the document. Every argument is declared, every required one is there, and there
  is a body exactly when the operation takes one.\<close>

theorem http_call_stays_on_tool:
  assumes reach: "catalog_reachable nfkc db"
    and call: "http_call_of nfkc call (bound_operations db bindings) = Inr plan"
  shows "\<exists>t \<in> set (ct_tools db). \<exists>v \<in> set (ct_versions db). \<exists>op. \<exists>entry \<in> set (bound_operations db bindings).
    bo_base_url entry = ht_base_url t \<and> bo_credential_ref entry = ht_credential_ref t \<and>
    hv_http_tool_id v = ht_id t \<and> operation_document op \<in> set (hv_operations v) \<and>
    tc_name call = py ''http.'' @ ht_name t @ py ''.'' @ op_operation_id op \<and>
    request_for nfkc call (reread op) (ht_base_url t) plan"
proof -
  note ok = reachable_ok[OF reach]
  let ?bound = "bound_operations db bindings"
  have paths: "\<forall>entry \<in> set ?bound. path_ok (bo_operation entry)"
    by (auto elim!: bound_operation_rows[OF ok])
  have bases: "\<forall>entry \<in> set ?bound. \<exists>b. urlsplit nfkc (bo_base_url entry) = Some b \<and> url_scheme b \<noteq> [] \<and> url_netloc b \<noteq> []"
  proof
    fix entry assume "entry \<in> set ?bound"
    then obtain t where "t \<in> set (ct_tools db)" "bo_base_url entry = ht_base_url t" by (auto elim!: bound_operation_rows[OF ok])
    with ok show "\<exists>b. urlsplit nfkc (bo_base_url entry) = Some b \<and> url_scheme b \<noteq> [] \<and> url_netloc b \<noteq> []"
      by (auto simp: catalog_ok_def contents_ok_def list_all_iff intro!: base_ok_url)
  qed
  obtain entry where entry: "entry \<in> set ?bound" "call_name entry = tc_name call"
    "request_for nfkc call (bo_operation entry) (bo_base_url entry) plan"
    using http_call_on_operation[OF call paths bases] by blast
  obtain t v op where rows: "t \<in> set (ct_tools db)" "v \<in> set (ct_versions db)" "hv_http_tool_id v = ht_id t"
    "operation_document op \<in> set (hv_operations v)" "path_ok op"
    "entry = \<lparr>bo_tool_name = ht_name t, bo_version_id = hv_id v, bo_base_url = ht_base_url t,
              bo_credential_ref = ht_credential_ref t, bo_operation = reread op\<rparr>"
    using bound_operation_rows[OF ok entry(1)] .
  have name: "call_name entry = py ''http.'' @ ht_name t @ py ''.'' @ op_operation_id op"
    using rows(6) by (simp add: call_name_def HTTP_PREFIX_def py_def)
  have parts: "bo_base_url entry = ht_base_url t" "bo_credential_ref entry = ht_credential_ref t" "bo_operation entry = reread op"
    using rows(6) by simp_all
  have "tc_name call = py ''http.'' @ ht_name t @ py ''.'' @ op_operation_id op" by (rule trans[OF entry(2)[symmetric] name])
  moreover have "request_for nfkc call (reread op) (ht_base_url t) plan" using entry(3) unfolding parts .
  ultimately show ?thesis using entry(1) rows(1-4) parts(1,2) by blast
qed

theorem http_call_stays_on_tool_witness:
  "\<exists>plan. http_call_of (\<lambda>s. s) (witness_call (py ''x/y'')) (bound_operations sample_catalog sample_bindings) = Inr plan \<and>
     hp_url plan = py ''https://api.x/v2/a/x%2Fy'' \<and>
     (\<exists>op. request_for (\<lambda>s. s) (witness_call (py ''x/y'')) (reread op) (py ''https://api.x/v2/'') plan)"
proof -
  obtain plan where plan: "http_call_of (\<lambda>s. s) (witness_call (py ''x/y'')) (bound_operations sample_catalog sample_bindings) = Inr plan"
    "py ''https://api.x/v2/a/x%2Fy'' = hp_url plan"
    using sample_call unfolding map_sum_eq_Inr by blast
  have "t \<in> set (ct_tools sample_catalog) \<Longrightarrow> ht_base_url t = py ''https://api.x/v2/''" for t
    by (simp add: sample_catalog_def)
  with http_call_stays_on_tool[OF sample_catalog_reachable plan(1)] plan show ?thesis by metis
qed

end
