(* ===== verification/Workspace_Manifest.thy ===== *)
theory Workspace_Manifest
  imports Py_Json Tables "HOL-Library.Multiset" "HOL-Library.Word"
begin

text \<open>
  \<^verbatim>\<open>session_workspace/domain/models.py\<close> and \<^verbatim>\<open>manifest.py\<close>, and the pure
  helpers of \<^verbatim>\<open>session_workspace/application/service.py\<close>: the paths a saved workspace
  may hold, its entries, the manifest of a tree, the quota, the projection of one write, the
  document a manifest is stored as and the reading of it. Unicode normalization
  (\<open>unicodedata.normalize("NFC", s)\<close>) is the argument \<open>nfc\<close>; what the theorems rely
  on is \<open>nfc_ok\<close>: it is idempotent, works segment by segment of a path, and neither makes
  nor removes the characters and the segments the rules are about. \<open>json.loads\<close> decodes
  bytes that are not UTF-8 by the argument \<open>other\<close>.
\<close>

unbundle bit_operations_syntax

section \<open>Paths\<close>

datatype WorkspaceError =
    InvalidWorkspacePath pystr
  | DuplicateWorkspacePath pystr
  | UnsupportedWorkspaceEntry pystr
  | EntryInvalid pystr
  | PathNotEncodable

datatype RawPath = PathStr pystr | PathBytes "nat list"

definition illegal_segment :: "pystr \<Rightarrow> bool" where
  "illegal_segment seg \<longleftrightarrow> seg = [] \<or> seg = py ''.'' \<or> seg = py ''..''"

definition normalize_str :: "(pystr \<Rightarrow> pystr) \<Rightarrow> pystr \<Rightarrow> (WorkspaceError, pystr) result" where
  "normalize_str nfc path =
     (if path = [] then Inl (InvalidWorkspacePath (py ''empty path''))
      else if 0 \<in> set path then Inl (InvalidWorkspacePath (py ''NUL in path''))
      else if 92 \<in> set path then Inl (InvalidWorkspacePath (py ''backslash in path''))
      else if py_startswith path (py ''/'') then Inl (InvalidWorkspacePath (py ''absolute path''))
      else if list_ex illegal_segment (py_split 47 path)
        then Inl (InvalidWorkspacePath (py ''illegal segment in: '' @ path))
      else Inr (nfc path))"

definition normalize_workspace_path ::
  "(pystr \<Rightarrow> pystr) \<Rightarrow> RawPath \<Rightarrow> (WorkspaceError, pystr) result" where
  "normalize_workspace_path nfc raw =
     (case raw of
        PathStr path \<Rightarrow> normalize_str nfc path
      | PathBytes b \<Rightarrow>
          (case utf8_decode False b of
             None \<Rightarrow> Inl (InvalidWorkspacePath (py ''not valid UTF-8''))
           | Some path \<Rightarrow> normalize_str nfc path))"

section \<open>Entries and manifests\<close>

datatype EntryType = DIRECTORY | FILE

fun EntryType_value :: "EntryType \<Rightarrow> pystr" where
  "EntryType_value DIRECTORY = py ''directory''"
| "EntryType_value FILE = py ''file''"

definition from_scan :: "pystr \<Rightarrow> (WorkspaceError, EntryType) result" where
  "from_scan raw =
     (if raw = py ''directory'' then Inr DIRECTORY
      else if raw = py ''file'' then Inr FILE
      else Inl (UnsupportedWorkspaceEntry raw))"

record WorkspaceEntry =
  we_path :: pystr
  we_type :: EntryType
  we_mode :: int
  we_size :: int
  we_sha256 :: "pystr option"

definition DIGEST_HEX_LENGTH :: nat where "DIGEST_HEX_LENGTH = 64"

definition workspace_entry ::
  "pystr \<Rightarrow> EntryType \<Rightarrow> int \<Rightarrow> int \<Rightarrow> pystr option \<Rightarrow> (WorkspaceError, WorkspaceEntry) result" where
  "workspace_entry path entry_type mode sz sha256 =
     (let entry = \<lparr>we_path = path, we_type = entry_type, we_mode = mode, we_size = sz, we_sha256 = sha256\<rparr>
      in if sz < 0 then Inl (EntryInvalid (py ''negative size: '' @ path))
         else if entry_type = FILE then
           (case sha256 of
              Some d \<Rightarrow>
                (if length d \<noteq> DIGEST_HEX_LENGTH
                 then Inl (EntryInvalid (py ''a file entry needs a content digest: '' @ path))
                 else Inr entry)
            | None \<Rightarrow> Inl (EntryInvalid (py ''a file entry needs a content digest: '' @ path)))
         else if sha256 \<noteq> None
           then Inl (EntryInvalid (py ''a directory entry carries no digest: '' @ path))
         else if sz \<noteq> 0 then Inl (EntryInvalid (py ''a directory entry carries no size: '' @ path))
         else Inr entry)"

definition entry_file ::
  "(nat list \<Rightarrow> pystr) \<Rightarrow> pystr \<Rightarrow> nat list \<Rightarrow> int \<Rightarrow> (WorkspaceError, WorkspaceEntry) result" where
  "entry_file sha path content mode =
     workspace_entry path FILE mode (int (length content)) (Some (sha content))"

definition entry_directory :: "pystr \<Rightarrow> int \<Rightarrow> (WorkspaceError, WorkspaceEntry) result" where
  "entry_directory path mode = workspace_entry path DIRECTORY mode 0 None"

record WorkspaceManifest =
  wm_schema_version :: int
  wm_entries :: "WorkspaceEntry list"
  wm_total_bytes :: int
  wm_object_count :: int

definition MODE_KEPT_BITS :: int where "MODE_KEPT_BITS = 511"

fun normalize_entries ::
  "(pystr \<Rightarrow> pystr) \<Rightarrow> (pystr \<times> WorkspaceEntry) list \<Rightarrow> WorkspaceEntry list \<Rightarrow>
   (WorkspaceError, (pystr \<times> WorkspaceEntry) list) result" where
  "normalize_entries nfc seen [] = Inr seen"
| "normalize_entries nfc seen (e # es) =
     bind_res (normalize_workspace_path nfc (PathStr (we_path e)))
       (\<lambda>path.
          if path \<in> fst ` set seen then Inl (DuplicateWorkspacePath path)
          else bind_res (workspace_entry path (we_type e) (we_mode e AND MODE_KEPT_BITS) (we_size e) (we_sha256 e))
                 (\<lambda>entry. normalize_entries nfc (seen @ [(path, entry)]) es))"

text \<open>\<open>sorted(normalized, key=lambda p: p.encode("utf-8"))\<close>: the keys of all are computed first.\<close>

definition sort_entries ::
  "(pystr \<times> WorkspaceEntry) list \<Rightarrow> (WorkspaceError, WorkspaceEntry list) result" where
  "sort_entries normalized =
     map_sum id (\<lambda>keyed. map snd (sort_key fst keyed))
       (map_res (\<lambda>(path, e). case utf8 path of None \<Rightarrow> Inl PathNotEncodable | Some b \<Rightarrow> Inr (b, e)) normalized)"

definition build_manifest ::
  "(pystr \<Rightarrow> pystr) \<Rightarrow> WorkspaceEntry list \<Rightarrow> int \<Rightarrow> (WorkspaceError, WorkspaceManifest) result" where
  "build_manifest nfc entries schema_version =
     bind_res (normalize_entries nfc [] entries)
       (\<lambda>normalized.
          map_sum id
            (\<lambda>ordered.
               \<lparr>wm_schema_version = schema_version, wm_entries = ordered,
                wm_total_bytes = sum_list (map we_size ordered), wm_object_count = int (length ordered)\<rparr>)
            (sort_entries normalized))"

section \<open>Quota\<close>

record WorkspaceQuota =
  wq_max_bytes :: int
  wq_max_objects :: int

datatype QuotaDimension = BytesDimension | ObjectsDimension

record QuotaMeasurement =
  qm_allowed :: bool
  qm_dimension :: "QuotaDimension option"
  qm_total_bytes :: int
  qm_object_count :: int

definition measure_quota :: "int \<Rightarrow> int \<Rightarrow> WorkspaceQuota \<Rightarrow> QuotaMeasurement" where
  "measure_quota total_bytes object_count quota =
     (let dimension = (if total_bytes > wq_max_bytes quota then Some BytesDimension
                       else if object_count > wq_max_objects quota then Some ObjectsDimension
                       else None)
      in \<lparr>qm_allowed = (dimension = None), qm_dimension = dimension,
          qm_total_bytes = total_bytes, qm_object_count = object_count\<rparr>)"

record ProjectedTotals =
  pt_total_bytes :: int
  pt_object_count :: int

fun ancestor_paths :: "pystr \<Rightarrow> pystr list \<Rightarrow> pystr list" where
  "ancestor_paths ancestor [] = []"
| "ancestor_paths ancestor (part # parts) =
     (let next_one = (if ancestor \<noteq> [] then ancestor @ [47] @ part else part)
      in next_one # ancestor_paths next_one parts)"

definition project_write ::
  "(pystr \<Rightarrow> pystr) \<Rightarrow> WorkspaceManifest \<Rightarrow> RawPath \<Rightarrow> int \<Rightarrow> (WorkspaceError, ProjectedTotals) result" where
  "project_write nfc manifest path sz =
     bind_res (normalize_workspace_path nfc path)
       (\<lambda>target.
          let existing = map_of (rev (map (\<lambda>e. (we_path e, e)) (wm_entries manifest)));
              replaced = existing target;
              total_bytes = wm_total_bytes manifest - (case replaced of None \<Rightarrow> 0 | Some e \<Rightarrow> we_size e) + sz;
              object_count = wm_object_count manifest + (if replaced = None then 1 else 0);
              missing = (if replaced = None
                         then length (filter (\<lambda>a. existing a = None) (ancestor_paths [] (butlast (py_split 47 target))))
                         else 0)
          in Inr \<lparr>pt_total_bytes = total_bytes, pt_object_count = object_count + int missing\<rparr>)"

section \<open>The stored document\<close>

definition entry_fields :: "WorkspaceEntry \<Rightarrow> jobject" where
  "entry_fields e =
     [(py ''path'', JStr (we_path e)), (py ''type'', JStr (EntryType_value (we_type e))),
      (py ''mode'', JInt (we_mode e)), (py ''size'', JInt (we_size e)),
      (py ''sha256'', case we_sha256 e of None \<Rightarrow> JNull | Some d \<Rightarrow> JStr d)]"

definition manifest_fields :: "WorkspaceManifest \<Rightarrow> jobject" where
  "manifest_fields m =
     [(py ''schema_version'', JInt (wm_schema_version m)),
      (py ''entries'', JList (map (\<lambda>e. JDict (entry_fields e)) (wm_entries m))),
      (py ''total_bytes'', JInt (wm_total_bytes m)),
      (py ''object_count'', JInt (wm_object_count m))]"

definition canonical_bytes :: "WorkspaceManifest \<Rightarrow> nat list option" where
  "canonical_bytes m = utf8 (json_dumps (JDict (manifest_fields m)))"

text \<open>\<open>json.loads\<close> of bytes: UTF-8, with or without a mark, unless the first bytes look
  like one of the wider encodings.\<close>

definition looks_wide :: "nat list \<Rightarrow> bool" where
  "looks_wide b \<longleftrightarrow>
     py_startswith b [255, 254] \<or> py_startswith b [254, 255] \<or> py_startswith b [0, 0, 254, 255] \<or>
     (4 \<le> length b \<and> (b ! 0 = 0 \<or> b ! 1 = 0)) \<or> (length b = 2 \<and> (b ! 0 = 0 \<or> b ! 1 = 0))"

definition json_loads_bytes ::
  "(nat list \<Rightarrow> pystr option) \<Rightarrow> (pystr \<Rightarrow> pyfloat) \<Rightarrow> nat list \<Rightarrow> json option" where
  "json_loads_bytes other fl b =
     Option.bind
       (if looks_wide b then other b
        else if py_startswith b [239, 187, 191] then utf8_decode True (drop 3 b)
        else utf8_decode True b)
       (json_loads fl)"

datatype SavedManifestError = WorkspaceIntegrityFailed | TotalsRaise py_error

text \<open>One entry of a stored document; \<open>None\<close> for any exception inside the \<open>try\<close>.\<close>

definition entry_of_item :: "(nat \<Rightarrow> bool) \<Rightarrow> json \<Rightarrow> WorkspaceEntry option" where
  "entry_of_item prn item =
     (case item of
        JDict d \<Rightarrow>
          (case (jget d (py ''path''), jget d (py ''type''), jget d (py ''mode''), jget d (py ''size''), jget d (py ''sha256'')) of
             (Some path, Some kind, Some mode, Some sz, Some sha) \<Rightarrow>
               (case (from_scan (py_str prn kind), py_int_of mode, py_int_of sz) of
                  (Inr t, Inr md, Inr n) \<Rightarrow>
                    (case workspace_entry (py_str prn path) t md n
                            (if sha = JNull then None else Some (py_str prn sha)) of
                       Inr e \<Rightarrow> Some e
                     | Inl _ \<Rightarrow> None)
                | _ \<Rightarrow> None)
           | _ \<Rightarrow> None)
      | _ \<Rightarrow> None)"

fun entries_of_items :: "(nat \<Rightarrow> bool) \<Rightarrow> json list \<Rightarrow> WorkspaceEntry list option" where
  "entries_of_items prn [] = Some []"
| "entries_of_items prn (x # xs) =
     (case entry_of_item prn x of
        None \<Rightarrow> None
      | Some e \<Rightarrow> map_option ((#) e) (entries_of_items prn xs))"

definition parse_saved_manifest ::
  "(pystr \<Rightarrow> pystr) \<Rightarrow> (nat \<Rightarrow> bool) \<Rightarrow> (nat list \<Rightarrow> pystr option) \<Rightarrow> (pystr \<Rightarrow> pyfloat) \<Rightarrow> nat list \<Rightarrow>
   (SavedManifestError, WorkspaceManifest) result" where
  "parse_saved_manifest nfc prn other fl data =
     (case json_loads_bytes other fl data of
        Some (JDict document) \<Rightarrow>
          (case jget document (py ''entries'') of
             Some (JList raw) \<Rightarrow>
               (case (entries_of_items prn raw, py_int_of (jget_or document (py ''schema_version'') (JInt 0))) of
                  (Some entries, Inr version) \<Rightarrow>
                    (case build_manifest nfc entries version of
                       Inl _ \<Rightarrow> Inl WorkspaceIntegrityFailed
                     | Inr manifest \<Rightarrow>
                         (case py_int_of (jget_or document (py ''total_bytes'') (JInt (- 1))) of
                            Inl e \<Rightarrow> Inl (TotalsRaise e)
                          | Inr total_bytes \<Rightarrow>
                              (if wm_total_bytes manifest \<noteq> total_bytes then Inl WorkspaceIntegrityFailed
                               else
                                 (case py_int_of (jget_or document (py ''object_count'') (JInt (- 1))) of
                                    Inl e \<Rightarrow> Inl (TotalsRaise e)
                                  | Inr object_count \<Rightarrow>
                                      (if wm_object_count manifest \<noteq> object_count
                                       then Inl WorkspaceIntegrityFailed else Inr manifest)))))
                | _ \<Rightarrow> Inl WorkspaceIntegrityFailed)
           | _ \<Rightarrow> Inl WorkspaceIntegrityFailed)
      | _ \<Rightarrow> Inl WorkspaceIntegrityFailed)"

section \<open>The scan of a tree\<close>

record ScanEntry =
  sc_path :: pystr
  sc_type :: pystr
  sc_mode :: int
  sc_size :: int
  sc_sha256 :: "pystr option"

definition MANIFEST_SCHEMA_VERSION :: int where "MANIFEST_SCHEMA_VERSION = 1"

definition judge_scanned :: "ScanEntry \<Rightarrow> (WorkspaceError, WorkspaceEntry) result" where
  "judge_scanned entry =
     bind_res (from_scan (sc_type entry))
       (\<lambda>t. workspace_entry (sc_path entry) t (sc_mode entry)
              (if sc_type entry = py ''file'' then sc_size entry else 0)
              (if sc_type entry = py ''file'' then sc_sha256 entry else None))"

definition manifest_of_scan ::
  "(pystr \<Rightarrow> pystr) \<Rightarrow> ScanEntry list \<Rightarrow> (WorkspaceError, WorkspaceManifest) result" where
  "manifest_of_scan nfc entries =
     bind_res (map_res judge_scanned entries) (\<lambda>judged. build_manifest nfc judged MANIFEST_SCHEMA_VERSION)"

definition padding :: "nat \<Rightarrow> nat list" where
  "padding sz = (if sz mod 512 = 0 then [] else replicate (512 - sz mod 512) 0)"

section \<open>Which paths and entries are accepted\<close>

definition nfc_ok :: "(pystr \<Rightarrow> pystr) \<Rightarrow> bool" where
  "nfc_ok nfc \<longleftrightarrow>
     (\<forall>s. nfc (nfc s) = nfc s) \<and> (\<forall>s. py_split 47 (nfc s) = map nfc (py_split 47 s)) \<and>
     (\<forall>s. illegal_segment (nfc s) \<longleftrightarrow> illegal_segment s) \<and>
     (\<forall>s. 0 \<in> set (nfc s) \<longleftrightarrow> 0 \<in> set s) \<and> (\<forall>s. 92 \<in> set (nfc s) \<longleftrightarrow> 92 \<in> set s)"

definition safe_path :: "pystr \<Rightarrow> bool" where
  "safe_path p \<longleftrightarrow> 0 \<notin> set p \<and> 92 \<notin> set p \<and> (\<forall>seg \<in> set (py_split 47 p). \<not> illegal_segment seg)"

lemma safe_path_relative:
  assumes "safe_path p"
  shows "p \<noteq> []" "\<not> py_startswith p (py ''/'')"
proof -
  show "p \<noteq> []"
  proof
    assume "p = []"
    then show False using assms by (simp add: safe_path_def illegal_segment_def)
  qed
  show "\<not> py_startswith p (py ''/'')"
  proof
    assume "py_startswith p (py ''/'')"
    then obtain q where "p = 47 # q" by (cases p) (auto simp: py_startswith_def py_def)
    then show False using assms by (simp add: safe_path_def illegal_segment_def)
  qed
qed

lemma normalize_str_Inr [simp]: "normalize_str nfc p = Inr q \<longleftrightarrow> safe_path p \<and> q = nfc p"
  using safe_path_relative[of p] by (auto simp: normalize_str_def safe_path_def list_ex_iff)

lemma normalize_path_Inr [simp]: "normalize_workspace_path nfc (PathStr p) = Inr q \<longleftrightarrow> safe_path p \<and> q = nfc p"
  by (simp add: normalize_workspace_path_def)

lemma safe_path_nfc: "nfc_ok nfc \<Longrightarrow> safe_path (nfc p) \<longleftrightarrow> safe_path p"
  by (auto simp: nfc_ok_def safe_path_def)

lemma nfc_ok_id: "nfc_ok (\<lambda>s. s)"
  by (simp add: nfc_ok_def)

lemma nfc_idem: "nfc_ok nfc \<Longrightarrow> nfc (nfc s) = nfc s"
  by (simp add: nfc_ok_def)

definition entry_ok :: "WorkspaceEntry \<Rightarrow> bool" where
  "entry_ok e \<longleftrightarrow> 0 \<le> we_size e \<and>
     (if we_type e = FILE then \<exists>d. we_sha256 e = Some d \<and> length d = DIGEST_HEX_LENGTH
      else we_sha256 e = None \<and> we_size e = 0)"

lemma workspace_entry_Inr [simp]:
  "workspace_entry p t md n sh = Inr e \<longleftrightarrow>
   e = \<lparr>we_path = p, we_type = t, we_mode = md, we_size = n, we_sha256 = sh\<rparr> \<and> entry_ok e"
  by (cases t; cases sh) (auto simp: workspace_entry_def entry_ok_def Let_def)

definition normal_entry :: "(pystr \<Rightarrow> pystr) \<Rightarrow> WorkspaceEntry \<Rightarrow> WorkspaceEntry" where
  "normal_entry nfc e =
     \<lparr>we_path = nfc (we_path e), we_type = we_type e, we_mode = we_mode e AND MODE_KEPT_BITS,
      we_size = we_size e, we_sha256 = we_sha256 e\<rparr>"

lemma normal_entry_sel [simp]:
  "we_path (normal_entry nfc e) = nfc (we_path e)" "we_type (normal_entry nfc e) = we_type e"
  "we_size (normal_entry nfc e) = we_size e" "we_sha256 (normal_entry nfc e) = we_sha256 e"
  "we_mode (normal_entry nfc e) = we_mode e AND MODE_KEPT_BITS"
  by (simp_all add: normal_entry_def)

lemma entry_ok_normal [simp]: "entry_ok (normal_entry nfc e) = entry_ok e"
  by (simp add: entry_ok_def)

lemma normal_entry_idem: "nfc_ok nfc \<Longrightarrow> normal_entry nfc (normal_entry nfc e) = normal_entry nfc e"
  by (simp add: normal_entry_def nfc_idem and.assoc)

lemma normalize_entries_Inr:
  "normalize_entries nfc seen es = Inr r \<longleftrightarrow>
   (\<forall>e \<in> set es. safe_path (we_path e) \<and> entry_ok e) \<and> distinct (map (\<lambda>e. nfc (we_path e)) es) \<and>
   fst ` set seen \<inter> (\<lambda>e. nfc (we_path e)) ` set es = {} \<and>
   r = seen @ map (\<lambda>e. (nfc (we_path e), normal_entry nfc e)) es"
proof (induction es arbitrary: seen)
  case (Cons e es)
  let ?p = "nfc (we_path e)"
  have "normalize_entries nfc seen (e # es) = Inr r \<longleftrightarrow>
      safe_path (we_path e) \<and> entry_ok e \<and> ?p \<notin> fst ` set seen \<and>
      normalize_entries nfc (seen @ [(?p, normal_entry nfc e)]) es = Inr r"
    using entry_ok_normal[of nfc e] by (auto simp: normal_entry_def[symmetric] split: if_splits)
  also have "\<dots> \<longleftrightarrow> safe_path (we_path e) \<and> entry_ok e \<and> ?p \<notin> fst ` set seen \<and>
      (\<forall>e \<in> set es. safe_path (we_path e) \<and> entry_ok e) \<and> distinct (map (\<lambda>e. nfc (we_path e)) es) \<and>
      (fst ` set seen \<union> {?p}) \<inter> (\<lambda>e. nfc (we_path e)) ` set es = {} \<and>
      r = (seen @ [(?p, normal_entry nfc e)]) @ map (\<lambda>e. (nfc (we_path e), normal_entry nfc e)) es"
    unfolding Cons.IH by simp
  finally show ?case by auto
qed auto

text \<open>Sorting by the bytes of the paths is sorting by their code points.\<close>

lemma insort_key_iso:
  "(\<And>y. y \<in> set ys \<Longrightarrow> k x \<le> k y \<longleftrightarrow> k' x \<le> k' y) \<Longrightarrow> insort_key k x ys = insort_key k' x ys"
  by (induction ys) auto

lemma sort_key_iso:
  "(\<And>x y. x \<in> set xs \<Longrightarrow> y \<in> set xs \<Longrightarrow> k x \<le> k y \<longleftrightarrow> k' x \<le> k' y) \<Longrightarrow> sort_key k xs = sort_key k' xs"
proof (induction xs)
  case (Cons x xs)
  then have "sort_key k xs = sort_key k' xs" by simp
  moreover have "insort_key k x (sort_key k' xs) = insort_key k' x (sort_key k' xs)"
    using Cons.prems by (intro insort_key_iso) simp
  ultimately show ?case by simp
qed simp

lemma map_res_Inr_each: "map_res f xs = Inr ys \<Longrightarrow> x \<in> set xs \<Longrightarrow> \<exists>y. f x = Inr y"
  by (induction xs arbitrary: ys) (auto split: sum.splits)

lemma sort_entries_Inr:
  "sort_entries ps = Inr r \<longleftrightarrow> (\<forall>p \<in> set ps. utf8 (fst p) \<noteq> None) \<and> r = map snd (sort_key fst ps)"
proof -
  let ?f = "\<lambda>(path, e). case utf8 path of None \<Rightarrow> Inl PathNotEncodable | Some b \<Rightarrow> Inr (b, e)"
  let ?g = "\<lambda>p :: pystr \<times> WorkspaceEntry. (the (utf8 (fst p)), snd p)"
  show ?thesis
  proof (cases "\<forall>p \<in> set ps. utf8 (fst p) \<noteq> None")
    case True
    then have "map_res ?f ps = Inr (map ?g ps)" by (intro map_res_total) auto
    then have "sort_entries ps = Inr (map snd (sort_key fst (map ?g ps)))" by (simp add: sort_entries_def)
    also have "sort_key fst (map ?g ps) = map ?g (sort_key (fst \<circ> ?g) ps)" by (simp add: sort_key_map comp_def)
    also have "sort_key (fst \<circ> ?g) ps = sort_key fst ps"
    proof (rule sort_key_iso)
      fix x y assume "x \<in> set ps" "y \<in> set ps"
      then obtain a b where "utf8 (fst x) = Some a" "utf8 (fst y) = Some b" using True by blast
      then show "(fst \<circ> ?g) x \<le> (fst \<circ> ?g) y \<longleftrightarrow> fst x \<le> fst y" using utf8_mono by simp
    qed
    finally show ?thesis using True by (auto simp: comp_def)
  next
    case False
    have "map_res ?f ps \<noteq> Inr ks" for ks
    proof
      assume mr: "map_res ?f ps = Inr ks"
      have ok: "\<forall>p \<in> set ps. \<exists>y. ?f p = Inr y" by (intro ballI) (rule map_res_Inr_each[OF mr])
      obtain path e where "(path, e) \<in> set ps" "utf8 path = None" using False by force
      with ok show False by fastforce
    qed
    then show ?thesis using False by (auto simp: sort_entries_def)
  qed
qed

definition manifest_with :: "int \<Rightarrow> WorkspaceEntry list \<Rightarrow> WorkspaceManifest" where
  "manifest_with v es =
     \<lparr>wm_schema_version = v, wm_entries = es, wm_total_bytes = sum_list (map we_size es),
      wm_object_count = int (length es)\<rparr>"

definition manifest_input :: "(pystr \<Rightarrow> pystr) \<Rightarrow> WorkspaceEntry list \<Rightarrow> bool" where
  "manifest_input nfc es \<longleftrightarrow>
     (\<forall>e \<in> set es. safe_path (we_path e) \<and> entry_ok e \<and> utf8 (nfc (we_path e)) \<noteq> None) \<and>
     distinct (map (\<lambda>e. nfc (we_path e)) es)"

lemma build_manifest_Inr:
  "build_manifest nfc es v = Inr m \<longleftrightarrow>
   manifest_input nfc es \<and> m = manifest_with v (sort_key we_path (map (normal_entry nfc) es))"
proof -
  let ?ps = "map (\<lambda>e. (nfc (we_path e), normal_entry nfc e)) es"
  have "?ps = map (\<lambda>e. (we_path e, e)) (map (normal_entry nfc) es)" by simp
  then have "map snd (sort_key fst ?ps) = sort_key we_path (map (normal_entry nfc) es)"
    by (simp only: sort_key_map) (simp add: comp_def)
  then show ?thesis
    by (auto simp: build_manifest_def normalize_entries_Inr sort_entries_Inr manifest_input_def
        manifest_with_def simp del: map_map)
qed

lemma sort_key_perm:
  assumes "distinct (map k xs)" "mset xs = mset ys"
  shows "sort_key k xs = sort_key k ys"
  using assms by (intro sort_key_inj_key_eq) (auto simp: distinct_map)

lemma distinct_map_sort: "distinct (map g (sort_key k xs)) \<longleftrightarrow> distinct (map g xs)"
  by (metis mset_eq_imp_distinct_iff mset_map mset_sort)

lemma sort_key_strict:
  assumes "distinct (map k xs)"
  shows "sorted_wrt (\<lambda>a b. k a < k b) (sort_key k xs)"
proof -
  have "sorted_wrt (<) (map k (sort_key k xs))"
    using assms by (simp add: strict_sorted_iff distinct_map)
  then show ?thesis by (simp add: sorted_wrt_map)
qed

lemma strict_sorted_sort_key: "sorted_wrt (\<lambda>a b. k a < k b) xs \<Longrightarrow> sort_key k xs = xs"
  by (intro sort_key_id_if_sorted) (simp add: sorted_wrt_map sorted_wrt_mono_rel[of xs "\<lambda>a b. k a < k b"] less_imp_le)

text \<open>What a manifest is made of, once it was built.\<close>

lemma manifest_entries:
  assumes "manifest_input nfc es"
  shows "distinct (map we_path (map (normal_entry nfc) es))"
    "set (sort_key we_path (map (normal_entry nfc) es)) = normal_entry nfc ` set es"
  using assms by (simp_all add: manifest_input_def comp_def)

lemma manifest_input_normal:
  assumes "nfc_ok nfc" "manifest_input nfc es"
  shows "manifest_input nfc (sort_key we_path (map (normal_entry nfc) es))"
    "map (normal_entry nfc) (sort_key we_path (map (normal_entry nfc) es)) = sort_key we_path (map (normal_entry nfc) es)"
proof -
  let ?o = "sort_key we_path (map (normal_entry nfc) es)"
  have "normal_entry nfc e = e" if e: "e \<in> set ?o" for e
  proof -
    obtain e0 where "e = normal_entry nfc e0" using e unfolding manifest_entries(2)[OF assms(2)] by blast
    then show ?thesis by (simp only: normal_entry_idem[OF assms(1)])
  qed
  then show same: "map (normal_entry nfc) ?o = ?o" by (rule map_idI)
  have "map (\<lambda>e. nfc (we_path e)) ?o = map we_path (map (normal_entry nfc) ?o)" by simp
  then have paths: "map (\<lambda>e. nfc (we_path e)) ?o = map we_path ?o" by (simp only: same)
  have "distinct (map we_path ?o)"
    using manifest_entries(1)[OF assms(2)] by (simp only: distinct_map_sort)
  moreover have "\<forall>e \<in> set ?o. safe_path (we_path e) \<and> entry_ok e \<and> utf8 (nfc (we_path e)) \<noteq> None"
    using assms manifest_entries(2)[OF assms(2)] by (auto simp: manifest_input_def safe_path_nfc nfc_idem)
  ultimately show "manifest_input nfc ?o" unfolding manifest_input_def paths by blast
qed

lemma manifest_is_entries:
  assumes "build_manifest nfc es v = Inr m"
  shows "\<forall>e \<in> set (wm_entries m). entry_ok e \<and> utf8 (we_path e) \<noteq> None"
  using assms unfolding build_manifest_Inr manifest_with_def manifest_input_def by auto

lemma manifest_is_paths:
  assumes "build_manifest nfc es v = Inr m"
  shows "distinct (map we_path (wm_entries m))"
  using assms manifest_entries(1)[of nfc es]
  by (simp only: build_manifest_Inr manifest_with_def WorkspaceManifest.simps distinct_map_sort)

lemma build_manifest_again:
  assumes "nfc_ok nfc" "build_manifest nfc es v = Inr m"
  shows "build_manifest nfc (wm_entries m) v = Inr m"
proof -
  let ?o = "sort_key we_path (map (normal_entry nfc) es)"
  have m: "manifest_input nfc es" "m = manifest_with v ?o" using assms(2) by (simp_all add: build_manifest_Inr)
  have "sort_key we_path ?o = ?o"
    using sort_key_strict[OF manifest_entries(1)[OF m(1)]] by (rule strict_sorted_sort_key)
  then show ?thesis
    using manifest_input_normal[OF assms(1) m(1)] m(2) by (simp add: build_manifest_Inr manifest_with_def)
qed

lemma build_manifest_perm:
  assumes "build_manifest nfc es v = Inr m" "mset es' = mset es"
  shows "build_manifest nfc es' v = Inr m"
proof -
  have in_es: "manifest_input nfc es" using assms(1) by (simp add: build_manifest_Inr)
  have "mset (map (\<lambda>e. nfc (we_path e)) es') = mset (map (\<lambda>e. nfc (we_path e)) es)" using assms(2) by simp
  then have "manifest_input nfc es'"
    using in_es mset_eq_setD[OF assms(2)] mset_eq_imp_distinct_iff[of "map (\<lambda>e. nfc (we_path e)) es'"]
    by (simp only: manifest_input_def) blast
  moreover have "sort_key we_path (map (normal_entry nfc) es) = sort_key we_path (map (normal_entry nfc) es')"
    using assms(2) manifest_entries(1)[OF in_es] by (intro sort_key_perm) simp_all
  ultimately show ?thesis using assms(1) by (simp add: build_manifest_Inr)
qed

section \<open>Properties\<close>

text \<open>C17. A manifest depends on the tree and on nothing else. Whatever order the scan reported the
  entries in, the manifest is the same one, and building a manifest from its own entries gives it
  back. Its paths are safe (relative, no empty, \<open>.\<close> or \<open>..\<close> segment, no
  backslash, no NUL), normalized, and strictly increasing, so that a directory stands before
  everything under it; the privilege bits are gone; the totals are those of the entries.\<close>

theorem manifest_is_canonical:
  assumes "nfc_ok nfc" "build_manifest nfc es v = Inr m"
  shows "(\<forall>es'. mset es' = mset es \<longrightarrow> build_manifest nfc es' v = Inr m) \<and>
    build_manifest nfc (wm_entries m) v = Inr m \<and>
    (\<forall>e \<in> set (wm_entries m). safe_path (we_path e) \<and> nfc (we_path e) = we_path e \<and>
       0 \<le> we_mode e \<and> we_mode e \<le> 511 \<and> entry_ok e) \<and>
    sorted_wrt (\<lambda>a b. we_path a < we_path b) (wm_entries m) \<and>
    (\<forall>i < length (wm_entries m). \<forall>j < length (wm_entries m). \<forall>rest.
       we_path (wm_entries m ! j) = we_path (wm_entries m ! i) @ [47] @ rest \<longrightarrow> i < j) \<and>
    wm_total_bytes m = sum_list (map we_size (wm_entries m)) \<and> wm_object_count m = int (length (wm_entries m))"
proof -
  let ?o = "sort_key we_path (map (normal_entry nfc) es)"
  have inp: "manifest_input nfc es" and m: "m = manifest_with v ?o" using assms(2) by (simp_all add: build_manifest_Inr)
  have entries: "wm_entries m = ?o" by (simp add: m manifest_with_def)
  have sorted: "sorted_wrt (\<lambda>a b. we_path a < we_path b) (wm_entries m)"
    unfolding entries by (rule sort_key_strict[OF manifest_entries(1)[OF inp]])
  have "i < j" if "i < length (wm_entries m)" "j < length (wm_entries m)"
    "we_path (wm_entries m ! j) = we_path (wm_entries m ! i) @ [47] @ rest" for i j rest
  proof (rule ccontr)
    assume "\<not> i < j"
    moreover have "i \<noteq> j" using that(3) by auto
    ultimately have "we_path (wm_entries m ! j) < we_path (wm_entries m ! i)"
      using sorted_wrt_nth_less[OF sorted] that(1) by simp
    moreover have "we_path (wm_entries m ! i) \<le> we_path (wm_entries m ! j)"
      unfolding that(3) by (simp add: list_le_def list_less_def lexord_append_rightI)
    ultimately show False by simp
  qed
  moreover have "0 \<le> x AND MODE_KEPT_BITS" "x AND MODE_KEPT_BITS \<le> 511" for x :: int
    unfolding MODE_KEPT_BITS_def by (simp_all add: AND_upper2)
  ultimately show ?thesis
    using build_manifest_perm[OF assms(2)] build_manifest_again[OF assms] sorted inp assms(1)
      manifest_entries(2)[OF inp]
    by (auto simp: entries manifest_input_def safe_path_nfc nfc_idem m manifest_with_def)
qed

text \<open>Two files in two directories, in two orders.\<close>

definition sample_digest :: pystr where "sample_digest = replicate 64 48"

definition sample_entries :: "WorkspaceEntry list" where
  "sample_entries =
     [\<lparr>we_path = py ''b/x'', we_type = FILE, we_mode = 2541, we_size = 3, we_sha256 = Some sample_digest\<rparr>,
      \<lparr>we_path = py ''b'', we_type = DIRECTORY, we_mode = 493, we_size = 0, we_sha256 = None\<rparr>,
      \<lparr>we_path = py ''a'', we_type = FILE, we_mode = 420, we_size = 4, we_sha256 = Some sample_digest\<rparr>]"

lemma sample_manifest:
  "case build_manifest (\<lambda>s. s) sample_entries 1 of
     Inl _ \<Rightarrow> False
   | Inr m \<Rightarrow> map we_path (wm_entries m) = [py ''a'', py ''b'', py ''b/x''] \<and>
       map we_mode (wm_entries m) = [420, 493, 493] \<and> wm_total_bytes m = 7 \<and> wm_object_count m = 3"
  by code_simp

theorem manifest_is_canonical_witness:
  "\<exists>m. build_manifest (\<lambda>s. s) sample_entries 1 = Inr m \<and> build_manifest (\<lambda>s. s) (rev sample_entries) 1 = Inr m"
proof -
  obtain m where m: "build_manifest (\<lambda>s. s) sample_entries 1 = Inr m"
    using sample_manifest by (auto split: sum.splits)
  from manifest_is_canonical[OF nfc_ok_id m] have "build_manifest (\<lambda>s. s) (rev sample_entries) 1 = Inr m" by simp
  with m show ?thesis by blast
qed

section \<open>Stored manifests read back\<close>

lemma map_of_sort_key:
  assumes "distinct (map fst d)"
  shows "map_of (sort_key fst d) k = map_of d k"
proof -
  have "distinct (map fst (sort_key fst d))" using assms by (simp only: distinct_map_sort)
  then have "map_of (sort_key fst d) = map_of d"
    using assms by (simp only: map_of_inject_set set_sort)
  then show ?thesis by simp
qed

lemma jget_sort_json:
  assumes "distinct (map fst d)"
  shows "map_of (sort_key fst (map (\<lambda>(k, v). (k, sort_json v)) d)) k = map_option sort_json (map_of d k)"
proof -
  have "map fst (map (\<lambda>(k, v). (k, sort_json v)) d) = map fst d" by (induction d) auto
  then have "distinct (map fst (map (\<lambda>(k, v). (k, sort_json v)) d))" using assms by (simp only:)
  then show ?thesis by (simp only: map_of_sort_key map_of_map_snd)
qed

lemma fields_distinct: "distinct (map fst (entry_fields e))" "distinct (map fst (manifest_fields m))"
  by (simp_all add: entry_fields_def manifest_fields_def)

lemma plain_entry: "plain (JDict (entry_fields e))"
  using fields_distinct(1)[of e] by (simp add: entry_fields_def split: option.split)

lemma plain_manifest: "plain (JDict (manifest_fields m))"
  using fields_distinct(2)[of m] plain_entry by (simp add: manifest_fields_def)

lemma entry_of_document:
  assumes "entry_ok e"
  shows "entry_of_item prn (sort_json (JDict (entry_fields e))) = Some e"
proof -
  define d where "d = sort_key fst (map (\<lambda>(k, v). (k, sort_json v)) (entry_fields e))"
  have get: "map_of d k = map_option sort_json (map_of (entry_fields e) k)" for k
    unfolding d_def by (rule jget_sort_json[OF fields_distinct(1)])
  have fields: "map_of d (py ''path'') = Some (JStr (we_path e))"
    "map_of d (py ''type'') = Some (JStr (EntryType_value (we_type e)))"
    "map_of d (py ''mode'') = Some (JInt (we_mode e))" "map_of d (py ''size'') = Some (JInt (we_size e))"
    "map_of d (py ''sha256'') = Some (case we_sha256 e of None \<Rightarrow> JNull | Some d \<Rightarrow> JStr d)"
    unfolding get by (simp_all add: entry_fields_def split: option.split)
  have t: "from_scan (EntryType_value (we_type e)) = Inr (we_type e)"
    by (cases "we_type e") (simp_all add: from_scan_def)
  have w: "workspace_entry (we_path e) (we_type e) (we_mode e) (we_size e) (we_sha256 e) = Inr e"
    using assms by simp
  have "sort_json (JDict (entry_fields e)) = JDict d" by (simp add: d_def)
  then show ?thesis
    using t w fields unfolding entry_of_item_def
    by (cases "we_sha256 e") (simp_all del: workspace_entry_Inr)
qed

lemma entries_of_documents:
  "\<forall>e \<in> set es. entry_ok e \<Longrightarrow>
   entries_of_items prn (map (\<lambda>e. sort_json (JDict (entry_fields e))) es) = Some es"
proof (induction es)
  case (Cons e es)
  then show ?case using entry_of_document[of e prn] by (simp del: sort_json.simps)
qed simp

text \<open>The text of a document begins with a brace and a quotation mark, so its bytes are read as
  UTF-8.\<close>

lemma manifest_text_head: "\<exists>t. json_dumps (JDict (manifest_fields m)) = 123 # 34 # t"
proof -
  define d where "d = sort_key fst (map (\<lambda>(k, v). (k, sort_json v)) (manifest_fields m))"
  have "length d = 4" by (simp add: d_def manifest_fields_def)
  then obtain k v ps where d: "d = (k, v) # ps" by (cases d) auto
  have "json_dumps (JDict (manifest_fields m)) = json_text (JDict d)" by (simp add: json_dumps_def d_def)
  then show ?thesis unfolding d by (cases ps) (auto simp: py_def json_string_def)
qed

lemma canonical_bytes_load:
  assumes "canonical_bytes m = Some b" "\<forall>c \<in> set (json_dumps (JDict (manifest_fields m))). c \<le> 1114111"
  shows "json_loads_bytes other fl b = Some (sort_json (JDict (manifest_fields m)))"
proof -
  obtain t where t: "json_dumps (JDict (manifest_fields m)) = 123 # 34 # t" using manifest_text_head by blast
  have u: "utf8 (123 # 34 # t) = Some b" using assms(1) by (simp only: canonical_bytes_def t)
  then obtain b' where b: "b = 123 # 34 # b'" by (auto simp: utf8_char_def split: option.splits)
  have dec: "utf8_decode True b = Some (123 # 34 # t)" using utf8_roundtrip[OF u] assms(2) unfolding t by blast
  have "\<not> looks_wide b" "\<not> py_startswith b [239, 187, 191]"
    by (auto simp: b looks_wide_def py_startswith_def)
  then have "json_loads_bytes other fl b = json_loads fl (json_dumps (JDict (manifest_fields m)))"
    unfolding json_loads_bytes_def t by (simp add: dec)
  then show ?thesis by (simp only: json_loads_dumps[OF plain_manifest])
qed

text \<open>C18. A saved manifest reads back as itself: whatever tree it was built from, the bytes it is
  stored as parse to the same manifest, through the decoding, the JSON, the rebuilding of every
  entry and the comparison of the totals.\<close>

theorem saved_manifest_roundtrip:
  assumes "nfc_ok nfc" "build_manifest nfc es v = Inr m" "canonical_bytes m = Some b"
    "\<forall>c \<in> set (json_dumps (JDict (manifest_fields m))). c \<le> 1114111"
  shows "parse_saved_manifest nfc prn other fl b = Inr m"
proof -
  define d where "d = sort_key fst (map (\<lambda>(k, v). (k, sort_json v)) (manifest_fields m))"
  have load: "json_loads_bytes other fl b = Some (JDict d)"
    using canonical_bytes_load[OF assms(3,4), of other fl] by (simp add: d_def)
  have get: "map_of d k = map_option sort_json (map_of (manifest_fields m) k)" for k
    unfolding d_def by (rule jget_sort_json[OF fields_distinct(2)])
  have fields: "map_of d (py ''schema_version'') = Some (JInt (wm_schema_version m))"
    "map_of d (py ''entries'') = Some (JList (map (\<lambda>e. sort_json (JDict (entry_fields e))) (wm_entries m)))"
    "map_of d (py ''total_bytes'') = Some (JInt (wm_total_bytes m))"
    "map_of d (py ''object_count'') = Some (JInt (wm_object_count m))"
    unfolding get by (simp_all add: manifest_fields_def)
  have "\<forall>e \<in> set (wm_entries m). entry_ok e" using manifest_is_entries[OF assms(2)] by blast
  then have entries: "entries_of_items prn (map (\<lambda>e. sort_json (JDict (entry_fields e))) (wm_entries m)) = Some (wm_entries m)"
    by (rule entries_of_documents)
  have "wm_schema_version m = v" using assms(2) by (simp add: build_manifest_Inr manifest_with_def)
  then show ?thesis
    using entries build_manifest_again[OF assms(1,2)] fields
    unfolding parse_saved_manifest_def load by (simp add: jget_or_def del: sort_json.simps)
qed

definition sample_tree :: "WorkspaceEntry list" where
  "sample_tree = [\<lparr>we_path = py ''b'', we_type = DIRECTORY, we_mode = 5, we_size = 0, we_sha256 = None\<rparr>]"

theorem saved_manifest_roundtrip_witness:
  "\<exists>m b. build_manifest (\<lambda>s. s) sample_tree 1 = Inr m \<and> canonical_bytes m = Some b \<and>
     parse_saved_manifest (\<lambda>s. s) (\<lambda>_. True) (\<lambda>_. None) (\<lambda>t. \<lparr>fl_repr = t, fl_trunc = None, fl_zero = False\<rparr>) b = Inr m"
proof -
  have "case build_manifest (\<lambda>s. s) sample_tree 1 of
     Inl _ \<Rightarrow> False | Inr m \<Rightarrow> is_ascii (json_dumps (JDict (manifest_fields m)))"
    by code_simp
  then obtain m where m: "build_manifest (\<lambda>s. s) sample_tree 1 = Inr m"
    and ascii: "is_ascii (json_dumps (JDict (manifest_fields m)))"
    by (auto split: sum.splits)
  obtain b where b: "canonical_bytes m = Some b" using utf8_ascii[OF ascii] by (simp add: canonical_bytes_def)
  have "\<forall>c \<in> set (json_dumps (JDict (manifest_fields m))). c \<le> 1114111"
    using ascii by (auto simp: is_ascii_def list_all_iff)
  from saved_manifest_roundtrip[OF nfc_ok_id m b this] m b show ?thesis by blast
qed

section \<open>The projection of a write\<close>

text \<open>The tree after a file was written: the entries that are not the file, the file, and a
  directory for every ancestor that was missing when the file is new.\<close>

definition dir_entry :: "pystr \<Rightarrow> WorkspaceEntry" where
  "dir_entry p = \<lparr>we_path = p, we_type = DIRECTORY, we_mode = 448, we_size = 0, we_sha256 = None\<rparr>"

definition written_tree :: "WorkspaceEntry list \<Rightarrow> WorkspaceEntry \<Rightarrow> WorkspaceEntry list" where
  "written_tree es f =
     filter (\<lambda>e. we_path e \<noteq> we_path f) es @ f #
     (if we_path f \<in> we_path ` set es then []
      else map dir_entry (filter (\<lambda>a. a \<notin> we_path ` set es) (ancestor_paths [] (butlast (py_split 47 (we_path f))))))"

lemma entry_lookup:
  assumes "distinct (map we_path es)"
  shows "map_of (rev (map (\<lambda>e. (we_path e, e)) es)) p = lookup we_path p es"
proof -
  have d: "distinct (map fst (map (\<lambda>e. (we_path e, e)) es))" using assms by (simp add: comp_def)
  have "map_of (rev (map (\<lambda>e. (we_path e, e)) es)) = map_of (map (\<lambda>e. (we_path e, e)) es)"
  proof -
    have "distinct (map fst (rev (map (\<lambda>e. (we_path e, e)) es)))" using d by (simp only: rev_map[symmetric] distinct_rev)
    then show ?thesis using d by (simp only: map_of_inject_set set_rev)
  qed
  moreover have "map_of (map (\<lambda>e. (we_path e, e)) es) p = lookup we_path p es"
    by (induction es) auto
  ultimately show ?thesis by simp
qed

lemma sum_list_without:
  "distinct (map we_path es) \<Longrightarrow>
   sum_list (map we_size (filter (\<lambda>e. we_path e \<noteq> p) es)) =
   sum_list (map we_size es) - (case lookup we_path p es of None \<Rightarrow> 0 | Some e \<Rightarrow> we_size e)"
proof (induction es)
  case (Cons e es)
  show ?case
  proof (cases "we_path e = p")
    case True
    then have "filter (\<lambda>e. we_path e \<noteq> p) es = es" using Cons.prems by (auto simp: filter_id_conv rev_image_eqI)
    then show ?thesis using True by simp
  qed (use Cons in simp)
qed simp

lemma length_without:
  "distinct (map we_path es) \<Longrightarrow>
   int (length (filter (\<lambda>e. we_path e \<noteq> p) es)) = int (length es) - (if lookup we_path p es = None then 0 else 1)"
proof (induction es)
  case (Cons e es)
  show ?case
  proof (cases "we_path e = p")
    case True
    then have "filter (\<lambda>e. we_path e \<noteq> p) es = es" using Cons.prems by (auto simp: filter_id_conv rev_image_eqI)
    then show ?thesis using True by simp
  qed (use Cons in simp)
qed simp

lemma manifest_with_sort:
  "manifest_with v (sort_key k es) = (manifest_with v es)\<lparr>wm_entries := sort_key k es\<rparr>"
proof -
  have "sum_list (map we_size (sort_key k es)) = sum_list (map we_size es)"
    by (metis mset_map mset_sort sum_mset_sum_list)
  then show ?thesis by (simp add: manifest_with_def)
qed

text \<open>C19. What a write would do to the totals is what it does: for a manifest and a file to be
  written into it, the projection made beforehand is the number of bytes and of objects of the
  manifest built from the tree after the write, with the replaced file's bytes taken off and the
  directories that have to be made counted in.\<close>

theorem projection_is_exact:
  assumes "nfc_ok nfc" "build_manifest nfc es v = Inr m"
    "project_write nfc m (PathStr p) (we_size f) = Inr t" "we_path f = nfc p"
    "build_manifest nfc (written_tree (wm_entries m) f) v = Inr m'"
  shows "pt_total_bytes t = wm_total_bytes m' \<and> pt_object_count t = wm_object_count m'"
proof -
  let ?es = "wm_entries m"
  have distinct: "distinct (map we_path ?es)"
    using manifest_is_paths[OF assms(2)] .
  have totals: "wm_total_bytes m = sum_list (map we_size ?es)" "wm_object_count m = int (length ?es)"
    using assms(2) by (simp_all add: build_manifest_Inr manifest_with_def)
  have m': "wm_total_bytes m' = sum_list (map we_size (written_tree ?es f))"
    "wm_object_count m' = int (length (written_tree ?es f))"
    using assms(5) by (simp_all add: build_manifest_Inr manifest_with_sort) (simp_all add: manifest_with_def comp_def)
  have dirs: "sum_list (map we_size (map dir_entry ps)) = 0" for ps
    by (induction ps) (simp_all add: dir_entry_def)
  have look: "lookup we_path q ?es = None \<longleftrightarrow> q \<notin> we_path ` set ?es" for q
    by (rule lookup_None_iff)
  have t: "t = \<lparr>pt_total_bytes = wm_total_bytes m - (case lookup we_path (we_path f) ?es of None \<Rightarrow> 0 | Some e \<Rightarrow> we_size e) + we_size f,
      pt_object_count = wm_object_count m + (if lookup we_path (we_path f) ?es = None then 1 else 0) +
        int (if lookup we_path (we_path f) ?es = None
             then length (filter (\<lambda>a. lookup we_path a ?es = None) (ancestor_paths [] (butlast (py_split 47 (we_path f)))))
             else 0)\<rparr>"
    using assms(3) unfolding project_write_def entry_lookup[OF distinct] Let_def assms(4) by auto
  show ?thesis
  proof (cases "we_path f \<in> we_path ` set ?es")
    case True
    then have "lookup we_path (we_path f) ?es \<noteq> None" by (simp only: look not_not)
    then show ?thesis
      using True sum_list_without[OF distinct, of "we_path f"] length_without[OF distinct, of "we_path f"]
      unfolding t m' totals written_tree_def by (simp split: option.splits)
  next
    case False
    then have "lookup we_path (we_path f) ?es = None" unfolding look .
    then show ?thesis
      using False sum_list_without[OF distinct, of "we_path f"] length_without[OF distinct, of "we_path f"] dirs
      unfolding t m' totals written_tree_def look by simp
  qed
qed

text \<open>A new file two directories deep, one of them there already.\<close>

lemma sample_projection:
  "case build_manifest (\<lambda>s. s) sample_tree 1 of
     Inl _ \<Rightarrow> False
   | Inr m \<Rightarrow>
       (let f = \<lparr>we_path = py ''b/c/d'', we_type = FILE, we_mode = 4, we_size = 9, we_sha256 = Some sample_digest\<rparr>
        in project_write (\<lambda>s. s) m (PathStr (py ''b/c/d'')) 9 = Inr \<lparr>pt_total_bytes = 9, pt_object_count = 3\<rparr> \<and>
           \<not> isl (build_manifest (\<lambda>s. s) (written_tree (wm_entries m) f) 1))"
  by code_simp

theorem projection_is_exact_witness:
  "\<exists>m m'. build_manifest (\<lambda>s. s) sample_tree 1 = Inr m \<and>
     build_manifest (\<lambda>s. s) (written_tree (wm_entries m)
       \<lparr>we_path = py ''b/c/d'', we_type = FILE, we_mode = 4, we_size = 9, we_sha256 = Some sample_digest\<rparr>) 1 = Inr m' \<and>
     wm_total_bytes m' = 9 \<and> wm_object_count m' = 3"
proof -
  let ?f = "\<lparr>we_path = py ''b/c/d'', we_type = FILE, we_mode = 4, we_size = 9, we_sha256 = Some sample_digest\<rparr>"
  obtain m where m: "build_manifest (\<lambda>s. s) sample_tree 1 = Inr m"
    and t: "project_write (\<lambda>s. s) m (PathStr (py ''b/c/d'')) (we_size ?f) = Inr \<lparr>pt_total_bytes = 9, pt_object_count = 3\<rparr>"
    and "\<not> isl (build_manifest (\<lambda>s. s) (written_tree (wm_entries m) ?f) 1)"
    using sample_projection by (auto simp: Let_def split: sum.splits)
  then obtain m' where m': "build_manifest (\<lambda>s. s) (written_tree (wm_entries m) ?f) 1 = Inr m'"
    by (metis sum.collapse(2))
  from projection_is_exact[OF nfc_ok_id m t _ m'] have "wm_total_bytes m' = 9" "wm_object_count m' = 3" by simp_all
  with m m' show ?thesis by blast
qed

end
