(* ===== verification/Tool_Calls.thy ===== *)
theory Tool_Calls
  imports Run_Messages Tool_Names Workspace_Manifest
begin

text \<open>
  \<^verbatim>\<open>tools/domain/registry.py\<close>, \<^verbatim>\<open>tools/domain/files.py\<close>,
  \<^verbatim>\<open>tools/domain/todo.py\<close> and \<^verbatim>\<open>sandbox/domain/command.py\<close>: what a
  call a model made is turned into. A sandbox tool becomes the one command the Controller will be
  asked to run or a named refusal (\<open>authorize\<close>); a tool the platform answers itself is
  read into its arguments or refused. Every \<open>raise\<close> is a value of \<open>ToolError\<close>,
  the exceptions the code does not catch included: \<open>str.encode\<close> of a lone surrogate and
  a dictionary asked for a key that cannot be hashed.
\<close>

section \<open>Refusals\<close>

datatype RefusalReason =
    NOT_AUTHORIZED
  | UNKNOWN_TOOL
  | INVALID_ARGUMENTS
  | WORKING_DIRECTORY_NOT_ALLOWED
  | TIMEOUT_TOO_LONG

fun RefusalReason_value :: "RefusalReason \<Rightarrow> pystr" where
  "RefusalReason_value NOT_AUTHORIZED = py ''tool_not_authorized''"
| "RefusalReason_value UNKNOWN_TOOL = py ''unknown_tool''"
| "RefusalReason_value INVALID_ARGUMENTS = py ''invalid_arguments''"
| "RefusalReason_value WORKING_DIRECTORY_NOT_ALLOWED = py ''working_directory_not_allowed''"
| "RefusalReason_value TIMEOUT_TOO_LONG = py ''timeout_too_long''"

datatype ToolError =
    ToolRefused RefusalReason pystr pystr
  | TodoArgumentsInvalid pystr
  | UnicodeEncodeError
  | UnhashableTypeError

definition invalid :: "ToolCallBlock \<Rightarrow> pystr \<Rightarrow> (ToolError, 'a) result" where
  "invalid call detail = Inl (ToolRefused INVALID_ARGUMENTS (tc_call_id call) detail)"

text \<open>\<open>unknown = set(call.arguments) - allowed\<close>, refused with the sorted names.\<close>

definition refuse_unknown :: "pystr list \<Rightarrow> ToolCallBlock \<Rightarrow> (ToolError, unit) result" where
  "refuse_unknown allowed call =
     (let unknown = extra_keys allowed (tc_arguments call)
      in if unknown \<noteq> [] then invalid call (py_join (py '','') unknown) else Inr ())"

text \<open>\<open>isinstance(v, str) and v.strip()\<close>, and \<open>isinstance(v, int)\<close> with booleans
  excluded.\<close>

definition nonblank :: "json option \<Rightarrow> pystr option" where
  "nonblank v = (case v of Some (JStr s) \<Rightarrow> (if py_strip s \<noteq> [] then Some s else None) | _ \<Rightarrow> None)"

definition plain_int :: "json \<Rightarrow> int option" where
  "plain_int v = (case v of JInt i \<Rightarrow> Some i | _ \<Rightarrow> None)"

section \<open>The readers\<close>

definition MAX_WAIT_SECONDS :: int where "MAX_WAIT_SECONDS = 86400"

definition PLATFORM_WAIT_ARGUMENTS :: "pystr list" where
  "PLATFORM_WAIT_ARGUMENTS = [py ''seconds'']"

definition wait_seconds_of :: "ToolCallBlock \<Rightarrow> (ToolError, int) result" where
  "wait_seconds_of call =
     bind_res (refuse_unknown PLATFORM_WAIT_ARGUMENTS call)
       (\<lambda>_. case Option.bind (jget (tc_arguments call) (py ''seconds'')) plain_int of
          None \<Rightarrow> invalid call (py ''seconds'')
        | Some seconds \<Rightarrow>
            (if \<not> (1 \<le> seconds \<and> seconds \<le> MAX_WAIT_SECONDS)
             then invalid call (py ''seconds='' @ py_int seconds) else Inr seconds))"

record SkillLoadRequest =
  sl_skill :: pystr
  sl_path :: pystr

definition DEFAULT_SKILL_PATH :: pystr where "DEFAULT_SKILL_PATH = py ''SKILL.md''"

definition SKILL_LOAD_ARGUMENTS :: "pystr list" where
  "SKILL_LOAD_ARGUMENTS = [py ''skill'', py ''path'']"

definition skill_load_of :: "ToolCallBlock \<Rightarrow> (ToolError, SkillLoadRequest) result" where
  "skill_load_of call =
     bind_res (refuse_unknown SKILL_LOAD_ARGUMENTS call)
       (\<lambda>_. case nonblank (jget (tc_arguments call) (py ''skill'')) of
          None \<Rightarrow> invalid call (py ''skill'')
        | Some skill \<Rightarrow>
            (case nonblank (Some (jget_or (tc_arguments call) (py ''path'') (JStr DEFAULT_SKILL_PATH))) of
               None \<Rightarrow> invalid call (py ''path'')
             | Some path \<Rightarrow>
                 (if py_startswith path (py ''/'') \<or> py ''..'' \<in> set (py_split 47 path)
                  then invalid call (py ''path'')
                  else Inr \<lparr>sl_skill = py_strip skill, sl_path = py_strip path\<rparr>)))"

record SkillProposeRequest =
  sp_files :: "(pystr \<times> pystr) list"
  sp_skill :: "pystr option"

definition MAX_PROPOSAL_FILES :: nat where "MAX_PROPOSAL_FILES = 64"

definition SKILL_PROPOSE_ARGUMENTS :: "pystr list" where
  "SKILL_PROPOSE_ARGUMENTS = [py ''files'', py ''skill'']"

definition proposal_file :: "ToolCallBlock \<Rightarrow> json \<Rightarrow> (ToolError, pystr \<times> pystr) result" where
  "proposal_file call entry =
     (case entry of
        JDict item \<Rightarrow>
          (case nonblank (jget item (py ''path'')) of
             None \<Rightarrow> invalid call (py ''files[].path'')
           | Some path \<Rightarrow>
               (case jget item (py ''content'') of
                  Some (JStr content) \<Rightarrow> Inr (py_strip path, content)
                | _ \<Rightarrow> invalid call (py ''files[].content'')))
      | _ \<Rightarrow> invalid call (py ''files''))"

definition skill_propose_of :: "ToolCallBlock \<Rightarrow> (ToolError, SkillProposeRequest) result" where
  "skill_propose_of call =
     bind_res (refuse_unknown SKILL_PROPOSE_ARGUMENTS call)
       (\<lambda>_. case jget (tc_arguments call) (py ''files'') of
          Some (JList files) \<Rightarrow>
            (if files = [] then invalid call (py ''files'')
             else if length files > MAX_PROPOSAL_FILES
               then invalid call (py ''files='' @ py_int (int (length files)))
             else
               bind_res (map_res (proposal_file call) files)
                 (\<lambda>collected.
                    case jget_or (tc_arguments call) (py ''skill'') JNull of
                      JNull \<Rightarrow> Inr \<lparr>sp_files = collected, sp_skill = None\<rparr>
                    | skill \<Rightarrow>
                        (case nonblank (Some skill) of
                           None \<Rightarrow> invalid call (py ''skill'')
                         | Some s \<Rightarrow> Inr \<lparr>sp_files = collected, sp_skill = Some (py_strip s)\<rparr>)))
        | _ \<Rightarrow> invalid call (py ''files''))"

definition MAX_MEMORY_BODY :: nat where "MAX_MEMORY_BODY = 500"

definition MEMORY_REMEMBER_ARGUMENTS :: "pystr list" where
  "MEMORY_REMEMBER_ARGUMENTS = [py ''body'']"

definition memory_body_of :: "ToolCallBlock \<Rightarrow> (ToolError, pystr) result" where
  "memory_body_of call =
     bind_res (refuse_unknown MEMORY_REMEMBER_ARGUMENTS call)
       (\<lambda>_. case nonblank (jget (tc_arguments call) (py ''body'')) of
          None \<Rightarrow> invalid call (py ''body'')
        | Some body \<Rightarrow>
            (let cleaned = py_strip body
             in if length cleaned > MAX_MEMORY_BODY
                then invalid call (py ''body='' @ py_int (int (length cleaned)))
                else Inr cleaned))"

definition MAX_SITE_TITLE :: nat where "MAX_SITE_TITLE = 100"

definition SITE_PUBLISH_ARGUMENTS :: "pystr list" where
  "SITE_PUBLISH_ARGUMENTS = [py ''path'', py ''title'']"

definition site_publish_of :: "ToolCallBlock \<Rightarrow> (ToolError, pystr \<times> pystr option) result" where
  "site_publish_of call =
     bind_res (refuse_unknown SITE_PUBLISH_ARGUMENTS call)
       (\<lambda>_. case nonblank (Some (jget_or (tc_arguments call) (py ''path'') (JStr (py ''site'')))) of
          None \<Rightarrow> invalid call (py ''path'')
        | Some path \<Rightarrow>
            (case jget_or (tc_arguments call) (py ''title'') JNull of
               JNull \<Rightarrow> Inr (py_strip path, None)
             | JStr title \<Rightarrow>
                 (if length title > MAX_SITE_TITLE then invalid call (py ''title'')
                  else Inr (py_strip path, if py_strip title = [] then None else Some (py_strip title)))
             | _ \<Rightarrow> invalid call (py ''title'')))"

text \<open>\<open>while given.startswith("./"): given = given[2:]\<close>.\<close>

fun drop_dot_slash :: "pystr \<Rightarrow> pystr" where
  "drop_dot_slash (c # d # cs) = (if c = 46 \<and> d = 47 then drop_dot_slash cs else c # d # cs)"
| "drop_dot_slash s = s"

definition file_send_of :: "(pystr \<Rightarrow> pystr) \<Rightarrow> ToolCallBlock \<Rightarrow> (ToolError, pystr) result" where
  "file_send_of nfc call =
     bind_res (refuse_unknown [py ''path''] call)
       (\<lambda>_. case jget (tc_arguments call) (py ''path'') of
          Some (JStr raw) \<Rightarrow>
            (case normalize_workspace_path nfc (PathStr (drop_dot_slash (py_strip raw))) of
               Inl _ \<Rightarrow> invalid call (py ''path'')
             | Inr path \<Rightarrow> Inr path)
        | _ \<Rightarrow> invalid call (py ''path''))"

definition SESSION_SEARCH_ARGUMENTS :: "pystr list" where
  "SESSION_SEARCH_ARGUMENTS = [py ''query'', py ''limit'']"

definition session_search_of :: "ToolCallBlock \<Rightarrow> (ToolError, pystr \<times> int option) result" where
  "session_search_of call =
     bind_res (refuse_unknown SESSION_SEARCH_ARGUMENTS call)
       (\<lambda>_. case nonblank (jget (tc_arguments call) (py ''query'')) of
          None \<Rightarrow> invalid call (py ''query'')
        | Some query \<Rightarrow>
            (case jget_or (tc_arguments call) (py ''limit'') JNull of
               JNull \<Rightarrow> Inr (py_strip query, None)
             | JInt asked \<Rightarrow> Inr (py_strip query, Some asked)
             | _ \<Rightarrow> invalid call (py ''limit'')))"

definition MAX_DELEGATED_CHILDREN :: nat where "MAX_DELEGATED_CHILDREN = 8"
definition MAX_DELEGATION_INSTRUCTION :: nat where "MAX_DELEGATION_INSTRUCTION = 2000"
definition MAX_DELEGATED_ARTIFACTS :: nat where "MAX_DELEGATED_ARTIFACTS = 8"

definition WAIT_POLICIES :: "pystr list" where "WAIT_POLICIES = [py ''all'', py ''any'']"

definition AGENT_DELEGATE_ARGUMENTS :: "pystr list" where
  "AGENT_DELEGATE_ARGUMENTS = [py ''children'', py ''wait'']"

definition CHILD_ARGUMENTS :: "pystr list" where
  "CHILD_ARGUMENTS = [py ''alias'', py ''instruction'', py ''artifacts'']"

definition artifact_name :: "ToolCallBlock \<Rightarrow> json \<Rightarrow> (ToolError, pystr) result" where
  "artifact_name call item =
     (case nonblank (Some item) of None \<Rightarrow> invalid call (py ''artifacts'') | Some s \<Rightarrow> Inr (py_strip s))"

definition artifacts_of :: "ToolCallBlock \<Rightarrow> jobject \<Rightarrow> (ToolError, pystr list) result" where
  "artifacts_of call entry =
     (case jget_or entry (py ''artifacts'') (JList []) of
        JList listed \<Rightarrow>
          (if length listed > MAX_DELEGATED_ARTIFACTS
           then invalid call (py ''artifacts='' @ py_int (int (length listed)))
           else map_res (artifact_name call) listed)
      | _ \<Rightarrow> invalid call (py ''artifacts''))"

type_synonym delegated_child = "pystr \<times> pystr \<times> pystr list"

definition child_of :: "ToolCallBlock \<Rightarrow> json \<Rightarrow> (ToolError, delegated_child) result" where
  "child_of call item =
     (case item of
        JDict entry \<Rightarrow>
          (let extra = extra_keys CHILD_ARGUMENTS entry
           in if extra \<noteq> [] then invalid call (py_join (py '','') extra)
              else
                (case nonblank (jget entry (py ''alias'')) of
                   None \<Rightarrow> invalid call (py ''alias'')
                 | Some alias \<Rightarrow>
                     (case nonblank (jget entry (py ''instruction'')) of
                        None \<Rightarrow> invalid call (py ''instruction'')
                      | Some instruction \<Rightarrow>
                          (let cleaned = py_strip instruction
                           in if length cleaned > MAX_DELEGATION_INSTRUCTION
                              then invalid call (py ''instruction='' @ py_int (int (length cleaned)))
                              else map_sum id (\<lambda>artifacts. (py_strip alias, cleaned, artifacts))
                                     (artifacts_of call entry)))))
      | _ \<Rightarrow> invalid call (py ''children''))"

definition delegation_of :: "ToolCallBlock \<Rightarrow> (ToolError, delegated_child list \<times> pystr) result" where
  "delegation_of call =
     bind_res (refuse_unknown AGENT_DELEGATE_ARGUMENTS call)
       (\<lambda>_. case jget (tc_arguments call) (py ''children'') of
          Some (JList asked) \<Rightarrow>
            (if asked = [] then invalid call (py ''children'')
             else if length asked > MAX_DELEGATED_CHILDREN
               then invalid call (py ''children='' @ py_int (int (length asked)))
             else
               bind_res (map_res (child_of call) asked)
                 (\<lambda>children.
                    case jget_or (tc_arguments call) (py ''wait'') (JStr (py ''all'')) of
                      JStr wait \<Rightarrow> (if wait \<in> set WAIT_POLICIES then Inr (children, wait)
                                    else invalid call (py ''wait''))
                    | _ \<Rightarrow> invalid call (py ''wait'')))
        | _ \<Rightarrow> invalid call (py ''children''))"

definition ARTIFACT_READ_ARGUMENTS :: "pystr list" where
  "ARTIFACT_READ_ARGUMENTS = [py ''artifact_id'']"

definition artifact_read_of :: "ToolCallBlock \<Rightarrow> (ToolError, pystr) result" where
  "artifact_read_of call =
     bind_res (refuse_unknown ARTIFACT_READ_ARGUMENTS call)
       (\<lambda>_. case nonblank (jget (tc_arguments call) (py ''artifact_id'')) of
          None \<Rightarrow> invalid call (py ''artifact_id'')
        | Some asked \<Rightarrow> Inr (py_strip asked))"

section \<open>The task list\<close>

definition MAX_TODO_ITEMS :: nat where "MAX_TODO_ITEMS = 30"
definition MAX_TODO_CONTENT_CHARS :: nat where "MAX_TODO_CONTENT_CHARS = 200"

definition MARKS :: "(pystr \<times> pystr) list" where
  "MARKS = [(py ''pending'', py ''[ ]''), (py ''in_progress'', py ''[>]''),
            (py ''completed'', py ''[x]''), (py ''cancelled'', py ''[-]'')]"

record TodoItem =
  td_id :: pystr
  td_content :: pystr
  td_status :: pystr

definition todo_entry :: "(nat \<Rightarrow> bool) \<Rightarrow> pystr list \<Rightarrow> json \<Rightarrow> (ToolError, TodoItem) result" where
  "todo_entry prn seen entry =
     (case entry of
        JDict given \<Rightarrow>
          (if set (map fst given) \<noteq> {py ''id'', py ''content'', py ''status''}
           then Inl (TodoArgumentsInvalid (py ''each item has exactly id, content and status''))
           else
             (case nonblank (jget given (py ''id'')) of
                None \<Rightarrow> Inl (TodoArgumentsInvalid (py ''each item needs a non-empty id''))
              | Some identifier \<Rightarrow>
                  (if identifier \<in> set seen
                   then Inl (TodoArgumentsInvalid (py ''id '' @ repr_str prn identifier @ py '' is used twice''))
                   else
                     (case nonblank (jget given (py ''content'')) of
                        None \<Rightarrow> Inl (TodoArgumentsInvalid (py ''each item needs non-empty content''))
                      | Some content \<Rightarrow>
                          (if length content > MAX_TODO_CONTENT_CHARS
                           then Inl (TodoArgumentsInvalid
                                  (py ''content is at most '' @ py_int (int MAX_TODO_CONTENT_CHARS) @ py '' characters''))
                           else
                             (case jget_or given (py ''status'') JNull of
                                JList _ \<Rightarrow> Inl UnhashableTypeError
                              | JDict _ \<Rightarrow> Inl UnhashableTypeError
                              | JStr status \<Rightarrow>
                                  (if status \<in> set (map fst MARKS)
                                   then Inr \<lparr>td_id = identifier, td_content = py_strip content, td_status = status\<rparr>
                                   else Inl (TodoArgumentsInvalid
                                          (py ''status is one of '' @ py_join (py '', '') (map fst MARKS))))
                              | _ \<Rightarrow> Inl (TodoArgumentsInvalid
                                       (py ''status is one of '' @ py_join (py '', '') (map fst MARKS)))))))))
      | _ \<Rightarrow> Inl (TodoArgumentsInvalid (py ''each item has exactly id, content and status'')))"

fun todo_entries :: "(nat \<Rightarrow> bool) \<Rightarrow> pystr list \<Rightarrow> json list \<Rightarrow> (ToolError, TodoItem list) result" where
  "todo_entries prn seen [] = Inr []"
| "todo_entries prn seen (x # xs) =
     bind_res (todo_entry prn seen x)
       (\<lambda>item. map_sum id ((#) item) (todo_entries prn (td_id item # seen) xs))"

definition todos_of :: "(nat \<Rightarrow> bool) \<Rightarrow> ToolCallBlock \<Rightarrow> (ToolError, TodoItem list) result" where
  "todos_of prn call =
     (case jget (tc_arguments call) (py ''items'') of
        Some (JList entries) \<Rightarrow>
          (if length entries > MAX_TODO_ITEMS
           then Inl (TodoArgumentsInvalid (py ''at most '' @ py_int (int MAX_TODO_ITEMS) @ py '' items''))
           else todo_entries prn [] entries)
      | _ \<Rightarrow> Inl (TodoArgumentsInvalid (py ''items must be a list'')))"

definition render_todo :: "TodoItem \<Rightarrow> pystr" where
  "render_todo item =
     (case map_of MARKS (td_status item) of None \<Rightarrow> [] | Some mark \<Rightarrow> mark) @ py '' '' @ td_id item @ py ''. '' @
       td_content item"

definition render_todos :: "TodoItem list \<Rightarrow> pystr" where
  "render_todos items =
     (if items = [] then py ''(the task list is empty)'' else py_join [10] (map render_todo items))"

definition todo_counts :: "TodoItem list \<Rightarrow> jobject" where
  "todo_counts items =
     [(py ''total'', JInt (int (length items))),
      (py ''completed'', JInt (int (length (filter (\<lambda>i. td_status i = py ''completed'') items)))),
      (py ''in_progress'', JInt (int (length (filter (\<lambda>i. td_status i = py ''in_progress'') items))))]"

section \<open>Commands\<close>

definition ALLOWED_WORKING_DIRECTORIES :: "pystr list" where
  "ALLOWED_WORKING_DIRECTORIES = [py ''/workspace/data'', py ''/workspace/cache'']"

record SandboxCommand =
  cmd_argv :: "pystr list"
  cmd_cwd :: pystr
  cmd_timeout_seconds :: int
  cmd_output_limit :: int
  cmd_stdin :: "nat list option"

definition DEFAULT_WORKING_DIRECTORY :: pystr where "DEFAULT_WORKING_DIRECTORY = py ''/workspace/data''"
definition DEFAULT_TIMEOUT_SECONDS :: int where "DEFAULT_TIMEOUT_SECONDS = 60"
definition MAX_TIMEOUT_SECONDS :: int where "MAX_TIMEOUT_SECONDS = 900"
definition DEFAULT_OUTPUT_BYTES :: int where "DEFAULT_OUTPUT_BYTES = 1048576"

definition FILE_HELPER :: pystr where "FILE_HELPER = py ''/usr/local/bin/tiny-hermes-file-helper''"
definition DATA_ROOT :: pystr where "DATA_ROOT = py ''/workspace/data''"
definition READ_LIMIT_BYTES :: int where "READ_LIMIT_BYTES = 1048576"
definition WRITE_LIMIT_BYTES :: int where "WRITE_LIMIT_BYTES = 16777216"
definition LIST_LIMIT_ENTRIES :: int where "LIST_LIMIT_ENTRIES = 1000"
definition FILE_TOOL_TIMEOUT_SECONDS :: int where "FILE_TOOL_TIMEOUT_SECONDS = 30"

definition FILE_ARGUMENTS :: "(pystr \<times> pystr list) list" where
  "FILE_ARGUMENTS =
     [(py ''file.read'', [py ''path'']), (py ''file.write'', [py ''path'', py ''content'']),
      (py ''file.list'', [py ''path'', py ''offset'', py ''limit''])]"

datatype FileError = FilePathRefused | FileArgumentsInvalid pystr | FileEncodeError

definition helper :: "pystr list \<Rightarrow> nat list option \<Rightarrow> SandboxCommand" where
  "helper arguments body =
     \<lparr>cmd_argv = [FILE_HELPER, py ''--root'', DATA_ROOT] @ arguments, cmd_cwd = DATA_ROOT,
      cmd_timeout_seconds = FILE_TOOL_TIMEOUT_SECONDS, cmd_output_limit = READ_LIMIT_BYTES + 4096,
      cmd_stdin = body\<rparr>"

definition safe_path_of :: "(pystr \<Rightarrow> pystr) \<Rightarrow> json option \<Rightarrow> (FileError, pystr) result" where
  "safe_path_of nfc raw =
     (case raw of
        Some (JStr path) \<Rightarrow>
          (case normalize_workspace_path nfc (PathStr path) of Inl _ \<Rightarrow> Inl FilePathRefused | Inr p \<Rightarrow> Inr p)
      | _ \<Rightarrow> Inl FilePathRefused)"

definition write_body :: "jobject \<Rightarrow> (FileError, nat list) result" where
  "write_body arguments =
     (case jget arguments (py ''content'') of
        Some (JStr content) \<Rightarrow>
          (case utf8 content of
             None \<Rightarrow> Inl FileEncodeError
           | Some body \<Rightarrow>
               (if int (length body) > WRITE_LIMIT_BYTES
                then Inl (FileArgumentsInvalid
                       (py ''content of '' @ py_int (int (length body)) @ py '' bytes is over the limit''))
                else Inr body))
      | _ \<Rightarrow> Inl (FileArgumentsInvalid (py ''content must be a string'')))"

definition bounded_int :: "jobject \<Rightarrow> pystr \<Rightarrow> int \<Rightarrow> int \<Rightarrow> int \<Rightarrow> (FileError, int) result" where
  "bounded_int arguments name fallback low high =
     (case plain_int (jget_or arguments name (JInt fallback)) of
        None \<Rightarrow> Inl (FileArgumentsInvalid name)
      | Some v \<Rightarrow>
          (if \<not> (low \<le> v \<and> v \<le> high)
           then Inl (FileArgumentsInvalid
                  (name @ py '' outside ['' @ py_int low @ py '', '' @ py_int high @ py '']''))
           else Inr v))"

definition file_tool_command ::
  "(pystr \<Rightarrow> pystr) \<Rightarrow> (nat \<Rightarrow> bool) \<Rightarrow> pystr list \<Rightarrow> ToolCallBlock \<Rightarrow> (FileError, SandboxCommand) result" where
  "file_tool_command nfc prn allowed call =
     (let arguments = tc_arguments call; unexpected = extra_keys allowed arguments
      in if unexpected \<noteq> []
         then Inl (FileArgumentsInvalid (py ''unexpected: '' @ py_repr prn (JList (map JStr unexpected))))
         else if tc_name call = py ''file.read''
           then map_sum id (\<lambda>path. helper [py ''read'', path, py_int READ_LIMIT_BYTES] None)
                  (safe_path_of nfc (jget arguments (py ''path'')))
         else if tc_name call = py ''file.write''
           then bind_res (safe_path_of nfc (jget arguments (py ''path'')))
                  (\<lambda>path. map_sum id (\<lambda>body. helper [py ''write'', path, py_int WRITE_LIMIT_BYTES] (Some body))
                             (write_body arguments))
         else
           bind_res (if jget_or arguments (py ''path'') (JStr (py ''.'')) = JStr (py ''.'') then Inr (py ''.'')
                     else safe_path_of nfc (Some (jget_or arguments (py ''path'') (JStr (py ''.'')))))
             (\<lambda>path. bind_res (bounded_int arguments (py ''offset'') 0 0 10000000)
                (\<lambda>offset. map_sum id (\<lambda>limit. helper [py ''list'', path, py_int offset, py_int limit] None)
                            (bounded_int arguments (py ''limit'') LIST_LIMIT_ENTRIES 1 LIST_LIMIT_ENTRIES))))"

text \<open>An attachment goes to a single name under \<open>inbox/\<close>.\<close>

definition inbox_write_command ::
  "(pystr \<Rightarrow> pystr) \<Rightarrow> pystr \<Rightarrow> nat list \<Rightarrow> (FileError, SandboxCommand) result" where
  "inbox_write_command nfc name body =
     bind_res (safe_path_of nfc (Some (JStr (py ''inbox/'' @ name))))
       (\<lambda>path. if count_list path 47 \<noteq> 1 then Inl FilePathRefused
               else Inr (helper [py ''write'', path, py_int WRITE_LIMIT_BYTES] (Some body)))"

text \<open>\<open>_inside_workspace\<close>: the pieces of an absolute path, with \<open>..\<close> taking one
  back; \<open>None\<close> when it would leave the root.\<close>

fun resolve_pieces :: "pystr list \<Rightarrow> pystr list \<Rightarrow> pystr list option" where
  "resolve_pieces parts [] = Some parts"
| "resolve_pieces parts (piece # pieces) =
     (if piece = [] \<or> piece = py ''.'' then resolve_pieces parts pieces
      else if piece = py ''..''
        then (if parts = [] then None else resolve_pieces (butlast parts) pieces)
      else resolve_pieces (parts @ [piece]) pieces)"

definition inside_workspace :: "pystr \<Rightarrow> bool" where
  "inside_workspace cwd \<longleftrightarrow>
     py_startswith cwd (py ''/'') \<and>
     (case resolve_pieces [] (py_split 47 cwd) of
        None \<Rightarrow> False
      | Some parts \<Rightarrow>
          (let resolved = py ''/'' @ py_join (py ''/'') parts
           in list_ex (\<lambda>allowed. resolved = allowed \<or> py_startswith resolved (allowed @ py ''/''))
                ALLOWED_WORKING_DIRECTORIES))"

definition SHELL_EXEC_ARGUMENTS :: "pystr list" where
  "SHELL_EXEC_ARGUMENTS = [py ''command'', py ''cwd'', py ''timeout_seconds'']"

definition shell_command :: "(nat \<Rightarrow> bool) \<Rightarrow> ToolCallBlock \<Rightarrow> (ToolError, SandboxCommand) result" where
  "shell_command prn call =
     (let arguments = tc_arguments call;
          unexpected = extra_keys SHELL_EXEC_ARGUMENTS arguments;
          cwd = jget_or arguments (py ''cwd'') (JStr DEFAULT_WORKING_DIRECTORY)
      in if unexpected \<noteq> []
         then invalid call (py ''unexpected: '' @ py_repr prn (JList (map JStr unexpected)))
         else
           (case nonblank (jget arguments (py ''command'')) of
              None \<Rightarrow> invalid call (py ''command'')
            | Some command \<Rightarrow>
                (if \<not> (case cwd of JStr d \<Rightarrow> inside_workspace d | _ \<Rightarrow> False)
                 then Inl (ToolRefused WORKING_DIRECTORY_NOT_ALLOWED (tc_call_id call) (py_str prn cwd))
                 else
                   (case plain_int (jget_or arguments (py ''timeout_seconds'') (JInt DEFAULT_TIMEOUT_SECONDS)) of
                      None \<Rightarrow> invalid call (py ''timeout_seconds'')
                    | Some timeout \<Rightarrow>
                        (if timeout < 1 then invalid call (py ''timeout_seconds'')
                         else if timeout > MAX_TIMEOUT_SECONDS
                           then Inl (ToolRefused TIMEOUT_TOO_LONG (tc_call_id call) (py_int timeout))
                         else Inr \<lparr>cmd_argv = [py ''/bin/bash'', py ''-lc'', command],
                                   cmd_cwd = (case cwd of JStr d \<Rightarrow> d | _ \<Rightarrow> []),
                                   cmd_timeout_seconds = timeout, cmd_output_limit = DEFAULT_OUTPUT_BYTES,
                                   cmd_stdin = None\<rparr>)))))"

record AuthorizedCall =
  au_call_id :: pystr
  au_name :: pystr
  au_command :: SandboxCommand
  au_changes_workspace :: bool

definition file_refusal :: "ToolCallBlock \<Rightarrow> FileError \<Rightarrow> ToolError" where
  "file_refusal call e =
     (case e of
        FilePathRefused \<Rightarrow> ToolRefused NOT_AUTHORIZED (tc_call_id call) (py ''path'')
      | FileArgumentsInvalid detail \<Rightarrow> ToolRefused INVALID_ARGUMENTS (tc_call_id call) detail
      | FileEncodeError \<Rightarrow> UnicodeEncodeError)"

definition authorize ::
  "(pystr \<Rightarrow> pystr) \<Rightarrow> (nat \<Rightarrow> bool) \<Rightarrow> pystr list \<Rightarrow> ToolCallBlock \<Rightarrow> (ToolError, AuthorizedCall) result" where
  "authorize nfc prn bound call =
     (let name = tc_name call
      in if name \<notin> set IMPLEMENTED_TOOLS \<or> name \<in> set PLATFORM_TOOLS
         then Inl (ToolRefused UNKNOWN_TOOL (tc_call_id call) name)
         else if name \<notin> set bound then Inl (ToolRefused NOT_AUTHORIZED (tc_call_id call) name)
         else
           (case map_of FILE_ARGUMENTS name of
              Some allowed \<Rightarrow>
                map_sum (file_refusal call)
                  (\<lambda>command. \<lparr>au_call_id = tc_call_id call, au_name = name, au_command = command,
                              au_changes_workspace = changes_workspace name\<rparr>)
                  (file_tool_command nfc prn allowed call)
            | None \<Rightarrow>
                map_sum id
                  (\<lambda>command. \<lparr>au_call_id = tc_call_id call, au_name = name, au_command = command,
                              au_changes_workspace = True\<rparr>)
                  (shell_command prn call)))"


section \<open>What authorization lets through\<close>

lemma invalid_not_Inr [simp]: "invalid call d \<noteq> Inr x"
  by (simp add: invalid_def)

lemma refuse_unknown_Inr [simp]:
  "refuse_unknown allowed call = Inr u \<longleftrightarrow> fst ` set (tc_arguments call) \<subseteq> set allowed"
  by (auto simp: refuse_unknown_def Let_def extra_keys_Nil)

lemma nonblank_Some: "nonblank v = Some s \<longleftrightarrow> v = Some (JStr s) \<and> py_strip s \<noteq> []"
  by (auto simp: nonblank_def split: option.splits json.splits if_splits)

lemma plain_int_Some [simp]: "plain_int v = Some i \<longleftrightarrow> v = JInt i"
  by (auto simp: plain_int_def split: json.splits)

lemma resolve_pieces_plain:
  "resolve_pieces parts pieces = Some r \<Longrightarrow> \<forall>p \<in> set parts. c \<notin> set p \<Longrightarrow> \<forall>p \<in> set pieces. c \<notin> set p \<Longrightarrow>
   \<forall>p \<in> set r. c \<notin> set p"
proof (induction pieces arbitrary: parts)
  case (Cons piece pieces)
  have "\<forall>p \<in> set (butlast parts). c \<notin> set p" "\<forall>p \<in> set (parts @ [piece]). c \<notin> set p"
    using Cons.prems(2,3) by (auto dest: in_set_butlastD)
  moreover have "\<exists>ps \<in> {parts, butlast parts, parts @ [piece]}. resolve_pieces ps pieces = Some r"
    using Cons.prems(1) by (simp split: if_splits)
  moreover have "\<forall>p \<in> set pieces. c \<notin> set p" using Cons.prems(3) by simp
  ultimately show ?case using Cons.IH Cons.prems(2) by blast
qed simp

text \<open>Below an allowed root, read on the names the path is made of.\<close>

definition WORKSPACE_ROOTS :: "pystr list list" where
  "WORKSPACE_ROOTS = [[py ''workspace'', py ''data''], [py ''workspace'', py ''cache'']]"

lemma py_split_join_append:
  "ps \<noteq> [] \<Longrightarrow> \<forall>p \<in> set ps. c \<notin> set p \<Longrightarrow> py_split c (py_join [c] ps @ c # s) = ps @ py_split c s"
  by (induction "[c]" ps rule: py_join.induct) (auto simp: py_split_append)

lemma join_below_root:
  assumes "r \<noteq> []" "\<forall>p \<in> set r. 47 \<notin> set p" "root \<noteq> []" "\<forall>p \<in> set root. 47 \<notin> set p"
  shows "py_join [47] r = py_join [47] root \<or> prefix (py_join [47] root @ [47]) (py_join [47] r) \<longleftrightarrow>
    prefix root r" (is "?below \<longleftrightarrow> _")
proof
  have r: "py_split 47 (py_join [47] r) = r" using assms(1,2) by (simp add: py_split_join)
  have root: "py_split 47 (py_join [47] root) = root" using assms(3,4) by (simp add: py_split_join)
  { assume ?below
    then consider "r = root" | t where "py_join [47] r = py_join [47] root @ 47 # t"
      using arg_cong[of "py_join [47] r" "py_join [47] root" "py_split 47", unfolded r root]
      by (auto simp only: prefix_def append.assoc append_Cons append_Nil)
    then show "prefix root r"
    proof cases
      case 2
      then have "r = root @ py_split 47 t" using r py_split_join_append[of root 47 t] assms(3,4) by simp
      then show ?thesis by simp
    qed simp }
  { assume "prefix root r"
    then obtain q where q: "r = root @ q" by (auto simp: prefix_def)
    show ?below
    proof (cases "q = []")
      case False
      then have "py_split 47 (py_join [47] root @ 47 # py_join [47] q) = root @ q"
        using assms(2-4) q by (simp add: py_split_join_append py_split_join)
      then have "py_join [47] r = py_join [47] root @ 47 # py_join [47] q"
        using q by (metis py_join_split)
      then show ?thesis by simp
    qed (simp add: q) }
qed

lemma inside_workspace_iff:
  "inside_workspace cwd \<longleftrightarrow> py_startswith cwd (py ''/'') \<and>
     (\<exists>r. resolve_pieces [] (py_split 47 cwd) = Some r \<and> (\<exists>root \<in> set WORKSPACE_ROOTS. prefix root r))"
proof (cases "resolve_pieces [] (py_split 47 cwd)")
  case (Some r)
  have plain: "\<forall>p \<in> set r. 47 \<notin> set p"
    using resolve_pieces_plain[OF Some, where c = 47] py_split_no_sep by auto
  have roots: "map ((@) (py ''/'') \<circ> py_join [47]) WORKSPACE_ROOTS = ALLOWED_WORKING_DIRECTORIES"
    by code_simp
  have rootd: "\<forall>root \<in> set WORKSPACE_ROOTS. root \<noteq> [] \<and> (\<forall>p \<in> set root. 47 \<notin> set p)" by code_simp
  have slash: "py ''/'' = [47]" by code_simp
  have "(\<exists>a \<in> set ALLOWED_WORKING_DIRECTORIES. [47] @ py_join [47] r = a \<or> prefix (a @ [47]) ([47] @ py_join [47] r))
     \<longleftrightarrow> (\<exists>root \<in> set WORKSPACE_ROOTS. prefix root r)"
  proof (cases "r = []")
    case True
    then show ?thesis by (simp add: ALLOWED_WORKING_DIRECTORIES_def WORKSPACE_ROOTS_def py_def)
  next
    case False
    have "\<And>root. root \<in> set WORKSPACE_ROOTS \<Longrightarrow>
       (py_join [47] r = py_join [47] root \<or> prefix (py_join [47] root @ [47]) (py_join [47] r)) \<longleftrightarrow> prefix root r"
      using join_below_root[OF False plain] rootd by blast
    then show ?thesis unfolding roots[symmetric] by (simp add: slash)
  qed
  then show ?thesis
    by (simp add: inside_workspace_def Some slash list_ex_iff py_startswith_prefix Let_def)
qed (simp add: inside_workspace_def)

definition within_workspace :: "pystr \<Rightarrow> bool" where
  "within_workspace cwd \<longleftrightarrow>
     (\<exists>r. resolve_pieces [] (py_split 47 cwd) = Some r \<and> (\<exists>root \<in> set WORKSPACE_ROOTS. prefix root r))"

definition shell_ok :: "ToolCallBlock \<Rightarrow> SandboxCommand \<Rightarrow> bool" where
  "shell_ok call c \<longleftrightarrow> tc_name call = py ''shell.exec'' \<and> cmd_stdin c = None \<and>
     (\<exists>line. jget (tc_arguments call) (py ''command'') = Some (JStr line) \<and> py_strip line \<noteq> [] \<and>
        cmd_argv c = [py ''/bin/bash'', py ''-lc'', line])"

definition decimal :: "pystr \<Rightarrow> bool" where
  "decimal s \<longleftrightarrow> (\<exists>i \<ge> 0. s = py_int i)"

definition file_ok :: "ToolCallBlock \<Rightarrow> SandboxCommand \<Rightarrow> bool" where
  "file_ok call c \<longleftrightarrow> cmd_cwd c = DATA_ROOT \<and>
     (\<exists>verb path nums.
        cmd_argv c = [FILE_HELPER, py ''--root'', DATA_ROOT, verb, path] @ nums \<and> list_all decimal nums \<and>
        tc_name call = py ''file.'' @ verb \<and> verb \<in> {py ''read'', py ''write'', py ''list''} \<and>
        (safe_path path \<or> verb = py ''list'' \<and> path = py ''.'') \<and>
        (case cmd_stdin c of
           None \<Rightarrow> verb \<noteq> py ''write''
         | Some body \<Rightarrow> verb = py ''write'' \<and> int (length body) \<le> WRITE_LIMIT_BYTES \<and>
             (\<exists>content. jget (tc_arguments call) (py ''content'') = Some (JStr content) \<and> utf8 content = Some body)))"

lemma shell_command_Inr:
  assumes "shell_command prn call = Inr c" "tc_name call = py ''shell.exec''"
  shows "shell_ok call c \<and> within_workspace (cmd_cwd c) \<and> 1 \<le> cmd_timeout_seconds c \<and>
    cmd_timeout_seconds c \<le> MAX_TIMEOUT_SECONDS"
  using assms
  by (auto simp: shell_command_def Let_def shell_ok_def within_workspace_def inside_workspace_iff nonblank_Some
      split: if_splits option.splits json.splits)

lemma safe_path_of_Inr: "safe_path_of nfc raw = Inr p \<longleftrightarrow> (\<exists>q. raw = Some (JStr q) \<and> safe_path q \<and> p = nfc q)"
  by (auto simp: safe_path_of_def normalize_path_Inr[symmetric] simp del: normalize_path_Inr
      split: option.splits json.splits sum.splits)

lemma write_body_Inr:
  "write_body d = Inr b \<longleftrightarrow> (\<exists>content. jget d (py ''content'') = Some (JStr content) \<and> utf8 content = Some b) \<and>
     int (length b) \<le> WRITE_LIMIT_BYTES"
  by (auto simp: write_body_def split: option.splits json.splits if_splits)

lemma bounded_int_Inr:
  "bounded_int d name fallback low high = Inr v \<longleftrightarrow>
     jget_or d name (JInt fallback) = JInt v \<and> low \<le> v \<and> v \<le> high"
  by (cases "jget_or d name (JInt fallback)") (auto simp: bounded_int_def plain_int_def)

lemma safe_path_of_safe: "nfc_ok nfc \<Longrightarrow> safe_path_of nfc raw = Inr p \<Longrightarrow> safe_path p"
  by (auto simp: safe_path_of_Inr safe_path_nfc)

lemma decimal_py_int [simp]: "0 \<le> i \<Longrightarrow> decimal (py_int i)"
  by (auto simp: decimal_def)

lemma helper_sel [simp]:
  "cmd_argv (helper args body) = [FILE_HELPER, py ''--root'', DATA_ROOT] @ args"
  "cmd_cwd (helper args body) = DATA_ROOT" "cmd_stdin (helper args body) = body"
  "cmd_timeout_seconds (helper args body) = FILE_TOOL_TIMEOUT_SECONDS"
  by (simp_all add: helper_def)

lemma limits_nonneg [simp]: "0 \<le> READ_LIMIT_BYTES" "0 \<le> WRITE_LIMIT_BYTES"
  by (simp_all add: READ_LIMIT_BYTES_def WRITE_LIMIT_BYTES_def)

lemma file_names [simp]:
  "py ''file.read'' = py ''file.write'' \<longleftrightarrow> False" "py ''file.read'' = py ''file.list'' \<longleftrightarrow> False"
  "py ''file.write'' = py ''file.list'' \<longleftrightarrow> False" "py ''read'' = py ''write'' \<longleftrightarrow> False"
  "py ''list'' = py ''write'' \<longleftrightarrow> False" "py ''file.list'' = py ''file.read'' \<longleftrightarrow> False"
  "py ''file.write'' = py ''file.read'' \<longleftrightarrow> False" "py ''file.list'' = py ''file.write'' \<longleftrightarrow> False"
  by (simp_all add: py_def)

lemma file_verbs:
  "py ''file.read'' = py ''file.'' @ py ''read''" "py ''file.write'' = py ''file.'' @ py ''write''"
  "py ''file.list'' = py ''file.'' @ py ''list''"
  by (simp_all add: py_def)

lemma file_okI:
  assumes "c = helper ([verb, path] @ nums) body" "list_all decimal nums" "tc_name call = py ''file.'' @ verb"
    "verb \<in> {py ''read'', py ''write'', py ''list''}" "safe_path path \<or> verb = py ''list'' \<and> path = py ''.''"
    "case body of None \<Rightarrow> verb \<noteq> py ''write'' | Some b \<Rightarrow> verb = py ''write'' \<and> write_body (tc_arguments call) = Inr b"
  shows "file_ok call c \<and> cmd_timeout_seconds c = FILE_TOOL_TIMEOUT_SECONDS"
proof -
  have "cmd_argv c = [FILE_HELPER, py ''--root'', DATA_ROOT, verb, path] @ nums" using assms(1) by simp
  moreover have "case cmd_stdin c of None \<Rightarrow> verb \<noteq> py ''write''
    | Some body \<Rightarrow> verb = py ''write'' \<and> int (length body) \<le> WRITE_LIMIT_BYTES \<and>
        (\<exists>content. jget (tc_arguments call) (py ''content'') = Some (JStr content) \<and> utf8 content = Some body)"
    using assms(1,6) by (simp add: write_body_Inr split: option.splits)
  ultimately have "file_ok call c" using assms(1-5) unfolding file_ok_def
    by (intro conjI exI[of _ verb] exI[of _ path] exI[of _ nums]) simp_all
  then show ?thesis using assms(1) by simp
qed

lemma file_read_ok:
  assumes "nfc_ok nfc" "file_tool_command nfc prn allowed call = Inr c" "tc_name call = py ''file.read''"
  shows "file_ok call c \<and> cmd_timeout_seconds c = FILE_TOOL_TIMEOUT_SECONDS"
proof -
  obtain p where p: "safe_path_of nfc (jget (tc_arguments call) (py ''path'')) = Inr p"
    and c: "c = helper [py ''read'', p, py_int READ_LIMIT_BYTES] None"
    using assms(2,3) by (auto simp: file_tool_command_def Let_def split: if_splits)
  show ?thesis
    by (rule file_okI[where verb = "py ''read''" and path = p and nums = "[py_int READ_LIMIT_BYTES]" and body = None])
      (simp_all add: c assms(3) safe_path_of_safe[OF assms(1) p] flip: file_verbs)
qed

lemma file_write_ok:
  assumes "nfc_ok nfc" "file_tool_command nfc prn allowed call = Inr c" "tc_name call = py ''file.write''"
  shows "file_ok call c \<and> cmd_timeout_seconds c = FILE_TOOL_TIMEOUT_SECONDS"
proof -
  obtain p b where p: "safe_path_of nfc (jget (tc_arguments call) (py ''path'')) = Inr p"
    and b: "write_body (tc_arguments call) = Inr b"
    and c: "c = helper [py ''write'', p, py_int WRITE_LIMIT_BYTES] (Some b)"
    using assms(2,3) by (auto simp: file_tool_command_def Let_def split: if_splits)
  show ?thesis
    by (rule file_okI[where verb = "py ''write''" and path = p and nums = "[py_int WRITE_LIMIT_BYTES]" and body = "Some b"])
      (simp_all add: c b assms(3) safe_path_of_safe[OF assms(1) p] flip: file_verbs)
qed

lemma file_list_ok:
  assumes "nfc_ok nfc" "file_tool_command nfc prn allowed call = Inr c" "tc_name call = py ''file.list''"
  shows "file_ok call c \<and> cmd_timeout_seconds c = FILE_TOOL_TIMEOUT_SECONDS"
proof -
  let ?raw = "jget_or (tc_arguments call) (py ''path'') (JStr (py ''.''))"
  obtain p n l where p: "p = py ''.'' \<or> safe_path_of nfc (Some ?raw) = Inr p" and nl: "0 \<le> n" "1 \<le> l"
    and c: "c = helper [py ''list'', p, py_int n, py_int l] None"
    using assms(2,3) by (auto simp: file_tool_command_def Let_def bounded_int_Inr split: if_splits)
  have "safe_path p \<or> p = py ''.''" using p safe_path_of_safe[OF assms(1)] by blast
  then show ?thesis using nl
    by (intro file_okI[where verb = "py ''list''" and nums = "[py_int n, py_int l]" and body = None])
      (simp_all add: c assms(3) flip: file_verbs)
qed

lemmas file_tool_ok = file_read_ok file_write_ok file_list_ok

lemma sandbox_tools:
  "n \<in> set IMPLEMENTED_TOOLS \<Longrightarrow> n \<notin> set PLATFORM_TOOLS \<Longrightarrow>
   n = py ''shell.exec'' \<or> n = py ''file.list'' \<or> n = py ''file.read'' \<or> n = py ''file.write''"
  by (auto simp: IMPLEMENTED_TOOLS_def PLATFORM_TOOLS_def)

lemma file_arguments_of [simp]:
  "map_of FILE_ARGUMENTS (py ''shell.exec'') = None"
  "map_of FILE_ARGUMENTS (py ''file.read'') = Some [py ''path'']"
  "map_of FILE_ARGUMENTS (py ''file.write'') = Some [py ''path'', py ''content'']"
  "map_of FILE_ARGUMENTS (py ''file.list'') = Some [py ''path'', py ''offset'', py ''limit'']"
  by code_simp+

lemma data_root_within: "within_workspace DATA_ROOT"
proof -
  have "py_startswith DATA_ROOT (py ''/'') \<and> inside_workspace DATA_ROOT" by code_simp
  then show ?thesis by (simp add: inside_workspace_iff within_workspace_def)
qed

lemma file_ok_within: "file_ok call c \<Longrightarrow> within_workspace (cmd_cwd c)"
  using data_root_within by (auto simp: file_ok_def)

lemma changes_names [simp]:
  "changes_workspace (py ''shell.exec'')" "\<not> changes_workspace (py ''file.read'')"
  "changes_workspace (py ''file.write'')" "\<not> changes_workspace (py ''file.list'')"
  by code_simp+



end
