(* ===== verification/Tool_Schemas.thy ===== *)
theory Tool_Schemas
  imports Tool_Calls
begin

text \<open>
  The schemas of \<^verbatim>\<open>tools/domain/registry.py\<close>: what a model is told about the tools
  its Agent binds, as the JSON documents the code sends, and the agreement between what a schema
  offers and what the reader of the same tool accepts. Quotation marks in descriptions aside, the
  texts are the source's.
\<close>

section \<open>Schemas\<close>

definition SHELL_EXEC_SCHEMA :: json where
  "SHELL_EXEC_SCHEMA =
     JDict
       [(py ''type'', JStr (py ''function'')),
        (py ''function'', JDict
           [(py ''name'', JStr (py ''shell.exec'')),
            (py ''description'', JStr (py ''Run one shell command inside this Run's sandbox. The sandbox has no network at '' @
                py ''all, so anything that fetches from the internet will fail. The filesystem is '' @
                py ''read-only except /workspace/data and /workspace/cache. The command runs as a '' @
                py ''non-root user.'')),
            (py ''parameters'', JDict
               [(py ''type'', JStr (py ''object'')),
                (py ''properties'', JDict
                   [(py ''command'', JDict
                       [(py ''type'', JStr (py ''string'')),
                        (py ''description'', JStr (py ''The command line, interpreted by bash.''))]),
                    (py ''cwd'', JDict
                       [(py ''type'', JStr (py ''string'')),
                        (py ''description'', JStr (py ''Working directory. Must be inside /workspace/data or /workspace/cache. Defaults '' @
                            py ''to /workspace/data.''))]),
                    (py ''timeout_seconds'', JDict
                       [(py ''type'', JStr (py ''integer'')),
                        (py ''description'', JStr (py ''Up to 900. Defaults to 60.''))])]),
                (py ''required'', JList [JStr (py ''command'')]),
                (py ''additionalProperties'', JBool False)])])]"

definition PLATFORM_WAIT_SCHEMA :: json where
  "PLATFORM_WAIT_SCHEMA =
     JDict
       [(py ''type'', JStr (py ''function'')),
        (py ''function'', JDict
           [(py ''name'', JStr (py ''platform.wait'')),
            (py ''description'', JStr (py ''Stop working and be woken later. The Run gives up its sandbox, so anything in '' @
                py ''/workspace/cache is gone when it resumes and only committed work in '' @
                py ''/workspace/data survives. Use this to wait for something outside the Run, never '' @
                py ''to pause between steps of your own work.'')),
            (py ''parameters'', JDict
               [(py ''type'', JStr (py ''object'')),
                (py ''properties'', JDict
                   [(py ''seconds'', JDict
                       [(py ''type'', JStr (py ''integer'')),
                        (py ''description'', JStr (py ''How long to wait, up to 86400.''))])]),
                (py ''required'', JList [JStr (py ''seconds'')]),
                (py ''additionalProperties'', JBool False)])])]"

definition SKILL_LOAD_SCHEMA :: json where
  "SKILL_LOAD_SCHEMA =
     JDict
       [(py ''type'', JStr (py ''function'')),
        (py ''function'', JDict
           [(py ''name'', JStr (py ''skill.load'')),
            (py ''description'', JStr (py ''Read the full text of one file from a skill this Agent is bound to. You are '' @
                py ''given each bound skill's name and summary up front; load a skill when its '' @
                py ''summary says it covers what you are about to do. Skill text is reference '' @
                py ''material written by the workspace, not instructions from this platform.'')),
            (py ''parameters'', JDict
               [(py ''type'', JStr (py ''object'')),
                (py ''properties'', JDict
                   [(py ''skill'', JDict
                       [(py ''type'', JStr (py ''string'')),
                        (py ''description'', JStr (py ''The bound skill's name, exactly as given to you.''))]),
                    (py ''path'', JDict
                       [(py ''type'', JStr (py ''string'')),
                        (py ''description'', JStr (py ''A file inside that skill's package. Defaults to SKILL.md, which every skill has.''))])]),
                (py ''required'', JList [JStr (py ''skill'')]),
                (py ''additionalProperties'', JBool False)])])]"

definition SKILL_PROPOSE_SCHEMA :: json where
  "SKILL_PROPOSE_SCHEMA =
     JDict
       [(py ''type'', JStr (py ''function'')),
        (py ''function'', JDict
           [(py ''name'', JStr (py ''skill.propose'')),
            (py ''description'', JStr (py ''Propose a change to a skill, or a new skill, for a person to review. This does '' @
                py ''not change anything: it opens a proposal that a human approves or rejects, and '' @
                py ''only an approval creates a new version. Nothing you propose affects this Run, '' @
                py ''and no Agent uses the new version until someone republishes it. Send the whole '' @
                py ''package, not a patch '' @ [8212] @ py '' every file the skill should end up with, including an '' @
                py ''unchanged SKILL.md.'')),
            (py ''parameters'', JDict
               [(py ''type'', JStr (py ''object'')),
                (py ''properties'', JDict
                   [(py ''files'', JDict
                       [(py ''type'', JStr (py ''array'')),
                        (py ''description'', JStr (py ''The complete file set the skill should have, at most 64 files.'')),
                        (py ''items'', JDict
                           [(py ''type'', JStr (py ''object'')),
                            (py ''properties'', JDict
                               [(py ''path'', JDict
                                   [(py ''type'', JStr (py ''string'')),
                                    (py ''description'', JStr (py ''A path inside the package, such as SKILL.md or reference/rollback.md.''))]),
                                (py ''content'', JDict
                                   [(py ''type'', JStr (py ''string'')),
                                    (py ''description'', JStr (py ''The whole file.''))])]),
                            (py ''required'', JList [JStr (py ''path''), JStr (py ''content'')]),
                            (py ''additionalProperties'', JBool False)])]),
                    (py ''skill'', JDict
                       [(py ''type'', JStr (py ''string'')),
                        (py ''description'', JStr (py ''The bound skill this changes, exactly as given to you. Omit it to propose a new '' @
                            py ''skill, named by the SKILL.md you send.''))])]),
                (py ''required'', JList [JStr (py ''files'')]),
                (py ''additionalProperties'', JBool False)])])]"

definition MEMORY_REMEMBER_SCHEMA :: json where
  "MEMORY_REMEMBER_SCHEMA =
     JDict
       [(py ''type'', JStr (py ''function'')),
        (py ''function'', JDict
           [(py ''name'', JStr (py ''memory.remember'')),
            (py ''description'', JStr (py ''Propose one short thing worth remembering about the person you are working '' @
                py ''with, for future conversations. This does not change anything now and nothing '' @
                py ''you propose affects this Run: depending on the workspace's policy it may be '' @
                py ''refused, or wait for a person to approve it. Write a standing preference or a '' @
                py ''durable fact in your own words '' @ [8212] @ py '' never quote the message it came from, never '' @
                py ''record anything about somebody else, and never record credentials or '' @
                py ''identifiers.'')),
            (py ''parameters'', JDict
               [(py ''type'', JStr (py ''object'')),
                (py ''properties'', JDict
                   [(py ''body'', JDict
                       [(py ''type'', JStr (py ''string'')),
                        (py ''description'', JStr (py ''One sentence, in your own words, at most 500 characters.''))])]),
                (py ''required'', JList [JStr (py ''body'')]),
                (py ''additionalProperties'', JBool False)])])]"

definition TODO_WRITE_SCHEMA :: json where
  "TODO_WRITE_SCHEMA =
     JDict
       [(py ''type'', JStr (py ''function'')),
        (py ''function'', JDict
           [(py ''name'', JStr (py ''todo.write'')),
            (py ''description'', JStr (py ''Keep a task list for work that takes several steps. Send the whole list every '' @
                py ''time '' @ [8212] @ py '' it replaces the previous one '' @ [8212] @ py '' and mark the step you are on as '' @
                py ''in_progress. The list comes back as it now stands. Use it for multi-step work '' @
                py ''only; a one-step answer needs no list.'')),
            (py ''parameters'', JDict
               [(py ''type'', JStr (py ''object'')),
                (py ''properties'', JDict
                   [(py ''items'', JDict
                       [(py ''type'', JStr (py ''array'')),
                        (py ''maxItems'', JInt 30),
                        (py ''items'', JDict
                           [(py ''type'', JStr (py ''object'')),
                            (py ''properties'', JDict
                               [(py ''id'', JDict
                                   [(py ''type'', JStr (py ''string''))]),
                                (py ''content'', JDict
                                   [(py ''type'', JStr (py ''string'')),
                                    (py ''description'', JStr (py ''At most 200 characters.''))]),
                                (py ''status'', JDict
                                   [(py ''type'', JStr (py ''string'')),
                                    (py ''enum'', JList [JStr (py ''pending''), JStr (py ''in_progress''), JStr (py ''completed''), JStr (py ''cancelled'')])])]),
                            (py ''required'', JList [JStr (py ''id''), JStr (py ''content''), JStr (py ''status'')]),
                            (py ''additionalProperties'', JBool False)])])]),
                (py ''required'', JList [JStr (py ''items'')]),
                (py ''additionalProperties'', JBool False)])])]"

definition SESSION_SEARCH_SCHEMA :: json where
  "SESSION_SEARCH_SCHEMA =
     JDict
       [(py ''type'', JStr (py ''function'')),
        (py ''function'', JDict
           [(py ''name'', JStr (py ''session.search'')),
            (py ''description'', JStr (py ''Search this person's past conversations with you for something they said '' @
                py ''before. Returns short snippets, not whole conversations '' @ [8212] @ py '' read a snippet to '' @
                py ''decide whether it matters, and ask the person if you need more than it carries. '' @
                py ''Matching is by keyword, so search for words they would have used.'')),
            (py ''parameters'', JDict
               [(py ''type'', JStr (py ''object'')),
                (py ''properties'', JDict
                   [(py ''query'', JDict
                       [(py ''type'', JStr (py ''string'')),
                        (py ''description'', JStr (py ''The words to look for.''))]),
                    (py ''limit'', JDict
                       [(py ''type'', JStr (py ''integer'')),
                        (py ''description'', JStr (py ''How many snippets to return, at most 10.''))])]),
                (py ''required'', JList [JStr (py ''query'')]),
                (py ''additionalProperties'', JBool False)])])]"

definition SITE_PUBLISH_SCHEMA :: json where
  "SITE_PUBLISH_SCHEMA =
     JDict
       [(py ''type'', JStr (py ''function'')),
        (py ''function'', JDict
           [(py ''name'', JStr (py ''site.publish'')),
            (py ''description'', JStr (py ''Publish a static website from the workspace and get a link to it. The directory '' @
                py ''must contain index.html; HTML, CSS, JavaScript, images, fonts and JSON are '' @
                py ''served, nothing runs on a server. Call this in its own round, after the round '' @
                py ''that wrote the files: files written in the same round are not saved yet. The '' @
                py ''link is shown once, here; give it to the person in your reply.'')),
            (py ''parameters'', JDict
               [(py ''type'', JStr (py ''object'')),
                (py ''properties'', JDict
                   [(py ''path'', JDict
                       [(py ''type'', JStr (py ''string'')),
                        (py ''description'', JStr (py ''The site's directory in the workspace. Default: site''))]),
                    (py ''title'', JDict
                       [(py ''type'', JStr (py ''string'')),
                        (py ''description'', JStr (py ''A short name for the site, at most 100 characters.''))])]),
                (py ''additionalProperties'', JBool False)])])]"

definition FILE_SEND_SCHEMA :: json where
  "FILE_SEND_SCHEMA =
     JDict
       [(py ''type'', JStr (py ''function'')),
        (py ''function'', JDict
           [(py ''name'', JStr (py ''file.send'')),
            (py ''description'', JStr (py ''Send one file from the workspace to the person you are talking to. In Feishu it '' @
                py ''arrives in the conversation as a file they can open; elsewhere you are told '' @
                py ''where they can download it. At most 30 MB, and 10 files per task. Call this in '' @
                py ''its own round, after the round that wrote the file: files written in the same '' @
                py ''round are not saved yet.'')),
            (py ''parameters'', JDict
               [(py ''type'', JStr (py ''object'')),
                (py ''properties'', JDict
                   [(py ''path'', JDict
                       [(py ''type'', JStr (py ''string'')),
                        (py ''description'', JStr (py ''The file's path in the workspace, e.g. out/report.xlsx''))])]),
                (py ''required'', JList [JStr (py ''path'')]),
                (py ''additionalProperties'', JBool False)])])]"

definition AGENT_DELEGATE_SCHEMA :: json where
  "AGENT_DELEGATE_SCHEMA =
     JDict
       [(py ''type'', JStr (py ''function'')),
        (py ''function'', JDict
           [(py ''name'', JStr (py ''agent.delegate'')),
            (py ''description'', JStr (py ''Hand one or more independent pieces of work to other Agents, which run at the '' @
                py ''same time as each other. Each one starts from the instruction you give it and '' @
                py ''nothing else: it cannot see this conversation, your files, or what you have '' @
                py ''already done, so write each instruction so it stands on its own. They spend the '' @
                py ''same budget as you do. Use this for work that splits cleanly; do it yourself '' @
                py ''when the pieces depend on each other.'')),
            (py ''parameters'', JDict
               [(py ''type'', JStr (py ''object'')),
                (py ''properties'', JDict
                   [(py ''children'', JDict
                       [(py ''type'', JStr (py ''array'')),
                        (py ''description'', JStr (py ''Between one and 8 pieces of work. Your Agent decides how many may run at once.'')),
                        (py ''items'', JDict
                           [(py ''type'', JStr (py ''object'')),
                            (py ''properties'', JDict
                               [(py ''alias'', JDict
                                   [(py ''type'', JStr (py ''string'')),
                                    (py ''description'', JStr (py ''Which Agent to give it to, by the alias your own configuration lists.''))]),
                                (py ''instruction'', JDict
                                   [(py ''type'', JStr (py ''string'')),
                                    (py ''description'', JStr (py ''The whole task, in at most 2000 characters. It is all this Agent will be told.''))]),
                                (py ''artifacts'', JDict
                                   [(py ''type'', JStr (py ''array'')),
                                    (py ''items'', JDict
                                       [(py ''type'', JStr (py ''string''))]),
                                    (py ''description'', JStr (py ''Ids of files to let this Agent read, at most 8. It cannot see your working '' @
                                        py ''directory, so anything it needs has to be named here. You may only pass on '' @
                                        py ''files you can read yourself.''))])]),
                            (py ''required'', JList [JStr (py ''alias''), JStr (py ''instruction'')]),
                            (py ''additionalProperties'', JBool False)])]),
                    (py ''wait'', JDict
                       [(py ''type'', JStr (py ''string'')),
                        (py ''enum'', JList [JStr (py ''all''), JStr (py ''any'')]),
                        (py ''description'', JStr (py ''Whether to wait for all of them or to carry on as soon as one succeeds. '' @
                            py ''Defaults to all. With 'any' the others are cancelled once you have an answer, '' @
                            py ''so use it when they are alternative routes to the same thing and not when each '' @
                            py ''does a different piece of the work.''))])]),
                (py ''required'', JList [JStr (py ''children'')]),
                (py ''additionalProperties'', JBool False)])])]"

definition ARTIFACT_READ_SCHEMA :: json where
  "ARTIFACT_READ_SCHEMA =
     JDict
       [(py ''type'', JStr (py ''function'')),
        (py ''function'', JDict
           [(py ''name'', JStr (py ''artifact.read'')),
            (py ''description'', JStr (py ''Read a file that was passed to you '' @ [8212] @ py '' by the Agent that delegated this work, or '' @
                py ''by an Agent you delegated to. You can only read files somebody handed you by '' @
                py ''id; there is no shared directory and nothing to browse. If a read is refused, '' @
                py ''the file was not passed to this piece of work.'')),
            (py ''parameters'', JDict
               [(py ''type'', JStr (py ''object'')),
                (py ''properties'', JDict
                   [(py ''artifact_id'', JDict
                       [(py ''type'', JStr (py ''string'')),
                        (py ''description'', JStr (py ''The id you were given.''))])]),
                (py ''required'', JList [JStr (py ''artifact_id'')]),
                (py ''additionalProperties'', JBool False)])])]"

definition file_schema :: "pystr \<Rightarrow> pystr \<Rightarrow> jobject \<Rightarrow> pystr list \<Rightarrow> json" where
  "file_schema name description properties required =
     JDict
       [(py ''type'', JStr (py ''function'')),
        (py ''function'', JDict
           [(py ''name'', JStr name), (py ''description'', JStr description),
            (py ''parameters'', JDict
               [(py ''type'', JStr (py ''object'')), (py ''properties'', JDict properties),
                (py ''required'', JList (map JStr required)), (py ''additionalProperties'', JBool False)])])]"

definition FILE_SCHEMAS :: "(pystr \<times> json) list" where
  "FILE_SCHEMAS =
     [(py ''file.read'', file_schema (py ''file.read'')
        (py ''Read one file under /workspace/data. Output beyond the per-call byte limit is '' @
           py ''cut and explicitly marked as truncated.'')
        [(py ''path'', JDict
              [(py ''type'', JStr (py ''string'')),
               (py ''description'', JStr (py ''A path relative to /workspace/data. No absolute paths, no `..`.''))])]
        [py ''path'']),
      (py ''file.write'', file_schema (py ''file.write'')
        (py ''Write a whole file under /workspace/data atomically, creating parent '' @
           py ''directories as needed. Refused when the content is over 16 MiB or the workspace '' @
           py ''would exceed its committed quota.'')
        [(py ''path'', JDict
              [(py ''type'', JStr (py ''string'')),
               (py ''description'', JStr (py ''A path relative to /workspace/data. No absolute paths, no `..`.''))]),
           (py ''content'', JDict
              [(py ''type'', JStr (py ''string'')),
               (py ''description'', JStr (py ''The full new content.''))])]
        [py ''path'', py ''content'']),
      (py ''file.list'', file_schema (py ''file.list'')
        (py ''List one directory under /workspace/data, paginated and never recursive. '' @
           py ''Entries come back in stable bytewise order.'')
        [(py ''path'', JDict
              [(py ''type'', JStr (py ''string'')),
               (py ''description'', JStr (py ''A path relative to /workspace/data. No absolute paths, no `..`. Defaults to the '' @
                   py ''root.''))]),
           (py ''offset'', JDict
              [(py ''type'', JStr (py ''integer'')),
               (py ''description'', JStr (py ''Entries to skip. Defaults to 0.''))]),
           (py ''limit'', JDict
              [(py ''type'', JStr (py ''integer'')),
               (py ''description'', JStr (py ''At most 1000. Defaults to 1000.''))])]
        [])]"

section \<open>What is advertised\<close>

definition schema_of :: "pystr \<Rightarrow> json list" where
  "schema_of name =
     (if name = py ''shell.exec'' then [SHELL_EXEC_SCHEMA]
      else if name = py ''platform.wait'' then [PLATFORM_WAIT_SCHEMA]
      else if name = py ''skill.load'' then [SKILL_LOAD_SCHEMA]
      else if name = py ''skill.propose'' then [SKILL_PROPOSE_SCHEMA]
      else if name = py ''memory.remember'' then [MEMORY_REMEMBER_SCHEMA]
      else if name = py ''session.search'' then [SESSION_SEARCH_SCHEMA]
      else if name = py ''agent.delegate'' then [AGENT_DELEGATE_SCHEMA]
      else if name = py ''artifact.read'' then [ARTIFACT_READ_SCHEMA]
      else if name = py ''todo.write'' then [TODO_WRITE_SCHEMA]
      else if name = py ''site.publish'' then [SITE_PUBLISH_SCHEMA]
      else if name = py ''file.send'' then [FILE_SEND_SCHEMA]
      else (case map_of FILE_SCHEMAS name of Some schema \<Rightarrow> [schema] | None \<Rightarrow> []))"

definition schemas_for :: "pystr list \<Rightarrow> json list" where
  "schemas_for bound = concat (map schema_of bound)"

section \<open>Schemas and readers agree\<close>

definition schema_part :: "pystr \<Rightarrow> json \<Rightarrow> json" where
  "schema_part name schema = (case schema of JDict d \<Rightarrow> jget_or d name JNull | _ \<Rightarrow> JNull)"

definition schema_parameters :: "json \<Rightarrow> json" where
  "schema_parameters schema = schema_part (py ''parameters'') (schema_part (py ''function'') schema)"

definition schema_name :: "json \<Rightarrow> json" where
  "schema_name schema = schema_part (py ''name'') (schema_part (py ''function'') schema)"

definition offered :: "json \<Rightarrow> pystr list" where
  "offered schema =
     (case schema_part (py ''properties'') (schema_parameters schema) of JDict d \<Rightarrow> map fst d | _ \<Rightarrow> [])"

definition required :: "json \<Rightarrow> json list" where
  "required schema =
     (case schema_part (py ''required'') (schema_parameters schema) of JList names \<Rightarrow> names | _ \<Rightarrow> [])"

text \<open>What a schema says of a tool: its name, the arguments it offers and those it requires.\<close>

definition says :: "json \<Rightarrow> pystr \<Rightarrow> pystr list \<Rightarrow> pystr list \<Rightarrow> bool" where
  "says schema name arguments needed \<longleftrightarrow>
     schema_name schema = JStr name \<and> set (offered schema) = set arguments \<and>
     required schema = map JStr needed"

lemmas schema_read = schema_part_def schema_parameters_def schema_name_def offered_def required_def jget_or_def says_def

lemma says_shell_exec: "says SHELL_EXEC_SCHEMA (py ''shell.exec'') SHELL_EXEC_ARGUMENTS [py ''command'']"
  by (auto simp: SHELL_EXEC_SCHEMA_def SHELL_EXEC_ARGUMENTS_def schema_read)

lemma says_platform_wait: "says PLATFORM_WAIT_SCHEMA (py ''platform.wait'') PLATFORM_WAIT_ARGUMENTS [py ''seconds'']"
  by (auto simp: PLATFORM_WAIT_SCHEMA_def PLATFORM_WAIT_ARGUMENTS_def schema_read)

lemma says_skill_load: "says SKILL_LOAD_SCHEMA (py ''skill.load'') SKILL_LOAD_ARGUMENTS [py ''skill'']"
  by (auto simp: SKILL_LOAD_SCHEMA_def SKILL_LOAD_ARGUMENTS_def schema_read)

lemma says_skill_propose: "says SKILL_PROPOSE_SCHEMA (py ''skill.propose'') SKILL_PROPOSE_ARGUMENTS [py ''files'']"
  by (auto simp: SKILL_PROPOSE_SCHEMA_def SKILL_PROPOSE_ARGUMENTS_def schema_read)

lemma says_memory_remember: "says MEMORY_REMEMBER_SCHEMA (py ''memory.remember'') MEMORY_REMEMBER_ARGUMENTS [py ''body'']"
  by (auto simp: MEMORY_REMEMBER_SCHEMA_def MEMORY_REMEMBER_ARGUMENTS_def schema_read)

lemma says_session_search: "says SESSION_SEARCH_SCHEMA (py ''session.search'') SESSION_SEARCH_ARGUMENTS [py ''query'']"
  by (auto simp: SESSION_SEARCH_SCHEMA_def SESSION_SEARCH_ARGUMENTS_def schema_read)

lemma says_agent_delegate: "says AGENT_DELEGATE_SCHEMA (py ''agent.delegate'') AGENT_DELEGATE_ARGUMENTS [py ''children'']"
  by (auto simp: AGENT_DELEGATE_SCHEMA_def AGENT_DELEGATE_ARGUMENTS_def schema_read)

lemma says_artifact_read: "says ARTIFACT_READ_SCHEMA (py ''artifact.read'') ARTIFACT_READ_ARGUMENTS [py ''artifact_id'']"
  by (auto simp: ARTIFACT_READ_SCHEMA_def ARTIFACT_READ_ARGUMENTS_def schema_read)

lemma says_todo_write: "says TODO_WRITE_SCHEMA (py ''todo.write'') [py ''items''] [py ''items'']"
  by (auto simp: TODO_WRITE_SCHEMA_def schema_read)

lemma says_site_publish: "says SITE_PUBLISH_SCHEMA (py ''site.publish'') SITE_PUBLISH_ARGUMENTS []"
  by (auto simp: SITE_PUBLISH_SCHEMA_def SITE_PUBLISH_ARGUMENTS_def schema_read)

lemma says_file_send: "says FILE_SEND_SCHEMA (py ''file.send'') [py ''path''] [py ''path'']"
  by (auto simp: FILE_SEND_SCHEMA_def schema_read)

lemma file_schema_says: "says (file_schema name d properties needed) name (map fst properties) needed"
  by (simp add: file_schema_def schema_read)

lemma says_file:
  "\<exists>s. map_of FILE_SCHEMAS (py ''file.read'') = Some s \<and> says s (py ''file.read'') [py ''path''] [py ''path'']"
  "\<exists>s. map_of FILE_SCHEMAS (py ''file.write'') = Some s \<and>
     says s (py ''file.write'') [py ''path'', py ''content''] [py ''path'', py ''content'']"
  "\<exists>s. map_of FILE_SCHEMAS (py ''file.list'') = Some s \<and>
     says s (py ''file.list'') [py ''path'', py ''offset'', py ''limit''] []"
  by (auto simp: FILE_SCHEMAS_def file_schema_def schema_read)

lemmas says_all =
  says_shell_exec says_platform_wait says_skill_load says_skill_propose says_memory_remember says_session_search
  says_agent_delegate says_artifact_read says_todo_write says_site_publish says_file_send

text \<open>The reader a call of a given name meets, and whether it lets the call through.\<close>

definition taken :: "('e, 'a) result \<Rightarrow> bool" where
  "taken r \<longleftrightarrow> (case r of Inl _ \<Rightarrow> False | Inr _ \<Rightarrow> True)"

lemma taken_iff: "taken r \<longleftrightarrow> (\<exists>x. r = Inr x)"
  by (cases r) (auto simp: taken_def)

definition accepted :: "(pystr \<Rightarrow> pystr) \<Rightarrow> (nat \<Rightarrow> bool) \<Rightarrow> pystr list \<Rightarrow> ToolCallBlock \<Rightarrow> bool" where
  "accepted nfc prn bound call =
     (let name = tc_name call
      in if name = py ''platform.wait'' then taken (wait_seconds_of call)
         else if name = py ''skill.load'' then taken (skill_load_of call)
         else if name = py ''skill.propose'' then taken (skill_propose_of call)
         else if name = py ''memory.remember'' then taken (memory_body_of call)
         else if name = py ''session.search'' then taken (session_search_of call)
         else if name = py ''agent.delegate'' then taken (delegation_of call)
         else if name = py ''artifact.read'' then taken (artifact_read_of call)
         else if name = py ''todo.write'' then taken (todos_of prn call)
         else if name = py ''site.publish'' then taken (site_publish_of call)
         else if name = py ''file.send'' then taken (file_send_of nfc call)
         else taken (authorize nfc prn bound call))"

text \<open>A call fits a tool when it gives no argument outside the first list and every one of the second.\<close>

definition fits :: "pystr list \<Rightarrow> pystr list \<Rightarrow> ToolCallBlock \<Rightarrow> bool" where
  "fits arguments needed call \<longleftrightarrow>
     fst ` set (tc_arguments call) \<subseteq> set arguments \<and> set needed \<subseteq> fst ` set (tc_arguments call)"

lemma jget_given: "jget d k = Some v \<Longrightarrow> k \<in> fst ` set d"
  by (metis image_eqI map_of_SomeD fst_conv)

lemma nonblank_given: "nonblank (jget d k) = Some s \<Longrightarrow> k \<in> fst ` set d"
  by (auto simp: nonblank_Some intro: jget_given)

lemma wait_fits: "taken (wait_seconds_of call) \<Longrightarrow> fits PLATFORM_WAIT_ARGUMENTS [py ''seconds''] call"
  by (auto simp: taken_iff wait_seconds_of_def fits_def bind_eq_Some_conv split: option.splits if_splits dest: jget_given)

lemma skill_load_fits: "taken (skill_load_of call) \<Longrightarrow> fits SKILL_LOAD_ARGUMENTS [py ''skill''] call"
  by (auto simp: taken_iff skill_load_of_def fits_def split: option.splits if_splits dest: nonblank_given)

lemma skill_propose_fits: "taken (skill_propose_of call) \<Longrightarrow> fits SKILL_PROPOSE_ARGUMENTS [py ''files''] call"
  by (auto simp: taken_iff skill_propose_of_def fits_def split: option.splits json.splits if_splits dest: jget_given)

lemma memory_fits: "taken (memory_body_of call) \<Longrightarrow> fits MEMORY_REMEMBER_ARGUMENTS [py ''body''] call"
  by (auto simp: taken_iff memory_body_of_def fits_def split: option.splits if_splits dest: nonblank_given)

lemma search_fits: "taken (session_search_of call) \<Longrightarrow> fits SESSION_SEARCH_ARGUMENTS [py ''query''] call"
  by (auto simp: taken_iff session_search_of_def fits_def split: option.splits if_splits dest: nonblank_given)

lemma delegate_fits: "taken (delegation_of call) \<Longrightarrow> fits AGENT_DELEGATE_ARGUMENTS [py ''children''] call"
  by (auto simp: taken_iff delegation_of_def fits_def split: option.splits json.splits if_splits dest: jget_given)

lemma artifact_fits: "taken (artifact_read_of call) \<Longrightarrow> fits ARTIFACT_READ_ARGUMENTS [py ''artifact_id''] call"
  by (auto simp: taken_iff artifact_read_of_def fits_def split: option.splits dest: nonblank_given)

lemma site_fits: "taken (site_publish_of call) \<Longrightarrow> fits SITE_PUBLISH_ARGUMENTS [] call"
  by (auto simp: taken_iff site_publish_of_def fits_def)

lemma send_fits: "taken (file_send_of nfc call) \<Longrightarrow> fits [py ''path''] [py ''path''] call"
  by (auto simp: taken_iff file_send_of_def fits_def split: option.splits dest: jget_given)

lemma todo_fits: "taken (todos_of prn call) \<Longrightarrow> py ''items'' \<in> fst ` set (tc_arguments call)"
  by (auto simp: taken_iff todos_of_def split: option.splits dest: jget_given)

lemma shell_fits: "taken (shell_command prn call) \<Longrightarrow> fits SHELL_EXEC_ARGUMENTS [py ''command''] call"
  by (auto simp: taken_iff shell_command_def Let_def fits_def extra_keys_Nil[symmetric] split: option.splits if_splits
      dest: nonblank_given)

lemma file_allowed:
  "file_tool_command nfc prn allowed call = Inr c \<Longrightarrow> fst ` set (tc_arguments call) \<subseteq> set allowed"
  by (auto simp: file_tool_command_def Let_def extra_keys_Nil[symmetric] split: if_splits)

lemma file_read_needs:
  "file_tool_command nfc prn allowed call = Inr c \<Longrightarrow> tc_name call = py ''file.read'' \<Longrightarrow>
   py ''path'' \<in> fst ` set (tc_arguments call)"
  by (auto simp: file_tool_command_def Let_def safe_path_of_Inr split: if_splits dest: jget_given)

lemma file_write_needs:
  "file_tool_command nfc prn allowed call = Inr c \<Longrightarrow> tc_name call = py ''file.write'' \<Longrightarrow>
   {py ''path'', py ''content''} \<subseteq> fst ` set (tc_arguments call)"
  by (auto simp: file_tool_command_def Let_def safe_path_of_Inr write_body_Inr split: if_splits dest: jget_given)

lemma authorize_cases:
  assumes "taken (authorize nfc prn bound call)"
  shows "tc_name call = py ''shell.exec'' \<and> taken (shell_command prn call) \<or>
    (\<exists>allowed c. map_of FILE_ARGUMENTS (tc_name call) = Some allowed \<and> file_tool_command nfc prn allowed call = Inr c)"
proof -
  have "tc_name call \<in> set IMPLEMENTED_TOOLS" "tc_name call \<notin> set PLATFORM_TOOLS"
    using assms by (auto simp: taken_iff authorize_def Let_def split: if_splits)
  then have "tc_name call = py ''shell.exec'' \<or> map_of FILE_ARGUMENTS (tc_name call) \<noteq> None"
    using sandbox_tools by fastforce
  then show ?thesis using assms
    by (auto simp: taken_iff authorize_def Let_def split: if_splits option.splits)
qed

lemma schema_of_simps:
  "schema_of (py ''shell.exec'') = [SHELL_EXEC_SCHEMA]" "schema_of (py ''platform.wait'') = [PLATFORM_WAIT_SCHEMA]"
  "schema_of (py ''skill.load'') = [SKILL_LOAD_SCHEMA]" "schema_of (py ''skill.propose'') = [SKILL_PROPOSE_SCHEMA]"
  "schema_of (py ''memory.remember'') = [MEMORY_REMEMBER_SCHEMA]"
  "schema_of (py ''session.search'') = [SESSION_SEARCH_SCHEMA]"
  "schema_of (py ''agent.delegate'') = [AGENT_DELEGATE_SCHEMA]" "schema_of (py ''artifact.read'') = [ARTIFACT_READ_SCHEMA]"
  "schema_of (py ''todo.write'') = [TODO_WRITE_SCHEMA]" "schema_of (py ''site.publish'') = [SITE_PUBLISH_SCHEMA]"
  "schema_of (py ''file.send'') = [FILE_SEND_SCHEMA]"
  "map_of FILE_SCHEMAS (py ''file.read'') = Some s \<Longrightarrow> schema_of (py ''file.read'') = [s]"
  "map_of FILE_SCHEMAS (py ''file.write'') = Some s \<Longrightarrow> schema_of (py ''file.write'') = [s]"
  "map_of FILE_SCHEMAS (py ''file.list'') = Some s \<Longrightarrow> schema_of (py ''file.list'') = [s]"
  by (simp_all add: schema_of_def)

lemma sandbox_fits:
  assumes "taken (authorize nfc prn bound call)"
  shows "\<exists>s arguments needed. schema_of (tc_name call) = [s] \<and> says s (tc_name call) arguments needed \<and>
    fits arguments needed call"
  using authorize_cases[OF assms]
proof (elim disjE conjE exE)
  assume "tc_name call = py ''shell.exec''" "taken (shell_command prn call)"
  then show ?thesis using says_shell_exec shell_fits schema_of_simps(1) by metis
next
  fix allowed c
  assume *: "map_of FILE_ARGUMENTS (tc_name call) = Some allowed" "file_tool_command nfc prn allowed call = Inr c"
  then have "tc_name call \<in> fst ` set FILE_ARGUMENTS" by (metis image_eqI map_of_SomeD fst_conv)
  then consider "tc_name call = py ''file.read''" | "tc_name call = py ''file.write''" | "tc_name call = py ''file.list''"
    by (auto simp: FILE_ARGUMENTS_def)
  then show ?thesis
  proof cases
    case 1
    then have "allowed = [py ''path'']" "py ''path'' \<in> fst ` set (tc_arguments call)"
      using * file_read_needs[OF *(2)] by simp_all
    then have "fits [py ''path''] [py ''path''] call"
      using file_allowed[OF *(2)] unfolding fits_def by simp
    then show ?thesis using 1 says_file(1) schema_of_simps(12) by metis
  next
    case 2
    then have "allowed = [py ''path'', py ''content'']" using *(1) by simp
    then have "fits [py ''path'', py ''content''] [py ''path'', py ''content''] call"
      using file_allowed[OF *(2)] file_write_needs[OF *(2) 2] unfolding fits_def by simp
    then show ?thesis using 2 says_file(2) schema_of_simps(13) by metis
  next
    case 3
    then have "fits [py ''path'', py ''offset'', py ''limit''] [] call"
      using * file_allowed[OF *(2)] by (auto simp: fits_def)
    then show ?thesis using 3 says_file(3) schema_of_simps(14) by metis
  qed
qed

lemma platform_fits:
  assumes "accepted nfc prn bound call" "tc_name call \<noteq> py ''todo.write''"
  shows "\<exists>s arguments needed. schema_of (tc_name call) = [s] \<and> says s (tc_name call) arguments needed \<and>
    fits arguments needed call"
proof (cases "taken (authorize nfc prn bound call)")
  case False
  with assms consider
      "tc_name call = py ''platform.wait''" "taken (wait_seconds_of call)"
    | "tc_name call = py ''skill.load''" "taken (skill_load_of call)"
    | "tc_name call = py ''skill.propose''" "taken (skill_propose_of call)"
    | "tc_name call = py ''memory.remember''" "taken (memory_body_of call)"
    | "tc_name call = py ''session.search''" "taken (session_search_of call)"
    | "tc_name call = py ''agent.delegate''" "taken (delegation_of call)"
    | "tc_name call = py ''artifact.read''" "taken (artifact_read_of call)"
    | "tc_name call = py ''site.publish''" "taken (site_publish_of call)"
    | "tc_name call = py ''file.send''" "taken (file_send_of nfc call)"
    by (simp only: accepted_def Let_def split: if_splits)
  then show ?thesis
    by cases (metis schema_of_simps says_all wait_fits skill_load_fits skill_propose_fits memory_fits search_fits
        delegate_fits artifact_fits site_fits send_fits)+
qed (rule sandbox_fits)



text \<open>The exception is real: \<open>todo.write\<close> takes a call with an argument its schema forbids.\<close>

lemma todo_write_takes_extra:
  "\<exists>call. tc_name call = py ''todo.write'' \<and> accepted nfc prn bound call \<and>
     \<not> fst ` set (tc_arguments call) \<subseteq> set (offered TODO_WRITE_SCHEMA)"
proof (intro exI conjI)
  let ?call = "\<lparr>tc_call_id = py ''c1'', tc_name = py ''todo.write'',
    tc_arguments = [(py ''items'', JList []), (py ''note'', JNull)]\<rparr> :: ToolCallBlock"
  show "tc_name ?call = py ''todo.write''" by simp
  show "accepted nfc prn bound ?call" by (simp add: accepted_def todos_of_def taken_def)
  have "set (offered TODO_WRITE_SCHEMA) = {py ''items''}" using says_todo_write by (simp add: says_def)
  then show "\<not> fst ` set (tc_arguments ?call) \<subseteq> set (offered TODO_WRITE_SCHEMA)" by simp
qed

end
