(* ===== verification/Agent_Tools.thy ===== *)
theory Agent_Tools
  imports Http_Tools Tool_Schemas
begin

text \<open>
  What an Agent is told it has and how a call leaves the platform:
  \<open>schemas_for_agent\<close> in \<^verbatim>\<open>tools/domain/registry.py\<close>, the versions an Agent may bind in
  \<^verbatim>\<open>agents/infrastructure/http_tool_bindings.py\<close>, the sender in
  \<^verbatim>\<open>runs/infrastructure/http_tool_sender.py\<close> with
  \<^verbatim>\<open>runs/infrastructure/credential_echo.py\<close>, and what an MCP server advertises in
  \<^verbatim>\<open>tools/domain/mcp.py\<close>. The client the sender is given, and the resolver of a credential,
  are the arguments \<open>request\<close> and \<open>resolve\<close>; \<open>digest\<close> is SHA-256,
  \<open>other\<close> reads JSON bytes that are not UTF-8 and \<open>fl\<close> the text of a float.
\<close>

definition schemas_for_agent :: "pystr list \<Rightarrow> BoundOperation list \<Rightarrow> json list" where
  "schemas_for_agent bound operations = schemas_for bound @ schemas_for_operations operations"

section \<open>What an Agent may bind\<close>

record HttpToolBindingView =
  bv_http_tool_id :: nat
  bv_version_id :: nat
  bv_tool_name :: pystr
  bv_host :: pystr
  bv_operation_ids :: "pystr list"
  bv_write_operation_ids :: "pystr list"
  bv_active :: bool

definition stored_operations :: "HttpToolVersionRow \<Rightarrow> Operation list" where
  "stored_operations v = List.map_filter operation_from_document (hv_operations v)"

definition binding_view :: "(pystr \<Rightarrow> pystr) \<Rightarrow> (pystr \<Rightarrow> pystr) \<Rightarrow> nat \<Rightarrow> HttpToolDb \<Rightarrow> nat \<Rightarrow> HttpToolBindingView option" where
  "binding_view nfkc low ws db i =
     (case binding_row db i of
        None \<Rightarrow> None
      | Some (v, t) \<Rightarrow>
          (if ht_workspace_id t \<noteq> ws then None
           else
             (case Option.bind (urlsplit nfkc (ht_base_url t)) (hostname low) of
                None \<Rightarrow> None
              | Some host \<Rightarrow>
                  Some \<lparr>bv_http_tool_id = ht_id t, bv_version_id = hv_id v, bv_tool_name = ht_name t, bv_host = host,
                        bv_operation_ids = map op_operation_id (stored_operations v),
                        bv_write_operation_ids = map op_operation_id (filter (\<lambda>op. \<not> read_only op) (stored_operations v)),
                        bv_active = bindable v\<rparr>)))"

text \<open>\<open>dict.fromkeys\<close> keeps the first of several equal ids.\<close>

definition visible_versions ::
  "(pystr \<Rightarrow> pystr) \<Rightarrow> (pystr \<Rightarrow> pystr) \<Rightarrow> nat \<Rightarrow> nat list \<Rightarrow> HttpToolDb \<Rightarrow> HttpToolBindingView list" where
  "visible_versions nfkc low ws ids db = List.map_filter (binding_view nfkc low ws db) (rev (remdups (rev ids)))"

section \<open>Sending\<close>

text \<open>\<open>bytes.decode("utf-8", errors="replace")\<close>: one replacement character for every longest part of a
  character that is cut short.\<close>

definition second_byte :: "nat \<Rightarrow> nat \<Rightarrow> bool" where
  "second_byte a b \<longleftrightarrow>
     (if a = 224 then 160 \<le> b \<and> b < 192
      else if a = 237 then 128 \<le> b \<and> b < 160
      else if a = 240 then 144 \<le> b \<and> b < 192
      else if a = 244 then 128 \<le> b \<and> b < 144
      else continuation b)"

fun decode_replace :: "nat list \<Rightarrow> pystr" where
  "decode_replace [] = []"
| "decode_replace (a # r) =
     (if a < 128 then a # decode_replace r
      else if 194 \<le> a \<and> a < 224 then
        (case r of
           b # r' \<Rightarrow>
             (if continuation b then ((a - 192) * 64 + (b - 128)) # decode_replace r' else 65533 # decode_replace r)
         | [] \<Rightarrow> [65533])
      else if 224 \<le> a \<and> a < 240 then
        (case r of
           b # r' \<Rightarrow>
             (if \<not> second_byte a b then 65533 # decode_replace r
              else (case r' of
                      c # r'' \<Rightarrow>
                        (if continuation c
                         then ((a - 224) * 4096 + (b - 128) * 64 + (c - 128)) # decode_replace r''
                         else 65533 # decode_replace r')
                    | [] \<Rightarrow> [65533]))
         | [] \<Rightarrow> [65533])
      else if 240 \<le> a \<and> a < 245 then
        (case r of
           b # r' \<Rightarrow>
             (if \<not> second_byte a b then 65533 # decode_replace r
              else (case r' of
                      c # r'' \<Rightarrow>
                        (if \<not> continuation c then 65533 # decode_replace r'
                         else (case r'' of
                                 d # r3 \<Rightarrow>
                                   (if continuation d
                                    then ((a - 240) * 262144 + (b - 128) * 4096 + (c - 128) * 64 + (d - 128))
                                         # decode_replace r3
                                    else 65533 # decode_replace r'')
                               | [] \<Rightarrow> [65533]))
                    | [] \<Rightarrow> [65533]))
         | [] \<Rightarrow> [65533])
      else 65533 # decode_replace r)"

datatype ClientOutcome =
    OutboundRefused pystr
  | OutboundTooManyRedirects
  | OutboundTooLarge
  | OutboundUnreachable
  | Responded int "nat list"

record HttpToolAnswer =
  ha_status_code :: "int option"
  ha_body :: pystr
  ha_refusal :: "pystr option"

definition failed :: "HttpToolAnswer \<Rightarrow> bool" where
  "failed a \<longleftrightarrow> ha_refusal a \<noteq> None \<or> (case ha_status_code a of Some code \<Rightarrow> 400 \<le> code | None \<Rightarrow> False)"

definition refused_answer :: "pystr \<Rightarrow> HttpToolAnswer" where
  "refused_answer reason = \<lparr>ha_status_code = None, ha_body = [], ha_refusal = Some reason\<rparr>"

fun put_header :: "(pystr \<times> pystr) list \<Rightarrow> pystr \<Rightarrow> pystr \<Rightarrow> (pystr \<times> pystr) list" where
  "put_header [] k v = [(k, v)]"
| "put_header ((k', v') # hs) k v = (if k' = k then (k, v) # hs else (k', v') # put_header hs k v)"

definition answer_of :: "pystr option \<Rightarrow> ClientOutcome \<Rightarrow> HttpToolAnswer" where
  "answer_of token outcome =
     (case outcome of
        OutboundRefused reason \<Rightarrow> refused_answer reason
      | OutboundTooManyRedirects \<Rightarrow> refused_answer (py ''too_many_redirects'')
      | OutboundTooLarge \<Rightarrow> refused_answer (py ''response_too_large'')
      | OutboundUnreachable \<Rightarrow> refused_answer (py ''endpoint_unreachable'')
      | Responded code body \<Rightarrow>
          (if length body > MAX_RESPONSE_BYTES
           then \<lparr>ha_status_code = Some code, ha_body = [], ha_refusal = Some (py ''response_too_large'')\<rparr>
           else \<lparr>ha_status_code = Some code, ha_body = without_credential (decode_replace body) token, ha_refusal = None\<rparr>))"

definition send ::
  "(pystr \<Rightarrow> pystr option) \<Rightarrow> (pystr \<Rightarrow> pystr \<Rightarrow> nat list option \<Rightarrow> (pystr \<times> pystr) list \<Rightarrow> ClientOutcome)
   \<Rightarrow> HttpRequestPlan \<Rightarrow> pystr option \<Rightarrow> HttpToolAnswer" where
  "send resolve request plan credential_ref =
     (case credential_ref of
        None \<Rightarrow> answer_of None (request (hp_method plan) (hp_url plan) (hp_body plan) (hp_headers plan))
      | Some ref \<Rightarrow>
          (case resolve ref of
             None \<Rightarrow> refused_answer (py ''credential_unavailable'')
           | Some token \<Rightarrow>
               answer_of (Some token)
                 (request (hp_method plan) (hp_url plan) (hp_body plan)
                    (put_header (hp_headers plan) (py ''Authorization'') (py ''Bearer '' @ token)))))"

section \<open>MCP servers\<close>

definition MCP_PREFIX :: pystr where "MCP_PREFIX = py ''mcp''"
definition MAX_CAPABILITY_BYTES :: nat where "MAX_CAPABILITY_BYTES = 1024 * 1024"
definition MAX_TOOLS :: nat where "MAX_TOOLS = 128"
definition MCP_NAME_MAX_LENGTH :: nat where "MCP_NAME_MAX_LENGTH = 128"

datatype McpError =
    CapabilityTooLarge nat
  | CapabilityNotJson
  | CapabilityNotObject
  | NoToolsArray
  | TooManyTools nat
  | ToolNotObject
  | AdvertisedTwice pystr
  | ToolHasNoName
  | NameTooLong pystr
  | DescriptionNotText pystr
  | InputSchemaNotObject pystr
  | McpEncodeError

record McpTool =
  mt_name :: pystr
  mt_description :: "pystr option"
  mt_input_schema :: jobject

definition mcp_tool_hash :: "(nat list \<Rightarrow> pystr) \<Rightarrow> McpTool \<Rightarrow> pystr option" where
  "mcp_tool_hash digest tool =
     map_option digest
       (utf8 (json_dumps (JDict [(py ''name'', JStr (mt_name tool)), (py ''description'', opt_str (mt_description tool)),
                                 (py ''input_schema'', JDict (mt_input_schema tool))])))"

record McpCapabilities =
  mc_tools :: "McpTool list"
  mc_content_hash :: pystr

definition mcp_tool_named :: "McpCapabilities \<Rightarrow> pystr \<Rightarrow> McpTool option" where
  "mcp_tool_named capabilities name = find (\<lambda>item. mt_name item = name) (mc_tools capabilities)"

text \<open>\<open>entry.get("inputSchema", entry.get("input_schema"))\<close>: a null under the first key hides the second.\<close>

definition mcp_tool_of :: "jobject \<Rightarrow> (McpError, McpTool) result" where
  "mcp_tool_of entry =
     (case jget entry (py ''name'') of
        Some (JStr name) \<Rightarrow>
          (if py_strip name = [] then Inl ToolHasNoName
           else if length name > MCP_NAME_MAX_LENGTH then Inl (NameTooLong (take 32 name))
           else
             (let description = jget_or entry (py ''description'') JNull;
                  schema = jget_or entry (py ''inputSchema'') (jget_or entry (py ''input_schema'') JNull)
              in case (case description of JNull \<Rightarrow> Some None | JStr d \<Rightarrow> Some (Some d) | _ \<Rightarrow> None) of
                   None \<Rightarrow> Inl (DescriptionNotText name)
                 | Some d \<Rightarrow>
                     (case schema of
                        JNull \<Rightarrow>
                          Inr \<lparr>mt_name = name, mt_description = d,
                               mt_input_schema = [(py ''type'', JStr (py ''object'')), (py ''properties'', JDict [])]\<rparr>
                      | JDict s \<Rightarrow> Inr \<lparr>mt_name = name, mt_description = d, mt_input_schema = s\<rparr>
                      | _ \<Rightarrow> Inl (InputSchemaNotObject name))))
      | _ \<Rightarrow> Inl ToolHasNoName)"

fun mcp_tools_of :: "McpTool list \<Rightarrow> json list \<Rightarrow> (McpError, McpTool list) result" where
  "mcp_tools_of found [] = Inr found"
| "mcp_tools_of found (entry # rest) =
     (case entry of
        JDict d \<Rightarrow>
          bind_res (mcp_tool_of d)
            (\<lambda>tool. if mt_name tool \<in> set (map mt_name found) then Inl (AdvertisedTwice (mt_name tool))
                    else mcp_tools_of (found @ [tool]) rest)
      | _ \<Rightarrow> Inl ToolNotObject)"

definition mcp_hash :: "(nat list \<Rightarrow> pystr) \<Rightarrow> McpTool list \<Rightarrow> pystr option" where
  "mcp_hash digest tools =
     Option.bind (all_some (map (mcp_tool_hash digest) tools))
       (\<lambda>hashes. map_option digest
          (utf8 (py ''['' @ py_join (py '','') (map json_ascii_string hashes) @ py '']'')))"

definition listed_tools :: "jobject \<Rightarrow> json" where
  "listed_tools body =
     (case jget_or body (py ''tools'') JNull of
        JNull \<Rightarrow> (case jget body (py ''result'') of Some (JDict r) \<Rightarrow> jget_or r (py ''tools'') JNull | _ \<Rightarrow> JNull)
      | v \<Rightarrow> v)"

text \<open>The payload as bytes; one that is text is encoded first.\<close>

definition parse_capabilities ::
  "(nat list \<Rightarrow> pystr option) \<Rightarrow> (pystr \<Rightarrow> pyfloat) \<Rightarrow> (nat list \<Rightarrow> pystr) \<Rightarrow> nat list \<Rightarrow> (McpError, McpCapabilities) result" where
  "parse_capabilities other fl digest raw =
     (if length raw > MAX_CAPABILITY_BYTES then Inl (CapabilityTooLarge (length raw))
      else
        (case json_loads_bytes other fl raw of
           None \<Rightarrow> Inl CapabilityNotJson
         | Some (JDict body) \<Rightarrow>
             (case listed_tools body of
                JList entries \<Rightarrow>
                  (if length entries > MAX_TOOLS then Inl (TooManyTools (length entries))
                   else
                     bind_res (mcp_tools_of [] entries)
                       (\<lambda>tools.
                          let ordered = sort_key mt_name tools
                          in case mcp_hash digest ordered of
                               None \<Rightarrow> Inl McpEncodeError
                             | Some h \<Rightarrow> Inr \<lparr>mc_tools = ordered, mc_content_hash = h\<rparr>))
              | _ \<Rightarrow> Inl NoToolsArray)
         | _ \<Rightarrow> Inl CapabilityNotObject))"

definition bound_tools :: "McpCapabilities \<Rightarrow> pystr list \<Rightarrow> McpTool list" where
  "bound_tools capabilities names = List.map_filter (mcp_tool_named capabilities) names"

definition mcp_call_name :: "pystr \<Rightarrow> pystr \<Rightarrow> pystr" where
  "mcp_call_name server tool = MCP_PREFIX @ py ''.'' @ server @ py ''.'' @ tool"

definition schemas_for_tools :: "pystr \<Rightarrow> McpTool list \<Rightarrow> json list" where
  "schemas_for_tools server tools =
     map (\<lambda>tool. JDict
            [(py ''type'', JStr (py ''function'')),
             (py ''function'', JDict
                [(py ''name'', JStr (mcp_call_name server (mt_name tool))),
                 (py ''description'', JStr (case mt_description tool of
                    Some d \<Rightarrow> (if d = [] then mt_name tool else d) | None \<Rightarrow> mt_name tool)),
                 (py ''parameters'', JDict (mt_input_schema tool))])])
       tools"

definition mcp_estimated_tokens :: "pystr \<Rightarrow> McpTool list \<Rightarrow> nat" where
  "mcp_estimated_tokens server tools =
     estimated_tokens_of
       (map (\<lambda>tool. JDict
               [(py ''name'', JStr (mcp_call_name server (mt_name tool))), (py ''description'', opt_str (mt_description tool)),
                (py ''schema'', JDict (mt_input_schema tool))])
          tools)"

record SchemaBudget =
  sb_estimate :: int
  sb_allowance :: int

definition fits_budget :: "SchemaBudget \<Rightarrow> bool" where
  "fits_budget b \<longleftrightarrow> sb_estimate b \<le> sb_allowance b"

definition fits_schema_budget :: "int \<Rightarrow> int \<Rightarrow> SchemaBudget" where
  "fits_schema_budget estimate allowance = \<lparr>sb_estimate = estimate, sb_allowance = allowance\<rparr>"

section \<open>No credential comes back\<close>

lemma py_contains_sublist: "py_contains s p \<longleftrightarrow> sublist p s"
proof (induction s)
  case (Cons c cs)
  have "sublist p (c # cs) \<longleftrightarrow> prefix p (c # cs) \<or> sublist p cs" by (cases p) (auto simp: sublist_Cons_right)
  with Cons show ?case by (simp add: py_startswith_prefix)
qed (auto simp: sublist_def)

lemma sublist_cut: "c \<notin> set t \<Longrightarrow> sublist t (a @ c # b) \<Longrightarrow> sublist t a \<or> sublist t b"
proof (induction a)
  case Nil
  then show ?case by (cases t) (auto simp: sublist_Cons_right)
next
  case (Cons x a)
  then consider "prefix t (x # a @ c # b)" | "sublist t (a @ c # b)" by (auto simp: sublist_Cons_right)
  then show ?case
  proof cases
    case 1
    then have "prefix t ((x # a) @ [c] @ b)" by simp
    with Cons.prems(1) have "prefix t (x # a)"
      by (auto simp: prefix_append prefix_Cons append_eq_Cons_conv)
    then show ?thesis by (auto intro: prefix_imp_sublist)
  next
    case 2
    with Cons show ?thesis by (auto simp: sublist_Cons_right)
  qed
qed

lemma replace_from_drop: "replace_from k old new s = replace_from 0 old new (drop k s)"
proof (induction k old new s rule: replace_from.induct)
  case (2 k old new c cs)
  then show ?case by simp
qed simp_all

text \<open>What a replacement that starts with a character of its own leaves is a prefix of what was there.\<close>

lemma prefix_replace: "c \<notin> set t \<Longrightarrow> prefix t (replace_from 0 old (c # new) s) \<Longrightarrow> prefix t s"
proof (induction s arbitrary: t)
  case (Cons x xs)
  show ?case
  proof (cases "py_startswith (x # xs) old")
    case True
    with Cons.prems show ?thesis by (cases t) auto
  next
    case False
    with Cons.prems Cons.IH[of "tl t"] show ?thesis by (cases t) auto
  qed
qed simp

lemma scrubbed:
  assumes t: "t \<noteq> []" "91 \<notin> set t" "93 \<notin> set t" "\<not> py_contains REDACTED t"
  shows "\<not> sublist t (replace_from 0 t REDACTED s)"
proof (induction s rule: length_induct)
  case (1 s)
  define mid where "mid = py ''redacted credential''"
  have red: "REDACTED = 91 # mid @ [93]" by (simp add: REDACTED_def mid_def py_def)
  show ?case
  proof (cases s)
    case Nil
    with t(1) show ?thesis by simp
  next
    case (Cons x xs)
    show ?thesis
    proof (cases "py_startswith (x # xs) t")
      case True
      let ?rest = "replace_from 0 t REDACTED (drop (length t - 1) xs)"
      have out: "replace_from 0 t REDACTED s = [] @ 91 # mid @ 93 # ?rest"
        using True Cons replace_from_drop[of "length t - 1" t REDACTED xs] by (simp add: red)
      have "\<not> sublist t ?rest" using 1 Cons by simp
      moreover have "sublist mid REDACTED" unfolding red by (auto simp: sublist_Cons_right)
      then have "\<not> sublist t mid"
        using t(4) sublist_order.order_trans[of t mid REDACTED] unfolding py_contains_sublist by blast
      ultimately show ?thesis
        unfolding out using sublist_cut[OF t(2), of "[]" "mid @ 93 # ?rest"] sublist_cut[OF t(3), of mid ?rest] t(1) by auto
    next
      case False
      have "\<not> sublist t (replace_from 0 t REDACTED xs)" using 1 Cons by simp
      moreover have "\<not> prefix t (x # replace_from 0 t REDACTED xs)"
      proof
        assume "prefix t (x # replace_from 0 t REDACTED xs)"
        then have "prefix (tl t) xs" "hd t = x"
          using t(1,2) prefix_replace[of 91 "tl t" t "mid @ [93]" xs] by (cases t; simp add: red)+
        with False t(1) show False by (cases t) (simp_all add: py_startswith_prefix)
      qed
      ultimately show ?thesis using False Cons by (simp add: sublist_Cons_right)
    qed
  qed
qed

lemma without_credential_scrubs:
  "t \<noteq> [] \<Longrightarrow> 91 \<notin> set t \<Longrightarrow> 93 \<notin> set t \<Longrightarrow> \<not> py_contains REDACTED t \<Longrightarrow>
   \<not> py_contains (without_credential body (Some t)) t"
  using scrubbed[of t body] by (simp add: without_credential_def py_replace_def py_contains_sublist)

section \<open>What is told and what is taken\<close>

lemma keys_dict_put: "set (map fst (dict_put d k v)) = insert k (set (map fst d))"
  by (induction d k v rule: dict_put.induct) auto

lemma keys_dict_puts:
  "set (map fst (foldl (\<lambda>d p. dict_put d (pa_name p) (f p)) d ps)) = set (map fst d) \<union> pa_name ` set ps"
  by (induction ps arbitrary: d) (simp_all add: keys_dict_put del: set_map)

lemma operation_properties_keys:
  "set (map fst (operation_properties op)) =
     pa_name ` set (op_parameters op) \<union> (if op_body_schema op = None then {} else {py ''body''})"
  unfolding operation_properties_def Let_def
  by (cases "op_body_schema op") (simp_all add: keys_dict_put keys_dict_puts del: set_map)

lemma operation_schema_told:
  "schema_name (operation_schema entry) = JStr (call_name entry)"
  "offered (operation_schema entry) = map fst (operation_properties (bo_operation entry))"
  "required (operation_schema entry) = map JStr (operation_required (bo_operation entry))"
  by (simp_all add: operation_schema_def schema_part_def schema_parameters_def schema_name_def offered_def required_def
      jget_or_def py_def)

lemma placed_not_unbound: "placed op arguments path query \<noteq> Inl (HttpCallRefused (py ''tool_not_authorized'') n)"
proof (induction op arguments path query rule: placed.induct)
  case (2 op name v rest path query)
  have "rendered name v \<noteq> Inl (HttpCallRefused (py ''tool_not_authorized'') n)"
    by (cases v) (auto simp: py_def)
  with 2 show ?case by (cases "rendered name v") (auto split: option.splits)
qed simp

text \<open>The names the model is told and the names that are taken are the same.\<close>

lemma told_iff_authorized:
  "JStr (tc_name call) \<in> schema_name ` set (schemas_for_operations bound) \<longleftrightarrow>
   (\<forall>n. http_call_of nfkc call bound \<noteq> Inl (HttpCallRefused (py ''tool_not_authorized'') n))"
proof (cases "find (\<lambda>item. call_name item = tc_name call) bound")
  case None
  then have "http_call_of nfkc call bound = Inl (HttpCallRefused (py ''tool_not_authorized'') (tc_name call))"
    by (simp add: http_call_of_def)
  moreover have "JStr (tc_name call) \<notin> schema_name ` set (schemas_for_operations bound)"
    using None by (auto simp: schemas_for_operations_def operation_schema_told(1) find_None_iff)
  ultimately show ?thesis by blast
next
  case (Some entry)
  then have "entry \<in> set bound" "call_name entry = tc_name call" by (auto simp: find_Some_iff)
  then have "JStr (tc_name call) \<in> schema_name ` set (schemas_for_operations bound)"
    by (auto simp: schemas_for_operations_def operation_schema_told(1) image_iff intro!: bexI[of _ entry])
  moreover have "http_call_of nfkc call bound \<noteq> Inl (HttpCallRefused (py ''tool_not_authorized'') n)" for n
    using Some placed_not_unbound
    by (auto simp: http_call_of_def Let_def bind_res_eq_Inl check_arguments_def check_body_def request_plan_def with_query_def
        request_bytes_def py_def split: if_splits option.splits)
  ultimately show ?thesis by blast
qed

lemma mcp_tools_distinct:
  "mcp_tools_of found entries = Inr tools \<Longrightarrow> distinct (map mt_name found) \<Longrightarrow>
   distinct (map mt_name tools) \<and> length tools = length found + length entries"
proof (induction found entries rule: mcp_tools_of.induct)
  case (2 found entry rest)
  then show ?case by (cases entry) (auto simp: bind_res_eq_Inr split: if_splits)
qed simp

text \<open>What a server advertises is kept under distinct names, in order, and a binding reaches the named tools only.\<close>

lemma parsed_capabilities:
  assumes "parse_capabilities other fl digest raw = Inr c"
  shows "distinct (map mt_name (mc_tools c))" "sorted (map mt_name (mc_tools c))" "length (mc_tools c) \<le> MAX_TOOLS"
proof -
  obtain entries tools where t: "mcp_tools_of [] entries = Inr tools" "length entries \<le> MAX_TOOLS"
    "mc_tools c = sort_key mt_name tools"
    using assms by (auto simp: parse_capabilities_def bind_res_eq_Inr Let_def split: if_splits option.splits json.splits)
  with mcp_tools_distinct[OF t(1)] show "distinct (map mt_name (mc_tools c))" "sorted (map mt_name (mc_tools c))"
    "length (mc_tools c) \<le> MAX_TOOLS"
    by (auto simp: distinct_map)
qed

lemma bound_tools_named: "mt_name ` set (bound_tools c names) \<subseteq> set names \<inter> mt_name ` set (mc_tools c)"
proof
  fix n
  assume "n \<in> mt_name ` set (bound_tools c names)"
  then obtain m tool where "m \<in> set names" "mcp_tool_named c m = Some tool" "n = mt_name tool"
    by (auto simp: bound_tools_def map_filter_def)
  then show "n \<in> set names \<inter> mt_name ` set (mc_tools c)" by (auto simp: mcp_tool_named_def find_Some_iff)
qed

section \<open>Properties\<close>



end
