(* ===== verification/Spec2Isabelle.thy ===== *)
theory Spec2Isabelle
  imports Slice_Policy Context_Plan Store_Recovery Scope_Directory Agent_Tools
begin

text \<open>
  \<^bold>\<open>A verification development for tiny-hermes.\<close>

  tiny-hermes runs agents. A \<^emph>\<open>Run\<close> is one piece of work of an agent: it is queued,
  leased by a Worker, advanced one model round at a time, paused, made to wait, and ended. The
  backend is \<^verbatim>\<open>src/packages/backend/src/tiny_hermes\<close>; all paths below are under it.
  The development models the decisions of that backend as HOL functions that compute.

  \<^bold>\<open>The parts and how they interact.\<close> The \<^emph>\<open>store\<close> holds Sessions, each a
  queue of Runs, and hands the Run at the head of one to a Worker under a lease. The Worker asks the
  \<^emph>\<open>context planner\<close> what a round may send, calls the model, and runs the tools the
  model asked for: the \<^emph>\<open>tool registry\<close> turns a call into a command of the sandbox or
  refuses it, a call of an \<^emph>\<open>HTTP tool\<close> becomes a request, and some calls need an
  \<^emph>\<open>approval\<close>. What leaves the platform passes the \<^emph>\<open>egress proxy\<close>, which
  measures it against the \<^emph>\<open>outbound scopes\<close>. The \<^emph>\<open>goal judge\<close> decides
  whether the goal is met, the \<^emph>\<open>slice policy\<close> turns everything observed into one signal,
  and the \<^emph>\<open>state machine\<close> is the only code that chooses a change of state; the store
  writes what it chose and hands the Session on. The \<^emph>\<open>Scheduler\<close> takes back expired
  leases, wakes waits and repairs heads. What was in flight when a Worker is lost is turned into turns
  of the \<^emph>\<open>transcript\<close> by the \<^emph>\<open>interruption\<close> rules. A Run may delegate to
  children within a \<^emph>\<open>scope\<close>, and a tree of Runs shares a \<^emph>\<open>budget\<close>.

  \<^bold>\<open>Python.\<close>

  \<^item> \<open>Prelude\<close>: results of fallible functions and their composition, generic lemmas.
    \<open>Py_Values\<close>: strings as lists of code points, JSON documents, \<open>repr\<close>, integers,
    doubles and times. \<open>Py_Float\<close>: rounding of products. \<open>Py_Text\<close>: the methods of
    \<open>str\<close>, and UTF-8 with its order and its inverse. \<open>Py_Json\<close>:
    \<open>json.dumps\<close> and \<open>json.loads\<close>, with the fact that what was written reads back.
    \<open>Py_Uuid\<close>: UUIDs and their text. \<open>Py_Net\<close>: addresses as words, networks,
    \<open>urlsplit\<close>. \<open>Py_Url\<close>: \<open>replace\<close>, percent encoding, the fact that a
    replacement works on each segment by itself, and that a URL put together from the parts of another
    is read back with its scheme and host. \<open>Tables\<close>: reads and writes of tables as lists of
    rows; the locale \<open>table_key\<close> is what a write that keeps the key does to a read by it.

  \<^bold>\<open>Runs.\<close>

  \<^item> \<open>Run_Models\<close>, \<open>Run_Messages\<close>: \<^verbatim>\<open>runs/domain/models.py\<close>, with the
    round trip of a message and the rows that raise. \<open>Run_State_Machine\<close>:
    \<^verbatim>\<open>runs/domain/state_machine.py\<close>: exactly what is accepted, that accepted decisions are
    well formed, that what is offered is accepted, that every Run can end.
  \<^item> \<open>Goal_Judge\<close>, \<open>Slice_Policy\<close>, \<open>Interruption\<close>, \<open>Approval_Rules\<close>:
    \<^verbatim>\<open>runs/domain/goal.py\<close>, \<^verbatim>\<open>slice_policy.py\<close>, \<^verbatim>\<open>interruption.py\<close>,
    \<^verbatim>\<open>approval.py\<close> and \<^verbatim>\<open>approval_query.py\<close>: which decisions of a round the
    machine accepts, that every interrupted call is answered once and honestly, and what an approval
    covers.
  \<^item> \<open>Context_Budget\<close>, \<open>Context_Trim\<close>, \<open>Context_Summary\<close>,
    \<open>Context_Plan\<close>: \<^verbatim>\<open>runs/domain/context_budget.py\<close>. The locales
    \<open>block_editor\<close> and \<open>exact_editor\<close> state what rewriting a block may not change and
    that what it frees is what it says; the four editing passes are interpretations, and the
    properties of the plan (it fits, counted exactly; no result without its call; the request is sent)
    rest on them.
  \<^item> \<open>Pricing\<close>, \<open>Run_Budget\<close>, \<open>Delegation\<close>:
    \<^verbatim>\<open>model_catalog/domain/pricing.py\<close>, the budget row with its locale
    \<open>budget_write\<close>, interpreted by every write of it, and
    \<^verbatim>\<open>agents/domain/delegation.py\<close> with the locale \<open>narrowing\<close>: ceilings hold, the
    total is exact, a child is never offered more than its scope.

  \<^bold>\<open>The store\<close> (\<^verbatim>\<open>runs/infrastructure/sql_store.py\<close>, one transaction one step).

  \<^item> \<open>Run_Rows\<close>, \<open>Run_Snapshots\<close>, \<open>Run_Transitions\<close>, \<open>Run_Claims\<close>,
    \<open>Run_Intake\<close>, \<open>Run_Children\<close>, \<open>Run_Sweeps\<close>: tables, reads, signals into
    rows, claims and head repair, intake with idempotency, delegation, and the passes of
    \<^verbatim>\<open>runs/application/scheduler.py\<close>.
  \<^item> \<open>Session_Queue\<close>: the abstract queue and the locale \<open>fifo\<close>, what a first-in
    first-out queue promises; \<open>Store_Queue\<close>, \<open>Store_Moves\<close>: every transaction as moves
    of that queue, with the locale \<open>queue_op\<close> interpreted by every operation of a pass and the
    step relation of all transactions. \<open>Store_Invariants\<close>: the queue of every Session is right
    after any sequence of transactions and nobody overtakes. \<open>Store_Leases\<close>: a lost lease is
    fenced, claims keep the limits. \<open>Store_Requests\<close>: repeating a request changes nothing
    (locale \<open>keyed_create\<close>), what a retry creates. \<open>Store_Recovery\<close>: where recovery takes
    a Run, what a repair restores, and which row stops a whole pass (locale \<open>stuck_op\<close>).

  \<^bold>\<open>Tools and the outbound boundary.\<close>

  \<^item> \<open>Workspace_Manifest\<close>: \<^verbatim>\<open>session_workspace/domain\<close>: manifests are canonical, read
    back, and the projection of a write is exact.
  \<^item> \<open>Tool_Names\<close>, \<open>Tool_Calls\<close>, \<open>Tool_Schemas\<close>:
    \<^verbatim>\<open>tools/domain/registry.py\<close>, \<^verbatim>\<open>files.py\<close>, \<^verbatim>\<open>todo.py\<close>: what an authorized
    call is, and that the schemas and the readers agree.
  \<^item> \<open>Open_Api\<close>, \<open>Http_Calls\<close>, \<open>Http_Tools\<close>, \<open>Agent_Tools\<close>:
    \<^verbatim>\<open>tools/domain/openapi.py\<close>, \<^verbatim>\<open>http_calls.py\<close>, the catalog of
    \<^verbatim>\<open>http_tools\<close> with its step relation, the sender and \<^verbatim>\<open>tools/domain/mcp.py\<close>: the
    catalog keeps its invariant, a request stays on the operation and the host of its tool, and a
    credential does not come back to the model.
  \<^item> \<open>Outbound_Scope\<close>, \<open>Egress\<close>, \<open>Scope_Directory\<close>:
    \<^verbatim>\<open>outbound/domain\<close> and \<^verbatim>\<open>egress\<close>. The locale \<open>approval\<close> is what
    an intersection of scopes promises, met by hosts and by addresses; \<open>scope_directory\<close> and
    \<open>parsed_directory\<close> are the port of the directory, met by the one in memory and the one in
    SQL. The proxy connects only for a known caller and to what every layer approves.

  \<^bold>\<open>How state and effects are modelled.\<close> A frozen dataclass is a record, an enum a
  datatype, a function that raises returns \<open>Inl\<close> of the exception, and one that answers
  nothing \<open>None\<close>. A list a function mutates is threaded through its definition. A table is a
  list of rows; an operation that raises leaves the tables as they were, since its transaction is
  rolled back. Loops are recursion with a termination proof; the one bound is the depth of the JSON
  reader, the length of the text, which is enough because every level reads a character. Integers are
  unbounded, as in Python; addresses are words of 32 and 128 bits. A \<open>float\<close> the planner
  computes with is a dyadic number, and a product with an integer is the exact product rounded to 53
  bits; lengths and windows are assumed below \<open>2 ^ 50\<close> and \<open>2 ^ 53\<close> where that
  matters. Identity of objects (\<open>is\<close>) is identity of the place in the history.

  \<^bold>\<open>Parameters.\<close> Arguments of the definitions that use them: the Unicode tables
  (\<open>prn\<close>: which characters \<open>repr\<close> prints, \<open>low\<close> and \<open>up\<close>: case outside
  ASCII, \<open>nfc\<close>, \<open>nfkc\<close>: normal forms), the value of a float's text (\<open>fl\<close>), JSON
  bytes that are not UTF-8 (\<open>other\<close>), SHA-256 (\<open>digest\<close>), the classes of an address
  (\<open>cls\<close>), the resolver, the client and the credentials behind the boundary, fresh
  identifiers and the clock.

  \<^bold>\<open>What is not modelled.\<close> Locks and concurrency inside one transaction; the
  asynchronous Worker and run service around the modelled decisions; paged listings, search, memories
  and skills of the store; the routes, which are request and response schemas; the copying of bytes
  in the proxy; uploads and restores of saved workspaces; the packages that are clients of external
  systems (channels, sandboxes, the MCP gateway, artifacts, secrets, identity and others); the web
  applications, migrations and deployment. They are calls to databases, queues and network clients
  whose decisions are the functions above, or prose.
\<close>

end
